(* ===== verification/GoPrelude.thy ===== *)
theory GoPrelude
  imports Complex_Main "HOL-Library.Word"
begin

text \<open>
  The part of Go's language and standard library the components rest on: 64-bit integers and
  durations, instants, byte strings with the functions of package \<^verbatim>\<open>strings\<close>, decoded JSON values,
  the outcome of decoding a request body, and lists updated the way slices are.  The generic
  lemmas about them carry \<open>[simp]\<close> or sit in the collection \<open>go_simps\<close>.
\<close>

named_theorems go_simps

section \<open>Integers, durations, instants\<close>

text \<open>
  Go's \<^verbatim>\<open>int\<close>, \<^verbatim>\<open>int64\<close> and \<^verbatim>\<open>time.Duration\<close> are 64-bit two's complement.  They are modelled by
  \<open>int\<close>; \<open>wrap64\<close> is the wrap-around, written out where a sum can grow without a bound.
  Counters of type \<^verbatim>\<open>uint64\<close> are \<open>64 word\<close>.
\<close>

type_synonym uint64 = "64 word"
type_synonym duration = int
type_synonym time = int

definition wrap64 :: "int \<Rightarrow> int" where
  "wrap64 x = (x + 9223372036854775808) mod 18446744073709551616 - 9223372036854775808"

lemma wrap64_id [go_simps]:
  "- 9223372036854775808 \<le> x \<Longrightarrow> x < 9223372036854775808 \<Longrightarrow> wrap64 x = x"
  by (simp add: wrap64_def)

lemma wrap64_range: "- 9223372036854775808 \<le> wrap64 x \<and> wrap64 x < 9223372036854775808"
proof -
  have "0 \<le> (x + 9223372036854775808) mod 18446744073709551616"
    and "(x + 9223372036854775808) mod 18446744073709551616 < (18446744073709551616::int)"
    by simp_all
  then show ?thesis by (simp add: wrap64_def)
qed

lemma wrap64_over:
  assumes "9223372036854775808 \<le> x" "x < 27670116110564327424"
  shows "wrap64 x = x - 18446744073709551616"
proof -
  have "(x + 9223372036854775808) mod 18446744073709551616 =
      (x + 9223372036854775808 - 18446744073709551616) mod 18446744073709551616"
    by (rule minus_mod_self2 [symmetric])
  also have "\<dots> = x + 9223372036854775808 - 18446744073709551616"
    using assms by (intro mod_pos_pos_trivial) auto
  finally show ?thesis by (simp add: wrap64_def)
qed

text \<open>Go's integer division truncates towards zero.\<close>

definition quo :: "int \<Rightarrow> int \<Rightarrow> int" where
  "quo a b = sgn a * sgn b * (\<bar>a\<bar> div \<bar>b\<bar>)"

lemma quo_nonneg: "0 \<le> a \<Longrightarrow> 0 < b \<Longrightarrow> quo a b = a div b"
  by (cases "a = 0") (simp_all add: quo_def sgn_if)

lemma quo_ge_0: "0 \<le> a \<Longrightarrow> 0 \<le> b \<Longrightarrow> 0 \<le> quo a b"
  by (simp add: quo_def sgn_if pos_imp_zdiv_nonneg_iff)

definition Second :: duration where "Second = 1000000000"
definition Minute :: duration where "Minute = 60 * Second"

text \<open>
  An instant is its distance in nanoseconds from the zero value of \<^verbatim>\<open>time.Time\<close>, which is \<open>0\<close>.
  \<^verbatim>\<open>Sub\<close> saturates at the largest and the smallest duration.
\<close>

definition is_zero :: "time \<Rightarrow> bool" where
  "is_zero t \<longleftrightarrow> t = 0"

definition time_sub :: "time \<Rightarrow> time \<Rightarrow> duration" where
  "time_sub t u = max (- 9223372036854775808) (min 9223372036854775807 (t - u))"

lemma time_sub_nonneg: "u \<le> t \<Longrightarrow> 0 \<le> time_sub t u"
  by (simp add: time_sub_def)

lemma time_sub_self [simp]: "time_sub t t = 0"
  by (simp add: time_sub_def)

lemma time_sub_range:
  "- 9223372036854775808 \<le> time_sub t u \<and> time_sub t u < 9223372036854775808"
  by (simp add: time_sub_def)

lemma time_sub_gt: "d < 9223372036854775807 \<Longrightarrow> 0 \<le> d \<Longrightarrow> time_sub t u > d \<longleftrightarrow> t - u > d"
  by (auto simp: time_sub_def)

text \<open>
  A formatted instant (\<^verbatim>\<open>t.UTC().Format(time.RFC3339)\<close>) is kept as the second it names, which
  determines the text; \<open>NoStamp\<close> is the empty string.
\<close>

datatype stamp = NoStamp | Stamp int

definition rfc3339 :: "time \<Rightarrow> stamp" where
  "rfc3339 t = Stamp (t div 1000000000)"

definition formatOptionalTime_stamp :: "time \<Rightarrow> stamp" where
  "formatOptionalTime_stamp ts = (if is_zero ts then NoStamp else rfc3339 ts)"

section \<open>Strings\<close>

text \<open>
  A Go string is a sequence of bytes, here a list of \<open>char\<close>.  \<open>space_len s\<close> is the number of
  bytes of the white space character \<open>s\<close> begins with (0 if it begins with none): the ASCII ones
  and the UTF-8 encodings of the others that \<^verbatim>\<open>unicode.IsSpace\<close> accepts.  \<open>space_len_rev\<close> is the
  same for the reversed string, so that a trailing white space character is recognised.
\<close>

definition byte :: "char \<Rightarrow> nat" where
  "byte c = of_char c"

fun space_len :: "nat list \<Rightarrow> nat" where
  "space_len [] = 0"
| "space_len (a # bs) =
     (if a \<in> {9, 10, 11, 12, 13, 32} then 1
      else case bs of
        [] \<Rightarrow> 0
      | b # cs \<Rightarrow>
          if a = 194 \<and> b \<in> {133, 160} then 2
          else case cs of
            [] \<Rightarrow> 0
          | c # _ \<Rightarrow>
              if (a = 225 \<and> b = 154 \<and> c = 128)
               \<or> (a = 226 \<and> b = 128 \<and> (128 \<le> c \<and> c \<le> 138 \<or> c \<in> {168, 169, 175}))
               \<or> (a = 226 \<and> b = 129 \<and> c = 159)
               \<or> (a = 227 \<and> b = 128 \<and> c = 128)
              then 3 else 0)"

fun space_len_rev :: "nat list \<Rightarrow> nat" where
  "space_len_rev (c # b # a # _) =
     (if space_len [c] = 1 then 1
      else if space_len [b, c] = 2 then 2
      else if space_len [a, b, c] = 3 then 3 else 0)"
| "space_len_rev [c, b] = (if space_len [c] = 1 then 1 else if space_len [b, c] = 2 then 2 else 0)"
| "space_len_rev [c] = space_len [c]"
| "space_len_rev [] = 0"

function trim_with :: "(nat list \<Rightarrow> nat) \<Rightarrow> string \<Rightarrow> string" where
  "trim_with sp s =
     (let n = sp (map byte s) in if n = 0 \<or> s = [] then s else trim_with sp (drop n s))"
  by pat_completeness auto
termination
  by (relation "measure (\<lambda>(sp, s). length s)") auto

declare trim_with.simps [simp del]

definition TrimSpace :: "string \<Rightarrow> string" where
  "TrimSpace s = rev (trim_with space_len_rev (rev (trim_with space_len s)))"

lemma trim_with_Nil [simp]: "trim_with sp [] = []"
  by (simp add: trim_with.simps [of sp "[]"])

lemma trim_with_stop: "sp (map byte s) = 0 \<Longrightarrow> trim_with sp s = s"
  by (simp add: trim_with.simps [of sp s])

lemma trim_with_fix: "sp (map byte (trim_with sp s)) = 0 \<or> trim_with sp s = []"
proof (induction sp s rule: trim_with.induct)
  case (1 sp s)
  show ?case
  proof (cases "sp (map byte s) = 0 \<or> s = []")
    case True
    then show ?thesis by (auto simp: trim_with.simps [of sp s])
  next
    case False
    with "1.IH" have "sp (map byte (trim_with sp (drop (sp (map byte s)) s))) = 0
        \<or> trim_with sp (drop (sp (map byte s)) s) = []"
      by simp
    with False show ?thesis by (simp add: trim_with.simps [of sp s] Let_def)
  qed
qed

lemma trim_with_idem [simp]: "trim_with sp (trim_with sp s) = trim_with sp s"
  using trim_with_fix [of sp s] by (auto intro: trim_with_stop)

lemma trim_with_drop: "\<exists>n. trim_with sp s = drop n s"
proof (induction sp s rule: trim_with.induct)
  case (1 sp s)
  show ?case
  proof (cases "sp (map byte s) = 0 \<or> s = []")
    case True
    then have "trim_with sp s = drop 0 s" by (auto simp: trim_with.simps [of sp s])
    then show ?thesis by blast
  next
    case False
    with "1.IH" obtain n where "trim_with sp (drop (sp (map byte s)) s) = drop n (drop (sp (map byte s)) s)"
      by auto
    with False have "trim_with sp s = drop (n + sp (map byte s)) s"
      by (simp add: trim_with.simps [of sp s] Let_def)
    then show ?thesis by blast
  qed
qed

lemma TrimSpace_Nil [simp]: "TrimSpace [] = []"
  by (simp add: TrimSpace_def)

lemma length_TrimSpace_le: "length (TrimSpace s) \<le> length s"
proof -
  obtain n where n: "trim_with space_len s = drop n s" using trim_with_drop by blast
  obtain m where m: "trim_with space_len_rev (rev (drop n s)) = drop m (rev (drop n s))"
    using trim_with_drop by blast
  show ?thesis by (simp add: TrimSpace_def n m)
qed

definition HasPrefix :: "string \<Rightarrow> string \<Rightarrow> bool" where
  "HasPrefix s p \<longleftrightarrow> take (length p) s = p"

lemma HasPrefix_append [simp]: "HasPrefix (p @ s) p"
  by (simp add: HasPrefix_def)

lemma HasPrefix_iff: "HasPrefix s p \<longleftrightarrow> (\<exists>r. s = p @ r)"
  by (metis HasPrefix_append HasPrefix_def append_take_drop_id)

text \<open>
  Case folding maps the ASCII letters; header names and the scheme name it is applied to are
  ASCII text, and no other letter folds to one of \<^verbatim>\<open>bearer\<close>.
\<close>

definition lower_char :: "char \<Rightarrow> char" where
  "lower_char c = (if 65 \<le> byte c \<and> byte c \<le> 90 then char_of (byte c + 32) else c)"

definition ToLower :: "string \<Rightarrow> string" where
  "ToLower s = map lower_char s"

definition EqualFold :: "string \<Rightarrow> string \<Rightarrow> bool" where
  "EqualFold s t \<longleftrightarrow> ToLower s = ToLower t"

lemma length_ToLower [simp]: "length (ToLower s) = length s"
  by (simp add: ToLower_def)

lemma lower_char_idem [simp]: "lower_char (lower_char c) = lower_char c"
  by (simp add: lower_char_def byte_def)

text \<open>\<^verbatim>\<open>strings.Split\<close> and \<^verbatim>\<open>strings.Join\<close> with a separator of one byte.\<close>

fun split_on :: "char \<Rightarrow> string \<Rightarrow> string list" where
  "split_on c [] = [[]]"
| "split_on c (x # xs) =
     (if x = c then [] # split_on c xs
      else case split_on c xs of [] \<Rightarrow> [[x]] | y # ys \<Rightarrow> (x # y) # ys)"

fun join_on :: "char \<Rightarrow> string list \<Rightarrow> string" where
  "join_on c [] = []"
| "join_on c [x] = x"
| "join_on c (x # y # ys) = x @ c # join_on c (y # ys)"

lemma split_on_not_Nil [simp]: "split_on c s \<noteq> []"
  by (induction s) (auto split: list.splits)

lemma join_split [simp]: "join_on c (split_on c s) = s"
proof (induction s)
  case Nil
  then show ?case by simp
next
  case (Cons x xs)
  obtain y ys where yy: "split_on c xs = y # ys" by (cases "split_on c xs") auto
  with Cons.IH show ?case by (cases ys) auto
qed

lemma split_on_parts: "p \<in> set (split_on c s) \<Longrightarrow> c \<notin> set p"
proof (induction s arbitrary: p)
  case Nil
  then show ?case by simp
next
  case (Cons x xs)
  obtain y ys where yy: "split_on c xs = y # ys" by (cases "split_on c xs") auto
  with Cons show ?case by (auto split: if_splits)
qed

fun Contains :: "string \<Rightarrow> string \<Rightarrow> bool" where
  "Contains [] p = (p = [])"
| "Contains (c # s) p = (HasPrefix (c # s) p \<or> Contains s p)"

definition TrimPrefix :: "string \<Rightarrow> string \<Rightarrow> string" where
  "TrimPrefix s p = (if HasPrefix s p then drop (length p) s else s)"

definition HasSuffix :: "string \<Rightarrow> string \<Rightarrow> bool" where
  "HasSuffix s p \<longleftrightarrow> length p \<le> length s \<and> drop (length s - length p) s = p"

text \<open>\<^verbatim>\<open>strconv.Atoi\<close>: an optional sign, decimal digits, the range of \<^verbatim>\<open>int\<close>; \<open>None\<close> is an error.\<close>

fun digits_value :: "string \<Rightarrow> int \<Rightarrow> int option" where
  "digits_value [] acc = Some acc"
| "digits_value (c # cs) acc =
     (if 48 \<le> byte c \<and> byte c \<le> 57 then digits_value cs (10 * acc + int (byte c) - 48) else None)"

definition Atoi :: "string \<Rightarrow> int option" where
  "Atoi s =
     (let (neg, ds) = (case s of
                         [] \<Rightarrow> (False, [])
                       | c # cs \<Rightarrow> if c = CHR ''-'' then (True, cs)
                                  else if c = CHR ''+'' then (False, cs) else (False, s))
      in if ds = [] then None
         else case digits_value ds 0 of
           None \<Rightarrow> None
         | Some n \<Rightarrow>
             let v = (if neg then - n else n) in
             if v < - 9223372036854775808 \<or> 9223372036854775807 < v then None else Some v)"

text \<open>\<^verbatim>\<open>strconv.ParseBool\<close>; \<open>None\<close> is the error, whose value is false.\<close>

definition ParseBool :: "string \<Rightarrow> bool option" where
  "ParseBool s =
     (if s \<in> set [''1'', ''t'', ''T'', ''TRUE'', ''true'', ''True''] then Some True
      else if s \<in> set [''0'', ''f'', ''F'', ''FALSE'', ''false'', ''False''] then Some False
      else None)"

text \<open>Numbers in decimal, \<^verbatim>\<open>strconv.Itoa\<close>.\<close>

fun decimal :: "nat \<Rightarrow> string" where
  "decimal n = (if n < 10 then [char_of (48 + n)] else decimal (n div 10) @ [char_of (48 + n mod 10)])"

declare decimal.simps [simp del]

definition Itoa :: "int \<Rightarrow> string" where
  "Itoa n = (if n < 0 then CHR ''-'' # decimal (nat (- n)) else decimal (nat n))"

lemma byte_digit: "n < 10 \<Longrightarrow> byte (char_of (48 + n)) = 48 + n"
  by (simp add: byte_def)

lemma digits_value_append:
  "digits_value (ds @ es) acc = (case digits_value ds acc of None \<Rightarrow> None | Some a \<Rightarrow> digits_value es a)"
  by (induction ds arbitrary: acc) auto

lemma digits_decimal: "digits_value (decimal n) 0 = Some (int n)"
proof (induction n rule: decimal.induct)
  case (1 n)
  have "byte (char_of (48 + n mod 10)) = 48 + n mod 10" by (rule byte_digit) simp
  moreover have "10 * (int n div 10) + int (n mod 10) = int n"
    by (metis mult_div_mod_eq of_nat_mod of_nat_numeral)
  moreover have "n mod 10 \<le> 9" by presburger
  ultimately show ?case
    using 1 byte_digit [of n] by (simp add: decimal.simps [of n] digits_value_append zdiv_int)
qed

lemma decimal_hd: "\<exists>d ds. decimal n = d # ds \<and> 48 \<le> byte d"
proof (induction n rule: decimal.induct)
  case (1 n)
  then show ?case
    using byte_digit [of n] by (cases "n < 10") (auto simp: decimal.simps [of n])
qed

lemma decimal_inj: "decimal m = decimal n \<longleftrightarrow> m = n"
  by (metis digits_decimal of_nat_eq_iff option.inject)

lemma Itoa_inj: "Itoa m = Itoa n \<longleftrightarrow> m = n"
proof -
  have "decimal k \<noteq> CHR ''-'' # x" for k x
    using decimal_hd [of k] by (auto simp: byte_def)
  then have "decimal k \<noteq> CHR ''-'' # x" "CHR ''-'' # x \<noteq> decimal k" for k x by metis+
  then show ?thesis by (simp add: Itoa_def decimal_inj) arith
qed

section \<open>Decoded JSON\<close>

text \<open>
  A Go value of static type \<^verbatim>\<open>any\<close> holding decoded JSON.  Numbers are the rationals a
  \<^verbatim>\<open>float64\<close> can hold; an object is the list of its members in the order a \<^verbatim>\<open>range\<close> loop visits
  them.  A \<^verbatim>\<open>map[string]any\<close> is \<open>None\<close> when it is nil.
\<close>

datatype any =
    ANull
  | ABool bool
  | ANum rat
  | AStr string
  | AArr "any list"
  | AObj "(string \<times> any) list"

type_synonym anymap = "(string \<times> any) list option"

text \<open>
  What \<^verbatim>\<open>json.NewDecoder(req.Body).Decode(&body)\<close> returns: an error, \<^verbatim>\<open>io.EOF\<close> on an empty body
  (the target keeps its zero value), or the decoded value.
\<close>

datatype 'a decoded = DecErr | DecEOF | Decoded 'a

section \<open>Slices and maps\<close>

text \<open>
  The loop that deletes the first matching element of a slice:
  \<^verbatim>\<open>append(q[:i], q[i+1:]...)\<close> at the first \<^verbatim>\<open>i\<close> where the test holds.
\<close>

fun remove_first :: "('a \<Rightarrow> bool) \<Rightarrow> 'a list \<Rightarrow> 'a list" where
  "remove_first p [] = []"
| "remove_first p (x # xs) = (if p x then xs else x # remove_first p xs)"

text \<open>The loop that looks for the first matching element and returns its 1-based index, or 0.\<close>

fun index1 :: "('a \<Rightarrow> bool) \<Rightarrow> 'a list \<Rightarrow> nat" where
  "index1 p [] = 0"
| "index1 p (x # xs) = (if p x then 1 else let n = index1 p xs in if n = 0 then 0 else Suc n)"

lemma remove_first_eq [simp]: "remove_first (\<lambda>y. y = x) xs = remove1 x xs"
  by (induction xs) auto

lemma remove_first_eq' [simp]: "remove_first ((=) x) xs = remove1 x xs"
  by (induction xs) auto

lemma set_remove_first: "set (remove_first p xs) \<subseteq> set xs"
  by (induction xs) auto

lemma distinct_remove_first: "distinct xs \<Longrightarrow> distinct (remove_first p xs)"
  using set_remove_first by (induction xs) fastforce+

lemma remove_first_none [simp]: "(\<forall>x \<in> set xs. \<not> p x) \<Longrightarrow> remove_first p xs = xs"
  by (induction xs) auto

lemma length_remove_first:
  "length (remove_first p xs) = (if \<exists>x \<in> set xs. p x then length xs - 1 else length xs)"
proof (induction xs)
  case Nil
  then show ?case by simp
next
  case (Cons x xs)
  show ?case
  proof (cases "\<exists>y \<in> set xs. p y")
    case True
    then have "0 < length xs" by (auto intro: length_pos_if_in_set)
    with True Cons show ?thesis by auto
  next
    case False
    with Cons show ?thesis by auto
  qed
qed

lemma map_remove_first:
  "map f (remove_first (\<lambda>x. f x = k) xs) = remove1 k (map f xs)"
  by (induction xs) auto

lemma index1_le: "index1 p xs \<le> length xs"
  by (induction xs) (auto simp: Let_def)

lemma index1_eq_0 [simp]: "index1 p xs = 0 \<longleftrightarrow> (\<forall>x \<in> set xs. \<not> p x)"
  by (induction xs) (auto simp: Let_def)

lemma index1_pos [simp]: "0 < index1 p xs \<longleftrightarrow> (\<exists>x \<in> set xs. p x)"
  using index1_eq_0 [of p xs] by (metis gr0I less_numeral_extra(3))

lemma index1_nth: "index1 p xs = Suc i \<Longrightarrow> i < length xs \<and> p (xs ! i) \<and> (\<forall>j < i. \<not> p (xs ! j))"
proof (induction xs arbitrary: i)
  case Nil
  then show ?case by simp
next
  case (Cons x xs)
  show ?case
  proof (cases "p x")
    case True
    with Cons.prems show ?thesis by simp
  next
    case False
    with Cons.prems obtain m where m: "index1 p xs = Suc m" "i = Suc m"
      by (cases "index1 p xs") (auto simp: Let_def)
    with Cons.IH [OF m(1)] False show ?thesis by (auto simp: nth_Cons')
  qed
qed

lemma index1_map: "index1 p (map f xs) = index1 (\<lambda>x. p (f x)) xs"
  by (induction xs) (auto simp: Let_def)

text \<open>The keys of a map that a \<^verbatim>\<open>range\<close> loop visits, in the order it visits them.\<close>

definition range_order :: "'k list \<Rightarrow> ('k \<rightharpoonup> 'v) \<Rightarrow> bool" where
  "range_order ks m \<longleftrightarrow> distinct ks \<and> set ks = dom m"

text \<open>The values a \<^verbatim>\<open>range\<close> loop over the keys \<open>ks\<close> sees.\<close>

definition range_values :: "'k list \<Rightarrow> ('k \<rightharpoonup> 'v) \<Rightarrow> 'v list" where
  "range_values ks m = List.map_filter m ks"

lemma map_filter_Cons_cases:
  "List.map_filter f (x # xs) = (case f x of None \<Rightarrow> List.map_filter f xs | Some y \<Rightarrow> y # List.map_filter f xs)"
  by (simp add: List.map_filter_def split: option.splits)

lemma set_map_filter_iff: "y \<in> set (List.map_filter f xs) \<longleftrightarrow> (\<exists>x \<in> set xs. f x = Some y)"
  by (auto simp: List.map_filter_def image_iff)

lemma set_range_values: "range_order ks m \<Longrightarrow> set (range_values ks m) = ran m"
  by (fastforce simp: range_order_def range_values_def set_map_filter_iff ran_def dom_def)

lemma length_range_values: "range_order ks m \<Longrightarrow> length (range_values ks m) = length ks"
proof -
  assume "range_order ks m"
  then have "\<forall>k \<in> set ks. m k \<noteq> None" by (auto simp: range_order_def)
  then show ?thesis
    unfolding range_values_def
    by (induction ks) (auto simp: map_filter_Cons_cases List.map_filter_def)
qed

lemma ran_upd_subset: "ran (m(k \<mapsto> v)) \<subseteq> insert v (ran m)"
  by (auto simp: ran_def)

lemma ran_del_subset: "ran (m(k := None)) \<subseteq> ran m"
  by (auto simp: ran_def)

end
