(* ===== verification/Machines.thy ===== *)
theory Machines
  imports GoPrelude
begin

text \<open>
  The interfaces the components share, each a locale with its laws and the lemmas a client may
  use: state machines driven by events (\<open>guarded_machine\<close>, \<open>stable_machine\<close>), the line a
  request waits in (\<open>waiting_line\<close>, implemented by the job queue and by the completion queue),
  and the counters of work in flight (\<open>balanced_counter\<close>, \<open>clamped_counter\<close>).  Each is
  interpreted in the theory of every component that implements it.
\<close>

section \<open>Event-driven machines\<close>

text \<open>
  A run is a sequence of critical sections, each an event with a guard.  \<open>None\<close> is a sequence
  some guard of which fails, so no execution of the program.
\<close>

fun run :: "('e \<Rightarrow> 's \<Rightarrow> bool) \<Rightarrow> ('e \<Rightarrow> 's \<Rightarrow> 's) \<Rightarrow> 'e list \<Rightarrow> 's \<Rightarrow> 's option" where
  "run g st [] s = Some s"
| "run g st (e # es) s = (if g e s then run g st es (st e s) else None)"

lemma run_append:
  "run g st (es @ fs) s = (case run g st es s of None \<Rightarrow> None | Some t \<Rightarrow> run g st fs t)"
  by (induction es arbitrary: s) auto

locale guarded_machine =
  fixes init :: "'s \<Rightarrow> bool"
    and guard :: "'e \<Rightarrow> 's \<Rightarrow> bool"
    and step :: "'e \<Rightarrow> 's \<Rightarrow> 's"
    and inv :: "'s \<Rightarrow> bool"
  assumes init_inv: "init s \<Longrightarrow> inv s"
    and step_inv: "inv s \<Longrightarrow> guard e s \<Longrightarrow> inv (step e s)"
begin

lemma run_inv: "inv s \<Longrightarrow> run guard step es s = Some t \<Longrightarrow> inv t"
  by (induction es arbitrary: s) (auto split: if_splits dest: step_inv)

lemma reach_inv: "init s \<Longrightarrow> run guard step es s = Some t \<Longrightarrow> inv t"
  using init_inv run_inv by blast

end

locale stable_machine = guarded_machine +
  fixes stable :: "'k \<Rightarrow> 'a \<Rightarrow> bool"
  assumes step_stable: "inv s \<Longrightarrow> guard e s \<Longrightarrow> stable k s \<Longrightarrow> stable k (step e s)"
begin

lemma run_stable: "inv s \<Longrightarrow> stable k s \<Longrightarrow> run guard step es s = Some t \<Longrightarrow> stable k t"
  by (induction es arbitrary: s) (auto split: if_splits dest: step_inv step_stable)

end

section \<open>Waiting lines\<close>

text \<open>
  \<open>join x\<close> puts the entry \<open>x\<close> at the end where there is \<open>room\<close>, \<open>leave i\<close> takes the entry with
  key \<open>i\<close> out, \<open>pos i\<close> is the 1-based position the client is told, 0 for an absent key.
\<close>

locale waiting_line =
  fixes line :: "'q \<Rightarrow> 'i list"
    and room :: "'x \<Rightarrow> 'q \<Rightarrow> bool"
    and key :: "'x \<Rightarrow> 'i"
    and join :: "'x \<Rightarrow> 'q \<Rightarrow> 'q"
    and leave :: "'i \<Rightarrow> 'q \<Rightarrow> 'q"
    and pos :: "'i \<Rightarrow> 'q \<Rightarrow> nat"
  assumes line_join: "room x q \<Longrightarrow> line (join x q) = line q @ [key x]"
    and line_leave: "line (leave i q) = remove1 i (line q)"
    and pos_line: "pos i q = index1 (\<lambda>j. j = i) (line q)"
begin

lemma pos_absent: "pos i q = 0 \<longleftrightarrow> i \<notin> set (line q)"
  by (auto simp: pos_line)

lemma pos_bound: "pos i q \<le> length (line q)"
  by (simp add: pos_line index1_le)

lemma pos_head: "pos i q = 1 \<longleftrightarrow> line q \<noteq> [] \<and> hd (line q) = i"
proof (cases "line q")
  case (Cons j js)
  then show ?thesis by (simp add: pos_line Let_def)
qed (simp add: pos_line)

lemma pos_nth: "pos i q = Suc n \<Longrightarrow> n < length (line q) \<and> line q ! n = i"
  unfolding pos_line by (blast dest: index1_nth)

lemma index1_append_left:
  "i \<in> set xs \<Longrightarrow> index1 (\<lambda>j. j = i) (xs @ ys) = index1 (\<lambda>j. j = i) xs"
  by (induction xs) (auto simp: Let_def)

lemma index1_append_right:
  "i \<notin> set xs \<Longrightarrow> index1 (\<lambda>j. j = i) (xs @ [i]) = Suc (length xs)"
  by (induction xs) (auto simp: Let_def)

lemma pos_join_other: "room x q \<Longrightarrow> i \<in> set (line q) \<Longrightarrow> pos i (join x q) = pos i q"
  by (simp add: pos_line line_join index1_append_left)

lemma pos_join_self:
  "room x q \<Longrightarrow> key x \<notin> set (line q) \<Longrightarrow> pos (key x) (join x q) = Suc (length (line q))"
  by (simp add: pos_line line_join index1_append_right)

lemma index1_remove1_le: "index1 (\<lambda>j. j = i) (remove1 k xs) \<le> index1 (\<lambda>j. j = i) xs \<or> i = k"
  by (induction xs) (auto simp: Let_def)

lemma pos_leave_le: "i \<noteq> k \<Longrightarrow> pos i (leave k q) \<le> pos i q"
  using index1_remove1_le [of i k "line q"] by (simp add: pos_line line_leave)

lemma index1_remove1:
  "distinct xs \<Longrightarrow> i \<in> set xs \<Longrightarrow> k \<in> set xs \<Longrightarrow> i \<noteq> k \<Longrightarrow>
   index1 (\<lambda>j. j = i) (remove1 k xs) =
     (if index1 (\<lambda>j. j = k) xs < index1 (\<lambda>j. j = i) xs
      then index1 (\<lambda>j. j = i) xs - 1 else index1 (\<lambda>j. j = i) xs)"
  by (induction xs) (auto simp: Let_def)

text \<open>Whoever leaves moves exactly those behind it up, by one place.\<close>

lemma pos_leave:
  "distinct (line q) \<Longrightarrow> i \<in> set (line q) \<Longrightarrow> k \<in> set (line q) \<Longrightarrow> i \<noteq> k \<Longrightarrow>
   pos i (leave k q) = (if pos k q < pos i q then pos i q - 1 else pos i q)"
  unfolding pos_line line_leave by (rule index1_remove1)

lemma distinct_join:
  "room x q \<Longrightarrow> distinct (line q) \<Longrightarrow> key x \<notin> set (line q) \<Longrightarrow> distinct (line (join x q))"
  by (simp add: line_join)

lemma distinct_leave: "distinct (line q) \<Longrightarrow> distinct (line (leave k q))"
  by (simp add: line_leave)

lemma leave_gone: "distinct (line q) \<Longrightarrow> pos k (leave k q) = 0"
  by (simp add: pos_absent line_leave)

end

section \<open>Counters of work in flight\<close>

datatype bracket = Enter | Exit

text \<open>\<open>nested n bs\<close>: every \<open>Exit\<close> of \<open>bs\<close> closes an \<open>Enter\<close> of \<open>bs\<close> or one of \<open>n\<close> open ones.\<close>

fun nested :: "nat \<Rightarrow> bracket list \<Rightarrow> bool" where
  "nested n [] = True"
| "nested n (Enter # bs) = nested (Suc n) bs"
| "nested n (Exit # bs) = (0 < n \<and> nested (n - 1) bs)"

fun open_after :: "nat \<Rightarrow> bracket list \<Rightarrow> nat" where
  "open_after n [] = n"
| "open_after n (Enter # bs) = open_after (Suc n) bs"
| "open_after n (Exit # bs) = open_after (n - 1) bs"

locale balanced_counter =
  fixes count :: "'s \<Rightarrow> int"
    and inc :: "'s \<Rightarrow> 's"
    and dec :: "'s \<Rightarrow> 's"
  assumes count_inc: "0 \<le> count s \<Longrightarrow> count (inc s) = count s + 1"
    and count_dec: "0 < count s \<Longrightarrow> count (dec s) = count s - 1"
begin

lemma dec_inc: "0 \<le> count s \<Longrightarrow> count (dec (inc s)) = count s"
  using count_dec [of "inc s"] by (simp add: count_inc)

lemma nested_count:
  "count s = int n \<Longrightarrow> nested n bs \<Longrightarrow>
   count (fold (\<lambda>b. case b of Enter \<Rightarrow> inc | Exit \<Rightarrow> dec) bs s) = int (open_after n bs)"
proof (induction n bs arbitrary: s rule: nested.induct)
  case (2 n bs)
  then show ?case by (simp add: count_inc)
next
  case (3 n bs)
  then have "count (dec s) = int (n - 1)" by (simp add: count_dec of_nat_diff)
  with 3 show ?case by simp
qed simp

end

text \<open>A counter that refuses to go below zero.\<close>

locale clamped_counter = balanced_counter +
  assumes count_dec_0: "count s = 0 \<Longrightarrow> count (dec s) = 0"
begin

lemma dec_nonneg: "0 \<le> count s \<Longrightarrow> 0 \<le> count (dec s)"
  using count_dec [of s] count_dec_0 [of s] by (cases "count s = 0") auto

lemma any_nonneg:
  "0 \<le> count s \<Longrightarrow> 0 \<le> count (fold (\<lambda>b. case b of Enter \<Rightarrow> inc | Exit \<Rightarrow> dec) bs s)"
  by (induction bs arbitrary: s) (auto simp: count_inc dec_nonneg split: bracket.splits)

end

end
