(* ===== verification/Channels.thy ===== *)
theory Channels
  imports Machines
begin

text \<open>
  Go channels as they are used between requests and connections: a heap of buffered channels
  addressed by number.  An operation is \<open>Done\<close>, it \<open>Blocks\<close>, or it \<open>Panics\<close> (a send on a closed
  channel, a close of a closed or nil one).  \<open>None\<close> in place of a number is the nil channel.
\<close>

datatype 'a outcome = Done 'a | Blocks | Panics

fun bind_outcome :: "'a outcome \<Rightarrow> ('a \<Rightarrow> 'b outcome) \<Rightarrow> 'b outcome" where
  "bind_outcome (Done x) f = f x"
| "bind_outcome Blocks f = Blocks"
| "bind_outcome Panics f = Panics"

record 'm gochan =
  gc_buf :: "'m list"
  gc_cap :: nat
  gc_closed :: bool

type_synonym 'm chans = "nat \<rightharpoonup> 'm gochan"

definition new_chan :: "nat \<Rightarrow> 'm gochan" where
  "new_chan cap = \<lparr>gc_buf = [], gc_cap = cap, gc_closed = False\<rparr>"

definition close_chan :: "nat option \<Rightarrow> 'm chans \<Rightarrow> 'm chans outcome" where
  "close_chan h cs =
     (case h of
        None \<Rightarrow> Panics
      | Some n \<Rightarrow>
          (case cs n of
             None \<Rightarrow> Panics
           | Some c \<Rightarrow> if gc_closed c then Panics else Done (cs(n \<mapsto> c\<lparr>gc_closed := True\<rparr>))))"

text \<open>A blocking send, and the send of a \<^verbatim>\<open>select\<close> with a \<^verbatim>\<open>default\<close> branch.\<close>

definition send_chan :: "nat option \<Rightarrow> 'm \<Rightarrow> 'm chans \<Rightarrow> 'm chans outcome" where
  "send_chan h m cs =
     (case h of
        None \<Rightarrow> Blocks
      | Some n \<Rightarrow>
          (case cs n of
             None \<Rightarrow> Panics
           | Some c \<Rightarrow>
               if gc_closed c then Panics
               else if length (gc_buf c) < gc_cap c then Done (cs(n \<mapsto> c\<lparr>gc_buf := gc_buf c @ [m]\<rparr>))
               else Blocks))"

definition offer_chan :: "nat option \<Rightarrow> 'm \<Rightarrow> 'm chans \<Rightarrow> (bool \<times> 'm chans) outcome" where
  "offer_chan h m cs =
     (case send_chan h m cs of
        Done cs' \<Rightarrow> Done (True, cs')
      | Blocks \<Rightarrow> Done (False, cs)
      | Panics \<Rightarrow> Panics)"

text \<open>A receive: a value, the zero value of a closed and drained channel (\<open>None\<close>), or it blocks.\<close>

definition recv_chan :: "nat option \<Rightarrow> 'm chans \<Rightarrow> ('m option \<times> 'm chans) outcome" where
  "recv_chan h cs =
     (case h of
        None \<Rightarrow> Blocks
      | Some n \<Rightarrow>
          (case cs n of
             None \<Rightarrow> Panics
           | Some c \<Rightarrow>
               (case gc_buf c of
                  m # ms \<Rightarrow> Done (Some m, cs(n \<mapsto> c\<lparr>gc_buf := ms\<rparr>))
                | [] \<Rightarrow> if gc_closed c then Done (None, cs) else Blocks)))"

definition is_open :: "nat \<Rightarrow> 'm chans \<Rightarrow> bool" where
  "is_open n cs \<longleftrightarrow> (\<exists>c. cs n = Some c \<and> \<not> gc_closed c)"

text \<open>\<open>close_all\<close> closes the channels of a job table; a nil one is skipped.\<close>

fun close_all :: "nat option list \<Rightarrow> 'm chans \<Rightarrow> 'm chans outcome" where
  "close_all [] cs = Done cs"
| "close_all (h # hs) cs =
     (case h of
        None \<Rightarrow> close_all hs cs
      | Some n \<Rightarrow> bind_outcome (close_chan (Some n) cs) (close_all hs))"

text \<open>The channels of a list that are not nil.\<close>

fun handles :: "nat option list \<Rightarrow> nat list" where
  "handles [] = []"
| "handles (h # hs) = (case h of None \<Rightarrow> handles hs | Some n \<Rightarrow> n # handles hs)"

section \<open>Lemmas\<close>

lemma bind_Done [simp]:
  "bind_outcome x f = Done y \<longleftrightarrow> (\<exists>z. x = Done z \<and> f z = Done y)"
  "Done y = bind_outcome x f \<longleftrightarrow> (\<exists>z. x = Done z \<and> f z = Done y)"
  by (cases x; auto)+

lemma close_closes: "close_chan (Some n) cs = Done cs' \<Longrightarrow> \<exists>c. cs' n = Some c \<and> gc_closed c"
  by (auto simp: close_chan_def split: option.splits if_splits)

lemma set_handles [simp]: "n \<in> set (handles hs) \<longleftrightarrow> Some n \<in> set hs"
  by (induction hs) (auto split: option.splits)

lemma close_open: "is_open n cs \<Longrightarrow> \<exists>cs'. close_chan (Some n) cs = Done cs' \<and> \<not> is_open n cs' \<and>
    (\<forall>k. k \<noteq> n \<longrightarrow> cs' k = cs k)"
  by (auto simp: is_open_def close_chan_def)

lemma close_chan_frame: "close_chan h cs = Done cs' \<Longrightarrow> h \<noteq> Some k \<Longrightarrow> cs' k = cs k"
  by (auto simp: close_chan_def split: option.splits if_splits)

lemma send_closed: "cs n = Some c \<Longrightarrow> gc_closed c \<Longrightarrow> send_chan (Some n) m cs = Panics"
  by (simp add: send_chan_def)

lemma send_open: "is_open n cs \<Longrightarrow> send_chan (Some n) m cs \<noteq> Panics"
  by (auto simp: is_open_def send_chan_def split: if_splits)

lemma offer_open: "is_open n cs \<Longrightarrow> \<exists>b cs'. offer_chan (Some n) m cs = Done (b, cs')"
  by (auto simp: is_open_def send_chan_def offer_chan_def)

lemma send_is_open: "send_chan h m cs = Done cs' \<Longrightarrow> is_open k cs' = is_open k cs"
  by (auto simp: send_chan_def is_open_def split: option.splits if_splits)

lemma offer_is_open: "offer_chan h m cs = Done (b, cs') \<Longrightarrow> is_open k cs' = is_open k cs"
  by (auto simp: offer_chan_def send_is_open split: outcome.splits)

lemma recv_is_open: "recv_chan h cs = Done (x, cs') \<Longrightarrow> is_open k cs' = is_open k cs"
  by (auto simp: recv_chan_def is_open_def split: option.splits list.splits if_splits)

lemma is_open_dom: "is_open n cs \<Longrightarrow> n \<in> dom cs"
  by (auto simp: is_open_def)

lemma is_open_cong: "cs' n = cs n \<Longrightarrow> is_open n cs' = is_open n cs"
  by (simp add: is_open_def)

text \<open>Closing a list of distinct open channels succeeds, closes exactly these and leaves the others.\<close>

lemma close_all_open:
  "distinct (handles hs) \<Longrightarrow> (\<forall>n. Some n \<in> set hs \<longrightarrow> is_open n cs) \<Longrightarrow>
   \<exists>cs'. close_all hs cs = Done cs' \<and> (\<forall>n. Some n \<in> set hs \<longrightarrow> \<not> is_open n cs' \<and> n \<in> dom cs') \<and>
     (\<forall>n. Some n \<notin> set hs \<longrightarrow> cs' n = cs n)"
proof (induction hs arbitrary: cs)
  case (Cons h hs)
  show ?case
  proof (cases h)
    case None
    with Cons show ?thesis by auto
  next
    case (Some n)
    with Cons.prems have d: "distinct (handles hs)" and nn: "Some n \<notin> set hs"
      and op: "is_open n cs" by auto
    from close_open [OF op] obtain cs1 where
      c: "close_chan (Some n) cs = Done cs1" "\<not> is_open n cs1" "\<forall>k. k \<noteq> n \<longrightarrow> cs1 k = cs k" by blast
    have "\<forall>k. Some k \<in> set hs \<longrightarrow> is_open k cs1"
      using Cons.prems(2) c(3) nn is_open_cong by (metis list.set_intros(2))
    from Cons.IH [OF d(1) this] obtain cs' where
      r: "close_all hs cs1 = Done cs'" "\<forall>k. Some k \<in> set hs \<longrightarrow> \<not> is_open k cs' \<and> k \<in> dom cs'"
        "\<forall>k. Some k \<notin> set hs \<longrightarrow> cs' k = cs1 k" by blast
    have "\<not> is_open n cs'" "n \<in> dom cs'"
      using c(1,2) r(3) nn is_open_cong [of cs' n cs1]
      by (auto simp: close_chan_def split: option.splits if_splits)
    with Some c r show ?thesis by auto
  qed
qed simp

end
