(* ===== verification/Workers.thy ===== *)
theory Workers
  imports Channels
begin

text \<open>
  The worker registry of \<^verbatim>\<open>sdk/base/worker/registry.go\<close> and the messages of
  \<^verbatim>\<open>sdk/api/control/messages.go\<close> that travel through its channels.  Handlers keep pointers to
  workers that have left the registry, so workers live in a heap and the registry maps ids to
  pointers.
\<close>

section \<open>Messages\<close>

record proxy_error =
  pe_code :: string
  pe_message :: string

datatype wire =
    HTTPProxyRequest string string string "(string \<times> string) list" bool string
  | HTTPProxyCancel string
  | HTTPProxyResponseHeaders string int "(string \<times> string) list"
  | HTTPProxyResponseChunk string string
  | HTTPProxyResponseEnd string "proxy_error option"
  | JobChunk string string
  | JobResult string string
  | JobError string string string

section \<open>State\<close>

definition HeartbeatInterval :: duration where "HeartbeatInterval = 5 * Second"
definition HeartbeatExpiry :: duration where "HeartbeatExpiry = 3 * HeartbeatInterval"

record worker =
  w_id :: string
  w_name :: string
  w_labels :: "string list"
  w_max :: int
  w_batch :: int
  w_inflight :: int
  w_heartbeat :: time
  w_send :: "nat option"
  w_jobs :: "(string \<times> nat option) list"

record wstate =
  ws_heap :: "nat \<rightharpoonup> worker"
  ws_table :: "string \<rightharpoonup> nat"
  ws_chans :: "wire chans"

definition NewWorkerRegistry :: wstate where
  "NewWorkerRegistry = \<lparr>ws_heap = Map.empty, ws_table = Map.empty, ws_chans = Map.empty\<rparr>"

section \<open>Operations\<close>

text \<open>
  \<^verbatim>\<open>Labels\<close> maps only to \<^verbatim>\<open>true\<close>, so it is kept as the list of its keys in the order of a
  \<^verbatim>\<open>range\<close>.  \<open>p\<close> is the pointer.
\<close>

definition NameValue :: "worker \<Rightarrow> string" where
  "NameValue w = w_name w"

definition LabelKeys :: "worker \<Rightarrow> string list" where
  "LabelKeys w = w_labels w"

definition HasLabel :: "worker \<Rightarrow> string \<Rightarrow> bool" where
  "HasLabel w label \<longleftrightarrow> label \<in> set (w_labels w)"

fun label_set :: "string list \<Rightarrow> string list \<Rightarrow> string list" where
  "label_set acc [] = acc"
| "label_set acc (m # ms) = label_set (if m \<in> set acc then acc else acc @ [m]) ms"

definition update_worker :: "nat \<Rightarrow> (worker \<Rightarrow> worker) \<Rightarrow> wstate \<Rightarrow> wstate" where
  "update_worker p f s =
     (case ws_heap s p of None \<Rightarrow> s | Some w \<Rightarrow> s\<lparr>ws_heap := (ws_heap s)(p \<mapsto> f w)\<rparr>)"

definition Add :: "nat \<Rightarrow> wstate \<Rightarrow> wstate" where
  "Add p s =
     (case ws_heap s p of
        None \<Rightarrow> s
      | Some w \<Rightarrow> s\<lparr>ws_table := (ws_table s)(w_id w \<mapsto> p)\<rparr>)"

definition WorkerCount :: "wstate \<Rightarrow> nat" where
  "WorkerCount s = card (dom (ws_table s))"

text \<open>Both eviction paths close the job channels and then the send channel.\<close>

definition drop_jobs :: "nat \<Rightarrow> wstate \<Rightarrow> wstate outcome" where
  "drop_jobs p s =
     (case ws_heap s p of
        None \<Rightarrow> Panics
      | Some w \<Rightarrow>
          bind_outcome (close_all (map snd (w_jobs w)) (ws_chans s))
            (\<lambda>cs. Done (update_worker p (\<lambda>w. w\<lparr>w_jobs := []\<rparr>) (s\<lparr>ws_chans := cs\<rparr>))))"

definition Remove :: "string \<Rightarrow> wstate \<Rightarrow> wstate outcome" where
  "Remove i s =
     (case ws_table s i of
        None \<Rightarrow> Done s
      | Some p \<Rightarrow>
          bind_outcome (drop_jobs p (s\<lparr>ws_table := (ws_table s)(i := None)\<rparr>))
            (\<lambda>s. case ws_heap s p of
                   None \<Rightarrow> Panics
                 | Some w \<Rightarrow>
                     if w_send w \<noteq> None
                     then bind_outcome (close_chan (w_send w) (ws_chans s)) (\<lambda>cs. Done (s\<lparr>ws_chans := cs\<rparr>))
                     else Done s))"

definition UpdateHeartbeat :: "string \<Rightarrow> time \<Rightarrow> wstate \<Rightarrow> wstate" where
  "UpdateHeartbeat i now s =
     (case ws_table s i of None \<Rightarrow> s | Some p \<Rightarrow> update_worker p (\<lambda>w. w\<lparr>w_heartbeat := now\<rparr>) s)"

definition UpdateLabels :: "string \<Rightarrow> string list \<Rightarrow> wstate \<Rightarrow> wstate" where
  "UpdateLabels i labels s =
     (case ws_table s i of None \<Rightarrow> s | Some p \<Rightarrow> update_worker p (\<lambda>w. w\<lparr>w_labels := label_set [] labels\<rparr>) s)"

text \<open>\<open>order\<close> is the order in which a \<^verbatim>\<open>range\<close> loop visits the table.\<close>

definition Snapshot :: "string list \<Rightarrow> wstate \<Rightarrow> nat list" where
  "Snapshot order s = range_values order (ws_table s)"

definition has_room :: "worker \<Rightarrow> bool" where
  "has_room w \<longleftrightarrow> w_inflight w < w_max w"

definition WorkersForLabel :: "string list \<Rightarrow> string \<Rightarrow> wstate \<Rightarrow> nat list" where
  "WorkersForLabel order model s =
     filter (\<lambda>p. case ws_heap s p of None \<Rightarrow> False | Some w \<Rightarrow> HasLabel w model \<and> has_room w) (Snapshot order s)"

definition IncInFlight :: "string \<Rightarrow> wstate \<Rightarrow> wstate" where
  "IncInFlight i s =
     (case ws_table s i of None \<Rightarrow> s | Some p \<Rightarrow> update_worker p (\<lambda>w. w\<lparr>w_inflight := w_inflight w + 1\<rparr>) s)"

definition DecInFlight :: "string \<Rightarrow> wstate \<Rightarrow> wstate" where
  "DecInFlight i s =
     (case ws_table s i of
        None \<Rightarrow> s
      | Some p \<Rightarrow>
          update_worker p (\<lambda>w. if 0 < w_inflight w then w\<lparr>w_inflight := w_inflight w - 1\<rparr> else w) s)"

text \<open>\<open>PruneExpired\<close> closes \<^verbatim>\<open>Send\<close> without the nil test \<open>Remove\<close> has.\<close>

definition prune_one :: "time \<Rightarrow> duration \<Rightarrow> string \<Rightarrow> wstate \<Rightarrow> wstate outcome" where
  "prune_one now maxAge i s =
     (case ws_table s i of
        None \<Rightarrow> Done s
      | Some p \<Rightarrow>
          (case ws_heap s p of
             None \<Rightarrow> Panics
           | Some w \<Rightarrow>
               if time_sub now (w_heartbeat w) > maxAge then
                 bind_outcome (drop_jobs p (s\<lparr>ws_table := (ws_table s)(i := None)\<rparr>))
                   (\<lambda>s. bind_outcome (close_chan (w_send w) (ws_chans s)) (\<lambda>cs. Done (s\<lparr>ws_chans := cs\<rparr>)))
               else Done s))"

fun PruneExpired :: "time \<Rightarrow> duration \<Rightarrow> string list \<Rightarrow> wstate \<Rightarrow> wstate outcome" where
  "PruneExpired now maxAge [] s = Done s"
| "PruneExpired now maxAge (i # order) s = bind_outcome (prune_one now maxAge i s) (PruneExpired now maxAge order)"

definition put_job :: "string \<Rightarrow> nat option \<Rightarrow> (string \<times> nat option) list \<Rightarrow> (string \<times> nat option) list" where
  "put_job i h js = (i, h) # filter (\<lambda>(k, _). k \<noteq> i) js"

definition AddJob :: "nat \<Rightarrow> string \<Rightarrow> nat option \<Rightarrow> wstate \<Rightarrow> wstate" where
  "AddJob p i h s = update_worker p (\<lambda>w. w\<lparr>w_jobs := put_job i h (w_jobs w)\<rparr>) s"

definition forget_job :: "nat \<Rightarrow> string \<Rightarrow> wstate \<Rightarrow> wstate" where
  "forget_job p i s = update_worker p (\<lambda>w. w\<lparr>w_jobs := filter (\<lambda>(k, _). k \<noteq> i) (w_jobs w)\<rparr>) s"

definition job_chan :: "nat \<Rightarrow> string \<Rightarrow> wstate \<Rightarrow> nat option option" where
  "job_chan p i s = (case ws_heap s p of None \<Rightarrow> None | Some w \<Rightarrow> map_of (w_jobs w) i)"

definition RemoveJob :: "nat \<Rightarrow> string \<Rightarrow> wstate \<Rightarrow> wstate outcome" where
  "RemoveJob p i s =
     (case job_chan p i s of
        None \<Rightarrow> Done s
      | Some None \<Rightarrow> Done (forget_job p i s)
      | Some (Some h) \<Rightarrow>
          bind_outcome (close_chan (Some h) (ws_chans s)) (\<lambda>cs. Done ((forget_job p i s)\<lparr>ws_chans := cs\<rparr>)))"

section \<open>Lemmas\<close>

lemma set_label_set: "set (label_set acc ms) = set acc \<union> set ms"
  by (induction acc ms rule: label_set.induct) auto

lemma update_worker_frame [simp]:
  "ws_table (update_worker p f s) = ws_table s" "ws_chans (update_worker p f s) = ws_chans s"
  by (simp_all add: update_worker_def split: option.splits)

lemma update_worker_heap:
  "ws_heap (update_worker p f s) q = (if q = p then map_option f (ws_heap s p) else ws_heap s q)"
  by (auto simp: update_worker_def split: option.splits)

lemma WorkersForLabel_iff:
  assumes "range_order order (ws_table s)"
  shows "p \<in> set (WorkersForLabel order model s) \<longleftrightarrow>
    (\<exists>i w. ws_table s i = Some p \<and> ws_heap s p = Some w \<and> model \<in> set (w_labels w) \<and> w_inflight w < w_max w)"
proof -
  have "p \<in> set (Snapshot order s) \<longleftrightarrow> (\<exists>i. ws_table s i = Some p)"
    using set_range_values [OF assms] by (simp add: Snapshot_def ran_def)
  then show ?thesis
    by (auto simp: WorkersForLabel_def HasLabel_def has_room_def split: option.splits)
qed

text \<open>The in-flight count of a worker that stays registered.\<close>

definition inflight_of :: "string \<Rightarrow> wstate \<Rightarrow> int" where
  "inflight_of i s =
     (case ws_table s i of None \<Rightarrow> 0
      | Some p \<Rightarrow> (case ws_heap s p of None \<Rightarrow> 0 | Some w \<Rightarrow> w_inflight w))"

lemma inflight_inc_dec:
  assumes "ws_table s i = Some p" "ws_heap s p = Some w"
  shows "inflight_of i (IncInFlight i s) = w_inflight w + 1"
    and "inflight_of i (DecInFlight i s) = (if 0 < w_inflight w then w_inflight w - 1 else w_inflight w)"
  using assms by (simp_all add: inflight_of_def IncInFlight_def DecInFlight_def update_worker_heap)

end
