(* ===== verification/Scheduler.thy ===== *)
theory Scheduler
  imports Workers
begin

text \<open>
  Which worker gets a task: the scorers of the modules (\<^verbatim>\<open>modules/*/ext/scorer.go\<close>), the alias key of
  \<^verbatim>\<open>sdk/api/control/alias.go\<close> and the choice of \<^verbatim>\<open>sdk/base/worker/scheduler.go\<close>.  Scores are the
  rationals 0, 1/2 and 1.
\<close>

section \<open>Alias keys\<close>

text \<open>
  The regular expression \<^verbatim>\<open>^([^:]+):([^-\s]+)(-.+)?$\<close>: its first group ends at the first colon, its
  second is the longest run of characters that are neither a hyphen nor white space, and what is left
  is empty or a hyphen with at least one character, none a line feed.
\<close>

definition re_space :: "char \<Rightarrow> bool" where
  "re_space c \<longleftrightarrow> byte c \<in> {9, 10, 12, 13, 32}"

definition tag_char :: "char \<Rightarrow> bool" where
  "tag_char c \<longleftrightarrow> c \<noteq> CHR ''-'' \<and> \<not> re_space c"

definition variant_ok :: "string \<Rightarrow> bool" where
  "variant_ok s \<longleftrightarrow> s = [] \<or> (hd s = CHR ''-'' \<and> tl s \<noteq> [] \<and> CHR 0x0A \<notin> set (tl s))"

definition AliasKey :: "string \<Rightarrow> string option" where
  "AliasKey i =
     (let m1 = takeWhile (\<lambda>c. c \<noteq> CHR '':'') i;
          rest = dropWhile (\<lambda>c. c \<noteq> CHR '':'') i
      in if m1 = [] \<or> rest = [] then None
         else
           let m2 = takeWhile tag_char (tl rest);
               suffix = dropWhile tag_char (tl rest)
           in if m2 = [] \<or> \<not> variant_ok suffix then None else Some (m1 @ '':'' @ m2))"

text \<open>What it means for the regular expression to match with the two groups.\<close>

definition alias_match :: "string \<Rightarrow> string \<Rightarrow> string \<Rightarrow> bool" where
  "alias_match i m1 m2 \<longleftrightarrow>
     (\<exists>v. i = m1 @ '':'' @ m2 @ v \<and> m1 \<noteq> [] \<and> CHR '':'' \<notin> set m1 \<and> m2 \<noteq> [] \<and>
       (\<forall>c \<in> set m2. tag_char c) \<and> variant_ok v)"

section \<open>Scorers\<close>

definition DefaultExactMatchScore :: "string \<Rightarrow> worker option \<Rightarrow> rat" where
  "DefaultExactMatchScore task wo =
     (case wo of None \<Rightarrow> 0 | Some w \<Rightarrow> if HasLabel w task then 1 else 0)"

fun alias_loop :: "string \<Rightarrow> string list \<Rightarrow> rat" where
  "alias_loop ak [] = 0"
| "alias_loop ak (m # ms) = (if AliasKey m = Some ak then 1/2 else alias_loop ak ms)"

definition llmScore :: "string \<Rightarrow> worker option \<Rightarrow> rat" where
  "llmScore task wo =
     (case wo of
        None \<Rightarrow> 0
      | Some w \<Rightarrow>
          if HasLabel w task then 1
          else case AliasKey task of None \<Rightarrow> 0 | Some ak \<Rightarrow> alias_loop ak (w_labels w))"

definition asrScore :: "string \<Rightarrow> worker option \<Rightarrow> rat" where
  "asrScore task wo =
     (case wo of
        None \<Rightarrow> 0
      | Some w \<Rightarrow>
          if HasLabel w task then 1
          else case AliasKey task of None \<Rightarrow> 0 | Some ak \<Rightarrow> alias_loop ak (w_labels w))"

definition AlwaysEligibleScore :: "string \<Rightarrow> worker option \<Rightarrow> rat" where
  "AlwaysEligibleScore task wo = 1"

section \<open>The choice\<close>

record scheduler =
  sch_score :: "string \<Rightarrow> worker option \<Rightarrow> rat"
  sch_min :: rat

definition NewScoreScheduler :: "(string \<Rightarrow> worker option \<Rightarrow> rat) option \<Rightarrow> scheduler" where
  "NewScoreScheduler scorer =
     \<lparr>sch_score = (case scorer of None \<Rightarrow> DefaultExactMatchScore | Some f \<Rightarrow> f), sch_min = 0\<rparr>"

definition NewScoreSchedulerWithMinScore ::
  "(string \<Rightarrow> worker option \<Rightarrow> rat) option \<Rightarrow> rat \<Rightarrow> scheduler" where
  "NewScoreSchedulerWithMinScore scorer m = (NewScoreScheduler scorer)\<lparr>sch_min := m\<rparr>"

text \<open>The loop that keeps the workers of the best score so far.\<close>

fun best_loop ::
  "scheduler \<Rightarrow> string \<Rightarrow> worker list \<Rightarrow> worker list \<Rightarrow> rat \<Rightarrow> worker list" where
  "best_loop s task [] best bestScore = best"
| "best_loop s task (w # ws) best bestScore =
     (let capOK = w_inflight w < w_max w;
          score = (if capOK then sch_score s task (Some w) else 0)
      in if \<not> capOK then best_loop s task ws best bestScore
         else if score < sch_min s then best_loop s task ws best bestScore
         else if best = [] \<or> bestScore < score then best_loop s task ws [w] score
         else if score = bestScore then best_loop s task ws (best @ [w]) bestScore
         else best_loop s task ws best bestScore)"

fun least_busy :: "worker \<Rightarrow> worker list \<Rightarrow> worker" where
  "least_busy chosen [] = chosen"
| "least_busy chosen (w # ws) = least_busy (if w_inflight w < w_inflight chosen then w else chosen) ws"

definition choose_worker :: "scheduler \<Rightarrow> string \<Rightarrow> worker list \<Rightarrow> worker option" where
  "choose_worker s task ws =
     (case best_loop s task ws [] 0 of [] \<Rightarrow> None | b # bs \<Rightarrow> Some (least_busy b bs))"

text \<open>\<open>None\<close> is the error \<^verbatim>\<open>no worker\<close>.\<close>

definition PickWorker :: "scheduler \<Rightarrow> string list \<Rightarrow> string \<Rightarrow> wstate \<Rightarrow> worker option" where
  "PickWorker s order task st =
     choose_worker s task (List.map_filter (ws_heap st) (Snapshot order st))"

section \<open>Lemmas\<close>

lemma takeWhile_split:
  assumes "c \<notin> set xs"
  shows "takeWhile (\<lambda>d. d \<noteq> c) (xs @ c # ys) = xs" "dropWhile (\<lambda>d. d \<noteq> c) (xs @ c # ys) = c # ys"
  using assms by (induction xs) auto

lemma tag_split:
  assumes "\<forall>c \<in> set m. tag_char c" "v = [] \<or> \<not> tag_char (hd v)"
  shows "takeWhile tag_char (m @ v) = m" "dropWhile tag_char (m @ v) = v"
  using assms by (induction m) (cases v; auto)+

lemma variant_not_tag: "variant_ok v \<Longrightarrow> v = [] \<or> \<not> tag_char (hd v)"
  by (auto simp: variant_ok_def tag_char_def)

lemma AliasKey_matches: "alias_match i m1 m2 \<Longrightarrow> AliasKey i = Some (m1 @ '':'' @ m2)"
proof -
  assume "alias_match i m1 m2"
  then obtain v where v: "i = m1 @ CHR '':'' # m2 @ v" "m1 \<noteq> []" "CHR '':'' \<notin> set m1" "m2 \<noteq> []"
    "\<forall>c \<in> set m2. tag_char c" "variant_ok v" by (auto simp: alias_match_def)
  from tag_split [OF v(5) variant_not_tag [OF v(6)]] takeWhile_split [OF v(3), of "m2 @ v"] v
  show ?thesis by (simp add: AliasKey_def Let_def)
qed

lemma AliasKey_sound: "AliasKey i = Some k \<Longrightarrow> \<exists>m1 m2. alias_match i m1 m2 \<and> k = m1 @ '':'' @ m2"
proof -
  assume k: "AliasKey i = Some k"
  define m1 where "m1 = takeWhile (\<lambda>c. c \<noteq> CHR '':'') i"
  define rest where "rest = dropWhile (\<lambda>c. c \<noteq> CHR '':'') i"
  define m2 where "m2 = takeWhile tag_char (tl rest)"
  define v where "v = dropWhile tag_char (tl rest)"
  from k have c: "m1 \<noteq> []" "rest \<noteq> []" "m2 \<noteq> []" "variant_ok v" "k = m1 @ '':'' @ m2"
    by (auto simp: AliasKey_def Let_def m1_def rest_def m2_def v_def split: if_splits)
  have "hd rest = CHR '':''" using c(2) hd_dropWhile [of "\<lambda>c. c \<noteq> CHR '':''" i] by (simp add: rest_def)
  with c(2) have "rest = CHR '':'' # tl rest" by (metis list.collapse)
  moreover have "i = m1 @ rest" by (simp add: m1_def rest_def)
  moreover have "tl rest = m2 @ v" by (simp add: m2_def v_def)
  ultimately have "i = m1 @ '':'' @ m2 @ v" by (metis append_Cons append_Nil)
  moreover have "CHR '':'' \<notin> set m1" by (auto simp: m1_def dest: set_takeWhileD)
  moreover have "\<forall>c \<in> set m2. tag_char c" by (auto simp: m2_def dest: set_takeWhileD)
  ultimately have "alias_match i m1 m2" using c by (auto simp: alias_match_def)
  with c(5) show ?thesis by blast
qed

definition eligible :: "scheduler \<Rightarrow> string \<Rightarrow> worker \<Rightarrow> bool" where
  "eligible s task w \<longleftrightarrow> has_room w \<and> sch_min s \<le> sch_score s task (Some w)"

definition best_inv :: "(worker \<Rightarrow> rat) \<Rightarrow> (worker \<Rightarrow> bool) \<Rightarrow> worker list \<Rightarrow> worker list \<Rightarrow> rat \<Rightarrow> bool" where
  "best_inv f el seen best b \<longleftrightarrow>
     (\<forall>w \<in> set best. w \<in> set seen \<and> el w \<and> f w = b) \<and>
     (\<forall>u \<in> set seen. el u \<longrightarrow> best \<noteq> [] \<and> (f u < b \<or> (f u = b \<and> u \<in> set best)))"

lemma best_inv_skip:
  "best_inv f el seen best b \<Longrightarrow> \<not> el w \<Longrightarrow> best_inv f el (seen @ [w]) best b"
  by (auto simp: best_inv_def)

lemma best_inv_new:
  assumes "best_inv f el seen best b" "el w" "best = [] \<or> b < f w"
  shows "best_inv f el (seen @ [w]) [w] (f w)"
proof -
  have "f u < f w" if "u \<in> set seen" "el u" for u
  proof -
    from assms(1) that have "best \<noteq> []" "f u \<le> b" by (auto simp: best_inv_def)
    with assms(3) show ?thesis by simp
  qed
  with assms(2) show ?thesis by (simp add: best_inv_def)
qed

lemma best_inv_tie:
  "best_inv f el seen best b \<Longrightarrow> el w \<Longrightarrow> best \<noteq> [] \<Longrightarrow> f w = b \<Longrightarrow> best_inv f el (seen @ [w]) (best @ [w]) b"
  by (simp add: best_inv_def) blast

lemma best_inv_lower:
  "best_inv f el seen best b \<Longrightarrow> best \<noteq> [] \<Longrightarrow> f w < b \<Longrightarrow> best_inv f el (seen @ [w]) best b"
  by (simp add: best_inv_def)

lemma best_loop_inv:
  "best_inv (\<lambda>w. sch_score s task (Some w)) (eligible s task) seen best b \<Longrightarrow>
   \<exists>b'. best_inv (\<lambda>w. sch_score s task (Some w)) (eligible s task) (seen @ ws) (best_loop s task ws best b) b'"
proof (induction ws arbitrary: seen best b)
  case (Cons w ws)
  show ?case
  proof (cases "eligible s task w")
    case False
    then have "best_loop s task (w # ws) best b = best_loop s task ws best b"
      by (auto simp: eligible_def has_room_def Let_def)
    with Cons.IH [OF best_inv_skip [OF Cons.prems False]] show ?thesis by simp
  next
    case True
    then have el: "w_inflight w < w_max w" "\<not> sch_score s task (Some w) < sch_min s"
      by (auto simp: eligible_def has_room_def)
    consider (new) "best = [] \<or> b < sch_score s task (Some w)"
      | (tie) "best \<noteq> []" "sch_score s task (Some w) = b"
      | (low) "best \<noteq> []" "sch_score s task (Some w) < b" by fastforce
    then show ?thesis
    proof cases
      case new
      with el have "best_loop s task (w # ws) best b = best_loop s task ws [w] (sch_score s task (Some w))"
        by (simp add: Let_def)
      with Cons.IH [OF best_inv_new [OF Cons.prems True new]] show ?thesis by simp
    next
      case tie
      with el have "best_loop s task (w # ws) best b = best_loop s task ws (best @ [w]) b"
        by (simp add: Let_def)
      with Cons.IH [OF best_inv_tie [OF Cons.prems True tie]] show ?thesis by simp
    next
      case low
      with el have "best_loop s task (w # ws) best b = best_loop s task ws best b"
        by (auto simp: Let_def)
      with Cons.IH [OF best_inv_lower [OF Cons.prems low]] show ?thesis by simp
    qed
  qed
qed auto

lemma least_busy_in: "least_busy b bs \<in> set (b # bs)"
  by (induction bs arbitrary: b) auto

lemma least_busy_least: "\<forall>w \<in> set (b # bs). w_inflight (least_busy b bs) \<le> w_inflight w"
proof (induction bs arbitrary: b)
  case (Cons w ws)
  define c where "c = (if w_inflight w < w_inflight b then w else b)"
  have "\<forall>u \<in> set (c # ws). w_inflight (least_busy c ws) \<le> w_inflight u" by (rule Cons.IH)
  moreover have "w_inflight c \<le> w_inflight w" "w_inflight c \<le> w_inflight b" by (simp_all add: c_def)
  ultimately have "w_inflight (least_busy c ws) \<le> w_inflight u" if "u \<in> set (b # w # ws)" for u
    using that by force
  then show ?case by (simp add: c_def)
qed simp

lemma choose_worker_spec:
  "case choose_worker s task ws of
     None \<Rightarrow> \<forall>w \<in> set ws. \<not> eligible s task w
   | Some w \<Rightarrow> w \<in> set ws \<and> eligible s task w \<and>
       (\<forall>u \<in> set ws. eligible s task u \<longrightarrow>
          sch_score s task (Some u) < sch_score s task (Some w) \<or>
          (sch_score s task (Some u) = sch_score s task (Some w) \<and> w_inflight w \<le> w_inflight u))"
proof -
  have "best_inv (\<lambda>w. sch_score s task (Some w)) (eligible s task) [] [] 0" by (simp add: best_inv_def)
  from best_loop_inv [OF this, of ws] obtain b where
    inv: "best_inv (\<lambda>w. sch_score s task (Some w)) (eligible s task) ws (best_loop s task ws [] 0) b" by auto
  show ?thesis
  proof (cases "best_loop s task ws [] 0")
    case Nil
    with inv show ?thesis by (auto simp: choose_worker_def best_inv_def)
  next
    case (Cons m ms)
    let ?l = "least_busy m ms"
    have i: "?l \<in> set (m # ms)" by (rule least_busy_in)
    have "\<forall>w \<in> set (m # ms). w \<in> set ws \<and> eligible s task w \<and> sch_score s task (Some w) = b"
      using inv unfolding best_inv_def Cons by blast
    with i have l: "?l \<in> set ws" "eligible s task ?l" "sch_score s task (Some ?l) = b" by blast+
    have "sch_score s task (Some u) < b \<or> (sch_score s task (Some u) = b \<and> w_inflight ?l \<le> w_inflight u)"
      if "u \<in> set ws" "eligible s task u" for u
    proof -
      have "sch_score s task (Some u) < b \<or> (sch_score s task (Some u) = b \<and> u \<in> set (m # ms))"
        using inv that unfolding best_inv_def Cons by blast
      then show ?thesis using least_busy_least [of m ms] by blast
    qed
    with l Cons show ?thesis by (simp add: choose_worker_def)
  qed
qed


lemma fetched:
  assumes "range_order order (ws_table st)"
  shows "w \<in> set (List.map_filter (ws_heap st) (Snapshot order st)) \<longleftrightarrow>
    (\<exists>i p. ws_table st i = Some p \<and> ws_heap st p = Some w)"
  using set_range_values [OF assms] by (auto simp: set_map_filter_iff Snapshot_def ran_def)

lemma alias_loop_half: "alias_loop ak ms = (if \<exists>m \<in> set ms. AliasKey m = Some ak then 1/2 else 0)"
  by (induction ms) auto

lemma llmScore_cases:
  "llmScore task (Some w) =
     (if task \<in> set (w_labels w) then 1
      else if \<exists>k. AliasKey task = Some k \<and> (\<exists>m \<in> set (w_labels w). AliasKey m = Some k) then 1/2 else 0)"
  by (auto simp: llmScore_def HasLabel_def alias_loop_half split: option.splits)

section \<open>Properties\<close>

text \<open>
  C30: the worker that gets a task is registered, has room, scores at least the minimum, no other
  such worker scores higher, and none with the same score is less busy; no worker is found only
  when no registered worker with room reaches the minimum.
\<close>

theorem pick_worker_best:
  assumes "range_order order (ws_table st)"
  shows "case PickWorker s order task st of
      None \<Rightarrow> (\<nexists>i p w. ws_table st i = Some p \<and> ws_heap st p = Some w \<and> w_inflight w < w_max w \<and>
                 sch_min s \<le> sch_score s task (Some w))
    | Some w \<Rightarrow> (\<exists>i p. ws_table st i = Some p \<and> ws_heap st p = Some w) \<and> w_inflight w < w_max w \<and>
        sch_min s \<le> sch_score s task (Some w) \<and>
        (\<nexists>i p u. ws_table st i = Some p \<and> ws_heap st p = Some u \<and> w_inflight u < w_max u \<and>
           sch_min s \<le> sch_score s task (Some u) \<and>
           (sch_score s task (Some w) < sch_score s task (Some u) \<or>
            (sch_score s task (Some w) = sch_score s task (Some u) \<and> w_inflight u < w_inflight w)))"
proof -
  note spec = choose_worker_spec [where s = s and task = task and ws = "List.map_filter (ws_heap st) (Snapshot order st)"]
  show ?thesis
  proof (cases "PickWorker s order task st")
    case None
    with spec show ?thesis by (auto simp: PickWorker_def fetched [OF assms] eligible_def has_room_def)
  next
    case (Some w)
    with spec have "w \<in> set (List.map_filter (ws_heap st) (Snapshot order st))" "eligible s task w"
      and best: "\<forall>u \<in> set (List.map_filter (ws_heap st) (Snapshot order st)). eligible s task u \<longrightarrow>
          sch_score s task (Some u) < sch_score s task (Some w) \<or>
          (sch_score s task (Some u) = sch_score s task (Some w) \<and> w_inflight w \<le> w_inflight u)"
      by (simp_all add: PickWorker_def)
    moreover have "\<not> (sch_score s task (Some w) < sch_score s task (Some u) \<or>
            (sch_score s task (Some w) = sch_score s task (Some u) \<and> w_inflight u < w_inflight w))"
      if "ws_table st i = Some p" "ws_heap st p = Some u" "w_inflight u < w_max u"
        "sch_min s \<le> sch_score s task (Some u)" for i p u
      using best that by (force simp: fetched [OF assms] eligible_def has_room_def)
    ultimately show ?thesis using Some by (fastforce simp: fetched [OF assms] eligible_def has_room_def)
  qed
qed

definition demo_worker :: "string \<Rightarrow> string \<Rightarrow> int \<Rightarrow> int \<Rightarrow> worker" where
  "demo_worker i label busy maxc =
     \<lparr>w_id = i, w_name = i, w_labels = [label], w_max = maxc, w_batch = 0, w_inflight = busy, w_heartbeat = 0,
      w_send = None, w_jobs = []\<rparr>"

definition demo_state :: wstate where
  "demo_state = \<lparr>ws_heap = [0 \<mapsto> demo_worker ''a'' ''m:7b-q4'' 2 4, 1 \<mapsto> demo_worker ''b'' ''m:7b-q8'' 1 4],
     ws_table = [''a'' \<mapsto> 0, ''b'' \<mapsto> 1], ws_chans = Map.empty\<rparr>"

lemma pick_worker_best_witness:
  "\<exists>w. PickWorker (NewScoreSchedulerWithMinScore (Some llmScore) (1/2)) [''a'', ''b''] ''m:7b'' demo_state = Some w \<and>
     w_id w = ''b'' \<and>
     (\<nexists>i p u. ws_table demo_state i = Some p \<and> ws_heap demo_state p = Some u \<and> w_inflight u < w_max u \<and>
        1/2 \<le> llmScore ''m:7b'' (Some u) \<and> llmScore ''m:7b'' (Some w) < llmScore ''m:7b'' (Some u))"
proof -
  let ?s = "NewScoreSchedulerWithMinScore (Some llmScore) (1/2)"
  have o: "range_order [''a'', ''b''] (ws_table demo_state)"
    by (auto simp: range_order_def demo_state_def)
  have "case PickWorker ?s [''a'', ''b''] ''m:7b'' demo_state of None \<Rightarrow> False | Some w \<Rightarrow> w_id w = ''b''"
    by code_simp
  then obtain w where w: "PickWorker ?s [''a'', ''b''] ''m:7b'' demo_state = Some w" "w_id w = ''b''"
    by (auto split: option.splits)
  from pick_worker_best [OF o, of ?s "''m:7b''"] w show ?thesis
    by (auto simp: NewScoreSchedulerWithMinScore_def NewScoreScheduler_def)
qed

text \<open>
  The alias key of a model name is the family and the tag, without the variant, exactly when
  the name has the form \<^verbatim>\<open>family:tag\<close> or \<^verbatim>\<open>family:tag-variant\<close>.
\<close>

theorem alias_key_iff: "AliasKey i = Some k \<longleftrightarrow> (\<exists>m1 m2. alias_match i m1 m2 \<and> k = m1 @ '':'' @ m2)"
proof
  assume "AliasKey i = Some k"
  then show "\<exists>m1 m2. alias_match i m1 m2 \<and> k = m1 @ '':'' @ m2" by (rule AliasKey_sound)
next
  assume "\<exists>m1 m2. alias_match i m1 m2 \<and> k = m1 @ '':'' @ m2"
  then obtain m1 m2 where "alias_match i m1 m2" "k = m1 @ '':'' @ m2" by blast
  with AliasKey_matches show "AliasKey i = Some k" by simp
qed

text \<open>
  The scheduler that is built without a minimum gives a task to a worker that scores 0 for it
  when no worker with room scores more.
\<close>

theorem zero_score_worker_gets_task:
  assumes "range_order order (ws_table st)"
    and "ws_table st i = Some p" "ws_heap st p = Some w" "w_inflight w < w_max w"
    and "\<And>i p u. ws_table st i = Some p \<Longrightarrow> ws_heap st p = Some u \<Longrightarrow> task \<notin> set (w_labels u)"
  shows "\<exists>w. PickWorker (NewScoreScheduler None) order task st = Some w \<and>
    sch_score (NewScoreScheduler None) task (Some w) = 0"
proof -
  let ?s = "NewScoreScheduler None"
  have sc: "sch_score ?s task (Some u) = (if task \<in> set (w_labels u) then 1 else 0)" "sch_min ?s = 0" for u
    by (simp_all add: NewScoreScheduler_def DefaultExactMatchScore_def HasLabel_def)
  note spec = choose_worker_spec [where s = ?s and task = task and ws = "List.map_filter (ws_heap st) (Snapshot order st)"]
  have "w \<in> set (List.map_filter (ws_heap st) (Snapshot order st))" "eligible ?s task w"
    using assms(1-4) by (auto simp: fetched [OF assms(1)] eligible_def has_room_def sc)
  with spec obtain v where v: "PickWorker ?s order task st = Some v"
    "v \<in> set (List.map_filter (ws_heap st) (Snapshot order st))"
    by (auto simp: PickWorker_def split: option.splits)
  with assms(5) show ?thesis by (fastforce simp: fetched [OF assms(1)] sc)
qed

lemma zero_score_worker_gets_task_witness:
  "\<exists>w. PickWorker (NewScoreScheduler None) [''a'', ''b''] ''other'' demo_state = Some w \<and>
     sch_score (NewScoreScheduler None) ''other'' (Some w) = 0"
proof (rule zero_score_worker_gets_task)
  show "range_order [''a'', ''b''] (ws_table demo_state)" by (auto simp: range_order_def demo_state_def)
  show "ws_table demo_state ''b'' = Some 1" by (simp add: demo_state_def)
  show "ws_heap demo_state 1 = Some (demo_worker ''b'' ''m:7b-q8'' 1 4)" by (simp add: demo_state_def)
  show "w_inflight (demo_worker ''b'' ''m:7b-q8'' 1 4) < w_max (demo_worker ''b'' ''m:7b-q8'' 1 4)"
    by (simp add: demo_worker_def)
  show "''other'' \<notin> set (w_labels u)" if "ws_table demo_state i = Some p" "ws_heap demo_state p = Some u" for i p u
    using that by (auto simp: demo_state_def demo_worker_def split: if_splits)
qed

end
