(* ===== verification/Models.thy ===== *)
theory Models
  imports Scheduler "HOL-Library.List_Lexorder" "HOL-Library.Char_ord"
begin

text \<open>
  The worker registry as the extensions see it (\<^verbatim>\<open>modules/llm/ext/adapters/worker_spi.go\<close>), the same
  registry narrowed to one worker (\<^verbatim>\<open>openai/targeted.go\<close>), and the model listings served from
  either (\<^verbatim>\<open>openai/models.go\<close>).
\<close>

section \<open>The registry of the extensions\<close>

record model_info =
  mi_id :: string
  mi_created :: int
  mi_owners :: "string list"

text \<open>\<open>ca_seen\<close> is \<^verbatim>\<open>firstSeen\<close>, in Unix seconds; a nil map reads like an empty one.\<close>

record catalogue =
  ca_reg :: wstate
  ca_seen :: "string \<rightharpoonup> int"

definition NewCatalogue :: "wstate \<Rightarrow> catalogue" where
  "NewCatalogue r = \<lparr>ca_reg = r, ca_seen = Map.empty\<rparr>"

definition snapshot_workers :: "string list \<Rightarrow> catalogue \<Rightarrow> worker list" where
  "snapshot_workers order c = List.map_filter (ws_heap (ca_reg c)) (Snapshot order (ca_reg c))"

definition spi_WorkersForLabel :: "string list \<Rightarrow> string \<Rightarrow> catalogue \<Rightarrow> worker list" where
  "spi_WorkersForLabel order model c =
     List.map_filter (ws_heap (ca_reg c)) (WorkersForLabel order model (ca_reg c))"

definition spi_IncInFlight :: "string \<Rightarrow> catalogue \<Rightarrow> catalogue" where
  "spi_IncInFlight i c = c\<lparr>ca_reg := IncInFlight i (ca_reg c)\<rparr>"

definition spi_DecInFlight :: "string \<Rightarrow> catalogue \<Rightarrow> catalogue" where
  "spi_DecInFlight i c = c\<lparr>ca_reg := DecInFlight i (ca_reg c)\<rparr>"

definition see :: "int \<Rightarrow> string \<Rightarrow> (string \<rightharpoonup> int) \<Rightarrow> (string \<rightharpoonup> int)" where
  "see now i fs = (case fs i of None \<Rightarrow> fs(i \<mapsto> now) | Some _ \<Rightarrow> fs)"

fun note_labels ::
  "int \<Rightarrow> string \<Rightarrow> string list \<Rightarrow> (string \<Rightarrow> string list) \<times> (string \<rightharpoonup> int) \<Rightarrow>
    (string \<Rightarrow> string list) \<times> (string \<rightharpoonup> int)" where
  "note_labels now name [] (om, fs) = (om, fs)"
| "note_labels now name (i # is) (om, fs) = note_labels now name is (om(i := om i @ [name]), see now i fs)"

fun note_workers ::
  "int \<Rightarrow> worker list \<Rightarrow> (string \<Rightarrow> string list) \<times> (string \<rightharpoonup> int) \<Rightarrow>
    (string \<Rightarrow> string list) \<times> (string \<rightharpoonup> int)" where
  "note_workers now [] acc = acc"
| "note_workers now (w # ws) acc = note_workers now ws (note_labels now (NameValue w) (LabelKeys w) acc)"

text \<open>
  The map of owners is visited in any order, but the result is sorted by id; the list of labels below
  is one such order.
\<close>

definition seen_at :: "(string \<rightharpoonup> int) \<Rightarrow> string \<Rightarrow> int" where
  "seen_at fs i = (case fs i of None \<Rightarrow> 0 | Some t \<Rightarrow> t)"

definition AggregatedModels :: "string list \<Rightarrow> int \<Rightarrow> catalogue \<Rightarrow> model_info list \<times> catalogue" where
  "AggregatedModels order now c =
     (let ws = snapshot_workers order c;
          (om, fs) = note_workers now ws (\<lambda>_. [], ca_seen c);
          ids = remdups (concat (map LabelKeys ws));
          res = map (\<lambda>i. \<lparr>mi_id = i, mi_created = seen_at fs i, mi_owners = sort (om i)\<rparr>) ids
      in (sort_key mi_id res, c\<lparr>ca_seen := fs\<rparr>))"

definition AggregatedModel :: "string list \<Rightarrow> string \<Rightarrow> int \<Rightarrow> catalogue \<Rightarrow> model_info option \<times> catalogue" where
  "AggregatedModel order i now c =
     (let owners = map NameValue (filter (\<lambda>w. HasLabel w i) (snapshot_workers order c)) in
      if owners = [] then (None, c)
      else
        let fs = see now i (ca_seen c) in
        (Some \<lparr>mi_id = i, mi_created = seen_at fs i, mi_owners = sort owners\<rparr>, c\<lparr>ca_seen := fs\<rparr>))"

definition HasWorker :: "string list \<Rightarrow> string \<Rightarrow> catalogue \<Rightarrow> bool" where
  "HasWorker order i c \<longleftrightarrow> (\<exists>w \<in> set (snapshot_workers order c). w_id w = i)"

fun worker_entries :: "int \<Rightarrow> string \<Rightarrow> string list \<Rightarrow> (string \<rightharpoonup> int) \<Rightarrow> model_info list \<times> (string \<rightharpoonup> int)" where
  "worker_entries now name [] fs = ([], fs)"
| "worker_entries now name (i # is) fs =
     (let fs = see now i fs;
          (ms, fs') = worker_entries now name is fs
      in (\<lparr>mi_id = i, mi_created = seen_at fs i, mi_owners = [name]\<rparr> # ms, fs'))"

fun find_worker :: "string \<Rightarrow> worker list \<Rightarrow> worker option" where
  "find_worker i [] = None"
| "find_worker i (w # ws) = (if w_id w \<noteq> i then find_worker i ws else Some w)"

definition WorkerModels :: "string list \<Rightarrow> string \<Rightarrow> int \<Rightarrow> catalogue \<Rightarrow> model_info list \<times> catalogue" where
  "WorkerModels order i now c =
     (case find_worker i (snapshot_workers order c) of
        None \<Rightarrow> ([], c)
      | Some w \<Rightarrow>
          let (res, fs) = worker_entries now (NameValue w) (LabelKeys w) (ca_seen c)
          in (sort_key mi_id res, c\<lparr>ca_seen := fs\<rparr>))"

section \<open>One worker's view\<close>

definition targeted_WorkersForLabel :: "string list \<Rightarrow> string \<Rightarrow> string \<Rightarrow> catalogue \<Rightarrow> worker list" where
  "targeted_WorkersForLabel order target label c =
     filter (\<lambda>w. w_id w = target) (spi_WorkersForLabel order label c)"

definition targeted_AggregatedModels ::
  "string list \<Rightarrow> string \<Rightarrow> int \<Rightarrow> catalogue \<Rightarrow> model_info list \<times> catalogue" where
  "targeted_AggregatedModels order target now c = WorkerModels order target now c"

definition targeted_AggregatedModel ::
  "string list \<Rightarrow> string \<Rightarrow> string \<Rightarrow> int \<Rightarrow> catalogue \<Rightarrow> model_info option \<times> catalogue" where
  "targeted_AggregatedModel order target i now c =
     (let (ms, c) = WorkerModels order target now c in (List.find (\<lambda>m. mi_id m = i) ms, c))"

definition targeted_HasWorker :: "string list \<Rightarrow> string \<Rightarrow> string \<Rightarrow> catalogue \<Rightarrow> bool" where
  "targeted_HasWorker order target i c \<longleftrightarrow> i = target \<and> HasWorker order i c"

definition targeted_WorkerModels ::
  "string list \<Rightarrow> string \<Rightarrow> string \<Rightarrow> int \<Rightarrow> catalogue \<Rightarrow> model_info list \<times> catalogue" where
  "targeted_WorkerModels order target i now c =
     (if i \<noteq> target then ([], c) else WorkerModels order i now c)"

definition targeted_PickWorker :: "string list \<Rightarrow> string \<Rightarrow> string \<Rightarrow> catalogue \<Rightarrow> worker option" where
  "targeted_PickWorker order target model c =
     (case targeted_WorkersForLabel order target model c of
        [] \<Rightarrow> None
      | w # ws \<Rightarrow> Some (least_busy w ws))"

section \<open>The listings\<close>

record model_item =
  it_id :: string
  it_created :: int
  it_owned_by :: string

datatype model_answer = ModelList "model_item list" | ModelItem model_item | ModelNotFound | NoWorker

definition item :: "model_info \<Rightarrow> model_item" where
  "item m = \<lparr>it_id = mi_id m, it_created = mi_created m, it_owned_by = join_on (CHR '','') (mi_owners m)\<rparr>"

definition ListModelsHandler ::
  "(int \<Rightarrow> 'c \<Rightarrow> model_info list \<times> 'c) \<Rightarrow> int \<Rightarrow> 'c \<Rightarrow> model_answer \<times> 'c" where
  "ListModelsHandler models now c = (let (ms, c) = models now c in (ModelList (map item ms), c))"

definition GetModelHandler ::
  "(string \<Rightarrow> int \<Rightarrow> 'c \<Rightarrow> model_info option \<times> 'c) \<Rightarrow> string \<Rightarrow> int \<Rightarrow> 'c \<Rightarrow> model_answer \<times> 'c" where
  "GetModelHandler model i now c =
     (case model i now c of
        (None, c) \<Rightarrow> (ModelNotFound, c)
      | (Some m, c) \<Rightarrow> (ModelItem (item m), c))"

definition TargetedListModelsHandler ::
  "string list \<Rightarrow> string \<Rightarrow> int \<Rightarrow> catalogue \<Rightarrow> model_answer \<times> catalogue" where
  "TargetedListModelsHandler order target now c =
     (if \<not> targeted_HasWorker order target target c then (NoWorker, c)
      else ListModelsHandler (targeted_AggregatedModels order target) now c)"

definition TargetedGetModelHandler ::
  "string list \<Rightarrow> string \<Rightarrow> string \<Rightarrow> int \<Rightarrow> catalogue \<Rightarrow> model_answer \<times> catalogue" where
  "TargetedGetModelHandler order target i now c =
     (if \<not> targeted_HasWorker order target target c then (NoWorker, c)
      else
        case targeted_AggregatedModel order target i now c of
          (None, c) \<Rightarrow> (ModelNotFound, c)
        | (Some m, c) \<Rightarrow> (ModelItem (item m), c))"

section \<open>The contract of a catalogue\<close>

locale model_catalogue =
  fixes models :: "int \<Rightarrow> 'c \<Rightarrow> model_info list \<times> 'c"
    and model :: "string \<Rightarrow> int \<Rightarrow> 'c \<Rightarrow> model_info option \<times> 'c"
    and ok :: "'c \<Rightarrow> bool"
  assumes listed_sorted: "ok c \<Longrightarrow> sorted (map mi_id (fst (models t c))) \<and> distinct (map mi_id (fst (models t c)))"
    and listed_found: "ok c \<Longrightarrow> m \<in> set (fst (models t c)) \<Longrightarrow> fst (model (mi_id m) u (snd (models t c))) = Some m"
    and found_listed: "ok c \<Longrightarrow> fst (model i u (snd (models t c))) \<noteq> None \<Longrightarrow> i \<in> mi_id ` set (fst (models t c))"
begin

lemma get_iff_listed:
  assumes "ok c"
  shows "fst (GetModelHandler model i u (snd (ListModelsHandler models t c))) = ModelItem x \<longleftrightarrow>
    (\<exists>m \<in> set (fst (models t c)). mi_id m = i \<and> item m = x)"
proof -
  have s: "snd (ListModelsHandler models t c) = snd (models t c)"
    by (simp add: ListModelsHandler_def split: prod.splits)
  have g: "fst (GetModelHandler model i u d) = ModelItem x \<longleftrightarrow> (\<exists>m. fst (model i u d) = Some m \<and> item m = x)" for d
    by (auto simp: GetModelHandler_def split: prod.splits option.splits)
  show ?thesis
  proof
    assume "fst (GetModelHandler model i u (snd (ListModelsHandler models t c))) = ModelItem x"
    then obtain m where m: "fst (model i u (snd (models t c))) = Some m" "item m = x" by (auto simp: s g)
    with found_listed [OF assms] obtain m' where "m' \<in> set (fst (models t c))" "mi_id m' = i" by blast
    with listed_found [OF assms this(1), of u] m show "\<exists>m \<in> set (fst (models t c)). mi_id m = i \<and> item m = x" by auto
  next
    assume "\<exists>m \<in> set (fst (models t c)). mi_id m = i \<and> item m = x"
    with listed_found [OF assms] show "fst (GetModelHandler model i u (snd (ListModelsHandler models t c))) = ModelItem x"
      by (auto simp: s g)
  qed
qed

lemma get_missing_iff:
  assumes "ok c"
  shows "fst (GetModelHandler model i u (snd (ListModelsHandler models t c))) = ModelNotFound \<longleftrightarrow>
    i \<notin> mi_id ` set (fst (models t c))"
proof -
  have "fst (GetModelHandler model i u d) = ModelNotFound \<longleftrightarrow> (\<nexists>x. fst (GetModelHandler model i u d) = ModelItem x)" for d
    by (auto simp: GetModelHandler_def split: prod.splits option.splits)
  with get_iff_listed [OF assms] show ?thesis by auto
qed

end


section \<open>Lemmas\<close>

definition labels_ok :: "catalogue \<Rightarrow> bool" where
  "labels_ok c \<longleftrightarrow> (\<forall>p w. ws_heap (ca_reg c) p = Some w \<longrightarrow> distinct (w_labels w))"

definition seen_after :: "int \<Rightarrow> string set \<Rightarrow> (string \<rightharpoonup> int) \<Rightarrow> (string \<rightharpoonup> int)" where
  "seen_after now A fs = (\<lambda>i. if i \<in> A \<and> fs i = None then Some now else fs i)"

lemma see_after: "see now i fs = seen_after now {i} fs"
  by (auto simp: see_def seen_after_def fun_eq_iff split: option.splits)

lemma seen_after_after [simp]: "seen_after now A (seen_after now B fs) = seen_after now (A \<union> B) fs"
  by (auto simp: seen_after_def)

lemma seen_after_empty [simp]: "seen_after now {} fs = fs"
  by (simp add: seen_after_def)

lemma seen_again: "A \<subseteq> B \<Longrightarrow> seen_after u A (seen_after now B fs) = seen_after now B fs"
  by (auto simp: seen_after_def fun_eq_iff)

lemma note_labels_eq:
  "distinct is \<Longrightarrow> note_labels now name is (om, fs) =
     (\<lambda>i. om i @ (if i \<in> set is then [name] else []), seen_after now (set is) fs)"
proof (induction "is" arbitrary: om fs)
  case (Cons i "is")
  have "insert i (set is) = set is \<union> {i}" by blast
  with Cons show ?case by (auto simp: see_after)
qed simp

lemma note_workers_eq:
  "(\<forall>w \<in> set ws. distinct (w_labels w)) \<Longrightarrow> note_workers now ws (om, fs) =
     (\<lambda>i. om i @ map NameValue (filter (\<lambda>w. HasLabel w i) ws), seen_after now (\<Union>w \<in> set ws. set (w_labels w)) fs)"
proof (induction ws arbitrary: om fs)
  case (Cons w ws)
  have "set (w_labels w) \<union> (\<Union>w \<in> set ws. set (w_labels w)) = (\<Union>w \<in> set ws. set (w_labels w)) \<union> set (w_labels w)"
    by blast
  with Cons show ?case by (auto simp: LabelKeys_def HasLabel_def note_labels_eq)
qed simp

lemma worker_entries_eq:
  "worker_entries now name is fs =
     (map (\<lambda>i. \<lparr>mi_id = i, mi_created = seen_at (seen_after now (set is) fs) i, mi_owners = [name]\<rparr>) is,
      seen_after now (set is) fs)"
proof (induction "is" arbitrary: fs)
  case (Cons i "is")
  have "seen_at (seen_after now {i} fs) i = seen_at (seen_after now (insert i (set is)) fs) i"
    by (simp add: seen_at_def seen_after_def)
  then show ?case unfolding worker_entries.simps Let_def see_after Cons.IH by simp
qed simp

lemma snapshot_labels_ok: "labels_ok c \<Longrightarrow> w \<in> set (snapshot_workers order c) \<Longrightarrow> distinct (w_labels w)"
  by (auto simp: labels_ok_def snapshot_workers_def set_map_filter_iff)

lemma snapshot_seen [simp]: "snapshot_workers order (c\<lparr>ca_seen := fs\<rparr>) = snapshot_workers order c"
  by (simp add: snapshot_workers_def)

text \<open>The listing in closed form, for both catalogues.\<close>

definition all_labels :: "string list \<Rightarrow> catalogue \<Rightarrow> string set" where
  "all_labels order c = (\<Union>w \<in> set (snapshot_workers order c). set (w_labels w))"

definition entry :: "string list \<Rightarrow> int \<Rightarrow> catalogue \<Rightarrow> string \<Rightarrow> model_info" where
  "entry order now c i =
     \<lparr>mi_id = i, mi_created = seen_at (seen_after now (all_labels order c) (ca_seen c)) i,
      mi_owners = sort (map NameValue (filter (\<lambda>w. HasLabel w i) (snapshot_workers order c)))\<rparr>"

lemma AggregatedModels_eq:
  assumes "labels_ok c"
  shows "AggregatedModels order now c =
    (sort_key mi_id (map (entry order now c) (remdups (concat (map LabelKeys (snapshot_workers order c))))),
     c\<lparr>ca_seen := seen_after now (all_labels order c) (ca_seen c)\<rparr>)"
proof -
  have d: "\<forall>w \<in> set (snapshot_workers order c). distinct (w_labels w)"
    using snapshot_labels_ok [OF assms] by blast
  show ?thesis
    unfolding AggregatedModels_def Let_def note_workers_eq [OF d] case_prod_conv
    by (simp add: entry_def all_labels_def [symmetric] cong: map_cong)
qed

lemma labels_set: "set (concat (map LabelKeys (snapshot_workers order c))) = all_labels order c"
  by (auto simp: all_labels_def LabelKeys_def)

lemma owners_Nil: "filter (\<lambda>w. HasLabel w i) (snapshot_workers order c) = [] \<longleftrightarrow> i \<notin> all_labels order c"
  by (auto simp: all_labels_def HasLabel_def filter_empty_conv)

lemma sort_key_ids:
  "map mi_id ms = ids \<Longrightarrow> distinct ids \<Longrightarrow>
   sorted (map mi_id (sort_key mi_id ms)) \<and> distinct (map mi_id (sort_key mi_id ms))"
  by (metis distinct_map distinct_sort set_sort sorted_sort_key)

interpretation all_workers: model_catalogue "AggregatedModels order" "AggregatedModel order" labels_ok
proof unfold_locales
  fix c :: catalogue and t :: int
  assume ok: "labels_ok c"
  let ?ids = "remdups (concat (map LabelKeys (snapshot_workers order c)))"
  have "map mi_id (map (entry order t c) ?ids) = ?ids" by (simp add: entry_def comp_def)
  from sort_key_ids [OF this distinct_remdups]
  show "sorted (map mi_id (fst (AggregatedModels order t c))) \<and> distinct (map mi_id (fst (AggregatedModels order t c)))"
    by (simp add: AggregatedModels_eq [OF ok])
next
  fix c :: catalogue and m t u
  assume ok: "labels_ok c" and m: "m \<in> set (fst (AggregatedModels order t c))"
  then obtain i where i: "i \<in> all_labels order c" "m = entry order t c i"
    by (auto simp: AggregatedModels_eq [OF ok] labels_set [symmetric])
  have "filter (\<lambda>w. HasLabel w i) (snapshot_workers order c) \<noteq> []" using i by (simp add: owners_Nil)
  with i show "fst (AggregatedModel order (mi_id m) u (snd (AggregatedModels order t c))) = Some m"
    by (simp add: AggregatedModel_def AggregatedModels_eq [OF ok] entry_def Let_def see_after seen_again)
next
  fix c :: catalogue and i u t
  assume ok: "labels_ok c" and f: "fst (AggregatedModel order i u (snd (AggregatedModels order t c))) \<noteq> None"
  then have "i \<in> all_labels order c"
    by (auto simp: AggregatedModel_def AggregatedModels_eq [OF ok] Let_def owners_Nil split: if_splits)
  then have "mi_id (entry order t c i) = i \<and>
      entry order t c i \<in> set (fst (AggregatedModels order t c))"
    unfolding AggregatedModels_eq [OF ok] fst_conv set_sort set_map set_remdups labels_set
    by (simp add: entry_def)
  then show "i \<in> mi_id ` set (fst (AggregatedModels order t c))" by (metis imageI)
qed


lemma WorkerModels_eq:
  "WorkerModels order target now c =
     (case find_worker target (snapshot_workers order c) of
        None \<Rightarrow> ([], c)
      | Some w \<Rightarrow>
          (sort_key mi_id (map (\<lambda>i. \<lparr>mi_id = i,
             mi_created = seen_at (seen_after now (set (w_labels w)) (ca_seen c)) i, mi_owners = [w_name w]\<rparr>) (w_labels w)),
           c\<lparr>ca_seen := seen_after now (set (w_labels w)) (ca_seen c)\<rparr>))"
  by (simp add: WorkerModels_def worker_entries_eq LabelKeys_def NameValue_def split: option.splits)

lemma WorkerModels_again:
  "fst (WorkerModels order target u (snd (WorkerModels order target t c))) = fst (WorkerModels order target t c)"
  by (simp add: WorkerModels_eq seen_again split: option.splits)

lemma find_worker_in: "find_worker i ws = Some w \<Longrightarrow> w \<in> set ws \<and> w_id w = i"
  by (induction ws) (auto split: if_splits)

lemma find_distinct: "distinct (map f ms) \<Longrightarrow> m \<in> set ms \<Longrightarrow> List.find (\<lambda>x. f x = f m) ms = Some m"
  by (induction ms) (auto simp: image_iff)

lemma WorkerModels_sorted:
  assumes "labels_ok c"
  shows "sorted (map mi_id (fst (WorkerModels order target t c))) \<and>
    distinct (map mi_id (fst (WorkerModels order target t c)))"
proof (cases "find_worker target (snapshot_workers order c)")
  case (Some w)
  with snapshot_labels_ok [OF assms] have "distinct (w_labels w)" by (blast dest: find_worker_in)
  then show ?thesis unfolding WorkerModels_eq Some option.case fst_conv
    by (intro sort_key_ids [where ids = "w_labels w"]) (simp_all add: comp_def)
qed (simp add: WorkerModels_eq)

interpretation one_worker: model_catalogue "targeted_AggregatedModels order target"
  "targeted_AggregatedModel order target" labels_ok
proof unfold_locales
  fix c :: catalogue and t :: int
  assume "labels_ok c"
  then show "sorted (map mi_id (fst (targeted_AggregatedModels order target t c))) \<and>
      distinct (map mi_id (fst (targeted_AggregatedModels order target t c)))"
    unfolding targeted_AggregatedModels_def by (rule WorkerModels_sorted)
next
  fix c :: catalogue and m t u
  assume ok: "labels_ok c" and m: "m \<in> set (fst (targeted_AggregatedModels order target t c))"
  from find_distinct [of mi_id, OF conjunct2 [OF WorkerModels_sorted [OF ok]]] m
  show "fst (targeted_AggregatedModel order target (mi_id m) u (snd (targeted_AggregatedModels order target t c))) = Some m"
    by (simp add: targeted_AggregatedModel_def targeted_AggregatedModels_def case_prod_beta WorkerModels_again)
next
  fix c :: catalogue and i u t
  assume "fst (targeted_AggregatedModel order target i u (snd (targeted_AggregatedModels order target t c))) \<noteq> None"
  then obtain m where "List.find (\<lambda>m. mi_id m = i) (fst (WorkerModels order target t c)) = Some m"
    by (auto simp: targeted_AggregatedModel_def targeted_AggregatedModels_def case_prod_beta WorkerModels_again)
  then have "m \<in> set (fst (WorkerModels order target t c)) \<and> mi_id m = i" by (auto simp: find_Some_iff)
  then show "i \<in> mi_id ` set (fst (targeted_AggregatedModels order target t c))"
    by (auto simp: targeted_AggregatedModels_def)
qed

section \<open>Properties\<close>

text \<open>
  A model can be fetched exactly when the listing just served names it, with the same creation
  time and owners, in the general catalogue as in the one of a single worker, whenever the request
  comes; the listing is in the order of the ids.
\<close>

theorem fetched_iff_listed:
  assumes "labels_ok c"
  shows "(fst (GetModelHandler (AggregatedModel order) i u (snd (ListModelsHandler (AggregatedModels order) t c))) =
      ModelItem x \<longleftrightarrow> (\<exists>ms. fst (ListModelsHandler (AggregatedModels order) t c) = ModelList ms \<and>
        x \<in> set ms \<and> it_id x = i)) \<and>
    (fst (GetModelHandler (targeted_AggregatedModel order target) i u
        (snd (ListModelsHandler (targeted_AggregatedModels order target) t c))) =
      ModelItem x \<longleftrightarrow> (\<exists>ms. fst (ListModelsHandler (targeted_AggregatedModels order target) t c) = ModelList ms \<and>
        x \<in> set ms \<and> it_id x = i)) \<and>
    (\<exists>ms. fst (ListModelsHandler (AggregatedModels order) t c) = ModelList ms \<and> sorted (map it_id ms) \<and>
      distinct (map it_id ms))"
proof -
  have l: "fst (ListModelsHandler models t d) = ModelList (map item (fst (models t d)))" for models t and d :: catalogue
    by (simp add: ListModelsHandler_def split: prod.splits)
  have i: "it_id (item m) = mi_id m" for m by (simp add: item_def)
  have ids: "map it_id (map item ms) = map mi_id ms" for ms by (simp add: i)
  have e: "(\<exists>m \<in> set ms. mi_id m = i \<and> item m = x) \<longleftrightarrow> (\<exists>l. map item ms = l \<and> x \<in> set l \<and> it_id x = i)" for ms
    by (auto simp: i)
  show ?thesis
    unfolding all_workers.get_iff_listed [OF assms] one_worker.get_iff_listed [OF assms] l model_answer.inject e
    using all_workers.listed_sorted [OF assms, of order t] by (auto simp: ids simp del: map_map)
qed

definition two_workers :: catalogue where
  "two_workers = NewCatalogue demo_state"

lemma fetched_iff_listed_witness:
  "fst (GetModelHandler (AggregatedModel [''a'', ''b'']) ''m:7b-q4'' 9
     (snd (ListModelsHandler (AggregatedModels [''a'', ''b'']) 5 two_workers))) =
   ModelItem \<lparr>it_id = ''m:7b-q4'', it_created = 5, it_owned_by = ''a''\<rparr>"
proof -
  have "labels_ok two_workers"
    by (auto simp: labels_ok_def two_workers_def NewCatalogue_def demo_state_def demo_worker_def split: if_splits)
  moreover have "fst (ListModelsHandler (AggregatedModels [''a'', ''b'']) 5 two_workers) = ModelList
      [\<lparr>it_id = ''m:7b-q4'', it_created = 5, it_owned_by = ''a''\<rparr>,
       \<lparr>it_id = ''m:7b-q8'', it_created = 5, it_owned_by = ''b''\<rparr>]" by code_simp
  ultimately show ?thesis using fetched_iff_listed [of two_workers "[''a'', ''b'']" "''m:7b-q4''" 9 5
      "\<lparr>it_id = ''m:7b-q4'', it_created = 5, it_owned_by = ''a''\<rparr>"] by simp
qed

end
