(* ===== verification/WorkerSafety.thy ===== *)
theory WorkerSafety
  imports Workers
begin

text \<open>
  Who may close which channel of the worker registry.  The registry, the request handlers and the
  connection loops run their critical sections in any order; a channel is held by at most one place
  that will close it, so no section closes a channel twice.  Sends are not protected this way.
\<close>

section \<open>The machine\<close>

text \<open>\<open>wm_taken\<close> are the channels a connection loop has taken out of a job table and will close.\<close>

record wmachine =
  wm_state :: wstate
  wm_taken :: "nat set"

datatype wevent =
    WNew nat worker
  | WRemove string
  | WPrune time duration string
  | WAddJob nat string nat nat
  | WRemoveJob nat string
  | WTake nat string
  | WFinish nat
  | WOffer nat wire
  | WRecv nat
  | WTouch nat "worker \<Rightarrow> worker"

definition lift_outcome :: "wmachine \<Rightarrow> wstate outcome \<Rightarrow> wmachine option" where
  "lift_outcome m o1 = (case o1 of Done s \<Rightarrow> Some (m\<lparr>wm_state := s\<rparr>) | _ \<Rightarrow> None)"

definition register :: "nat \<Rightarrow> worker \<Rightarrow> wstate \<Rightarrow> wstate" where
  "register p w s =
     Add p (s\<lparr>ws_heap := (ws_heap s)(p \<mapsto> w),
              ws_chans := (case w_send w of None \<Rightarrow> ws_chans s | Some n \<Rightarrow> (ws_chans s)(n \<mapsto> new_chan 32))\<rparr>)"

definition touch_ok :: "(worker \<Rightarrow> worker) \<Rightarrow> bool" where
  "touch_ok f \<longleftrightarrow> (\<forall>w. w_id (f w) = w_id w \<and> w_send (f w) = w_send w \<and> w_jobs (f w) = w_jobs w)"

text \<open>
  New pointers and channels are fresh; a registering worker has a send channel and no jobs; a job id
  is a fresh uuid, so it is not in the table.  \<open>WTouch\<close> covers the updates of labels, heartbeat,
  capacity and counters, which leave the channels alone.
\<close>

fun wguard1 :: "wevent \<Rightarrow> wmachine \<Rightarrow> bool" where
  "wguard1 (WNew p w) m =
     (ws_heap (wm_state m) p = None \<and> w_jobs w = [] \<and>
      (\<exists>n. w_send w = Some n \<and> ws_chans (wm_state m) n = None))"
| "wguard1 (WAddJob p i h cap) m =
     (ws_chans (wm_state m) h = None \<and>
      (\<exists>w. ws_heap (wm_state m) p = Some w \<and> i \<notin> fst ` set (w_jobs w)))"
| "wguard1 (WTake p i) m = (\<exists>n. job_chan p i (wm_state m) = Some (Some n))"
| "wguard1 (WFinish n) m = (n \<in> wm_taken m)"
| "wguard1 (WOffer n x) m = is_open n (ws_chans (wm_state m))"
| "wguard1 (WRecv n) m = (\<exists>x cs. recv_chan (Some n) (ws_chans (wm_state m)) = Done (x, cs))"
| "wguard1 (WTouch p f) m = touch_ok f"
| "wguard1 _ m = True"

fun wstep1 :: "wevent \<Rightarrow> wmachine \<Rightarrow> wmachine option" where
  "wstep1 (WNew p w) m = Some (m\<lparr>wm_state := register p w (wm_state m)\<rparr>)"
| "wstep1 (WRemove i) m = lift_outcome m (Remove i (wm_state m))"
| "wstep1 (WPrune now d i) m = lift_outcome m (prune_one now d i (wm_state m))"
| "wstep1 (WAddJob p i h cap) m =
     Some (m\<lparr>wm_state := AddJob p i (Some h)
       ((wm_state m)\<lparr>ws_chans := (ws_chans (wm_state m))(h \<mapsto> new_chan cap)\<rparr>)\<rparr>)"
| "wstep1 (WRemoveJob p i) m = lift_outcome m (RemoveJob p i (wm_state m))"
| "wstep1 (WTake p i) m =
     (case job_chan p i (wm_state m) of
        Some (Some n) \<Rightarrow> Some \<lparr>wm_state = forget_job p i (wm_state m), wm_taken = insert n (wm_taken m)\<rparr>
      | _ \<Rightarrow> Some m)"
| "wstep1 (WFinish n) m =
     map_option (\<lambda>m. m\<lparr>wm_taken := wm_taken m - {n}\<rparr>)
       (lift_outcome m (bind_outcome (close_chan (Some n) (ws_chans (wm_state m)))
          (\<lambda>cs. Done ((wm_state m)\<lparr>ws_chans := cs\<rparr>))))"
| "wstep1 (WOffer n x) m =
     lift_outcome m (bind_outcome (offer_chan (Some n) x (ws_chans (wm_state m)))
       (\<lambda>(_, cs). Done ((wm_state m)\<lparr>ws_chans := cs\<rparr>)))"
| "wstep1 (WRecv n) m =
     lift_outcome m (bind_outcome (recv_chan (Some n) (ws_chans (wm_state m)))
       (\<lambda>(_, cs). Done ((wm_state m)\<lparr>ws_chans := cs\<rparr>)))"
| "wstep1 (WTouch p f) m = Some (m\<lparr>wm_state := update_worker p f (wm_state m)\<rparr>)"

definition wguard :: "wevent \<Rightarrow> wmachine option \<Rightarrow> bool" where
  "wguard e s \<longleftrightarrow> (case s of None \<Rightarrow> False | Some m \<Rightarrow> wguard1 e m)"

definition wstep :: "wevent \<Rightarrow> wmachine option \<Rightarrow> wmachine option" where
  "wstep e s = Option.bind s (wstep1 e)"

section \<open>The invariant\<close>

datatype slot = SlotSend nat | SlotJob nat string | SlotTaken

fun holds :: "wstate \<Rightarrow> nat set \<Rightarrow> slot \<Rightarrow> nat \<Rightarrow> bool" where
  "holds s T (SlotSend p) n =
     (\<exists>w. ws_heap s p = Some w \<and> ws_table s (w_id w) = Some p \<and> w_send w = Some n)"
| "holds s T (SlotJob p k) n = (\<exists>w. ws_heap s p = Some w \<and> (k, Some n) \<in> set (w_jobs w))"
| "holds s T SlotTaken n = (n \<in> T)"

definition wsafe :: "wstate \<Rightarrow> nat set \<Rightarrow> bool" where
  "wsafe s T \<longleftrightarrow>
     (\<forall>sl n. holds s T sl n \<longrightarrow> is_open n (ws_chans s)) \<and>
     (\<forall>sl sl' n. holds s T sl n \<longrightarrow> holds s T sl' n \<longrightarrow> sl = sl') \<and>
     (\<forall>i p. ws_table s i = Some p \<longrightarrow> (\<exists>w n. ws_heap s p = Some w \<and> w_id w = i \<and> w_send w = Some n)) \<and>
     (\<forall>p w. ws_heap s p = Some w \<longrightarrow> distinct (map fst (w_jobs w)))"

definition winv :: "wmachine option \<Rightarrow> bool" where
  "winv s \<longleftrightarrow> (case s of None \<Rightarrow> False | Some m \<Rightarrow> wsafe (wm_state m) (wm_taken m))"

definition winit :: "wmachine option \<Rightarrow> bool" where
  "winit s \<longleftrightarrow> s = Some \<lparr>wm_state = NewWorkerRegistry, wm_taken = {}\<rparr>"

lemma wsafeD:
  assumes "wsafe s T"
  shows "holds s T sl n \<Longrightarrow> is_open n (ws_chans s)"
    and "holds s T sl n \<Longrightarrow> holds s T sl' n \<Longrightarrow> sl = sl'"
    and "ws_table s i = Some p \<Longrightarrow> \<exists>w n. ws_heap s p = Some w \<and> w_id w = i \<and> w_send w = Some n"
    and "ws_heap s p = Some w \<Longrightarrow> distinct (map fst (w_jobs w))"
  using assms unfolding wsafe_def by blast+

text \<open>A step that moves nothing between places and closes only what is no longer held is safe.\<close>

lemma wsafe_shrink:
  assumes "wsafe s T"
    and "\<And>sl n. holds s' T' sl n \<Longrightarrow> holds s T sl n \<and> is_open n (ws_chans s')"
    and "\<And>i p. ws_table s' i = Some p \<Longrightarrow> \<exists>w n. ws_heap s' p = Some w \<and> w_id w = i \<and> w_send w = Some n"
    and "\<And>p w. ws_heap s' p = Some w \<Longrightarrow> distinct (map fst (w_jobs w))"
  shows "wsafe s' T'"
  unfolding wsafe_def using assms wsafeD(2) [OF assms(1)] by blast

lemma wsafe_chans:
  assumes "wsafe s T" "\<And>k. is_open k (ws_chans s) \<Longrightarrow> is_open k cs"
  shows "wsafe (s\<lparr>ws_chans := cs\<rparr>) T"
proof -
  have "holds (s\<lparr>ws_chans := cs\<rparr>) T sl n = holds s T sl n" for sl n by (cases sl) auto
  with assms show ?thesis by (simp add: wsafe_def)
qed

section \<open>Eviction\<close>

lemma jobs_handles:
  assumes "wsafe s T" "ws_heap s p = Some w"
  shows "distinct (handles (map snd (w_jobs w)))"
    and "Some n \<in> set (map snd (w_jobs w)) \<Longrightarrow> is_open n (ws_chans s)"
proof -
  have "distinct (handles (map snd js))"
    if "set js \<subseteq> set (w_jobs w)" "distinct (map fst js)" for js
    using that
  proof (induction js)
    case (Cons kh js)
    obtain k h where kh: "kh = (k, h)" by (cases kh)
    from Cons have ih: "distinct (handles (map snd js))" by simp
    have "Some n \<notin> set (map snd js)" if "h = Some n" for n
    proof
      assume "Some n \<in> set (map snd js)"
      then obtain k' where k': "(k', Some n) \<in> set js" by auto
      with Cons.prems kh that have "holds s T (SlotJob p k') n" "holds s T (SlotJob p k) n"
        using assms(2) by auto
      then have "SlotJob p k' = SlotJob p k" by (rule wsafeD(2) [OF assms(1)])
      with k' Cons.prems(2) kh show False by force
    qed
    with ih kh show ?case by (auto split: option.splits)
  qed simp
  then show "distinct (handles (map snd (w_jobs w)))"
    using wsafeD(4) [OF assms] by blast
  show "is_open n (ws_chans s)" if "Some n \<in> set (map snd (w_jobs w))"
  proof -
    from that obtain k where "(k, Some n) \<in> set (w_jobs w)" by auto
    with assms(2) have "holds s T (SlotJob p k) n" by auto
    then show ?thesis by (rule wsafeD(1) [OF assms(1)])
  qed
qed

lemma evict:
  assumes safe: "wsafe s T" and tab: "ws_table s i = Some p" and hp: "ws_heap s p = Some w"
  shows "\<exists>s1 cs'. drop_jobs p (s\<lparr>ws_table := (ws_table s)(i := None)\<rparr>) = Done s1 \<and>
    ws_heap s1 p = Some (w\<lparr>w_jobs := []\<rparr>) \<and> close_chan (w_send w) (ws_chans s1) = Done cs' \<and>
    wsafe (s1\<lparr>ws_chans := cs'\<rparr>) T"
proof -
  obtain n where wid: "w_id w = i" and snd: "w_send w = Some n"
    using wsafeD(3) [OF safe tab] hp by auto
  let ?s0 = "s\<lparr>ws_table := (ws_table s)(i := None)\<rparr>"
  let ?hs = "map snd (w_jobs w)"
  have hn: "holds s T (SlotSend p) n" using hp wid tab snd by simp
  have nj: "Some n \<notin> set ?hs"
  proof
    assume "Some n \<in> set ?hs"
    then obtain k where "(k, Some n) \<in> set (w_jobs w)" by auto
    with hp have "holds s T (SlotJob p k) n" by auto
    with hn have "SlotSend p = SlotJob p k" by (rule wsafeD(2) [OF safe])
    then show False by simp
  qed
  from close_all_open [of ?hs "ws_chans s"] jobs_handles [OF safe hp] obtain cs where
    cs: "close_all ?hs (ws_chans s) = Done cs"
      "\<forall>k. Some k \<notin> set ?hs \<longrightarrow> cs k = ws_chans s k" by blast
  define s1 where "s1 = update_worker p (\<lambda>w. w\<lparr>w_jobs := []\<rparr>) (?s0\<lparr>ws_chans := cs\<rparr>)"
  have d: "drop_jobs p ?s0 = Done s1" using hp cs(1) by (simp add: drop_jobs_def s1_def)
  have heap: "ws_heap s1 q = (if q = p then Some (w\<lparr>w_jobs := []\<rparr>) else ws_heap s q)" for q
    using hp by (simp add: s1_def update_worker_heap)
  have rest: "ws_chans s1 = cs" "ws_table s1 = (ws_table s)(i := None)" by (simp_all add: s1_def)
  have "is_open n (ws_chans s)" using wsafeD(1) [OF safe hn] .
  then have "is_open n cs" using cs(2) nj is_open_cong by metis
  from close_open [OF this] obtain cs' where
    c: "close_chan (Some n) cs = Done cs'" "\<forall>k. k \<noteq> n \<longrightarrow> cs' k = cs k" by blast
  have "wsafe (s1\<lparr>ws_chans := cs'\<rparr>) T"
  proof (rule wsafe_shrink [OF safe])
    fix sl k
    assume h': "holds (s1\<lparr>ws_chans := cs'\<rparr>) T sl k"
    have h: "holds s T sl k"
    proof (cases sl)
      case (SlotSend q)
      with h' heap rest(2) wid show ?thesis by (auto split: if_splits)
    next
      case (SlotJob q j)
      with h' heap show ?thesis by (auto split: if_splits)
    next
      case SlotTaken
      with h' show ?thesis by simp
    qed
    have "k \<noteq> n"
    proof
      assume "k = n"
      with h hn have "sl = SlotSend p" using wsafeD(2) [OF safe] by blast
      with h' heap rest(2) wid show False by simp
    qed
    moreover have "Some k \<notin> set ?hs"
    proof
      assume "Some k \<in> set ?hs"
      then obtain j where "(j, Some k) \<in> set (w_jobs w)" by auto
      with hp have "holds s T (SlotJob p j) k" by auto
      with h have "sl = SlotJob p j" by (rule wsafeD(2) [OF safe])
      with h' heap show False by simp
    qed
    ultimately have "cs' k = ws_chans s k" using c(2) cs(2) by simp
    then have "is_open k cs' = is_open k (ws_chans s)" by (rule is_open_cong)
    with wsafeD(1) [OF safe h] h show "holds s T sl k \<and> is_open k (ws_chans (s1\<lparr>ws_chans := cs'\<rparr>))"
      by simp
  next
    fix j q
    assume "ws_table (s1\<lparr>ws_chans := cs'\<rparr>) j = Some q"
    with rest(2) have "j \<noteq> i" "ws_table s j = Some q" by (auto split: if_splits)
    with wsafeD(3) [OF safe this(2)] heap hp wid
    show "\<exists>w n. ws_heap (s1\<lparr>ws_chans := cs'\<rparr>) q = Some w \<and> w_id w = j \<and> w_send w = Some n" by auto
  next
    fix q v
    assume "ws_heap (s1\<lparr>ws_chans := cs'\<rparr>) q = Some v"
    with heap wsafeD(4) [OF safe] show "distinct (map fst (w_jobs v))" by (auto split: if_splits)
  qed
  with d heap c(1) snd rest(1) show ?thesis by auto
qed

lemma Remove_safe: "wsafe s T \<Longrightarrow> \<exists>s'. Remove i s = Done s' \<and> wsafe s' T"
proof (cases "ws_table s i")
  case (Some p)
  assume safe: "wsafe s T"
  from wsafeD(3) [OF safe Some] obtain w n where w: "ws_heap s p = Some w" "w_send w = Some n" by blast
  from evict [OF safe Some w(1)] w Some show ?thesis by (auto simp: Remove_def)
qed (simp add: Remove_def)

lemma prune_one_safe: "wsafe s T \<Longrightarrow> \<exists>s'. prune_one now d i s = Done s' \<and> wsafe s' T"
proof (cases "ws_table s i")
  case (Some p)
  assume safe: "wsafe s T"
  from wsafeD(3) [OF safe Some] obtain w n where w: "ws_heap s p = Some w" "w_send w = Some n" by blast
  from evict [OF safe Some w(1)] w Some safe show ?thesis by (auto simp: prune_one_def)
qed (simp add: prune_one_def)

section \<open>The other steps\<close>

lemma job_chan_holds: "job_chan p i s = Some (Some n) \<Longrightarrow> holds s T (SlotJob p i) n"
  by (auto simp: job_chan_def dest: map_of_SomeD split: option.splits)

lemma forget_holds:
  "holds (forget_job p i s) T sl n \<Longrightarrow> holds s T sl n \<and> sl \<noteq> SlotJob p i"
  by (cases sl) (auto simp: forget_job_def update_worker_heap split: if_splits)

lemma forget_rest:
  assumes "wsafe s T"
  shows "ws_table (forget_job p i s) j = Some q \<Longrightarrow>
      \<exists>w n. ws_heap (forget_job p i s) q = Some w \<and> w_id w = j \<and> w_send w = Some n"
    and "ws_heap (forget_job p i s) q = Some v \<Longrightarrow> distinct (map fst (w_jobs v))"
proof -
  show "\<exists>w n. ws_heap (forget_job p i s) q = Some w \<and> w_id w = j \<and> w_send w = Some n"
    if "ws_table (forget_job p i s) j = Some q"
    using that wsafeD(3) [OF assms, of j q] by (auto simp: forget_job_def update_worker_heap)
  have "distinct (map fst js) \<Longrightarrow> distinct (map fst (filter P js))" for P and js :: "(string \<times> nat option) list"
    by (induction js) auto
  then show "distinct (map fst (w_jobs v))" if "ws_heap (forget_job p i s) q = Some v"
    using that wsafeD(4) [OF assms] by (auto simp: forget_job_def update_worker_heap split: if_splits)
qed

lemma forget_safe: "wsafe s T \<Longrightarrow> wsafe (forget_job p i s) T"
proof -
  assume safe: "wsafe s T"
  show ?thesis
  proof (rule wsafe_shrink [OF safe])
    fix sl n
    assume "holds (forget_job p i s) T sl n"
    from forget_holds [OF this] have "holds s T sl n" by blast
    with wsafeD(1) [OF safe this]
    show "holds s T sl n \<and> is_open n (ws_chans (forget_job p i s))" by (simp add: forget_job_def)
  qed (rule forget_rest [OF safe], assumption)+
qed

lemma RemoveJob_safe: "wsafe s T \<Longrightarrow> \<exists>s'. RemoveJob p i s = Done s' \<and> wsafe s' T"
proof -
  assume safe: "wsafe s T"
  consider "job_chan p i s = None" | "job_chan p i s = Some None" | n where "job_chan p i s = Some (Some n)"
    by (metis option.exhaust)
  then show ?thesis
  proof cases
    case (3 n)
    note hn = job_chan_holds [OF 3, of T]
    from close_open [OF wsafeD(1) [OF safe hn]] obtain cs where
      c: "close_chan (Some n) (ws_chans s) = Done cs" "\<forall>k. k \<noteq> n \<longrightarrow> cs k = ws_chans s k" by blast
    have "wsafe ((forget_job p i s)\<lparr>ws_chans := cs\<rparr>) T"
    proof (rule wsafe_shrink [OF safe])
      fix sl k
      assume h': "holds ((forget_job p i s)\<lparr>ws_chans := cs\<rparr>) T sl k"
      then have "holds (forget_job p i s) T sl k" by (cases sl) auto
      from forget_holds [OF this] have h: "holds s T sl k" "sl \<noteq> SlotJob p i" by blast+
      have "k \<noteq> n" using h hn wsafeD(2) [OF safe] by blast
      with c(2) have "cs k = ws_chans s k" by simp
      then have "is_open k cs = is_open k (ws_chans s)" by (rule is_open_cong)
      with h(1) wsafeD(1) [OF safe h(1)]
      show "holds s T sl k \<and> is_open k (ws_chans ((forget_job p i s)\<lparr>ws_chans := cs\<rparr>))" by simp
    qed (use forget_rest [OF safe] in auto)
    with 3 c(1) show ?thesis by (simp add: RemoveJob_def)
  qed (use safe forget_safe [OF safe] in \<open>auto simp: RemoveJob_def\<close>)
qed

lemma take_safe:
  assumes safe: "wsafe s T" and n: "job_chan p i s = Some (Some n)"
  shows "wsafe (forget_job p i s) (insert n T)"
proof -
  note hn = job_chan_holds [OF n, of T]
  have h: "holds (forget_job p i s) (insert n T) sl k \<Longrightarrow>
      (holds s T sl k \<and> sl \<noteq> SlotJob p i) \<or> (sl = SlotTaken \<and> k = n)" for sl k
    using forget_holds [of p i s T sl k] by (cases sl) auto
  have op: "is_open k (ws_chans (forget_job p i s))" if "holds (forget_job p i s) (insert n T) sl k" for sl k
  proof -
    have "holds s T sl k \<or> holds s T (SlotJob p i) k" using h [OF that] hn by blast
    then have "is_open k (ws_chans s)" using wsafeD(1) [OF safe] by blast
    then show ?thesis by (simp add: forget_job_def)
  qed
  have un: "sl = sl'" if "holds (forget_job p i s) (insert n T) sl k"
    "holds (forget_job p i s) (insert n T) sl' k" for sl sl' k
    using h [OF that(1)] h [OF that(2)] wsafeD(2) [OF safe] hn by blast
  show ?thesis unfolding wsafe_def using op un forget_rest [OF safe] by blast
qed

lemma finish_safe:
  assumes safe: "wsafe s T" and n: "n \<in> T"
  shows "\<exists>cs. close_chan (Some n) (ws_chans s) = Done cs \<and> wsafe (s\<lparr>ws_chans := cs\<rparr>) (T - {n})"
proof -
  have hn: "holds s T SlotTaken n" using n by simp
  from close_open [OF wsafeD(1) [OF safe hn]] obtain cs where
    c: "close_chan (Some n) (ws_chans s) = Done cs" "\<forall>k. k \<noteq> n \<longrightarrow> cs k = ws_chans s k" by blast
  have "wsafe (s\<lparr>ws_chans := cs\<rparr>) (T - {n})"
  proof (rule wsafe_shrink [OF safe])
    fix sl k
    assume h': "holds (s\<lparr>ws_chans := cs\<rparr>) (T - {n}) sl k"
    then have h: "holds s T sl k" by (cases sl) auto
    have "k \<noteq> n"
    proof
      assume "k = n"
      with h hn have "sl = SlotTaken" using wsafeD(2) [OF safe] by blast
      with h' \<open>k = n\<close> show False by simp
    qed
    with c(2) have "cs k = ws_chans s k" by simp
    then have "is_open k cs = is_open k (ws_chans s)" by (rule is_open_cong)
    with h wsafeD(1) [OF safe h] show "holds s T sl k \<and> is_open k (ws_chans (s\<lparr>ws_chans := cs\<rparr>))" by simp
  qed (use wsafeD(3,4) [OF safe] in auto)
  with c(1) show ?thesis by blast
qed

lemma is_open_new: "is_open k (cs(n \<mapsto> new_chan cap)) = (k = n \<or> is_open k cs)"
  by (auto simp: is_open_def new_chan_def)

lemma register_safe:
  assumes safe: "wsafe s T" and p: "ws_heap s p = None" and w: "w_jobs w = []" "w_send w = Some n"
    and n: "ws_chans s n = None"
  shows "wsafe (register p w s) T"
proof -
  have nn: "\<not> holds s T sl n" for sl using wsafeD(1) [OF safe, of sl n] n by (auto simp: is_open_def)
  have r: "ws_heap (register p w s) = (ws_heap s)(p \<mapsto> w)"
    "ws_table (register p w s) = (ws_table s)(w_id w \<mapsto> p)"
    "ws_chans (register p w s) = (ws_chans s)(n \<mapsto> new_chan 32)"
    using w by (simp_all add: register_def Add_def)
  have h: "holds (register p w s) T sl k \<Longrightarrow> (holds s T sl k \<and> k \<noteq> n) \<or> (sl = SlotSend p \<and> k = n)" for sl k
  proof (cases sl)
    case (SlotSend q)
    assume "holds (register p w s) T sl k"
    with SlotSend r w p nn [of sl] show ?thesis by (fastforce split: if_splits)
  next
    case (SlotJob q j)
    assume "holds (register p w s) T sl k"
    with SlotJob r w nn [of sl] show ?thesis by (fastforce split: if_splits)
  next
    case SlotTaken
    assume "holds (register p w s) T sl k"
    with SlotTaken nn [of sl] show ?thesis by auto
  qed
  have op: "is_open k (ws_chans (register p w s))" if "holds (register p w s) T sl k" for sl k
    using h [OF that] wsafeD(1) [OF safe] by (auto simp: r is_open_new)
  have un: "sl = sl'" if "holds (register p w s) T sl k" "holds (register p w s) T sl' k" for sl sl' k
    using h [OF that(1)] h [OF that(2)] wsafeD(2) [OF safe] by blast
  have tb: "\<exists>v n. ws_heap (register p w s) q = Some v \<and> w_id v = j \<and> w_send v = Some n"
    if "ws_table (register p w s) j = Some q" for j q
    using that wsafeD(3) [OF safe, of j q] p w by (auto simp: r split: if_splits)
  have "distinct (map fst (w_jobs v))" if "ws_heap (register p w s) q = Some v" for q v
    using that wsafeD(4) [OF safe] w by (auto simp: r split: if_splits)
  with op un tb show ?thesis unfolding wsafe_def by blast
qed

lemma addjob_safe:
  assumes safe: "wsafe s T" and h: "ws_chans s h = None" and w: "ws_heap s p = Some w"
    and i: "i \<notin> fst ` set (w_jobs w)"
  shows "wsafe (AddJob p i (Some h) (s\<lparr>ws_chans := (ws_chans s)(h \<mapsto> new_chan cap)\<rparr>)) T"
proof -
  let ?s = "AddJob p i (Some h) (s\<lparr>ws_chans := (ws_chans s)(h \<mapsto> new_chan cap)\<rparr>)"
  have nn: "\<not> holds s T sl h" for sl using wsafeD(1) [OF safe, of sl h] h by (auto simp: is_open_def)
  have flt: "filter (\<lambda>(k, _). k \<noteq> i) (w_jobs w) = w_jobs w" using i by (force simp: filter_id_conv)
  have r: "ws_table ?s = ws_table s" "ws_chans ?s = (ws_chans s)(h \<mapsto> new_chan cap)"
    "ws_heap ?s q = (if q = p then Some (w\<lparr>w_jobs := (i, Some h) # w_jobs w\<rparr>) else ws_heap s q)" for q
    using w flt by (simp_all add: AddJob_def update_worker_heap put_job_def)
  have hs: "holds ?s T sl k \<Longrightarrow> (holds s T sl k \<and> k \<noteq> h) \<or> (sl = SlotJob p i \<and> k = h)" for sl k
  proof (cases sl)
    case (SlotSend q)
    assume "holds ?s T sl k"
    with SlotSend r w nn [of sl] show ?thesis by (fastforce split: if_splits)
  next
    case (SlotJob q j)
    assume "holds ?s T sl k"
    with SlotJob r w nn [of sl] show ?thesis by (fastforce split: if_splits)
  next
    case SlotTaken
    assume "holds ?s T sl k"
    with SlotTaken nn [of sl] show ?thesis by auto
  qed
  have op: "is_open k (ws_chans ?s)" if "holds ?s T sl k" for sl k
    using hs [OF that] wsafeD(1) [OF safe] by (auto simp: r is_open_new)
  have un: "sl = sl'" if "holds ?s T sl k" "holds ?s T sl' k" for sl sl' k
    using hs [OF that(1)] hs [OF that(2)] wsafeD(2) [OF safe] by blast
  have tb: "\<exists>w n. ws_heap ?s q = Some w \<and> w_id w = j \<and> w_send w = Some n"
    if "ws_table ?s j = Some q" for j q
    using that wsafeD(3) [OF safe, of j q] w by (auto simp: r split: if_splits)
  have "distinct (map fst (w_jobs v))" if "ws_heap ?s q = Some v" for q v
    using that wsafeD(4) [OF safe] w i by (auto simp: r split: if_splits)
  with op un tb show ?thesis unfolding wsafe_def by blast
qed

lemma touch_safe: "wsafe s T \<Longrightarrow> touch_ok f \<Longrightarrow> wsafe (update_worker p f s) T"
proof -
  assume safe: "wsafe s T" and f: "touch_ok f"
  have h: "holds (update_worker p f s) T sl n = holds s T sl n" for sl n
    using f by (cases sl) (auto simp: update_worker_heap touch_ok_def)
  show ?thesis
  proof (rule wsafe_shrink [OF safe])
    show "holds s T sl n \<and> is_open n (ws_chans (update_worker p f s))" if "holds (update_worker p f s) T sl n" for sl n
      using that wsafeD(1) [OF safe] by (simp add: h)
    show "\<exists>w n. ws_heap (update_worker p f s) q = Some w \<and> w_id w = i \<and> w_send w = Some n"
      if "ws_table (update_worker p f s) i = Some q" for i q
      using that wsafeD(3) [OF safe, of i q] f by (auto simp: update_worker_heap touch_ok_def)
    show "distinct (map fst (w_jobs v))" if "ws_heap (update_worker p f s) q = Some v" for q v
      using that wsafeD(4) [OF safe] f by (auto simp: update_worker_heap touch_ok_def split: if_splits)
  qed
qed

section \<open>Runs\<close>

lemma wstep1_safe:
  assumes "wsafe (wm_state m) (wm_taken m)" "wguard1 e m"
  shows "\<exists>m'. wstep1 e m = Some m' \<and> wsafe (wm_state m') (wm_taken m')"
proof (cases e)
  case (WNew p w)
  with assms register_safe show ?thesis by auto
next
  case (WRemove i)
  with Remove_safe [OF assms(1), of i] show ?thesis by (auto simp: lift_outcome_def)
next
  case (WPrune now d i)
  with prune_one_safe [OF assms(1), of now d i] show ?thesis by (auto simp: lift_outcome_def)
next
  case (WAddJob p i h cap)
  with assms addjob_safe show ?thesis by auto
next
  case (WRemoveJob p i)
  with RemoveJob_safe [OF assms(1), of p i] show ?thesis by (auto simp: lift_outcome_def)
next
  case (WTake p i)
  with assms(2) obtain n where "job_chan p i (wm_state m) = Some (Some n)" by auto
  with take_safe [OF assms(1) this] WTake show ?thesis by simp
next
  case (WFinish n)
  with assms(2) finish_safe [OF assms(1), of n] show ?thesis by (auto simp: lift_outcome_def)
next
  case (WOffer n x)
  with assms(2) have op: "is_open n (ws_chans (wm_state m))" by simp
  from offer_open [OF op, of x] obtain b cs where
    o: "offer_chan (Some n) x (ws_chans (wm_state m)) = Done (b, cs)" by blast
  have "wsafe ((wm_state m)\<lparr>ws_chans := cs\<rparr>) (wm_taken m)"
    using assms(1) offer_is_open [OF o] by (intro wsafe_chans) auto
  with WOffer o show ?thesis by (simp add: lift_outcome_def)
next
  case (WRecv n)
  with assms(2) obtain x cs where
    rc: "recv_chan (Some n) (ws_chans (wm_state m)) = Done (x, cs)" by auto
  have "wsafe ((wm_state m)\<lparr>ws_chans := cs\<rparr>) (wm_taken m)"
    using assms(1) recv_is_open [OF rc] by (intro wsafe_chans) auto
  with WRecv rc show ?thesis by (simp add: lift_outcome_def)
next
  case (WTouch p f)
  with assms touch_safe show ?thesis by auto
qed

lemma NewWorkerRegistry_safe: "wsafe NewWorkerRegistry {}"
proof -
  have "\<not> holds NewWorkerRegistry {} sl n" for sl n by (cases sl) (auto simp: NewWorkerRegistry_def)
  then show ?thesis by (simp add: wsafe_def NewWorkerRegistry_def)
qed

interpretation worker_runs: guarded_machine winit wguard wstep winv
proof unfold_locales
  show "winv s" if "winit s" for s
    using that NewWorkerRegistry_safe by (simp add: winit_def winv_def)
  show "winv (wstep e s)" if "winv s" "wguard e s" for s e
  proof -
    from that obtain m where m: "s = Some m" "wsafe (wm_state m) (wm_taken m)" "wguard1 e m"
      by (auto simp: winv_def wguard_def split: option.splits)
    from wstep1_safe [OF m(2,3)] m(1) show ?thesis by (auto simp: winv_def wstep_def)
  qed
qed

section \<open>Properties\<close>

text \<open>
  C29: However registrations (also under an id that is taken), disconnections, evictions, requests and
  replies interleave, the worker registry never closes a channel twice; a registered worker's send
  channel and every job channel in a table are open.
\<close>

theorem worker_channels_closed_once:
  assumes "run wguard wstep es (Some \<lparr>wm_state = NewWorkerRegistry, wm_taken = {}\<rparr>) = Some t"
  shows "\<exists>m. t = Some m \<and>
    (\<forall>i p. ws_table (wm_state m) i = Some p \<longrightarrow> (\<exists>w n. ws_heap (wm_state m) p = Some w \<and> w_id w = i \<and>
       w_send w = Some n \<and> is_open n (ws_chans (wm_state m)))) \<and>
    (\<forall>p w k n. ws_heap (wm_state m) p = Some w \<longrightarrow> (k, Some n) \<in> set (w_jobs w) \<longrightarrow>
       is_open n (ws_chans (wm_state m)))"
proof -
  have "winit (Some \<lparr>wm_state = NewWorkerRegistry, wm_taken = {}\<rparr>)" by (simp add: winit_def)
  from worker_runs.reach_inv [OF this assms] obtain m where t: "t = Some m"
    and safe: "wsafe (wm_state m) (wm_taken m)" by (auto simp: winv_def split: option.splits)
  have "\<exists>w n. ws_heap (wm_state m) p = Some w \<and> w_id w = i \<and> w_send w = Some n \<and>
      is_open n (ws_chans (wm_state m))" if "ws_table (wm_state m) i = Some p" for i p
  proof -
    from wsafeD(3) [OF safe that] obtain w n where
      w: "ws_heap (wm_state m) p = Some w" "w_id w = i" "w_send w = Some n" by blast
    with that have "holds (wm_state m) (wm_taken m) (SlotSend p) n" by simp
    from wsafeD(1) [OF safe this] w show ?thesis by blast
  qed
  moreover have "is_open n (ws_chans (wm_state m))"
    if "ws_heap (wm_state m) p = Some w" "(k, Some n) \<in> set (w_jobs w)" for p w k n
    using that wsafeD(1) [OF safe, of "SlotJob p k" n] by auto
  ultimately show ?thesis using t by blast
qed

definition sample_worker :: "string \<Rightarrow> nat \<Rightarrow> worker" where
  "sample_worker i n = \<lparr>w_id = i, w_name = i, w_labels = [''m''], w_max = 2, w_batch = 0, w_inflight = 0,
     w_heartbeat = 0, w_send = Some n, w_jobs = []\<rparr>"

text \<open>A worker registers twice under one id, serves a request, and both connections end.\<close>

definition sample_worker_run :: "wevent list" where
  "sample_worker_run =
     [WNew 0 (sample_worker ''w'' 0), WNew 1 (sample_worker ''w'' 1), WAddJob 1 ''r'' 2 16,
      WOffer 1 (HTTPProxyCancel ''r''), WTake 1 ''r'', WRemove ''w'', WFinish 2, WRemove ''w'']"

lemma worker_channels_closed_once_witness:
  "\<exists>m. run wguard wstep sample_worker_run (Some \<lparr>wm_state = NewWorkerRegistry, wm_taken = {}\<rparr>) = Some (Some m)"
proof -
  have "\<exists>t. run wguard wstep sample_worker_run (Some \<lparr>wm_state = NewWorkerRegistry, wm_taken = {}\<rparr>) = Some t"
    by (simp add: sample_worker_run_def sample_worker_def wguard_def wstep_def NewWorkerRegistry_def
        register_def Add_def new_chan_def AddJob_def update_worker_def put_job_def offer_chan_def send_chan_def
        is_open_def job_chan_def forget_job_def Remove_def drop_jobs_def close_chan_def lift_outcome_def)
  then obtain t where "run wguard wstep sample_worker_run
      (Some \<lparr>wm_state = NewWorkerRegistry, wm_taken = {}\<rparr>) = Some t" by blast
  from worker_channels_closed_once [OF this] this show ?thesis by auto
qed

text \<open>
  Nothing keeps a handler from using a worker's send channel after the worker has left.  A send on
  it after the removal panics, also in the form with a \<^verbatim>\<open>default\<close> branch.  A request handler that picked
  the worker before the removal does exactly that, and for a partitioned request it does so in a
  goroutine of its own, where the panic ends the server.
\<close>

theorem send_after_removal_panics:
  assumes "wsafe s T" "ws_table s i = Some p" "ws_heap s p = Some w" "Remove i s = Done s'"
  shows "offer_chan (w_send w) msg (ws_chans s') = Panics"
proof -
  from wsafeD(3) [OF assms(1,2)] assms(3) obtain n where n: "w_send w = Some n" by auto
  from evict [OF assms(1-3)] obtain s1 cs' where e:
    "drop_jobs p (s\<lparr>ws_table := (ws_table s)(i := None)\<rparr>) = Done s1"
    "ws_heap s1 p = Some (w\<lparr>w_jobs := []\<rparr>)" "close_chan (w_send w) (ws_chans s1) = Done cs'" by blast
  with assms(2,4) n have "ws_chans s' = cs'" by (auto simp: Remove_def)
  moreover from e(3) n obtain c where "cs' n = Some c" "gc_closed c"
    by (auto simp: close_chan_def split: option.splits if_splits)
  ultimately have "send_chan (Some n) msg (ws_chans s') = Panics" by (simp add: send_closed)
  with n show ?thesis by (simp add: offer_chan_def)
qed

lemma send_after_removal_panics_witness:
  "\<exists>s'. Remove ''w'' (register 0 (sample_worker ''w'' 0) NewWorkerRegistry) = Done s' \<and>
     offer_chan (Some 0) (HTTPProxyCancel ''r'') (ws_chans s') = Panics"
proof -
  let ?s = "register 0 (sample_worker ''w'' 0) NewWorkerRegistry"
  have safe: "wsafe ?s {}"
    by (rule register_safe [OF NewWorkerRegistry_safe, where n = 0])
       (simp_all add: NewWorkerRegistry_def sample_worker_def)
  have t: "ws_table ?s ''w'' = Some 0" "ws_heap ?s 0 = Some (sample_worker ''w'' 0)"
    by (simp_all add: register_def Add_def sample_worker_def)
  from Remove_safe [OF safe, of "''w''"] obtain s' where s': "Remove ''w'' ?s = Done s'" by blast
  from send_after_removal_panics [OF safe t s', of "HTTPProxyCancel ''r''"] s' show ?thesis
    by (auto simp: sample_worker_def)
qed

end
