(* ===== verification/WorkerMetrics.thy ===== *)
theory WorkerMetrics
  imports Machines "HOL-Library.Word"
begin

text \<open>
  \<^verbatim>\<open>sdk/base/worker/metrics.go\<close>: the counters of the server and of each connected worker, and the
  snapshot the state page shows.  \<^verbatim>\<open>uint64\<close> totals are \<open>64 word\<close>; percentages and the average are
  rationals.
\<close>

section \<open>State\<close>

definition StatusConnected :: string where "StatusConnected = ''connected''"
definition StatusWorking :: string where "StatusWorking = ''working''"
definition StatusIdle :: string where "StatusIdle = ''idle''"
definition StatusNotReady :: string where "StatusNotReady = ''not_ready''"
definition StatusDraining :: string where "StatusDraining = ''draining''"
definition StatusGone :: string where "StatusGone = ''gone''"

lemmas wstatus_defs = StatusConnected_def StatusWorking_def StatusIdle_def StatusNotReady_def
  StatusDraining_def StatusGone_def

record host_info =
  Hostname :: string
  OSName :: string
  OSVersion :: string
  WorkerVersion :: string
  BackendVersion :: string
  BackendFamily :: string

record worker_metrics =
  m_id :: string
  m_name :: string
  m_status :: string
  m_connected :: time
  m_heartbeat :: time
  m_version :: string
  m_sha :: string
  m_date :: string
  m_host :: host_info
  m_cpu :: rat
  m_ram :: rat
  m_in :: uint64
  m_out :: uint64
  m_max :: int
  m_batch :: int
  m_processed :: uint64
  m_ms :: uint64
  m_inflight :: int
  m_failures :: uint64
  m_queue :: int
  m_error :: string

record metrics_reg =
  mr_start :: time
  mr_version :: string
  mr_sha :: string
  mr_date :: string
  mr_inflight :: int
  mr_completed :: uint64
  mr_failed :: uint64
  mr_queue_len :: int
  mr_queue_cap :: int
  mr_workers :: "string \<rightharpoonup> worker_metrics"

definition no_host :: host_info where
  "no_host = \<lparr>Hostname = [], OSName = [], OSVersion = [], WorkerVersion = [], BackendVersion = [],
     BackendFamily = []\<rparr>"

definition zero_metrics :: "string \<Rightarrow> time \<Rightarrow> worker_metrics" where
  "zero_metrics i now =
     \<lparr>m_id = i, m_name = [], m_status = [], m_connected = now, m_heartbeat = 0, m_version = [], m_sha = [],
      m_date = [], m_host = no_host, m_cpu = 0, m_ram = 0, m_in = 0, m_out = 0, m_max = 0, m_batch = 0,
      m_processed = 0, m_ms = 0, m_inflight = 0, m_failures = 0, m_queue = 0, m_error = []\<rparr>"

definition NewMetricsRegistry :: "string \<Rightarrow> string \<Rightarrow> string \<Rightarrow> time \<Rightarrow> metrics_reg" where
  "NewMetricsRegistry ver sha date now =
     \<lparr>mr_start = now, mr_version = ver, mr_sha = sha, mr_date = date, mr_inflight = 0, mr_completed = 0,
      mr_failed = 0, mr_queue_len = 0, mr_queue_cap = 0, mr_workers = Map.empty\<rparr>"

section \<open>Operations\<close>

definition on_worker :: "string \<Rightarrow> (worker_metrics \<Rightarrow> worker_metrics) \<Rightarrow> metrics_reg \<Rightarrow> metrics_reg" where
  "on_worker i f m =
     (case mr_workers m i of None \<Rightarrow> m | Some w \<Rightarrow> m\<lparr>mr_workers := (mr_workers m)(i \<mapsto> f w)\<rparr>)"

definition UpsertWorker ::
  "string \<Rightarrow> string \<Rightarrow> string \<Rightarrow> string \<Rightarrow> string \<Rightarrow> int \<Rightarrow> int \<Rightarrow> time \<Rightarrow> metrics_reg \<Rightarrow> metrics_reg" where
  "UpsertWorker i name version sha date maxc batch now m =
     (let w = (case mr_workers m i of None \<Rightarrow> zero_metrics i now | Some w \<Rightarrow> w);
          w = w\<lparr>m_name := name, m_version := version, m_sha := sha, m_date := date,
                m_host := (m_host w)\<lparr>WorkerVersion := version\<rparr>, m_max := maxc, m_batch := batch,
                m_heartbeat := now\<rparr>;
          w = (if m_status w = [] then w\<lparr>m_status := StatusConnected\<rparr> else w)
      in m\<lparr>mr_workers := (mr_workers m)(i \<mapsto> w)\<rparr>)"

definition pick_value :: "(string \<times> string) list \<Rightarrow> string \<Rightarrow> string \<Rightarrow> string" where
  "pick_value config key old =
     (case map_of config key of Some v \<Rightarrow> (if v \<noteq> [] then v else old) | None \<Rightarrow> old)"

definition mergeHostInfo :: "string \<Rightarrow> (string \<times> string) list \<Rightarrow> host_info \<Rightarrow> host_info" where
  "mergeHostInfo workerVersion config dst =
     dst\<lparr>WorkerVersion := workerVersion,
         Hostname := pick_value config ''hostname'' (Hostname dst),
         OSName := pick_value config ''os_name'' (OSName dst),
         OSVersion := pick_value config ''os_version'' (OSVersion dst),
         BackendVersion := pick_value config ''backend_version'' (BackendVersion dst),
         BackendFamily := pick_value config ''backend_family'' (BackendFamily dst)\<rparr>"

definition SetWorkerHostInfo :: "string \<Rightarrow> (string \<times> string) list option \<Rightarrow> metrics_reg \<Rightarrow> metrics_reg" where
  "SetWorkerHostInfo i config m =
     (case config of
        None \<Rightarrow> m
      | Some cfg \<Rightarrow> on_worker i (\<lambda>w. w\<lparr>m_host := mergeHostInfo (m_version w) cfg (m_host w)\<rparr>) m)"

definition RemoveWorker :: "string \<Rightarrow> metrics_reg \<Rightarrow> metrics_reg" where
  "RemoveWorker i m = m\<lparr>mr_workers := (mr_workers m)(i := None)\<rparr>"

definition SetWorkerStatus :: "string \<Rightarrow> string \<Rightarrow> metrics_reg \<Rightarrow> metrics_reg" where
  "SetWorkerStatus i status m = on_worker i (\<lambda>w. w\<lparr>m_status := status\<rparr>) m"

definition UpdateWorker :: "string \<Rightarrow> int \<Rightarrow> int \<Rightarrow> metrics_reg \<Rightarrow> metrics_reg" where
  "UpdateWorker i maxc batch m = on_worker i (\<lambda>w. w\<lparr>m_max := maxc, m_batch := batch\<rparr>) m"

definition RecordHeartbeat :: "string \<Rightarrow> rat \<Rightarrow> rat \<Rightarrow> time \<Rightarrow> metrics_reg \<Rightarrow> metrics_reg" where
  "RecordHeartbeat i cpu ram now m =
     on_worker i (\<lambda>w. w\<lparr>m_heartbeat := now, m_cpu := cpu, m_ram := ram\<rparr>) m"

definition RecordJobStart :: "string \<Rightarrow> metrics_reg \<Rightarrow> metrics_reg" where
  "RecordJobStart i m =
     (let m = on_worker i (\<lambda>w. w\<lparr>m_inflight := m_inflight w + 1\<rparr>) m
      in m\<lparr>mr_inflight := mr_inflight m + 1\<rparr>)"

definition RecordJobEnd ::
  "string \<Rightarrow> duration \<Rightarrow> bool \<Rightarrow> string \<Rightarrow> metrics_reg \<Rightarrow> metrics_reg" where
  "RecordJobEnd i dur success errMsg m =
     (let m = on_worker i (\<lambda>w.
                let w = (if 0 < m_inflight w then w\<lparr>m_inflight := m_inflight w - 1\<rparr> else w);
                    w = w\<lparr>m_processed := m_processed w + 1,
                          m_ms := m_ms w + word_of_int (quo dur 1000000)\<rparr>
                in if \<not> success then w\<lparr>m_failures := m_failures w + 1, m_error := errMsg\<rparr> else w) m;
          m = (if 0 < mr_inflight m then m\<lparr>mr_inflight := mr_inflight m - 1\<rparr> else m)
      in if success then m\<lparr>mr_completed := mr_completed m + 1\<rparr> else m\<lparr>mr_failed := mr_failed m + 1\<rparr>)"

definition SetWorkerQueueLen :: "string \<Rightarrow> int \<Rightarrow> metrics_reg \<Rightarrow> metrics_reg" where
  "SetWorkerQueueLen i n m = on_worker i (\<lambda>w. w\<lparr>m_queue := n\<rparr>) m"

definition SetSchedulerQueueLen :: "int \<Rightarrow> metrics_reg \<Rightarrow> metrics_reg" where
  "SetSchedulerQueueLen n m = m\<lparr>mr_queue_len := n\<rparr>"

definition SetSchedulerQueueCapacity :: "int \<Rightarrow> metrics_reg \<Rightarrow> metrics_reg" where
  "SetSchedulerQueueCapacity n m = m\<lparr>mr_queue_cap := n\<rparr>"

definition AddWorkerTokens :: "string \<Rightarrow> string \<Rightarrow> uint64 \<Rightarrow> metrics_reg \<Rightarrow> metrics_reg" where
  "AddWorkerTokens i kind n m =
     (if n = 0 then m
      else on_worker i (\<lambda>w.
        if kind = ''in'' then w\<lparr>m_in := m_in w + n\<rparr>
        else if kind = ''out'' then w\<lparr>m_out := m_out w + n\<rparr> else w) m)"

section \<open>Snapshot\<close>

record workers_summary =
  sum_connected :: nat
  sum_working :: nat
  sum_idle :: nat
  sum_not_ready :: nat
  sum_gone :: nat

record server_snapshot =
  ss_now :: time
  ss_version :: string
  ss_sha :: string
  ss_date :: string
  ss_state :: string
  ss_uptime :: uint64
  ss_inflight :: int
  ss_completed :: uint64
  ss_failed :: uint64
  ss_queue_len :: int
  ss_queue_cap :: int

text \<open>A worker's entry is its counters with the average processing time.\<close>

record worker_snapshot =
  sn_metrics :: worker_metrics
  sn_avg :: rat

record metrics_view =
  mv_server :: server_snapshot
  mv_summary :: workers_summary
  mv_models :: "(string \<times> int) list"
  mv_workers :: "worker_snapshot list"

definition zero_summary :: workers_summary where
  "zero_summary = \<lparr>sum_connected = 0, sum_working = 0, sum_idle = 0, sum_not_ready = 0, sum_gone = 0\<rparr>"

definition count_worker :: "worker_metrics \<Rightarrow> workers_summary \<Rightarrow> workers_summary" where
  "count_worker w s =
     (if m_status w = StatusConnected then s\<lparr>sum_connected := sum_connected s + 1\<rparr>
      else if m_status w = StatusWorking then s\<lparr>sum_working := sum_working s + 1\<rparr>
      else if m_status w = StatusIdle then s\<lparr>sum_idle := sum_idle s + 1\<rparr>
      else if m_status w = StatusNotReady then s\<lparr>sum_not_ready := sum_not_ready s + 1\<rparr>
      else s)"

definition snapshot_worker :: "worker_metrics \<Rightarrow> worker_snapshot" where
  "snapshot_worker w =
     \<lparr>sn_metrics = w,
      sn_avg = (if 0 < m_processed w then of_nat (unat (m_ms w)) / of_nat (unat (m_processed w)) else 0)\<rparr>"

text \<open>\<open>order\<close> is the visiting order of the map; the sort is by connection time.\<close>

definition metrics_Snapshot :: "string option \<Rightarrow> time \<Rightarrow> string list \<Rightarrow> metrics_reg \<Rightarrow> metrics_view" where
  "metrics_Snapshot state now order m =
     (let ws = sort_key m_connected (range_values order (mr_workers m)) in
      \<lparr>mv_server =
         \<lparr>ss_now = now, ss_version = mr_version m, ss_sha = mr_sha m, ss_date = mr_date m,
          ss_state = (case state of None \<Rightarrow> [] | Some s \<Rightarrow> s),
          ss_uptime = word_of_int (quo (time_sub now (mr_start m)) Second),
          ss_inflight = mr_inflight m, ss_completed = mr_completed m, ss_failed = mr_failed m,
          ss_queue_len = mr_queue_len m, ss_queue_cap = mr_queue_cap m\<rparr>,
       mv_summary = fold count_worker ws zero_summary,
       mv_models = [],
       mv_workers = map snapshot_worker ws\<rparr>)"

section \<open>Lemmas\<close>

lemma on_worker_frame [simp]:
  "mr_inflight (on_worker i f m) = mr_inflight m" "mr_completed (on_worker i f m) = mr_completed m"
  "mr_failed (on_worker i f m) = mr_failed m"
  by (simp_all add: on_worker_def split: option.splits)

lemma on_worker_at: "mr_workers (on_worker i f m) k = (if k = i then map_option f (mr_workers m i) else mr_workers m k)"
  by (auto simp: on_worker_def split: option.splits)

interpretation jobs_inflight: clamped_counter mr_inflight "RecordJobStart i" "RecordJobEnd i dur ok e"
  by unfold_locales (simp_all add: RecordJobStart_def RecordJobEnd_def Let_def)

lemma fold_count_sum:
  "sum_connected (fold count_worker ws s) + sum_working (fold count_worker ws s) +
     sum_idle (fold count_worker ws s) + sum_not_ready (fold count_worker ws s) =
   sum_connected s + sum_working s + sum_idle s + sum_not_ready s +
     length (filter (\<lambda>w. m_status w \<in> {StatusConnected, StatusWorking, StatusIdle, StatusNotReady}) ws)"
  by (induction ws arbitrary: s) (auto simp: count_worker_def)

lemma fold_count_working:
  "sum_working (fold count_worker ws s) = sum_working s + length (filter (\<lambda>w. m_status w = StatusWorking) ws)"
  by (induction ws arbitrary: s) (auto simp: count_worker_def wstatus_defs)

section \<open>Properties\<close>

text \<open>
  A start and an end recorded around every job keep the server's in-flight count equal to the
  number of jobs open, whatever workers come and go, and the end of a job adds one to exactly one of
  the completed and failed totals.
\<close>

theorem jobs_in_flight_balanced:
  assumes "mr_inflight m = int n" "nested n bs"
  shows "mr_inflight (fold (\<lambda>b. case b of Enter \<Rightarrow> RecordJobStart i | Exit \<Rightarrow> RecordJobEnd i dur ok e) bs m) =
      int (open_after n bs) \<and>
    mr_completed (RecordJobEnd i dur ok e m) + mr_failed (RecordJobEnd i dur ok e m) =
      mr_completed m + mr_failed m + 1"
proof -
  have "mr_completed (RecordJobEnd i dur ok e m) + mr_failed (RecordJobEnd i dur ok e m) =
      mr_completed m + mr_failed m + 1"
    by (cases ok) (simp_all add: RecordJobEnd_def Let_def)
  with jobs_inflight.nested_count [OF assms] show ?thesis by blast
qed

lemma jobs_in_flight_balanced_witness:
  "mr_inflight (fold (\<lambda>b. case b of Enter \<Rightarrow> RecordJobStart ''w'' | Exit \<Rightarrow> RecordJobEnd ''w'' 5 True [])
     [Enter, Enter, Exit] (NewMetricsRegistry ''1'' [] [] 0)) = 1"
proof -
  have "mr_inflight (NewMetricsRegistry ''1'' [] [] 0) = int 0" by (simp add: NewMetricsRegistry_def)
  moreover have "nested 0 [Enter, Enter, Exit]" by simp
  ultimately show ?thesis
    using jobs_in_flight_balanced [of "NewMetricsRegistry ''1'' [] [] 0" 0 "[Enter, Enter, Exit]"
        "''w''" 5 True "[]"] by simp
qed

text \<open>
  The state page lists every known worker once, sorted by connection time, and its four state
  counts add up to the workers that are connected, working, idle or not ready.
\<close>

theorem metrics_snapshot_counts:
  assumes "range_order order (mr_workers m)"
  shows "(let v = metrics_Snapshot state now order m; ws = map sn_metrics (mv_workers v); s = mv_summary v in
      set ws = ran (mr_workers m) \<and> length ws = length order \<and> sorted (map m_connected ws) \<and>
      sum_connected s + sum_working s + sum_idle s + sum_not_ready s =
        length (filter (\<lambda>w. m_status w \<in> {StatusConnected, StatusWorking, StatusIdle, StatusNotReady}) ws) \<and>
      sum_working s = length (filter (\<lambda>w. m_status w = StatusWorking) ws))"
proof -
  have m: "map sn_metrics (map snapshot_worker ws) = ws" for ws
    by (simp add: comp_def snapshot_worker_def)
  let ?ws = "sort_key m_connected (range_values order (mr_workers m))"
  have "set ?ws = ran (mr_workers m)" "length ?ws = length order"
    using set_range_values [OF assms] length_range_values [OF assms] by simp_all
  then show ?thesis
    unfolding Let_def metrics_Snapshot_def metrics_view.simps m
    using fold_count_sum [of ?ws zero_summary] fold_count_working [of ?ws zero_summary]
    by (simp add: zero_summary_def)
qed

lemma metrics_snapshot_counts_witness:
  "sum_working (mv_summary (metrics_Snapshot None 5 [''w'']
     (SetWorkerStatus ''w'' StatusWorking
       (UpsertWorker ''w'' ''w'' [] [] [] 2 0 1 (NewMetricsRegistry [] [] [] 0))))) = 1"
proof -
  let ?m = "SetWorkerStatus ''w'' StatusWorking
       (UpsertWorker ''w'' ''w'' [] [] [] 2 0 1 (NewMetricsRegistry [] [] [] 0))"
  have o: "range_order [''w''] (mr_workers ?m)"
    by (auto simp: range_order_def SetWorkerStatus_def on_worker_def UpsertWorker_def Let_def
        NewMetricsRegistry_def split: if_splits)
  have "length (filter (\<lambda>w. m_status w = StatusWorking)
      (map sn_metrics (mv_workers (metrics_Snapshot None 5 [''w''] ?m)))) = 1" by code_simp
  with metrics_snapshot_counts [OF o, of None 5] show ?thesis by (simp add: Let_def)
qed

end
