(* ===== verification/ProxyOnce.thy ===== *)
theory ProxyOnce
  imports Models WorkerSafety WorkerMetrics
begin

text \<open>
  One HTTP request sent through a worker's connection with the whole answer collected,
  \<^verbatim>\<open>proxyHTTPOnce\<close> of \<^verbatim>\<open>sdk/base/worker/partition.go\<close>, and what its callers do around it.
\<close>

section \<open>State\<close>

record gateway =
  gw_cat :: catalogue
  gw_metrics :: metrics_reg

text \<open>What a call returns: body, status, whether it succeeded, and the error message.\<close>

record reply =
  rp_body :: string
  rp_status :: int
  rp_ok :: bool
  rp_err :: string

definition reply :: "string \<Rightarrow> int \<Rightarrow> bool \<Rightarrow> string \<Rightarrow> reply" where
  "reply b st k e = \<lparr>rp_body = b, rp_status = st, rp_ok = k, rp_err = e\<rparr>"

definition busy_body :: string where
  "busy_body = ''{\"error\":\"worker_busy\"}''"

abbreviation gw_reg :: "gateway \<Rightarrow> wstate" where
  "gw_reg g \<equiv> ca_reg (gw_cat g)"

definition set_reg :: "wstate \<Rightarrow> gateway \<Rightarrow> gateway" where
  "set_reg r g = g\<lparr>gw_cat := (gw_cat g)\<lparr>ca_reg := r\<rparr>\<rparr>"

definition set_metrics :: "metrics_reg \<Rightarrow> gateway \<Rightarrow> gateway" where
  "set_metrics m g = g\<lparr>gw_metrics := m\<rparr>"

section \<open>The worker's channels\<close>

text \<open>\<open>p\<close> is the worker's address; the send channel and the heartbeat are read through it.\<close>

definition send_channel :: "nat \<Rightarrow> gateway \<Rightarrow> nat option" where
  "send_channel p g = (case ws_heap (gw_reg g) p of None \<Rightarrow> None | Some w \<Rightarrow> w_send w)"

definition heartbeat :: "nat \<Rightarrow> gateway \<Rightarrow> time" where
  "heartbeat p g = (case ws_heap (gw_reg g) p of None \<Rightarrow> 0 | Some w \<Rightarrow> w_heartbeat w)"

text \<open>\<open>open_job\<close> makes the channel for the answer and enters it under the request's id.\<close>

definition open_job :: "nat \<Rightarrow> string \<Rightarrow> nat \<Rightarrow> gateway \<Rightarrow> gateway" where
  "open_job p reqID h g =
     set_reg (AddJob p reqID (Some h) ((gw_reg g)\<lparr>ws_chans := (ws_chans (gw_reg g))(h \<mapsto> new_chan 16)\<rparr>)) g"

definition offer :: "nat \<Rightarrow> wire \<Rightarrow> gateway \<Rightarrow> (bool \<times> gateway) outcome" where
  "offer p m g =
     bind_outcome (offer_chan (send_channel p g) m (ws_chans (gw_reg g)))
       (\<lambda>(sent, cs). Done (sent, set_reg ((gw_reg g)\<lparr>ws_chans := cs\<rparr>) g))"

definition take_message :: "nat \<Rightarrow> gateway \<Rightarrow> (wire option \<times> gateway) outcome" where
  "take_message h g =
     bind_outcome (recv_chan (Some h) (ws_chans (gw_reg g)))
       (\<lambda>(m, cs). Done (m, set_reg ((gw_reg g)\<lparr>ws_chans := cs\<rparr>) g))"

definition close_job :: "nat \<Rightarrow> string \<Rightarrow> gateway \<Rightarrow> gateway outcome" where
  "close_job p reqID g = bind_outcome (RemoveJob p reqID (gw_reg g)) (\<lambda>r. Done (set_reg r g))"

section \<open>Collecting the answer\<close>

text \<open>
  What the \<^verbatim>\<open>select\<close> of a turn picks: the end of the client's context, the idle timer, or a message
  (or the end) of the channel.  \<open>pt_before\<close> is what the other goroutines did since the last turn.
\<close>

datatype pick = Cancelled | TimerFired | Received

record proxy_turn =
  pt_before :: "gateway \<Rightarrow> gateway"
  pt_pick :: pick
  pt_now :: time

definition finish_call :: "string \<Rightarrow> duration \<Rightarrow> bool \<Rightarrow> string \<Rightarrow> gateway \<Rightarrow> gateway" where
  "finish_call i dur success errMsg g =
     set_metrics (SetWorkerStatus i StatusIdle (RecordJobEnd i dur success errMsg (gw_metrics g))) g"

text \<open>
  \<open>None\<close> is a call that has not returned yet.  A turn that picks an empty open channel is none, and so
  is a firing of the timer when there is none because the timeout is not positive.
\<close>

fun proxy_loop ::
  "nat \<Rightarrow> string \<Rightarrow> string \<Rightarrow> nat \<Rightarrow> duration \<Rightarrow> time \<Rightarrow> proxy_turn list \<Rightarrow> int \<Rightarrow> string \<Rightarrow> gateway
    \<Rightarrow> (reply \<times> gateway) option outcome" where
  "proxy_loop p i reqID h timeout start [] status buf g = Done None"
| "proxy_loop p i reqID h timeout start (t # ts) status buf g =
     (let g = pt_before t g; dur = time_sub (pt_now t) start in
      case pt_pick t of
        Cancelled \<Rightarrow>
          bind_outcome (offer p (HTTPProxyCancel reqID) g)
            (\<lambda>(_, g). Done (Some (reply [] status False ''canceled'', finish_call i dur False ''canceled'' g)))
      | TimerFired \<Rightarrow>
          if 0 < timeout \<and> time_sub (pt_now t) (heartbeat p g) > timeout then
            bind_outcome (offer p (HTTPProxyCancel reqID) g)
              (\<lambda>(_, g). Done (Some (reply [] 504 False ''timeout'', finish_call i dur False ''timeout'' g)))
          else proxy_loop p i reqID h timeout start ts status buf g
      | Received \<Rightarrow>
          (case take_message h g of
             Panics \<Rightarrow> Panics
           | Blocks \<Rightarrow> proxy_loop p i reqID h timeout start ts status buf g
           | Done (None, g) \<Rightarrow> Done (Some (reply [] 502 False ''closed'', finish_call i dur False ''closed'' g))
           | Done (Some m, g) \<Rightarrow>
               (case m of
                  HTTPProxyResponseHeaders _ st _ \<Rightarrow> proxy_loop p i reqID h timeout start ts st buf g
                | HTTPProxyResponseChunk _ d \<Rightarrow> proxy_loop p i reqID h timeout start ts status (buf @ d) g
                | HTTPProxyResponseEnd _ e \<Rightarrow>
                    let errMsg = (case e of Some pe \<Rightarrow> pe_message pe | None \<Rightarrow> []);
                        success = (e = None \<and> status < 400)
                    in Done (Some (reply buf status (success \<and> errMsg = []) errMsg, finish_call i dur success errMsg g))
                | _ \<Rightarrow> proxy_loop p i reqID h timeout start ts status buf g)))"

section \<open>The call\<close>

record attempt =
  at_id :: string
  at_chan :: nat
  at_start :: time
  at_turns :: "proxy_turn list"

definition proxyHTTPOnce ::
  "nat \<Rightarrow> string \<Rightarrow> (string \<times> string) list \<Rightarrow> string \<Rightarrow> string \<Rightarrow> duration \<Rightarrow> attempt \<Rightarrow> gateway
    \<Rightarrow> (reply \<times> gateway) option outcome" where
  "proxyHTTPOnce p i headers path body timeout a g =
     (let g = open_job p (at_id a) (at_chan a) g;
          msg = HTTPProxyRequest (at_id a) ''POST'' path headers False body
      in bind_outcome (offer p msg g)
           (\<lambda>(sent, g).
              if sent then
                proxy_loop p i (at_id a) (at_chan a) timeout (at_start a) (at_turns a) 0 []
                  (set_metrics (SetWorkerStatus i StatusWorking (RecordJobStart i (gw_metrics g))) g)
              else Done (Some (reply busy_body 503 False ''worker_busy'', g))))"

text \<open>Both callers count the call in the registry and drop its channel afterwards.\<close>

definition counted_call ::
  "nat \<Rightarrow> string \<Rightarrow> (string \<times> string) list \<Rightarrow> string \<Rightarrow> string \<Rightarrow> duration \<Rightarrow> attempt \<Rightarrow> gateway
    \<Rightarrow> (reply \<times> gateway) option outcome" where
  "counted_call p i headers path body timeout a g =
     (let g = set_reg (IncInFlight i (gw_reg g)) g in
      case proxyHTTPOnce p i headers path body timeout a g of
        Panics \<Rightarrow> Panics
      | Blocks \<Rightarrow> Blocks
      | Done None \<Rightarrow> Done None
      | Done (Some (r, g)) \<Rightarrow>
          bind_outcome (close_job p (at_id a) (set_reg (DecInFlight i (gw_reg g)) g))
            (\<lambda>g. Done (Some (r, g))))"

section \<open>Lemmas\<close>

text \<open>A call answers with success only after an end without error and a status below 400.\<close>

lemma proxy_loop_ok:
  "proxy_loop p i reqID h timeout start ts status buf g = Done (Some (r, g')) \<Longrightarrow> rp_ok r \<Longrightarrow>
   rp_status r < 400 \<and> rp_err r = []"
  by (induction p i reqID h timeout start ts status buf g rule: proxy_loop.induct)
     (auto simp: reply_def Let_def split: pick.splits outcome.splits option.splits wire.splits if_splits)

lemma proxyHTTPOnce_ok:
  assumes "proxyHTTPOnce p i headers path body timeout a g = Done (Some (r, g'))" "rp_ok r"
  shows "rp_status r < 400 \<and> rp_err r = []"
  using assms proxy_loop_ok by (auto simp: proxyHTTPOnce_def reply_def Let_def split: if_splits)

end
