(* ===== verification/LlmQueue.thy ===== *)
theory LlmQueue
  imports ProxyOnce
begin

text \<open>
  The queue generative requests wait in when no worker is free, \<^verbatim>\<open>openai/queue.go\<close>.  Its length and
  capacity are mirrored in the metrics registry the state page reads.
\<close>

section \<open>State\<close>

record cqueue =
  cq_items :: "(string \<times> string) list"
  cq_cap :: int
  cq_metrics :: "metrics_reg option"

definition mirror_len :: "cqueue \<Rightarrow> cqueue" where
  "mirror_len q = q\<lparr>cq_metrics := map_option (SetSchedulerQueueLen (int (length (cq_items q)))) (cq_metrics q)\<rparr>"

section \<open>Operations\<close>

definition SetCapacity :: "int \<Rightarrow> cqueue \<Rightarrow> cqueue" where
  "SetCapacity n q =
     (let q = q\<lparr>cq_cap := n\<rparr>
      in mirror_len (q\<lparr>cq_metrics := map_option (SetSchedulerQueueCapacity n) (cq_metrics q)\<rparr>))"

definition NewCompletionQueue :: "metrics_reg option \<Rightarrow> int \<Rightarrow> cqueue" where
  "NewCompletionQueue mx capacity = SetCapacity capacity \<lparr>cq_items = [], cq_cap = 0, cq_metrics = mx\<rparr>"

definition Enter :: "string \<Rightarrow> string \<Rightarrow> cqueue \<Rightarrow> (nat \<times> bool) \<times> cqueue" where
  "Enter i model q =
     (if cq_cap q \<le> 0 then ((0, False), q)
      else if cq_cap q \<le> int (length (cq_items q)) then ((0, False), q)
      else
        let q = mirror_len (q\<lparr>cq_items := cq_items q @ [(i, model)]\<rparr>)
        in ((length (cq_items q), True), q))"

definition Leave :: "string \<Rightarrow> cqueue \<Rightarrow> cqueue" where
  "Leave i q =
     (if \<exists>x \<in> set (cq_items q). fst x = i
      then mirror_len (q\<lparr>cq_items := remove_first (\<lambda>x. fst x = i) (cq_items q)\<rparr>)
      else q)"

definition Position :: "string \<Rightarrow> cqueue \<Rightarrow> nat" where
  "Position i q = index1 (\<lambda>x. fst x = i) (cq_items q)"

definition Len :: "cqueue \<Rightarrow> nat" where
  "Len q = length (cq_items q)"

text \<open>\<open>can\<close> asks the registry and the scheduler, and the registry notes the models it is asked for.\<close>

fun first_dispatchable :: "string \<Rightarrow> (string \<Rightarrow> 'c \<Rightarrow> bool \<times> 'c) \<Rightarrow> (string \<times> string) list \<Rightarrow> 'c \<Rightarrow> bool \<times> 'c" where
  "first_dispatchable i can [] c = (False, c)"
| "first_dispatchable i can (x # xs) c =
     (let (ok, c) = can (snd x) c in if \<not> ok then first_dispatchable i can xs c else (fst x = i, c))"

definition IsFirstDispatchable :: "string \<Rightarrow> (string \<Rightarrow> 'c \<Rightarrow> bool \<times> 'c) \<Rightarrow> cqueue \<Rightarrow> 'c \<Rightarrow> bool \<times> 'c" where
  "IsFirstDispatchable i can q c = first_dispatchable i can (cq_items q) c"

section \<open>The line\<close>

definition line_of :: "cqueue \<Rightarrow> string list" where
  "line_of q = map fst (cq_items q)"

definition queue_room :: "string \<times> string \<Rightarrow> cqueue \<Rightarrow> bool" where
  "queue_room x q \<longleftrightarrow> snd (fst (Enter (fst x) (snd x) q))"

definition queue_join :: "string \<times> string \<Rightarrow> cqueue \<Rightarrow> cqueue" where
  "queue_join x q = snd (Enter (fst x) (snd x) q)"

lemma mirror_frame [simp]: "cq_items (mirror_len q) = cq_items q" "cq_cap (mirror_len q) = cq_cap q"
  by (simp_all add: mirror_len_def)

interpretation completion_line: waiting_line line_of queue_room fst queue_join Leave Position
proof unfold_locales
  fix x :: "string \<times> string" and q
  assume "queue_room x q"
  then show "line_of (queue_join x q) = line_of q @ [fst x]"
    by (auto simp: queue_room_def queue_join_def line_of_def Enter_def Let_def split: if_splits)
next
  fix i q
  show "line_of (Leave i q) = remove1 i (line_of q)"
  proof (cases "\<exists>x \<in> set (cq_items q). fst x = i")
    case True
    then show ?thesis by (simp add: Leave_def line_of_def map_remove_first)
  next
    case False
    then have "i \<notin> set (map fst (cq_items q))" by auto
    with False show ?thesis by (simp add: Leave_def line_of_def remove1_idem)
  qed
next
  fix i q
  show "Position i q = index1 (\<lambda>j. j = i) (line_of q)"
    by (simp add: Position_def line_of_def index1_map)
qed

section \<open>The invariant\<close>

text \<open>The queue is within its capacity, lists a request once, and its metrics show its length.\<close>

definition cqueue_ok :: "cqueue \<Rightarrow> bool" where
  "cqueue_ok q \<longleftrightarrow>
     (0 < length (cq_items q) \<longrightarrow> int (length (cq_items q)) \<le> cq_cap q) \<and> distinct (line_of q) \<and>
     (\<forall>m. cq_metrics q = Some m \<longrightarrow> mr_queue_len m = int (length (cq_items q)) \<and> mr_queue_cap m = cq_cap q)"

datatype queue_event = QEnter string string | QLeave string

fun queue_guard :: "queue_event \<Rightarrow> cqueue \<Rightarrow> bool" where
  "queue_guard (QEnter i model) q \<longleftrightarrow> i \<notin> set (line_of q)"
| "queue_guard (QLeave i) q \<longleftrightarrow> True"

fun queue_step :: "queue_event \<Rightarrow> cqueue \<Rightarrow> cqueue" where
  "queue_step (QEnter i model) q = snd (Enter i model q)"
| "queue_step (QLeave i) q = Leave i q"

lemma mirror_metrics:
  "(\<forall>m. cq_metrics q = Some m \<longrightarrow> mr_queue_cap m = cq_cap q) \<Longrightarrow> cq_metrics (mirror_len q) = Some m \<Longrightarrow>
   mr_queue_len m = int (length (cq_items q)) \<and> mr_queue_cap m = cq_cap q"
  by (auto simp: mirror_len_def SetSchedulerQueueLen_def)

lemma Enter_ok: "cqueue_ok q \<Longrightarrow> i \<notin> set (line_of q) \<Longrightarrow> cqueue_ok (snd (Enter i model q))"
proof -
  assume ok: "cqueue_ok q" and new: "i \<notin> set (line_of q)"
  let ?q = "q\<lparr>cq_items := cq_items q @ [(i, model)]\<rparr>"
  have "\<forall>m. cq_metrics ?q = Some m \<longrightarrow> mr_queue_cap m = cq_cap ?q" using ok by (simp add: cqueue_ok_def)
  note m = mirror_metrics [OF this]
  have "cqueue_ok (mirror_len ?q)" if "\<not> cq_cap q \<le> int (length (cq_items q))"
    using ok new m that by (auto simp: cqueue_ok_def line_of_def)
  with ok show ?thesis by (simp add: Enter_def Let_def)
qed

lemma Leave_ok: "cqueue_ok q \<Longrightarrow> cqueue_ok (Leave i q)"
proof -
  assume ok: "cqueue_ok q"
  let ?q = "q\<lparr>cq_items := remove_first (\<lambda>x. fst x = i) (cq_items q)\<rparr>"
  have "\<forall>m. cq_metrics ?q = Some m \<longrightarrow> mr_queue_cap m = cq_cap ?q" using ok by (simp add: cqueue_ok_def)
  note m = mirror_metrics [OF this]
  have d: "distinct (line_of (Leave i q))" using ok completion_line.distinct_leave by (simp add: cqueue_ok_def)
  have "length (remove_first (\<lambda>x. fst x = i) (cq_items q)) \<le> length (cq_items q)"
    by (simp add: length_remove_first)
  then have "cqueue_ok (mirror_len ?q)" if "Leave i q = mirror_len ?q"
    using ok m d that by (auto simp: cqueue_ok_def)
  with ok show ?thesis by (simp add: Leave_def)
qed

interpretation queue_runs: guarded_machine "\<lambda>q. \<exists>mx n. q = NewCompletionQueue mx n" queue_guard queue_step cqueue_ok
proof unfold_locales
  fix q :: cqueue
  assume "\<exists>mx n. q = NewCompletionQueue mx n"
  then show "cqueue_ok q"
    by (auto simp: NewCompletionQueue_def SetCapacity_def cqueue_ok_def mirror_len_def line_of_def Let_def
        SetSchedulerQueueLen_def SetSchedulerQueueCapacity_def split: option.splits)
next
  fix e q
  assume "cqueue_ok q" "queue_guard e q"
  then show "cqueue_ok (queue_step e q)" by (cases e) (simp_all add: Enter_ok Leave_ok)
qed

lemma queue_cap_kept:
  "run queue_guard queue_step es (NewCompletionQueue mx n) = Some q \<Longrightarrow> cq_cap q = n"
proof -
  have step: "cq_cap (queue_step e q) = cq_cap q" for e q
    by (cases e) (simp_all add: Enter_def Leave_def Let_def)
  have "run queue_guard queue_step es q0 = Some q \<Longrightarrow> cq_cap q = cq_cap q0" for q0
    by (induction es arbitrary: q0) (auto simp: step split: if_splits)
  moreover have "cq_cap (NewCompletionQueue mx n) = n"
    by (simp add: NewCompletionQueue_def SetCapacity_def Let_def)
  ultimately show "run queue_guard queue_step es (NewCompletionQueue mx n) = Some q \<Longrightarrow> cq_cap q = n" by simp
qed

section \<open>Properties\<close>

text \<open>
  In every history of requests that enter once and leave, the queue never exceeds its capacity
  and the state page shows its true length; a request admitted is told the last position, admission
  moves nobody, and a request that leaves moves exactly those behind it up by one.
\<close>

theorem completion_queue_fair:
  assumes "run queue_guard queue_step es (NewCompletionQueue mx n) = Some q"
  shows "(Len q > 0 \<longrightarrow> int (Len q) \<le> n) \<and>
    (\<forall>m. cq_metrics q = Some m \<longrightarrow> mr_queue_len m = int (Len q)) \<and>
    (\<forall>i model pos q'. i \<notin> set (line_of q) \<longrightarrow> Enter i model q = ((pos, True), q') \<longrightarrow>
       pos = Suc (Len q) \<and> Position i q' = pos \<and> (\<forall>j \<in> set (line_of q). Position j q' = Position j q)) \<and>
    (\<forall>i \<in> set (line_of q). Position i (Leave i q) = 0 \<and>
       (\<forall>j \<in> set (line_of q). j \<noteq> i \<longrightarrow>
          Position j (Leave i q) = (if Position i q < Position j q then Position j q - 1 else Position j q)))"
proof -
  have ok: "cqueue_ok q" using queue_runs.reach_inv [OF _ assms] by blast
  have cap: "cq_cap q = n" by (rule queue_cap_kept [OF assms])
  have d: "distinct (line_of q)" using ok by (simp add: cqueue_ok_def)
  have enter: "pos = Suc (Len q) \<and> Position i q' = pos \<and> (\<forall>j \<in> set (line_of q). Position j q' = Position j q)"
    if i: "i \<notin> set (line_of q)" and e: "Enter i model q = ((pos, True), q')" for i model pos q'
  proof -
    have r: "queue_room (i, model) q" and j: "queue_join (i, model) q = q'"
      by (simp_all add: queue_room_def queue_join_def e)
    have "pos = Suc (Len q)" using e by (auto simp: Enter_def Let_def Len_def split: if_splits)
    with completion_line.pos_join_self [OF r] completion_line.pos_join_other [OF r] i j show ?thesis
      by (auto simp: line_of_def Len_def)
  qed
  have leave: "Position i (Leave i q) = 0" for i by (rule completion_line.leave_gone [OF d])
  show ?thesis
    using ok cap enter leave completion_line.pos_leave [OF d] by (auto simp: cqueue_ok_def Len_def)
qed

theorem completion_queue_fair_witness:
  "let q = NewCompletionQueue None 3; q' = snd (Enter ''b'' ''m'' (snd (Enter ''a'' ''m'' q))) in
   int (Len q') \<le> 3 \<and> Position ''b'' q' = 2 \<and> Position ''b'' (Leave ''a'' q') = 1"
proof -
  let ?es = "[QEnter ''a'' ''m'', QEnter ''b'' ''m'']"
  let ?q = "snd (Enter ''b'' ''m'' (snd (Enter ''a'' ''m'' (NewCompletionQueue None 3))))"
  have r: "run queue_guard queue_step ?es (NewCompletionQueue None 3) = Some ?q"
    by (simp add: line_of_def NewCompletionQueue_def SetCapacity_def mirror_len_def Enter_def Let_def)
  have l: "Len ?q = 2" "line_of ?q = [''a'', ''b'']" "Position ''a'' ?q = 1" "Position ''b'' ?q = 2" by (simp_all add: Len_def line_of_def Position_def NewCompletionQueue_def SetCapacity_def mirror_len_def Enter_def Let_def)
  from completion_queue_fair [OF r] l show ?thesis by simp
qed

section \<open>The specification of the queue\<close>

text \<open>
  What the queue promises its callers and the state page: a bounded line of request ids.  \<open>queue_run\<close> answers
  a sequence of calls with the code's queue, \<open>line_run\<close> with the line alone.
\<close>

datatype queue_op = OpEnter string string | OpLeave string | OpPosition string | OpLen | OpCapacity int | OpShown

datatype queue_answer = Admitted nat | Refused | At nat | Shown int int | Nothing

definition queue_answers :: "queue_op \<Rightarrow> cqueue \<Rightarrow> queue_answer \<times> cqueue" where
  "queue_answers e q =
     (case e of
        OpEnter i model \<Rightarrow> (let ((pos, ok), q) = Enter i model q in (if ok then Admitted pos else Refused, q))
      | OpLeave i \<Rightarrow> (Nothing, Leave i q)
      | OpPosition i \<Rightarrow> (At (Position i q), q)
      | OpLen \<Rightarrow> (At (Len q), q)
      | OpCapacity n \<Rightarrow> (Nothing, SetCapacity n q)
      | OpShown \<Rightarrow> (case cq_metrics q of None \<Rightarrow> Nothing | Some m \<Rightarrow> Shown (mr_queue_len m) (mr_queue_cap m), q))"

definition line_answers :: "queue_op \<Rightarrow> string list \<times> int \<Rightarrow> queue_answer \<times> string list \<times> int" where
  "line_answers e l =
     (case (e, l) of
        (OpEnter i model, (is, n)) \<Rightarrow> if int (length is) < n then (Admitted (length is + 1), is @ [i], n) else (Refused, is, n)
      | (OpLeave i, (is, n)) \<Rightarrow> (Nothing, remove1 i is, n)
      | (OpPosition i, (is, n)) \<Rightarrow> (At (index1 (\<lambda>j. j = i) is), is, n)
      | (OpLen, (is, n)) \<Rightarrow> (At (length is), is, n)
      | (OpCapacity m, (is, n)) \<Rightarrow> (Nothing, is, m)
      | (OpShown, (is, n)) \<Rightarrow> (Shown (int (length is)) n, is, n))"

fun answers :: "(queue_op \<Rightarrow> 's \<Rightarrow> queue_answer \<times> 's) \<Rightarrow> queue_op list \<Rightarrow> 's \<Rightarrow> queue_answer list" where
  "answers f [] s = []"
| "answers f (e # es) s = (let (a, s) = f e s in a # answers f es s)"

text \<open>The line a queue stands for, and when its metrics show it.\<close>

definition abs_queue :: "cqueue \<Rightarrow> string list \<times> int" where
  "abs_queue q = (line_of q, cq_cap q)"

definition mirrored :: "cqueue \<Rightarrow> bool" where
  "mirrored q \<longleftrightarrow> (\<exists>m. cq_metrics q = Some m \<and> mr_queue_len m = int (length (cq_items q)) \<and> mr_queue_cap m = cq_cap q)"

lemma mirrored_items: "mirrored q \<Longrightarrow> mirrored (mirror_len (q\<lparr>cq_items := xs\<rparr>))"
  by (auto simp: mirrored_def mirror_len_def SetSchedulerQueueLen_def)

lemma SetCapacity_mirrored: "cq_metrics q \<noteq> None \<Longrightarrow> mirrored (SetCapacity n q)"
  by (auto simp: SetCapacity_def mirror_len_def mirrored_def SetSchedulerQueueLen_def SetSchedulerQueueCapacity_def Let_def)

lemma queue_simulates:
  assumes "mirrored q" "queue_answers e q = (a, q')"
  shows "line_answers e (abs_queue q) = (a, abs_queue q') \<and> mirrored q'"
proof (cases e)
  case (OpEnter i model)
  then show ?thesis using assms mirrored_items [OF assms(1)]
    by (auto simp: queue_answers_def line_answers_def abs_queue_def Enter_def line_of_def Let_def split: if_splits)
next
  case (OpLeave i)
  note mirrored_items [OF assms(1)]
  moreover have "cq_cap (Leave i q) = cq_cap q" by (simp add: Leave_def)
  ultimately show ?thesis using assms OpLeave completion_line.line_leave [of i q]
    by (auto simp: queue_answers_def line_answers_def abs_queue_def Leave_def)
next
  case (OpPosition i)
  then show ?thesis using assms completion_line.pos_line [of i q] by (auto simp: queue_answers_def line_answers_def abs_queue_def)
next
  case (OpCapacity n)
  have "line_of (SetCapacity n q) = line_of q" "cq_cap (SetCapacity n q) = n"
    by (simp_all add: SetCapacity_def line_of_def Let_def)
  then show ?thesis using assms OpCapacity SetCapacity_mirrored [of q n]
    by (auto simp: queue_answers_def line_answers_def abs_queue_def mirrored_def)
qed (use assms in \<open>auto simp: queue_answers_def line_answers_def abs_queue_def Len_def line_of_def mirrored_def\<close>)

lemma answers_simulated: "mirrored q \<Longrightarrow> answers queue_answers es q = answers line_answers es (abs_queue q)"
proof (induction es arbitrary: q)
  case (Cons e es)
  obtain a q' where q': "queue_answers e q = (a, q')" by (cases "queue_answers e q")
  from queue_simulates [OF Cons.prems q'] Cons.IH [of q'] show ?case by (simp add: q')
qed simp

text \<open>
  C39: no sequence of calls tells the completion queue, with its items and the metrics it mirrors its length in,
  from the bounded line of request ids.
\<close>

theorem queue_refines_line:
  "answers queue_answers es (NewCompletionQueue (Some m) n) = answers line_answers es ([], n)"
proof -
  have "mirrored (NewCompletionQueue (Some m) n)" by (simp add: NewCompletionQueue_def SetCapacity_mirrored)
  moreover have "abs_queue (NewCompletionQueue (Some m) n) = ([], n)"
    by (simp add: abs_queue_def line_of_def NewCompletionQueue_def SetCapacity_def Let_def)
  ultimately show ?thesis by (simp add: answers_simulated)
qed

end
