(* ===== verification/HttpWriter.thy ===== *)
theory HttpWriter
  imports GoPrelude
begin

text \<open>
  What the handlers use of \<^verbatim>\<open>net/http\<close>: the response writer with its header map, the header that went
  out with the status, and the bytes written; the request the extensions read; and the headers they
  pass on to a worker.
\<close>

section \<open>The response writer\<close>

text \<open>
  \<open>rw_sent\<close> is the status and the header map at the time of the first \<^verbatim>\<open>WriteHeader\<close>; later calls
  change nothing.  Names are compared without case, which is how the canonical form of a header name
  compares.
\<close>

type_synonym header = "(string \<times> string) list"

record writer =
  rw_header :: header
  rw_sent :: "(int \<times> header) option"
  rw_body :: string

definition new_writer :: writer where
  "new_writer = \<lparr>rw_header = [], rw_sent = None, rw_body = []\<rparr>"

definition get_header :: "string \<Rightarrow> header \<Rightarrow> string" where
  "get_header k h = (case List.find (\<lambda>(n, _). EqualFold n k) h of None \<Rightarrow> [] | Some (_, v) \<Rightarrow> v)"

definition set_header :: "string \<Rightarrow> string \<Rightarrow> header \<Rightarrow> header" where
  "set_header k v h = (k, v) # filter (\<lambda>(n, _). \<not> EqualFold n k) h"

definition put_header :: "string \<Rightarrow> string \<Rightarrow> writer \<Rightarrow> writer" where
  "put_header k v w = w\<lparr>rw_header := set_header k v (rw_header w)\<rparr>"

definition WriteHeader :: "int \<Rightarrow> writer \<Rightarrow> writer" where
  "WriteHeader st w = (case rw_sent w of None \<Rightarrow> w\<lparr>rw_sent := Some (st, rw_header w)\<rparr> | Some _ \<Rightarrow> w)"

definition Write :: "string \<Rightarrow> writer \<Rightarrow> writer" where
  "Write d w = (let w = WriteHeader 200 w in w\<lparr>rw_body := rw_body w @ d\<rparr>)"

definition HttpError :: "string \<Rightarrow> int \<Rightarrow> writer \<Rightarrow> writer" where
  "HttpError msg st w =
     Write (msg @ [CHR 0x0A]) (WriteHeader st (put_header ''Content-Type'' ''text/plain; charset=utf-8'' w))"

definition json_answer :: "int \<Rightarrow> string \<Rightarrow> writer \<Rightarrow> writer" where
  "json_answer st body w = Write body (WriteHeader st (put_header ''Content-Type'' ''application/json'' w))"

text \<open>The status the client sees.\<close>

definition sent_status :: "writer \<Rightarrow> int" where
  "sent_status w = (case rw_sent w of None \<Rightarrow> 200 | Some (st, _) \<Rightarrow> st)"

section \<open>The request\<close>

text \<open>\<open>hp_body\<close> is \<open>None\<close> for a nil body, \<open>Some None\<close> for one that cannot be read.\<close>

record post_request =
  hp_body :: "string option option"
  hp_type :: string
  hp_accept :: string
  hp_language :: string
  hp_agent :: string
  hp_id :: string

text \<open>\<open>None\<close> is the answer \<^verbatim>\<open>bad request\<close>.\<close>

definition read_post :: "post_request \<Rightarrow> string option" where
  "read_post r =
     (case hp_body r of
        None \<Rightarrow> None
      | Some b \<Rightarrow> if \<not> HasPrefix (hp_type r) ''application/json'' then None else b)"

definition opt_header :: "string \<Rightarrow> string \<Rightarrow> header \<Rightarrow> header" where
  "opt_header k v h = (if v \<noteq> [] then h @ [(k, v)] else h)"

definition forward_headers :: "string \<Rightarrow> post_request \<Rightarrow> header" where
  "forward_headers logID r =
     (let h = [(''Content-Type'', hp_type r)];
          h = opt_header ''Accept'' (hp_accept r) h;
          h = opt_header ''Accept-Language'' (hp_language r) h;
          h = opt_header ''User-Agent'' (hp_agent r) h;
          rid = (if hp_id r = [] then logID else hp_id r)
      in h @ [(''X-Request-Id'', rid), (''Cache-Control'', ''no-store'')])"

section \<open>Lemmas\<close>

lemma EqualFold_refl [simp]: "EqualFold k k"
  by (simp add: EqualFold_def)

lemma EqualFold_sym: "EqualFold a b = EqualFold b a"
  by (auto simp: EqualFold_def)

lemma get_set_same [simp]: "EqualFold k k' \<Longrightarrow> get_header k' (set_header k v h) = v"
  by (simp add: get_header_def set_header_def)

lemma get_set_other: "\<not> EqualFold k k' \<Longrightarrow> get_header k' (set_header k v h) = get_header k' h"
proof -
  assume n: "\<not> EqualFold k k'"
  have "List.find (\<lambda>(x, _). EqualFold x k') (filter (\<lambda>(x, _). \<not> EqualFold x k) h) = List.find (\<lambda>(x, _). EqualFold x k') h"
    using n by (induction h) (auto simp: EqualFold_def)
  with n show ?thesis by (simp add: get_header_def set_header_def)
qed

lemma WriteHeader_sent [simp]: "rw_sent w = Some p \<Longrightarrow> WriteHeader st w = w"
  by (simp add: WriteHeader_def)

lemma Write_sent [simp]: "rw_sent w = Some p \<Longrightarrow> rw_sent (Write d w) = Some p"
  by (simp add: Write_def)

lemma Write_body [simp]: "rw_body (Write d w) = rw_body w @ d"
  by (simp add: Write_def WriteHeader_def split: option.splits)

lemma put_header_frame [simp]:
  "rw_sent (put_header k v w) = rw_sent w" "rw_body (put_header k v w) = rw_body w"
  by (simp_all add: put_header_def)

lemma WriteHeader_body [simp]: "rw_body (WriteHeader st w) = rw_body w"
  by (simp add: WriteHeader_def split: option.splits)

lemma status_after_error [simp]:
  "rw_sent w = None \<Longrightarrow> sent_status (json_answer st b w) = st"
  "rw_sent w = None \<Longrightarrow> sent_status (HttpError m st w) = st"
  by (simp_all add: sent_status_def json_answer_def HttpError_def Write_def WriteHeader_def split: option.splits)

lemma WriteHeader_status: "rw_sent w = None \<Longrightarrow> sent_status (WriteHeader st w) = st"
  by (simp add: sent_status_def WriteHeader_def)

end
