(* ===== verification/Usage.thy ===== *)
theory Usage
  imports HttpWriter "HOL-Library.Word"
begin

text \<open>
  Token counting in \<^verbatim>\<open>openai/generation_proxy.go\<close>: the usage figures are looked for in the JSON of a
  plain answer, or in the data lines of an event stream that arrives in pieces.
\<close>

section \<open>Numbers in decoded JSON\<close>

text \<open>A decoded number is a \<^verbatim>\<open>float64\<close>; the other cases of the type switch do not occur after \<^verbatim>\<open>Unmarshal\<close>.\<close>

definition numberField :: "(string \<times> any) list \<Rightarrow> string \<Rightarrow> 64 word" where
  "numberField m key =
     (case map_of m key of
        Some (ANum n) \<Rightarrow> if 0 < n then word_of_int \<lfloor>n\<rfloor> else 0
      | _ \<Rightarrow> 0)"

definition usageFromValue :: "any \<Rightarrow> (64 word \<times> 64 word) option" where
  "usageFromValue v =
     (case v of
        AObj m \<Rightarrow>
          let i = numberField m ''prompt_tokens'';
              i = (if i = 0 then numberField m ''input_tokens'' else i);
              out = numberField m ''completion_tokens'';
              out = (if out = 0 then numberField m ''output_tokens'' else out)
          in if i = 0 \<and> out = 0 then None else Some (i, out)
      | _ \<Rightarrow> None)"

fun findUsage :: "any \<Rightarrow> 64 word \<times> 64 word"
and find_fields :: "(string \<times> any) list \<Rightarrow> 64 word \<times> 64 word"
and find_items :: "any list \<Rightarrow> 64 word \<times> 64 word" where
  "findUsage (AObj m) =
     (case (case map_of m ''usage'' of Some u \<Rightarrow> usageFromValue u | None \<Rightarrow> None) of
        Some r \<Rightarrow> r
      | None \<Rightarrow> find_fields m)"
| "findUsage (AArr xs) = find_items xs"
| "findUsage _ = (0, 0)"
| "find_fields [] = (0, 0)"
| "find_fields ((k, v) # m) = (let (i, out) = findUsage v in if 0 < i \<or> 0 < out then (i, out) else find_fields m)"
| "find_items [] = (0, 0)"
| "find_items (v # vs) = (let (i, out) = findUsage v in if 0 < i \<or> 0 < out then (i, out) else find_items vs)"

text \<open>\<open>dec\<close> is \<^verbatim>\<open>json.Unmarshal\<close> into an \<^verbatim>\<open>any\<close>, \<open>None\<close> an error.\<close>

definition extractUsageFromJSON :: "(string \<Rightarrow> any option) \<Rightarrow> string \<Rightarrow> 64 word \<times> 64 word" where
  "extractUsageFromJSON dec data =
     (if data = [] then (0, 0)
      else case dec data of None \<Rightarrow> (0, 0) | Some v \<Rightarrow> findUsage v)"

definition keep_usage :: "64 word \<times> 64 word \<Rightarrow> 64 word \<times> 64 word \<Rightarrow> 64 word \<times> 64 word" where
  "keep_usage new old =
     (if 0 < fst new then fst new else fst old, if 0 < snd new then snd new else snd old)"

section \<open>Event streams\<close>

definition newline :: char where "newline = CHR 0x0A"

fun TrimRightCR :: "string \<Rightarrow> string" where
  "TrimRightCR s = (if s \<noteq> [] \<and> last s = CHR 0x0D then TrimRightCR (butlast s) else s)"

declare TrimRightCR.simps [simp del]

definition sse_line :: "(string \<Rightarrow> any option) \<Rightarrow> string \<Rightarrow> 64 word \<times> 64 word \<Rightarrow> 64 word \<times> 64 word" where
  "sse_line dec raw t =
     (let line = TrimRightCR raw in
      if \<not> HasPrefix line ''data:'' then t
      else
        let payload = TrimSpace (drop 5 line) in
        if payload = [] \<or> payload = ''[DONE]'' then t
        else keep_usage (extractUsageFromJSON dec payload) t)"

text \<open>Whole lines are taken off the buffer; what follows the last newline stays in it.\<close>

function sse_loop ::
  "(string \<Rightarrow> any option) \<Rightarrow> string \<Rightarrow> 64 word \<times> 64 word \<Rightarrow> string \<times> 64 word \<times> 64 word" where
  "sse_loop dec buf t =
     (if newline \<notin> set buf then (buf, t)
      else
        let line = takeWhile (\<lambda>c. c \<noteq> newline) buf;
            rest = tl (dropWhile (\<lambda>c. c \<noteq> newline) buf)
        in sse_loop dec rest (sse_line dec line t))"
  by pat_completeness auto
termination
proof (relation "measure (\<lambda>(dec, buf, t). length buf)")
  fix dec buf t line rest
  assume n: "\<not> newline \<notin> set buf" and r: "rest = tl (dropWhile (\<lambda>c. c \<noteq> newline) buf)"
  have "length (dropWhile (\<lambda>c. c \<noteq> newline) buf) \<le> length buf" by (rule length_dropWhile_le)
  moreover from n have "dropWhile (\<lambda>c. c \<noteq> newline) buf \<noteq> []" by (auto simp: dropWhile_eq_Nil_conv)
  ultimately show "((dec, rest, sse_line dec line t), dec, buf, t) \<in> measure (\<lambda>(dec, buf, t). length buf)"
    by (cases "dropWhile (\<lambda>c. c \<noteq> newline) buf") (simp_all add: r)
qed simp

declare sse_loop.simps [simp del]

definition sse_chunk :: "(string \<Rightarrow> any option) \<Rightarrow> string \<Rightarrow> string \<times> 64 word \<times> 64 word \<Rightarrow> string \<times> 64 word \<times> 64 word" where
  "sse_chunk dec d st = sse_loop dec (fst st @ d) (snd st)"

section \<open>Lemmas\<close>

lemma sse_loop_none: "newline \<notin> set buf \<Longrightarrow> sse_loop dec buf t = (buf, t)"
  by (simp add: sse_loop.simps)

lemma sse_loop_line: "newline \<notin> set l \<Longrightarrow> sse_loop dec (l @ newline # r) t = sse_loop dec r (sse_line dec l t)"
proof -
  assume l: "newline \<notin> set l"
  then have "takeWhile (\<lambda>c. c \<noteq> newline) (l @ newline # r) = l"
    "dropWhile (\<lambda>c. c \<noteq> newline) (l @ newline # r) = newline # r"
    by (induction l) auto
  then show ?thesis by (subst sse_loop.simps) simp
qed

lemma first_line: "newline \<in> set s \<Longrightarrow> \<exists>l r. s = l @ newline # r \<and> newline \<notin> set l"
  by (rule split_list_first)

text \<open>What is left over after a piece is what the next piece continues.\<close>

lemma sse_loop_append: "sse_loop dec (a @ b) t = sse_chunk dec b (sse_loop dec a t)"
proof (induction a arbitrary: t rule: length_induct)
  case (1 a)
  show ?case
  proof (cases "newline \<in> set a")
    case False
    then show ?thesis by (simp add: sse_loop_none sse_chunk_def)
  next
    case True
    from first_line [OF this] obtain l r where a: "a = l @ newline # r" "newline \<notin> set l" by blast
    then have "length r < length a" by simp
    from 1 [rule_format, OF this] a show ?thesis by (simp add: sse_loop_line)
  qed
qed

lemma sse_leftover: "newline \<notin> set (fst (sse_loop dec s t))"
proof (induction s arbitrary: t rule: length_induct)
  case (1 s)
  show ?case
  proof (cases "newline \<in> set s")
    case False
    then show ?thesis by (simp add: sse_loop_none)
  next
    case True
    from first_line [OF this] obtain l r where s: "s = l @ newline # r" "newline \<notin> set l" by blast
    then have "length r < length s" by simp
    from 1 [rule_format, OF this] s show ?thesis by (simp add: sse_loop_line)
  qed
qed

section \<open>Properties\<close>

text \<open>
  C38: the token counts read from an event stream do not depend on how the stream is cut into pieces:
  two ways of cutting the same bytes give the same counts and the same rest.
\<close>

theorem usage_independent_of_chunking:
  assumes "concat ds = concat ds'"
  shows "fold (sse_chunk dec) ds ([], t) = fold (sse_chunk dec) ds' ([], t)"
proof -
  have "fold (sse_chunk dec) xs (sse_loop dec buf t) = sse_loop dec (buf @ concat xs) t" for xs buf
  proof (induction xs arbitrary: buf)
    case (Cons x xs)
    have "sse_chunk dec x (sse_loop dec buf t) = sse_loop dec (buf @ x) t" by (simp add: sse_loop_append)
    with Cons [of "buf @ x"] show ?case by simp
  qed simp
  from this [of _ "[]"] have "fold (sse_chunk dec) xs ([], t) = sse_loop dec (concat xs) t" for xs
    by (simp add: sse_loop_none)
  with assms show ?thesis by simp
qed


definition demo_json :: "string \<Rightarrow> any option" where
  "demo_json s = (if s = ''U'' then Some (AObj [(''usage'', AObj [(''prompt_tokens'', ANum 7), (''output_tokens'', ANum 9)])])
     else None)"

lemma usage_independent_of_chunking_witness:
  "fold (sse_chunk demo_json) [''da'', ''ta: U'' @ [CHR 0x0D], [newline]] ([], (0, 0)) = ([], (7, 9))"
proof -
  have "fold (sse_chunk demo_json) [''data: U'' @ [CHR 0x0D, newline]] ([], (0, 0)) = ([], (7, 9))"
  proof -
    have "sse_loop demo_json (''data: U'' @ [CHR 0x0D, newline]) (0, 0) =
        sse_loop demo_json [] (sse_line demo_json (''data: U'' @ [CHR 0x0D]) (0, 0))"
      using sse_loop_line [of "''data: U'' @ [CHR 0x0D]" demo_json "[]"] by (simp add: newline_def)
    also have "sse_line demo_json (''data: U'' @ [CHR 0x0D]) (0, 0) = (7, 9)" by code_simp
    finally show ?thesis by (simp add: sse_chunk_def sse_loop_none)
  qed
  moreover have "concat [''da'', ''ta: U'' @ [CHR 0x0D], [newline]] = concat [''data: U'' @ [CHR 0x0D, newline]]"
    by simp
  ultimately show ?thesis using usage_independent_of_chunking by metis
qed

end
