(* ===== verification/Partition.thy ===== *)
theory Partition
  imports ProxyOnce "HOL-Library.Product_Lexorder"
begin

text \<open>
  \<^verbatim>\<open>HandlePartitionedJob\<close> of \<^verbatim>\<open>sdk/base/worker/partition.go\<close>: a request that can be cut into ranges is
  answered by one worker in batches, or by several workers at once, each with a range of its own and
  with retries on the workers that are free, and the answers are put together.
\<close>

section \<open>Jobs\<close>

text \<open>The interface \<^verbatim>\<open>spi.PartitionJob\<close>; its observer is in \<open>RequestMetrics\<close>.\<close>

record 'j job_ops =
  jo_size :: "'j \<Rightarrow> nat"
  jo_chunk :: "'j \<Rightarrow> nat \<Rightarrow> nat \<Rightarrow> string \<times> nat"
  jo_append :: "string \<Rightarrow> nat \<Rightarrow> 'j \<Rightarrow> 'j option"
  jo_result :: "'j \<Rightarrow> string"
  jo_path :: string
  jo_desired :: "worker \<Rightarrow> int"

definition aggregate_failed :: reply where
  "aggregate_failed = reply ''{\"error\":\"aggregate_failed\"}'' 502 False ''aggregate_failed''"

definition no_worker_reply :: reply where
  "no_worker_reply = reply ''{\"error\":\"no_worker\"}'' 404 False ''no_worker''"

definition empty_reply :: reply where
  "empty_reply = reply [] 400 False ''empty''"

section \<open>One worker\<close>

text \<open>
  \<open>call k w body n g\<close> is the \<open>k\<close>-th call of \<open>proxyHTTPOnce\<close> with the counting around it; \<open>None\<close> has not
  returned.
\<close>

definition batch_size :: "worker \<Rightarrow> nat \<Rightarrow> nat" where
  "batch_size wk remaining =
     (if w_batch wk \<le> 0 \<or> w_batch wk > int remaining then remaining else nat (w_batch wk))"

function single_loop ::
  "'j job_ops \<Rightarrow> (nat \<Rightarrow> worker \<Rightarrow> string \<Rightarrow> nat \<Rightarrow> 'g \<Rightarrow> (reply \<times> 'g) option outcome) \<Rightarrow> worker \<Rightarrow> nat \<Rightarrow> nat
    \<Rightarrow> nat \<Rightarrow> 'j \<Rightarrow> 'g \<Rightarrow> (reply \<times> 'j \<times> 'g) option outcome" where
  "single_loop ops call wk sz k start j g =
     (if start < sz then
        let remaining = sz - start;
            batch = batch_size wk remaining;
            (body, n) = jo_chunk ops j start batch
        in if n = 0 then Done (Some (reply (jo_result ops j) 200 True [], j, g))
           else
             case call k wk body n g of
               Panics \<Rightarrow> Panics
             | Blocks \<Rightarrow> Blocks
             | Done None \<Rightarrow> Done None
             | Done (Some (r, g)) \<Rightarrow>
                 if \<not> rp_ok r then Done (Some (reply (rp_body r) (rp_status r) False (rp_err r), j, g))
                 else
                   case jo_append ops (rp_body r) start j of
                     None \<Rightarrow> Done (Some (aggregate_failed, j, g))
                   | Some j \<Rightarrow> single_loop ops call wk sz (Suc k) (start + n) j g
      else Done (Some (reply (jo_result ops j) 200 True [], j, g)))"
  by pat_completeness auto
termination
  by (relation "measure (\<lambda>(ops, call, wk, sz, k, start, j, g). sz - start)") auto

declare single_loop.simps [simp del]

section \<open>Cutting the job\<close>

text \<open>Numbers are of type \<^verbatim>\<open>int\<close>: sums and products wrap around, a division by zero panics.\<close>

definition weight :: "'j job_ops \<Rightarrow> nat \<Rightarrow> worker \<Rightarrow> int" where
  "weight ops sz w =
     (let n = jo_desired ops w;
          n = (if n \<le> 0 then w_batch w else n)
      in if n \<le> 0 then int sz else n)"

fun sum64 :: "int list \<Rightarrow> int \<Rightarrow> int" where
  "sum64 [] t = t"
| "sum64 (n # ns) t = sum64 ns (wrap64 (t + n))"

fun split_loop :: "int list \<Rightarrow> int \<Rightarrow> int \<Rightarrow> int \<Rightarrow> (nat \<times> nat) list outcome" where
  "split_loop [] remaining offset remW = Done []"
| "split_loop (w # ws) remaining offset remW =
     (if ws \<noteq> [] then
        if remW = 0 then Panics
        else
          let portion = wrap64 (quo (wrap64 (remaining * w)) remW);
              portion = (if portion < 1 then 1 else portion);
              portion = (if portion > remaining then remaining else portion)
          in bind_outcome (split_loop ws (remaining - portion) (offset + portion) (wrap64 (remW - w)))
               (\<lambda>ts. Done ((nat offset, nat portion) # ts))
      else Done [(nat offset, nat remaining)])"

definition split_tasks :: "int list \<Rightarrow> nat \<Rightarrow> (nat \<times> nat) list outcome" where
  "split_tasks weights sz = split_loop weights (int sz) 0 (sum64 weights 0)"

section \<open>The pool\<close>

text \<open>
  The goroutine of a task is calling a worker, has failed on one, looks for a free worker, sleeps on
  \<^verbatim>\<open>cond\<close>, or has sent its result.  \<open>att\<close> are the workers it has tried, \<open>r\<close> the last reply.
\<close>

datatype phase =
    Calling string "string list"
  | Failed "string list" reply
  | Acquiring "string list" reply
  | Sleeping "string list" reply
  | Finished

record chunk_result =
  cr_task :: nat
  cr_start :: nat
  cr_reply :: reply

record pool =
  po_ids :: "string list"
  po_tasks :: "(nat \<times> nat) list"
  po_phase :: "phase list"
  po_used :: "string list"
  po_cond :: bool
  po_results :: "chunk_result list"

definition start_pool :: "string list \<Rightarrow> (nat \<times> nat) list \<Rightarrow> pool" where
  "start_pool ids tasks =
     \<lparr>po_ids = ids, po_tasks = tasks, po_phase = map (\<lambda>i. Calling i []) ids, po_used = ids, po_cond = False,
      po_results = []\<rparr>"

definition set_phase :: "nat \<Rightarrow> phase \<Rightarrow> pool \<Rightarrow> pool" where
  "set_phase k ph q = q\<lparr>po_phase := (po_phase q)[k := ph]\<rparr>"

definition put_result :: "nat \<Rightarrow> reply \<Rightarrow> pool \<Rightarrow> pool" where
  "put_result k r q =
     q\<lparr>po_results := po_results q @ [\<lparr>cr_task = k, cr_start = fst (po_tasks q ! k), cr_reply = r\<rparr>]\<rparr>"

definition release :: "string \<Rightarrow> pool \<Rightarrow> pool" where
  "release i q = q\<lparr>po_used := removeAll i (po_used q), po_cond := True\<rparr>"

definition add_id :: "string \<Rightarrow> string list \<Rightarrow> string list" where
  "add_id i att = (if i \<in> set att then att else i # att)"

fun first_free :: "string list \<Rightarrow> string list \<Rightarrow> string list \<Rightarrow> string option" where
  "first_free used exclude [] = None"
| "first_free used exclude (i # ids) =
     (if i \<in> set used \<or> i \<in> set exclude then first_free used exclude ids else Some i)"

text \<open>\<open>Reply k r\<close> is the return of \<open>proxyHTTPOnce\<close> in task \<open>k\<close>; \<open>noChunk\<close> says which tasks have an empty chunk.\<close>

datatype pool_event = NoChunk nat | Reply nat reply | Check nat | Acquire nat | Wake nat

fun pool_guard :: "(nat \<Rightarrow> bool) \<Rightarrow> pool_event \<Rightarrow> pool \<Rightarrow> bool" where
  "pool_guard noChunk (NoChunk k) q \<longleftrightarrow>
     k < length (po_phase q) \<and> (case po_phase q ! k of Calling _ _ \<Rightarrow> noChunk k | _ \<Rightarrow> False)"
| "pool_guard noChunk (Reply k r) q \<longleftrightarrow>
     k < length (po_phase q) \<and> (case po_phase q ! k of Calling _ _ \<Rightarrow> \<not> noChunk k | _ \<Rightarrow> False)"
| "pool_guard noChunk (Check k) q \<longleftrightarrow>
     k < length (po_phase q) \<and> (case po_phase q ! k of Failed _ _ \<Rightarrow> True | _ \<Rightarrow> False)"
| "pool_guard noChunk (Acquire k) q \<longleftrightarrow>
     k < length (po_phase q) \<and> (case po_phase q ! k of Acquiring _ _ \<Rightarrow> True | _ \<Rightarrow> False)"
| "pool_guard noChunk (Wake k) q \<longleftrightarrow>
     k < length (po_phase q) \<and> po_cond q \<and> (case po_phase q ! k of Sleeping _ _ \<Rightarrow> True | _ \<Rightarrow> False)"

text \<open>
  The send of a result never waits, because the channel has room for one result of every task, and
  the release that follows it touches nothing the result depends on; the two are one step.
\<close>

definition reply_step :: "nat \<Rightarrow> reply \<Rightarrow> pool \<Rightarrow> pool" where
  "reply_step k r q =
     (case po_phase q ! k of
        Calling i att \<Rightarrow>
          if rp_ok r then set_phase k Finished (release i (put_result k r q))
          else set_phase k (Failed (add_id i att) r) (release i q)
      | _ \<Rightarrow> q)"

definition check_step :: "nat \<Rightarrow> pool \<Rightarrow> pool" where
  "check_step k q =
     (case po_phase q ! k of
        Failed att r \<Rightarrow>
          if length (po_ids q) \<le> length att then set_phase k Finished (put_result k r q)
          else set_phase k (Acquiring att r) q
      | _ \<Rightarrow> q)"

definition acquire_step :: "nat \<Rightarrow> pool \<Rightarrow> pool" where
  "acquire_step k q =
     (case po_phase q ! k of
        Acquiring att r \<Rightarrow>
          (case first_free (po_used q) att (po_ids q) of
             Some i \<Rightarrow> set_phase k (Calling i att) (q\<lparr>po_used := i # po_used q\<rparr>)
           | None \<Rightarrow>
               if length (po_ids q) \<le> length att then set_phase k Finished (put_result k r q)
               else set_phase k (Sleeping att r) q)
      | _ \<Rightarrow> q)"

fun pool_step :: "pool_event \<Rightarrow> pool \<Rightarrow> pool" where
  "pool_step (NoChunk k) q = set_phase k Finished (put_result k empty_reply q)"
| "pool_step (Reply k r) q = reply_step k r q"
| "pool_step (Check k) q = check_step k q"
| "pool_step (Acquire k) q = acquire_step k q"
| "pool_step (Wake k) q =
     (case po_phase q ! k of
        Sleeping att r \<Rightarrow> set_phase k (Acquiring att r) (q\<lparr>po_cond := False\<rparr>)
      | _ \<Rightarrow> q)"

text \<open>Collecting \<open>n\<close> results in the order they arrive; \<open>None\<close> still waits for one.\<close>

fun collect :: "'j job_ops \<Rightarrow> nat \<Rightarrow> chunk_result list \<Rightarrow> 'j \<Rightarrow> (reply \<times> 'j) option" where
  "collect ops 0 rs j = Some (reply (jo_result ops j) 200 True [], j)"
| "collect ops (Suc n) [] j = None"
| "collect ops (Suc n) (r # rs) j =
     (if \<not> rp_ok (cr_reply r)
      then Some (reply (rp_body (cr_reply r)) (rp_status (cr_reply r)) False (rp_err (cr_reply r)), j)
      else
        case jo_append ops (rp_body (cr_reply r)) (cr_start r) j of
          None \<Rightarrow> Some (aggregate_failed, j)
        | Some j \<Rightarrow> collect ops n rs j)"

section \<open>The handler\<close>

text \<open>
  \<open>workersFor\<close> and \<open>pick\<close> are the registry's and the scheduler's answers for the model.  Workers with
  equal keys may come out of \<^verbatim>\<open>sort.Slice\<close> in any order; the stable one is one of them.  A run of the
  pool that is no execution is \<open>Blocks\<close>.
\<close>

definition job_workers ::
  "worker list \<Rightarrow> worker option \<Rightarrow> int \<Rightarrow> nat \<Rightarrow> worker list" where
  "job_workers exact picked maxParallel sz =
     (let mp = (if maxParallel \<le> 0 then 1 else maxParallel);
          ws = (if exact = [] then (case picked of None \<Rightarrow> [] | Some w \<Rightarrow> [w]) else exact);
          ws = sort_key (\<lambda>w. (w_inflight w, - w_batch w)) ws;
          ws = (if int (length ws) > mp then take (nat mp) ws else ws)
      in if length ws > sz then take sz ws else ws)"

definition run_pool ::
  "'j job_ops \<Rightarrow> worker list \<Rightarrow> (nat \<times> nat) list \<Rightarrow> pool_event list \<Rightarrow> 'j \<Rightarrow> (reply \<times> 'j) option outcome" where
  "run_pool ops ws tasks es j =
     (case run (pool_guard (\<lambda>k. snd (jo_chunk ops j (fst (tasks ! k)) (snd (tasks ! k))) = 0)) pool_step es
             (start_pool (map w_id ws) tasks) of
        None \<Rightarrow> Blocks
      | Some q \<Rightarrow> Done (collect ops (length tasks) (po_results q) j))"

definition HandlePartitionedJob ::
  "'j job_ops \<Rightarrow> worker list \<Rightarrow> worker option \<Rightarrow> int
    \<Rightarrow> (nat \<Rightarrow> worker \<Rightarrow> string \<Rightarrow> nat \<Rightarrow> 'g \<Rightarrow> (reply \<times> 'g) option outcome) \<Rightarrow> pool_event list \<Rightarrow> 'j \<Rightarrow> 'g
    \<Rightarrow> (reply \<times> 'j \<times> 'g) option outcome" where
  "HandlePartitionedJob ops exact picked maxParallel call es j g =
     (let sz = jo_size ops j in
      if sz = 0 then Done (Some (empty_reply, j, g))
      else
        let ws = job_workers exact picked maxParallel sz in
        case ws of
          [] \<Rightarrow> Done (Some (no_worker_reply, j, g))
        | [wk] \<Rightarrow> single_loop ops call wk sz 0 0 j g
        | _ \<Rightarrow>
            bind_outcome (split_tasks (map (weight ops sz) ws) sz)
              (\<lambda>tasks. bind_outcome (run_pool ops ws tasks es j)
                 (\<lambda>res. Done (map_option (\<lambda>(r, j). (r, j, g)) res))))"

end
