(* ===== verification/PartitionPool.thy ===== *)
theory PartitionPool
  imports Partition
begin

text \<open>
  The pool of goroutines of a partitioned request: the ranges tile the job, a worker serves one task
  at a time and a task tries a worker once, every task sends one result, no task sleeps for ever, and
  every run ends.
\<close>

section \<open>Tiling\<close>

fun tiles :: "nat \<Rightarrow> (nat \<times> nat) list \<Rightarrow> nat \<Rightarrow> bool" where
  "tiles a [] b \<longleftrightarrow> a = b"
| "tiles a ((s, c) # ts) b \<longleftrightarrow> s = a \<and> tiles (a + c) ts b"

lemma split_loop_tiles:
  "split_loop ws rm off rw = Done ts \<Longrightarrow> ws \<noteq> [] \<Longrightarrow> 0 \<le> rm \<Longrightarrow> 0 \<le> off \<Longrightarrow>
   length ts = length ws \<and> tiles (nat off) ts (nat (off + rm))"
proof (induction ws arbitrary: rm off rw ts)
  case (Cons w ws)
  show ?case
  proof (cases "ws = []")
    case True
    with Cons.prems show ?thesis by (auto simp: nat_add_distrib)
  next
    case False
    define p where "p = (let p = wrap64 (quo (wrap64 (rm * w)) rw); p = (if p < 1 then 1 else p)
      in if p > rm then rm else p)"
    with Cons.prems(1) False obtain ts' where ts: "ts = (nat off, nat p) # ts'"
      "split_loop ws (rm - p) (off + p) (wrap64 (rw - w)) = Done ts'"
      by (auto simp: Let_def split: if_splits)
    have p: "0 \<le> p" "p \<le> rm" using Cons.prems(3) by (auto simp: p_def Let_def)
    with Cons.IH [OF ts(2) False] Cons.prems(4) ts(1) show ?thesis by (simp add: nat_add_distrib)
  qed
qed simp

lemma split_tasks_tiles:
  "split_tasks ws sz = Done ts \<Longrightarrow> ws \<noteq> [] \<Longrightarrow> length ts = length ws \<and> tiles 0 ts sz"
  using split_loop_tiles [of ws "int sz" 0] by (auto simp: split_tasks_def)

lemma tiles_cover: "tiles a ts b \<Longrightarrow> a \<le> i \<Longrightarrow> i < b \<Longrightarrow>
    \<exists>k < length ts. fst (ts ! k) \<le> i \<and> i < fst (ts ! k) + snd (ts ! k)"
proof (induction ts arbitrary: a)
  case (Cons t ts)
  obtain s c where t: "t = (s, c)" by (cases t)
  with Cons.prems have s: "s = a" "tiles (a + c) ts b" by auto
  show ?case
  proof (cases "i < a + c")
    case True
    with Cons.prems s t show ?thesis by (intro exI [of _ 0]) simp
  next
    case False
    with Cons.IH [OF s(2)] Cons.prems obtain k where
      "k < length ts" "fst (ts ! k) \<le> i" "i < fst (ts ! k) + snd (ts ! k)" by auto
    then show ?thesis by (intro exI [of _ "Suc k"]) simp
  qed
qed simp

lemma tiles_bound: "tiles a ts b \<Longrightarrow> a \<le> b \<and> (\<forall>k < length ts. fst (ts ! k) + snd (ts ! k) \<le> b)"
proof (induction ts arbitrary: a)
  case (Cons t ts)
  obtain s c where t: "t = (s, c)" by (cases t)
  with Cons.prems have s: "s = a" "tiles (a + c) ts b" by auto
  from Cons.IH [OF s(2)] s(1) t show ?case by (auto simp: nth_Cons split: nat.splits)
qed simp

section \<open>The invariant of the pool\<close>

fun caller :: "phase \<Rightarrow> string option" where
  "caller (Calling i att) = Some i"
| "caller _ = None"

definition att_ok :: "pool \<Rightarrow> string list \<Rightarrow> bool" where
  "att_ok q att \<longleftrightarrow> distinct att \<and> set att \<subseteq> set (po_ids q)"

fun phase_ok :: "pool \<Rightarrow> phase \<Rightarrow> bool" where
  "phase_ok q (Calling i att) \<longleftrightarrow> att_ok q att \<and> i \<in> set (po_ids q) \<and> i \<notin> set att \<and> i \<in> set (po_used q)"
| "phase_ok q (Failed att r) \<longleftrightarrow> att_ok q att \<and> \<not> rp_ok r"
| "phase_ok q (Acquiring att r) \<longleftrightarrow> att_ok q att \<and> \<not> rp_ok r \<and> length att < length (po_ids q)"
| "phase_ok q (Sleeping att r) \<longleftrightarrow> att_ok q att \<and> \<not> rp_ok r \<and> length att < length (po_ids q)"
| "phase_ok q Finished \<longleftrightarrow> True"

definition results_ok :: "pool \<Rightarrow> bool" where
  "results_ok q \<longleftrightarrow>
     distinct (map cr_task (po_results q)) \<and>
     (\<forall>k < length (po_ids q). po_phase q ! k = Finished \<longleftrightarrow> k \<in> set (map cr_task (po_results q))) \<and>
     (\<forall>r \<in> set (po_results q). cr_task r < length (po_ids q) \<and> cr_start r = fst (po_tasks q ! cr_task r))"

definition pinv :: "pool \<Rightarrow> bool" where
  "pinv q \<longleftrightarrow>
     distinct (po_ids q) \<and> length (po_phase q) = length (po_ids q) \<and>
     (\<forall>k < length (po_ids q). phase_ok q (po_phase q ! k)) \<and>
     (\<forall>k < length (po_ids q). \<forall>j < length (po_ids q). \<forall>i.
        caller (po_phase q ! k) = Some i \<longrightarrow> caller (po_phase q ! j) = Some i \<longrightarrow> k = j) \<and>
     results_ok q"

lemma pinvD:
  assumes "pinv q"
  shows "distinct (po_ids q)" "length (po_phase q) = length (po_ids q)"
    and "k < length (po_ids q) \<Longrightarrow> phase_ok q (po_phase q ! k)"
    and "k < length (po_ids q) \<Longrightarrow> j < length (po_ids q) \<Longrightarrow> caller (po_phase q ! k) = Some i \<Longrightarrow>
      caller (po_phase q ! j) = Some i \<Longrightarrow> k = j"
    and "results_ok q"
  using assms unfolding pinv_def by blast+

lemma phase_ok_cong:
  "phase_ok q ph \<Longrightarrow> po_ids q' = po_ids q \<Longrightarrow>
   (\<And>i. caller ph = Some i \<Longrightarrow> i \<in> set (po_used q) \<Longrightarrow> i \<in> set (po_used q')) \<Longrightarrow> phase_ok q' ph"
  by (cases ph) (auto simp: att_ok_def)

text \<open>A step of task \<open>k\<close> that only changes its own phase, the busy workers and the results.\<close>

lemma pinv_step:
  assumes inv: "pinv q" and k: "k < length (po_ids q)"
    and same: "po_ids q' = po_ids q" "po_phase q' = (po_phase q)[k := ph]"
    and ok: "phase_ok q' ph"
    and used: "\<And>j i. j < length (po_ids q) \<Longrightarrow> j \<noteq> k \<Longrightarrow> caller (po_phase q ! j) = Some i \<Longrightarrow>
       i \<in> set (po_used q) \<Longrightarrow> i \<in> set (po_used q')"
    and new: "\<And>j i. j < length (po_ids q) \<Longrightarrow> j \<noteq> k \<Longrightarrow> caller ph = Some i \<Longrightarrow> caller (po_phase q ! j) \<noteq> Some i"
    and res: "results_ok q'"
  shows "pinv q'"
proof -
  note d = pinvD [OF inv]
  have n: "po_phase q' ! j = (if j = k then ph else po_phase q ! j)" if "j < length (po_ids q)" for j
    using that d(2) by (simp add: same nth_list_update)
  have "phase_ok q' (po_phase q' ! j)" if "j < length (po_ids q)" for j
    using that n [OF that] ok used phase_ok_cong [OF d(3) [OF that] same(1)] by (cases "j = k") auto
  moreover have "j = j'" if "j < length (po_ids q)" "j' < length (po_ids q)" "caller (po_phase q' ! j) = Some i"
    "caller (po_phase q' ! j') = Some i" for j j' i
    using that n [OF that(1)] n [OF that(2)] d(4) [OF that(1,2)] new by (metis (full_types))
  ultimately show ?thesis unfolding pinv_def using d(1,2) res by (simp add: same)
qed

lemma results_ok_same:
  assumes "results_ok q" "po_ids q' = po_ids q" "po_tasks q' = po_tasks q" "po_results q' = po_results q"
    and "po_phase q' = (po_phase q)[k := ph]" "po_phase q ! k \<noteq> Finished" "ph \<noteq> Finished"
    and "length (po_phase q) = length (po_ids q)"
  shows "results_ok q'"
proof -
  have "(po_phase q' ! j = Finished) = (po_phase q ! j = Finished)" if "j < length (po_ids q)" for j
    using that assms(5-8) by (cases "j = k") simp_all
  with assms show ?thesis unfolding results_ok_def by simp
qed

lemma results_ok_add:
  assumes "results_ok q" "po_ids q' = po_ids q" "po_tasks q' = po_tasks q"
    and "po_results q' = po_results q @ [\<lparr>cr_task = k, cr_start = fst (po_tasks q ! k), cr_reply = r\<rparr>]"
    and "po_phase q' = (po_phase q)[k := Finished]" "po_phase q ! k \<noteq> Finished" "k < length (po_ids q)"
    and "length (po_phase q) = length (po_ids q)"
  shows "results_ok q'"
proof -
  have "(po_phase q' ! j = Finished) = (j = k \<or> po_phase q ! j = Finished)" if "j < length (po_ids q)" for j
    using that assms(5-8) by (cases "j = k") simp_all
  moreover have "k \<notin> set (map cr_task (po_results q))" using assms(1,6,7) unfolding results_ok_def by blast
  ultimately show ?thesis using assms(1-4,7) unfolding results_ok_def by auto
qed


lemma pool_frame [simp]:
  "po_ids (set_phase k ph q) = po_ids q" "po_tasks (set_phase k ph q) = po_tasks q"
  "po_phase (set_phase k ph q) = (po_phase q)[k := ph]" "po_used (set_phase k ph q) = po_used q"
  "po_cond (set_phase k ph q) = po_cond q" "po_results (set_phase k ph q) = po_results q"
  "po_ids (put_result k r q) = po_ids q" "po_tasks (put_result k r q) = po_tasks q"
  "po_phase (put_result k r q) = po_phase q" "po_used (put_result k r q) = po_used q"
  "po_cond (put_result k r q) = po_cond q"
  "po_results (put_result k r q) =
     po_results q @ [\<lparr>cr_task = k, cr_start = fst (po_tasks q ! k), cr_reply = r\<rparr>]"
  "po_ids (release i q) = po_ids q" "po_tasks (release i q) = po_tasks q" "po_phase (release i q) = po_phase q"
  "po_used (release i q) = removeAll i (po_used q)" "po_cond (release i q)" "po_results (release i q) = po_results q"
  by (simp_all add: set_phase_def put_result_def release_def)

lemma first_free_some:
  "first_free used ex ids = Some i \<Longrightarrow> i \<in> set ids \<and> i \<notin> set used \<and> i \<notin> set ex"
  by (induction ids) (auto split: if_splits)

lemma first_free_none: "first_free used ex ids = None \<Longrightarrow> set ids \<subseteq> set used \<union> set ex"
  by (induction ids) (auto split: if_splits)

lemma att_full: "distinct ids \<Longrightarrow> att_ok q att \<Longrightarrow> po_ids q = ids \<Longrightarrow> length att \<le> length ids"
  by (metis att_ok_def card_mono distinct_card finite_set)

lemma no_chunk_inv:
  assumes inv: "pinv q" and g: "pool_guard noChunk (NoChunk k) q"
  shows "pinv (pool_step (NoChunk k) q)"
proof -
  note d = pinvD [OF inv]
  from g d(2) obtain i att where k: "k < length (po_ids q)" "po_phase q ! k = Calling i att"
    by (auto split: phase.splits)
  let ?q = "set_phase k Finished (put_result k empty_reply q)"
  have "results_ok ?q" by (rule results_ok_add [OF d(5), where k = k and r = empty_reply]) (use k d(2) in auto)
  then have "pinv ?q" by (intro pinv_step [OF inv k(1), where ph = Finished]) auto
  then show ?thesis by simp
qed

lemma reply_inv:
  assumes inv: "pinv q" and g: "pool_guard noChunk (Reply k r) q"
  shows "pinv (pool_step (Reply k r) q)"
proof -
  note d = pinvD [OF inv]
  from g d(2) obtain i att where k: "k < length (po_ids q)" "po_phase q ! k = Calling i att"
    by (auto split: phase.splits)
  from d(3) [OF k(1)] k(2) have p: "att_ok q att" "i \<in> set (po_ids q)" "i \<notin> set att" by auto
  have other: "c \<noteq> i" if "j < length (po_ids q)" "j \<noteq> k" "caller (po_phase q ! j) = Some c" for j c
    using d(4) [OF that(1) k(1)] that k(2) by auto
  show ?thesis
  proof (cases "rp_ok r")
    case True
    let ?q = "set_phase k Finished (release i (put_result k r q))"
    have "results_ok ?q" by (rule results_ok_add [OF d(5), where k = k and r = r]) (use k d(2) in auto)
    then have "pinv ?q" using other by (intro pinv_step [OF inv k(1), where ph = Finished]) auto
    with True k(2) show ?thesis by (simp add: reply_step_def)
  next
    case False
    let ?q = "set_phase k (Failed (add_id i att) r) (release i q)"
    have "results_ok ?q"
      by (rule results_ok_same [OF d(5), where k = k and ph = "Failed (add_id i att) r"]) (use k d(2) in auto)
    moreover have "phase_ok ?q (Failed (add_id i att) r)" using p False by (auto simp: att_ok_def add_id_def)
    ultimately have "pinv ?q" using other
      by (intro pinv_step [OF inv k(1), where ph = "Failed (add_id i att) r"]) auto
    with False k(2) show ?thesis by (simp add: reply_step_def)
  qed
qed

lemma check_inv:
  assumes inv: "pinv q" and g: "pool_guard noChunk (Check k) q"
  shows "pinv (pool_step (Check k) q)"
proof -
  note d = pinvD [OF inv]
  from g d(2) obtain att r where k: "k < length (po_ids q)" "po_phase q ! k = Failed att r"
    by (auto split: phase.splits)
  from d(3) [OF k(1)] k(2) have p: "att_ok q att" "\<not> rp_ok r" by auto
  show ?thesis
  proof (cases "length (po_ids q) \<le> length att")
    case True
    let ?q = "set_phase k Finished (put_result k r q)"
    have "results_ok ?q" by (rule results_ok_add [OF d(5), where k = k and r = r]) (use k d(2) in auto)
    then have "pinv ?q" by (intro pinv_step [OF inv k(1), where ph = Finished]) auto
    with True k(2) show ?thesis by (simp add: check_step_def)
  next
    case False
    let ?q = "set_phase k (Acquiring att r) q"
    have "results_ok ?q"
      by (rule results_ok_same [OF d(5), where k = k and ph = "Acquiring att r"]) (use k d(2) in auto)
    moreover have "phase_ok ?q (Acquiring att r)" using p False by (simp add: att_ok_def)
    ultimately have "pinv ?q" by (intro pinv_step [OF inv k(1), where ph = "Acquiring att r"]) auto
    with False k(2) show ?thesis by (simp add: check_step_def)
  qed
qed

lemma acquire_inv:
  assumes inv: "pinv q" and g: "pool_guard noChunk (Acquire k) q"
  shows "pinv (pool_step (Acquire k) q)"
proof -
  note d = pinvD [OF inv]
  from g d(2) obtain att r where k: "k < length (po_ids q)" "po_phase q ! k = Acquiring att r"
    by (auto split: phase.splits)
  from d(3) [OF k(1)] k(2) have p: "att_ok q att" "\<not> rp_ok r" "length att < length (po_ids q)" by auto
  show ?thesis
  proof (cases "first_free (po_used q) att (po_ids q)")
    case None
    let ?q = "set_phase k (Sleeping att r) q"
    have "results_ok ?q"
      by (rule results_ok_same [OF d(5), where k = k and ph = "Sleeping att r"]) (use k d(2) in auto)
    moreover have "phase_ok ?q (Sleeping att r)" using p by (simp add: att_ok_def)
    ultimately have "pinv ?q" by (intro pinv_step [OF inv k(1), where ph = "Sleeping att r"]) auto
    with None k(2) p(3) show ?thesis by (simp add: acquire_step_def)
  next
    case (Some i)
    let ?q = "set_phase k (Calling i att) (q\<lparr>po_used := i # po_used q\<rparr>)"
    from first_free_some [OF Some] have i: "i \<in> set (po_ids q)" "i \<notin> set (po_used q)" "i \<notin> set att" by auto
    have "caller (po_phase q ! j) \<noteq> Some i" if "j < length (po_ids q)" for j
      using d(3) [OF that] i(2) by (cases "po_phase q ! j") auto
    moreover have "results_ok ?q"
      by (rule results_ok_same [OF d(5), where k = k and ph = "Calling i att"]) (use k d(2) in auto)
    moreover have "phase_ok ?q (Calling i att)" using p i by (simp add: att_ok_def)
    ultimately have "pinv ?q" by (intro pinv_step [OF inv k(1), where ph = "Calling i att"]) auto
    with Some k(2) show ?thesis by (simp add: acquire_step_def)
  qed
qed

lemma wake_inv:
  assumes inv: "pinv q" and g: "pool_guard noChunk (Wake k) q"
  shows "pinv (pool_step (Wake k) q)"
proof -
  note d = pinvD [OF inv]
  from g d(2) obtain att r where k: "k < length (po_ids q)" "po_phase q ! k = Sleeping att r"
    by (auto split: phase.splits)
  from d(3) [OF k(1)] k(2) have p: "att_ok q att" "\<not> rp_ok r" "length att < length (po_ids q)" by auto
  let ?q = "set_phase k (Acquiring att r) (q\<lparr>po_cond := False\<rparr>)"
  have "results_ok ?q"
    by (rule results_ok_same [OF d(5), where k = k and ph = "Acquiring att r"]) (use k d(2) in auto)
  moreover have "phase_ok ?q (Acquiring att r)" using p by (simp add: att_ok_def)
  ultimately have "pinv ?q" by (intro pinv_step [OF inv k(1), where ph = "Acquiring att r"]) auto
  with k(2) show ?thesis by simp
qed

definition pinit :: "pool \<Rightarrow> bool" where
  "pinit q \<longleftrightarrow> (\<exists>ids tasks. distinct ids \<and> length tasks = length ids \<and> q = start_pool ids tasks)"

lemma start_inv: "pinit q \<Longrightarrow> pinv q"
  by (auto simp: pinit_def pinv_def start_pool_def results_ok_def att_ok_def nth_eq_iff_index_eq)

interpretation pool_runs: guarded_machine pinit "pool_guard noChunk" pool_step pinv
proof unfold_locales
  fix e q
  assume "pinv q" "pool_guard noChunk e q"
  then show "pinv (pool_step e q)"
    by (cases e) (metis no_chunk_inv reply_inv check_inv acquire_inv wake_inv)+
qed (rule start_inv)


lemma calling_short:
  assumes "pinv q" "k < length (po_ids q)" "po_phase q ! k = Calling i att"
  shows "length att < length (po_ids q)"
proof -
  from pinvD(3) [OF assms(1,2)] assms(3) have "distinct (i # att)" "set (i # att) \<subseteq> set (po_ids q)"
    by (auto simp: att_ok_def)
  then have "length (i # att) \<le> card (set (po_ids q))" by (metis card_mono distinct_card finite_set)
  then show ?thesis using pinvD(1) [OF assms(1)] by (simp add: distinct_card)
qed

section \<open>Progress\<close>

fun active :: "phase \<Rightarrow> bool" where
  "active (Calling i att) = True"
| "active (Acquiring att r) = True"
| "active _ = False"

fun asleep :: "phase \<Rightarrow> bool" where
  "asleep (Sleeping att r) = True"
| "asleep _ = False"

text \<open>
  Every busy worker has a caller, and where somebody sleeps there is a token to wake with or a task
  that will either call a worker or put one back.
\<close>

definition linv :: "pool \<Rightarrow> bool" where
  "linv q \<longleftrightarrow>
     (\<forall>i \<in> set (po_used q). \<exists>k < length (po_ids q). caller (po_phase q ! k) = Some i) \<and>
     ((\<exists>k < length (po_ids q). asleep (po_phase q ! k)) \<longrightarrow>
        po_cond q \<or> (\<exists>k < length (po_ids q). active (po_phase q ! k)))"

lemma linv_step:
  assumes inv: "pinv q" and l: "linv q" and k: "k < length (po_ids q)"
    and same: "po_ids q' = po_ids q" "po_phase q' = (po_phase q)[k := ph]"
    and used: "\<And>i. i \<in> set (po_used q') \<Longrightarrow>
       caller ph = Some i \<or> (i \<in> set (po_used q) \<and> caller (po_phase q ! k) \<noteq> Some i)"
    and wake: "po_cond q' \<or> active ph \<or> (\<exists>j < length (po_ids q). j \<noteq> k \<and> active (po_phase q ! j)) \<or>
       (\<not> asleep ph \<and> \<not> active (po_phase q ! k) \<and> (po_cond q \<longrightarrow> po_cond q'))"
  shows "linv q'"
proof -
  have n: "po_phase q' ! j = (if j = k then ph else po_phase q ! j)" if "j < length (po_ids q)" for j
    using that pinvD(2) [OF inv] by (simp add: same nth_list_update)
  have "\<exists>j < length (po_ids q). caller (po_phase q' ! j) = Some i" if i: "i \<in> set (po_used q')" for i
    using used [OF i]
  proof
    assume "caller ph = Some i"
    with n [OF k] k show ?thesis by auto
  next
    assume u: "i \<in> set (po_used q) \<and> caller (po_phase q ! k) \<noteq> Some i"
    with l obtain j where "j < length (po_ids q)" "caller (po_phase q ! j) = Some i" by (auto simp: linv_def)
    with u n [of j] show ?thesis by (intro exI [of _ j]) auto
  qed
  moreover have "po_cond q' \<or> (\<exists>j < length (po_ids q). active (po_phase q' ! j))"
    if s: "j0 < length (po_ids q)" "asleep (po_phase q' ! j0)" for j0
    using wake
  proof (elim disjE exE conjE)
    assume "active ph"
    with n [OF k] k show ?thesis by auto
  next
    fix j assume "j < length (po_ids q)" "j \<noteq> k" "active (po_phase q ! j)"
    with n [of j] show ?thesis by auto
  next
    assume a: "\<not> asleep ph" "\<not> active (po_phase q ! k)" "po_cond q \<longrightarrow> po_cond q'"
    from s n [OF s(1)] a(1) have "asleep (po_phase q ! j0)" by (auto split: if_splits)
    with l s(1) have "po_cond q \<or> (\<exists>j < length (po_ids q). active (po_phase q ! j))" by (auto simp: linv_def)
    then show ?thesis
    proof
      assume "\<exists>j < length (po_ids q). active (po_phase q ! j)"
      then obtain j where j: "j < length (po_ids q)" "active (po_phase q ! j)" by blast
      with a(2) have "j \<noteq> k" by auto
      with j n [OF j(1)] show ?thesis by auto
    qed (use a(3) in blast)
  qed simp
  ultimately show ?thesis unfolding linv_def by (simp add: same) blast
qed

lemma busy_caller:
  assumes "pinv q" "linv q" "att_ok q att" "length att < length (po_ids q)" "first_free (po_used q) att (po_ids q) = None"
  shows "\<exists>j < length (po_ids q). \<exists>i a. po_phase q ! j = Calling i a"
proof -
  have "card (set att) < card (set (po_ids q))"
    using assms(1,3,4) by (simp add: distinct_card pinv_def att_ok_def)
  then obtain i where i: "i \<in> set (po_ids q)" "i \<notin> set att"
    by (meson card_mono finite_set leD subsetI)
  with first_free_none [OF assms(5)] have "i \<in> set (po_used q)" by blast
  with assms(2) obtain j where "j < length (po_ids q)" "caller (po_phase q ! j) = Some i" by (auto simp: linv_def)
  then show ?thesis by (cases "po_phase q ! j") auto
qed

lemma step_linv:
  assumes inv: "pinv q" and l: "linv q" and g: "pool_guard (\<lambda>_. False) e q"
  shows "linv (pool_step e q)"
proof -
  note len = pinvD(2) [OF inv]
  show ?thesis
  proof (cases e)
    case (NoChunk k)
    with g show ?thesis by (auto split: phase.splits)
  next
    case (Reply k r)
    with g len obtain i att where k: "k < length (po_ids q)" "po_phase q ! k = Calling i att"
      by (auto split: phase.splits)
    then show ?thesis
      by (intro linv_step [OF inv l k(1), where ph = "if rp_ok r then Finished else Failed (add_id i att) r"])
         (auto simp: Reply reply_step_def split: if_splits)
  next
    case (Check k)
    with g len obtain att r where k: "k < length (po_ids q)" "po_phase q ! k = Failed att r"
      by (auto split: phase.splits)
    with linv_step [OF inv l k(1), of "pool_step e q" "if length (po_ids q) \<le> length att then Finished else Acquiring att r"]
    show ?thesis by (auto simp: Check check_step_def)
  next
    case (Acquire k)
    with g len obtain att r where k: "k < length (po_ids q)" "po_phase q ! k = Acquiring att r"
      by (auto split: phase.splits)
    from pinvD(3) [OF inv k(1)] k(2) have p: "att_ok q att" "length att < length (po_ids q)" by auto
    show ?thesis
    proof (cases "first_free (po_used q) att (po_ids q)")
      case None
      from busy_caller [OF inv l p None] obtain j i a where
        "j < length (po_ids q)" "po_phase q ! j = Calling i a" by blast
      moreover from this k(2) have "j \<noteq> k" by auto
      ultimately have "\<exists>j < length (po_ids q). j \<noteq> k \<and> active (po_phase q ! j)" by auto
      with linv_step [OF inv l k(1), of "pool_step e q" "Sleeping att r"] k(2) None p(2)
      show ?thesis by (auto simp: Acquire acquire_step_def)
    next
      case (Some i)
      with linv_step [OF inv l k(1), of "pool_step e q" "Calling i att"] k(2)
      show ?thesis by (auto simp: Acquire acquire_step_def)
    qed
  next
    case (Wake k)
    with g len obtain att r where k: "k < length (po_ids q)" "po_phase q ! k = Sleeping att r"
      by (auto split: phase.splits)
    with linv_step [OF inv l k(1), of "pool_step e q" "Acquiring att r"] show ?thesis by (auto simp: Wake)
  qed
qed

lemma start_linv: "pinit q \<Longrightarrow> linv q"
proof -
  assume "pinit q"
  then obtain ids tasks where q: "q = start_pool ids tasks" by (auto simp: pinit_def)
  have "\<exists>k < length ids. caller (map (\<lambda>i. Calling i []) ids ! k) = Some i" if "i \<in> set ids" for i
    using that by (auto simp: in_set_conv_nth)
  then show ?thesis by (auto simp: linv_def start_pool_def q)
qed

interpretation live_runs: guarded_machine pinit "pool_guard (\<lambda>_. False)" pool_step "\<lambda>q. pinv q \<and> linv q"
  by unfold_locales (use start_inv start_linv step_linv pool_runs.step_inv in blast)+

lemma live_enabled:
  assumes "pinv q" "linv q" "\<forall>e. \<not> pool_guard (\<lambda>_. False) e q" "k < length (po_ids q)"
  shows "po_phase q ! k = Finished"
proof -
  note len = pinvD(2) [OF assms(1)]
  have no: "\<not> active (po_phase q ! j)" if "j < length (po_ids q)" for j
    using assms(3) [rule_format, of "Reply j undefined"] assms(3) [rule_format, of "Acquire j"] that len
    by (cases "po_phase q ! j") auto
  show ?thesis
  proof (cases "po_phase q ! k")
    case (Sleeping att r)
    with assms(2,4) no have "po_cond q" by (auto simp: linv_def)
    with Sleeping assms(3) [rule_format, of "Wake k"] assms(4) len show ?thesis by simp
  next
    case (Failed att r)
    with assms(3) [rule_format, of "Check k"] assms(4) len show ?thesis by simp
  qed (use no [OF assms(4)] in auto)
qed

lemma step_ids: "po_ids (pool_step e q) = po_ids q"
  by (cases e) (auto simp: reply_step_def check_step_def acquire_step_def split: phase.splits option.splits)

lemma run_ids: "run (pool_guard noChunk) pool_step es q = Some q' \<Longrightarrow> po_ids q' = po_ids q"
  by (induction es arbitrary: q) (auto simp: step_ids simp del: pool_guard.simps pool_step.simps split: if_splits)

section \<open>Every run ends\<close>

fun fuel :: "nat \<Rightarrow> phase \<Rightarrow> nat" where
  "fuel n (Calling i att) = 5 * (n - length att)"
| "fuel n (Failed att r) = 5 * (n - length att) + 2"
| "fuel n (Acquiring att r) = 5 * (n - length att) + 1"
| "fuel n (Sleeping att r) = 5 * (n - length att)"
| "fuel n Finished = 0"

definition pool_fuel :: "pool \<Rightarrow> nat" where
  "pool_fuel q = sum_list (map (fuel (length (po_ids q))) (po_phase q)) + (if po_cond q then 2 else 0)"

lemma pool_fuel_step:
  assumes "k < length (po_phase q)" "po_ids q' = po_ids q" "po_phase q' = (po_phase q)[k := ph]"
    and "fuel (length (po_ids q)) ph + (if po_cond q' then 2 else 0) <
      fuel (length (po_ids q)) (po_phase q ! k) + (if po_cond q then 2 else 0)"
  shows "pool_fuel q' < pool_fuel q"
proof -
  let ?f = "fuel (length (po_ids q))"
  have "?f (po_phase q ! k) \<le> sum_list (map ?f (po_phase q))"
    using assms(1) by (intro member_le_sum_list) auto
  with assms show ?thesis by (simp add: pool_fuel_def map_update sum_list_update)
qed

lemma step_fuel:
  assumes inv: "pinv q" and g: "pool_guard noChunk e q"
  shows "pool_fuel (pool_step e q) < pool_fuel q"
proof -
  note len = pinvD(2) [OF inv]
  let ?n = "length (po_ids q)"
  show ?thesis
  proof (cases e)
    case (NoChunk k)
    with g len obtain i att where k: "k < ?n" "po_phase q ! k = Calling i att" by (auto split: phase.splits)
    have "length att < ?n" by (rule calling_short [OF inv k])
    with k len NoChunk show ?thesis by (intro pool_fuel_step [where k = k and ph = Finished]) auto
  next
    case (Reply k r)
    with g len obtain i att where k: "k < ?n" "po_phase q ! k = Calling i att" by (auto split: phase.splits)
    have s: "length att < ?n" by (rule calling_short [OF inv k])
    from pinvD(3) [OF inv k(1)] k(2) have "add_id i att = i # att" by (simp add: add_id_def)
    with k len Reply s show ?thesis
      by (intro pool_fuel_step [where k = k and ph = "if rp_ok r then Finished else Failed (i # att) r"])
         (auto simp: reply_step_def)
  next
    case (Check k)
    with g len obtain att r where k: "k < ?n" "po_phase q ! k = Failed att r" by (auto split: phase.splits)
    with len Check show ?thesis
      by (intro pool_fuel_step [where k = k and ph = "if ?n \<le> length att then Finished else Acquiring att r"])
         (auto simp: check_step_def)
  next
    case (Acquire k)
    with g len obtain att r where k: "k < ?n" "po_phase q ! k = Acquiring att r" by (auto split: phase.splits)
    from pinvD(3) [OF inv k(1)] k(2) have "length att < ?n" by auto
    with k len Acquire show ?thesis
      by (intro pool_fuel_step [where k = k and ph = "case first_free (po_used q) att (po_ids q) of
            Some i \<Rightarrow> Calling i att | None \<Rightarrow> Sleeping att r"])
         (auto simp: acquire_step_def split: option.splits)
  next
    case (Wake k)
    with g len obtain att r where k: "k < ?n" "po_phase q ! k = Sleeping att r" by (auto split: phase.splits)
    with g len Wake show ?thesis by (intro pool_fuel_step [where k = k and ph = "Acquiring att r"]) auto
  qed
qed

lemma run_fuel:
  "pinv q \<Longrightarrow> run (pool_guard noChunk) pool_step es q = Some q' \<Longrightarrow> length es + pool_fuel q' \<le> pool_fuel q"
proof (induction es arbitrary: q)
  case (Cons e es)
  then have g: "pool_guard noChunk e q" by (auto split: if_splits)
  from Cons.prems g have "run (pool_guard noChunk) pool_step es (pool_step e q) = Some q'" by simp
  from Cons.IH [OF pool_runs.step_inv [OF Cons.prems(1) g] this] step_fuel [OF Cons.prems(1) g] show ?case by simp
qed simp

end
