(* ===== verification/PartitionJobs.thy ===== *)
theory PartitionJobs
  imports PartitionPool
begin

text \<open>
  What a partitionable job promises, and what the handler makes of it: whatever order the answers
  arrive in, each is put where its range is.
\<close>

section \<open>Writing a range\<close>

text \<open>\<^verbatim>\<open>copy(dst[st:], xs)\<close>.\<close>

definition write_at :: "nat \<Rightarrow> 'a list \<Rightarrow> 'a list \<Rightarrow> 'a list" where
  "write_at st xs dst = take st dst @ take (length dst - st) xs @ drop (st + length xs) dst"

lemma length_write_at [simp]: "st \<le> length dst \<Longrightarrow> length (write_at st xs dst) = length dst"
  by (simp add: write_at_def)

lemma nth_write_at:
  "st \<le> length dst \<Longrightarrow> i < length dst \<Longrightarrow>
   write_at st xs dst ! i = (if st \<le> i \<and> i < st + length xs then xs ! (i - st) else dst ! i)"
  by (auto simp: write_at_def nth_append min_def)

lemma nth_write_slice:
  assumes "length dst = length vals" "st + c \<le> length vals" "i < length vals"
  shows "write_at st (map Some (take c (drop st vals))) dst ! i =
    (if st \<le> i \<and> i < st + c then Some (vals ! i) else dst ! i)"
  using assms by (auto simp: nth_write_at min_def)

section \<open>The contract\<close>

text \<open>
  \<open>parts\<close> are the slots of the result, \<open>answer\<close> the elements a response carries.  A chunk holds what
  is left of the range, and appending a response writes its elements from the start of the range on.
\<close>

lemma job_workers_distinct:
  "distinct (map w_id exact) \<Longrightarrow> distinct (map w_id (job_workers exact picked mp sz))"
proof -
  assume d: "distinct (map w_id exact)"
  let ?ws = "if exact = [] then (case picked of None \<Rightarrow> [] | Some w \<Rightarrow> [w]) else exact"
  have "distinct (map w_id ?ws)" using d by (auto split: option.splits)
  then have "distinct (map w_id (sort_key (\<lambda>w. (w_inflight w, - w_batch w)) ?ws))"
    by (simp add: distinct_map)
  then show ?thesis unfolding job_workers_def Let_def by (auto simp flip: take_map)
qed

locale partition_job =
  fixes ops :: "'j job_ops"
    and parts :: "'j \<Rightarrow> 'e option list"
    and answer :: "string \<Rightarrow> 'e list"
    and ok :: "'j \<Rightarrow> bool"
  assumes parts_length: "ok j \<Longrightarrow> length (parts j) = jo_size ops j"
    and chunk_count: "snd (jo_chunk ops j st n) = min n (jo_size ops j - st)"
    and append_parts: "ok j \<Longrightarrow> st \<le> jo_size ops j \<Longrightarrow> \<exists>j'. jo_append ops b st j = Some j' \<and> ok j' \<and>
      parts j' = write_at st (map Some (answer b)) (parts j) \<and> (\<forall>s n. jo_chunk ops j' s n = jo_chunk ops j s n)"
begin

text \<open>\<open>good vals tasks r\<close>: the reply to a task carries the values of its range.\<close>

definition good :: "'e list \<Rightarrow> nat \<times> nat \<Rightarrow> reply \<Rightarrow> bool" where
  "good vals t r \<longleftrightarrow> answer (rp_body r) = take (snd t) (drop (fst t) vals)"

lemma appended:
  assumes "ok j" "jo_size ops j = length vals" "st + c \<le> length vals" "answer b = take c (drop st vals)"
  shows "\<exists>j'. jo_append ops b st j = Some j' \<and> ok j' \<and> jo_size ops j' = length vals \<and>
    (\<forall>s n. jo_chunk ops j' s n = jo_chunk ops j s n) \<and>
    (\<forall>i < length vals. parts j' ! i = (if st \<le> i \<and> i < st + c then Some (vals ! i) else parts j ! i))"
proof -
  from append_parts [OF assms(1), of st b] assms(2,3) obtain j' where j': "jo_append ops b st j = Some j'"
    "parts j' = write_at st (map Some (answer b)) (parts j)" "\<forall>s n. jo_chunk ops j' s n = jo_chunk ops j s n" "ok j'" by auto
  have l: "length (parts j) = length vals" by (simp add: parts_length assms(1,2))
  then have "jo_size ops j' = length vals" using j'(2) assms(3) by (simp flip: parts_length [OF j'(4)])
  moreover have "\<forall>i < length vals. parts j' ! i = (if st \<le> i \<and> i < st + c then Some (vals ! i) else parts j ! i)"
    unfolding j'(2) assms(4) using nth_write_slice [OF l assms(3)] by simp
  ultimately show ?thesis using j'(1,3,4) by blast
qed

text \<open>Collecting good replies of all the tasks, in any order, fills every slot that some task covers.\<close>

lemma collect_good:
  "ok j \<Longrightarrow> jo_size ops j = length vals \<Longrightarrow> length rs = n \<Longrightarrow>
   (\<forall>r \<in> set rs. rp_ok (cr_reply r) \<and> good vals (tasks ! cr_task r) (cr_reply r) \<and>
      cr_start r = fst (tasks ! cr_task r) \<and> fst (tasks ! cr_task r) + snd (tasks ! cr_task r) \<le> length vals) \<Longrightarrow>
   \<exists>j'. collect ops n rs j = Some (reply (jo_result ops j') 200 True [], j') \<and> ok j' \<and> jo_size ops j' = length vals \<and>
     (\<forall>i < length vals. parts j' ! i =
        (if \<exists>r \<in> set rs. fst (tasks ! cr_task r) \<le> i \<and> i < fst (tasks ! cr_task r) + snd (tasks ! cr_task r)
         then Some (vals ! i) else parts j ! i))"
proof (induction rs arbitrary: n j)
  case (Cons r rs)
  let ?t = "tasks ! cr_task r"
  from Cons.prems(4) have r: "rp_ok (cr_reply r)" "answer (rp_body (cr_reply r)) = take (snd ?t) (drop (fst ?t) vals)"
    "cr_start r = fst ?t" "fst ?t + snd ?t \<le> length vals" by (auto simp: good_def)
  from appended [OF Cons.prems(1,2) r(4,2)] obtain j1 where
    j1: "jo_append ops (rp_body (cr_reply r)) (fst ?t) j = Some j1" "ok j1" "jo_size ops j1 = length vals"
      "\<forall>i < length vals. parts j1 ! i = (if fst ?t \<le> i \<and> i < fst ?t + snd ?t then Some (vals ! i) else parts j ! i)"
    by blast
  obtain m where m: "n = Suc m" "length rs = m" using Cons.prems(3) by auto
  from Cons.IH [OF j1(2,3) m(2)] Cons.prems(4) obtain j' where
    j': "collect ops m rs j1 = Some (reply (jo_result ops j') 200 True [], j')" "ok j'" "jo_size ops j' = length vals"
      "\<forall>i < length vals. parts j' ! i =
        (if \<exists>r \<in> set rs. fst (tasks ! cr_task r) \<le> i \<and> i < fst (tasks ! cr_task r) + snd (tasks ! cr_task r)
         then Some (vals ! i) else parts j1 ! i)" by auto
  have "collect ops n (r # rs) j = Some (reply (jo_result ops j') 200 True [], j')"
    by (simp add: m r j1(1) j'(1))
  moreover have "\<forall>i < length vals. parts j' ! i =
      (if \<exists>r \<in> set (r # rs). fst (tasks ! cr_task r) \<le> i \<and> i < fst (tasks ! cr_task r) + snd (tasks ! cr_task r)
       then Some (vals ! i) else parts j ! i)"
    using j'(4) j1(4) by auto
  ultimately show ?case using j'(2,3) by blast
qed simp

lemma all_parts:
  assumes "ok j" "jo_size ops j = length vals" "\<forall>i < length vals. parts j ! i = Some (vals ! i)"
  shows "parts j = map Some vals"
  using assms by (intro nth_equalityI) (simp_all add: parts_length)

lemma collect_all:
  assumes "ok j" "jo_size ops j = length vals" "tiles 0 tasks (length vals)" "length rs = length tasks"
    and "distinct (map cr_task rs)"
    and "\<forall>r \<in> set rs. cr_task r < length tasks \<and> cr_start r = fst (tasks ! cr_task r) \<and> rp_ok (cr_reply r) \<and>
      good vals (tasks ! cr_task r) (cr_reply r)"
  shows "\<exists>j'. collect ops (length tasks) rs j = Some (reply (jo_result ops j') 200 True [], j') \<and>
    parts j' = map Some vals"
proof -
  have b: "fst (tasks ! k) + snd (tasks ! k) \<le> length vals" if "k < length tasks" for k
    using tiles_bound [OF assms(3)] that by blast
  have "\<forall>r \<in> set rs. rp_ok (cr_reply r) \<and> good vals (tasks ! cr_task r) (cr_reply r) \<and>
      cr_start r = fst (tasks ! cr_task r) \<and> fst (tasks ! cr_task r) + snd (tasks ! cr_task r) \<le> length vals"
    using assms(6) b by blast
  from collect_good [OF assms(1,2,4) this] obtain j' where
    j': "collect ops (length tasks) rs j = Some (reply (jo_result ops j') 200 True [], j')" "ok j'" "jo_size ops j' = length vals"
      "\<forall>i < length vals. parts j' ! i =
        (if \<exists>r \<in> set rs. fst (tasks ! cr_task r) \<le> i \<and> i < fst (tasks ! cr_task r) + snd (tasks ! cr_task r)
         then Some (vals ! i) else parts j ! i)" by blast
  have sub: "set (map cr_task rs) \<subseteq> {..<length tasks}" using assms(6) by auto
  have "card (set (map cr_task rs)) = length tasks" using assms(4,5) by (simp add: distinct_card del: set_map)
  with sub have all: "set (map cr_task rs) = {..<length tasks}" by (intro card_subset_eq) simp_all
  have "parts j' ! i = Some (vals ! i)" if i: "i < length vals" for i
  proof -
    from tiles_cover [OF assms(3) _ i] obtain k where
      k: "k < length tasks" "fst (tasks ! k) \<le> i" "i < fst (tasks ! k) + snd (tasks ! k)" by auto
    with all have "k \<in> cr_task ` set rs" by auto
    with k j'(4) i show ?thesis by auto
  qed
  with all_parts [OF j'(2,3)] j'(1) show ?thesis by blast
qed

text \<open>One worker: if every call brings the values of its batch, the batches make up the result.\<close>

lemma single_good:
  "ok j \<Longrightarrow> jo_size ops j = length vals \<Longrightarrow> start \<le> length vals \<Longrightarrow>
   (\<forall>i < start. parts j ! i = Some (vals ! i)) \<Longrightarrow> (\<forall>s n. jo_chunk ops j s n = jo_chunk ops j0 s n) \<Longrightarrow>
   (\<And>k st n g r g'. 0 < n \<Longrightarrow> st + n \<le> length vals \<Longrightarrow> call k wk (fst (jo_chunk ops j0 st n)) n g = Done (Some (r, g')) \<Longrightarrow>
      rp_ok r \<Longrightarrow> good vals (st, n) r) \<Longrightarrow>
   single_loop ops call wk (length vals) k start j g = Done (Some (r, j', g')) \<Longrightarrow> rp_ok r \<Longrightarrow>
   r = reply (jo_result ops j') 200 True [] \<and> parts j' = map Some vals"
proof (induction "length vals - start" arbitrary: k start j g rule: less_induct)
  case less
  note out = less.prems(7)
  show ?case
  proof (cases "start < length vals")
    case False
    with out less.prems(3) have "start = length vals" "j' = j" "r = reply (jo_result ops j) 200 True []"
      by (auto simp: single_loop.simps [of ops call wk "length vals" k start j g])
    with all_parts [OF less.prems(1,2)] less.prems(4) show ?thesis by simp
  next
    case True
    define rm where "rm = length vals - start"
    define batch where "batch = batch_size wk rm"
    have batch: "0 < batch" "batch \<le> rm" using True by (auto simp: batch_def batch_size_def rm_def)
    let ?c = "jo_chunk ops j start batch"
    have n: "snd ?c = batch" using chunk_count [of j start batch] less.prems(2) batch by (simp add: rm_def)
    have body: "fst ?c = fst (jo_chunk ops j0 start batch)" using less.prems(5) by simp
    have eq: "single_loop ops call wk (length vals) k start j g =
      (case call k wk (fst ?c) batch g of
         Panics \<Rightarrow> Panics
       | Blocks \<Rightarrow> Blocks
       | Done None \<Rightarrow> Done None
       | Done (Some (r, g)) \<Rightarrow>
           if \<not> rp_ok r then Done (Some (reply (rp_body r) (rp_status r) False (rp_err r), j, g))
           else case jo_append ops (rp_body r) start j of
             None \<Rightarrow> Done (Some (aggregate_failed, j, g))
           | Some j \<Rightarrow> single_loop ops call wk (length vals) (Suc k) (start + batch) j g)"
      unfolding single_loop.simps [of ops call wk "length vals" k start j g] Let_def case_prod_beta
        rm_def [symmetric] batch_def [symmetric] n
      using True batch(1) by simp
    from out obtain r1 g1 where
      call: "call k wk (fst ?c) batch g = Done (Some (r1, g1))"
      unfolding eq by (auto split: outcome.splits option.splits prod.splits)
    with out have rest: "(if \<not> rp_ok r1 then Done (Some (reply (rp_body r1) (rp_status r1) False (rp_err r1), j, g1))
         else case jo_append ops (rp_body r1) start j of
           None \<Rightarrow> Done (Some (aggregate_failed, j, g1))
         | Some j \<Rightarrow> single_loop ops call wk (length vals) (Suc k) (start + batch) j g1) = Done (Some (r, j', g'))"
      unfolding eq by simp
    from rest less.prems(8) have ok: "rp_ok r1" by (cases "rp_ok r1") (auto simp: reply_def)
    have fits: "start + batch \<le> length vals" using batch by (simp add: rm_def)
    from less.prems(6) [OF batch(1) fits call [unfolded body] ok]
    have "answer (rp_body r1) = take batch (drop start vals)" by (simp add: good_def)
    from appended [OF less.prems(1,2) fits this] obtain j1 where
      j1: "jo_append ops (rp_body r1) start j = Some j1" "ok j1" "jo_size ops j1 = length vals"
        "\<forall>s n. jo_chunk ops j1 s n = jo_chunk ops j s n"
        "\<forall>i < length vals. parts j1 ! i = (if start \<le> i \<and> i < start + batch then Some (vals ! i) else parts j ! i)"
      by blast
    have "\<forall>i < start + batch. parts j1 ! i = Some (vals ! i)" using j1(5) less.prems(4) fits by simp
    moreover have "\<forall>s n. jo_chunk ops j1 s n = jo_chunk ops j0 s n" using j1(4) less.prems(5) by simp
    moreover from rest ok j1(1) have
      "single_loop ops call wk (length vals) (Suc k) (start + batch) j1 g1 = Done (Some (r, j', g'))" by simp
    ultimately show ?thesis
      using less.hyps [of "start + batch" j1] batch True fits j1(2,3) less.prems(6,8) by (simp add: rm_def)
  qed
qed

lemma collect_ok:
  "collect ops n rs j = Some (r, j') \<Longrightarrow> rp_ok r \<Longrightarrow> n \<le> length rs \<and> (\<forall>x \<in> set (take n rs). rp_ok (cr_reply x))"
proof (induction ops n rs j rule: collect.induct)
  case (3 ops n x rs j)
  then have ok: "rp_ok (cr_reply x)" by (auto simp: reply_def split: if_splits)
  with "3.prems" obtain j1 where j1: "jo_append ops (rp_body (cr_reply x)) (cr_start x) j = Some j1"
    by (auto simp: aggregate_failed_def reply_def split: option.splits)
  with "3.IH" [OF _ j1] "3.prems" ok show ?case by simp
qed simp_all

lemma step_results_good:
  assumes "pinv q" "pool_guard nc e q" "po_tasks q = tasks"
    and "\<forall>x \<in> set (po_results q). rp_ok (cr_reply x) \<longrightarrow> good vals (tasks ! cr_task x) (cr_reply x)"
    and "\<forall>k r. e = Reply k r \<longrightarrow> rp_ok r \<longrightarrow> good vals (tasks ! k) r"
  shows "po_tasks (pool_step e q) = tasks \<and>
    (\<forall>x \<in> set (po_results (pool_step e q)). rp_ok (cr_reply x) \<longrightarrow> good vals (tasks ! cr_task x) (cr_reply x))"
proof (cases e)
  case (NoChunk k)
  with assms(3,4) show ?thesis by (auto simp: empty_reply_def reply_def)
next
  case (Reply k r)
  with assms(3-5) show ?thesis by (auto simp: reply_step_def split: phase.splits)
next
  case (Check k)
  with assms(2) pinvD(2) [OF assms(1)] obtain att r where k: "k < length (po_ids q)" "po_phase q ! k = Failed att r"
    by (auto split: phase.splits)
  from pinvD(3) [OF assms(1) k(1)] k(2) have "\<not> rp_ok r" by simp
  with k(2) Check assms(3,4) show ?thesis by (auto simp: check_step_def)
next
  case (Acquire k)
  with assms(2) pinvD(2) [OF assms(1)] obtain att r where k: "k < length (po_ids q)" "po_phase q ! k = Acquiring att r"
    by (auto split: phase.splits)
  from pinvD(3) [OF assms(1) k(1)] k(2) have "\<not> rp_ok r" by simp
  with k(2) Acquire assms(3,4) show ?thesis by (auto simp: acquire_step_def split: option.splits)
next
  case (Wake k)
  with assms(3,4) show ?thesis by (auto split: phase.splits)
qed

lemma run_results_good:
  "pinv q \<Longrightarrow> run (pool_guard nc) pool_step es q = Some q' \<Longrightarrow> po_tasks q = tasks \<Longrightarrow>
   (\<forall>x \<in> set (po_results q). rp_ok (cr_reply x) \<longrightarrow> good vals (tasks ! cr_task x) (cr_reply x)) \<Longrightarrow>
   (\<forall>k r. Reply k r \<in> set es \<longrightarrow> rp_ok r \<longrightarrow> good vals (tasks ! k) r) \<Longrightarrow>
   pinv q' \<and> po_tasks q' = tasks \<and> po_ids q' = po_ids q \<and>
   (\<forall>x \<in> set (po_results q'). rp_ok (cr_reply x) \<longrightarrow> good vals (tasks ! cr_task x) (cr_reply x))"
proof (induction es arbitrary: q)
  case (Cons e es)
  then have g: "pool_guard nc e q" by (auto split: if_splits)
  from Cons.prems(5) have "\<forall>k r. e = Reply k r \<longrightarrow> rp_ok r \<longrightarrow> good vals (tasks ! k) r" by auto
  note s = step_results_good [OF Cons.prems(1) g Cons.prems(3,4) this]
  from Cons.prems(2) g have r: "run (pool_guard nc) pool_step es (pool_step e q) = Some q'" by simp
  have "po_ids (pool_step e q) = po_ids q" by (rule step_ids)
  with Cons.IH [OF pool_runs.step_inv [OF Cons.prems(1) g] r] s Cons.prems(5) show ?case by simp
qed simp

lemma pool_good:
  assumes "ok j" "jo_size ops j = length vals" "tiles 0 tasks (length vals)" "length tasks = length ws" "distinct (map w_id ws)"
    and "\<forall>k r. Reply k r \<in> set es \<longrightarrow> rp_ok r \<longrightarrow> good vals (tasks ! k) r"
    and "run_pool ops ws tasks es j = Done (Some (r, j'))" "rp_ok r"
  shows "r = reply (jo_result ops j') 200 True [] \<and> parts j' = map Some vals"
proof -
  let ?nc = "\<lambda>k. snd (jo_chunk ops j (fst (tasks ! k)) (snd (tasks ! k))) = 0"
  let ?q = "start_pool (map w_id ws) tasks"
  from assms(7) obtain q where q: "run (pool_guard ?nc) pool_step es ?q = Some q"
    "collect ops (length tasks) (po_results q) j = Some (r, j')"
    by (auto simp: run_pool_def split: option.splits)
  have init: "pinit ?q" unfolding pinit_def using assms(4,5) by (metis length_map)
  have st: "po_tasks ?q = tasks" "po_results ?q = []" "po_ids ?q = map w_id ws" by (simp_all add: start_pool_def)
  with run_results_good [OF start_inv [OF init] q(1) st(1) _ assms(6)]
  have inv: "pinv q" "po_tasks q = tasks" "po_ids q = map w_id ws"
    and g: "\<forall>x \<in> set (po_results q). rp_ok (cr_reply x) \<longrightarrow> good vals (tasks ! cr_task x) (cr_reply x)" by simp_all
  have res: "distinct (map cr_task (po_results q))"
    "\<forall>x \<in> set (po_results q). cr_task x < length tasks \<and> cr_start x = fst (tasks ! cr_task x)"
    using pinvD(5) [OF inv(1)] inv(2,3) assms(4) by (auto simp: results_ok_def)
  have "length (po_results q) \<le> length tasks"
  proof -
    have "set (map cr_task (po_results q)) \<subseteq> {..<length tasks}" using res(2) by auto
    from card_mono [OF _ this] res(1) show ?thesis by (simp add: distinct_card del: set_map)
  qed
  with collect_ok [OF q(2) assms(8)] have len: "length (po_results q) = length tasks"
    and ok: "\<forall>x \<in> set (po_results q). rp_ok (cr_reply x)" by auto
  from collect_all [OF assms(1,2,3) len res(1)] res(2) ok g obtain j1 where
    "collect ops (length tasks) (po_results q) j = Some (reply (jo_result ops j1) 200 True [], j1)"
    "parts j1 = map Some vals" by blast
  with q(2) show ?thesis by auto
qed

lemma partitioned_good:
  assumes "ok j" "jo_size ops j = length vals" "distinct (map w_id exact)"
    and "\<And>k wk st n g r g'. 0 < n \<Longrightarrow> st + n \<le> length vals \<Longrightarrow>
      call k wk (fst (jo_chunk ops j st n)) n g = Done (Some (r, g')) \<Longrightarrow> rp_ok r \<Longrightarrow> good vals (st, n) r"
    and "\<And>tasks k r. split_tasks (map (weight ops (jo_size ops j)) (job_workers exact picked mp (jo_size ops j)))
        (jo_size ops j) = Done tasks \<Longrightarrow> Reply k r \<in> set es \<Longrightarrow> rp_ok r \<Longrightarrow> good vals (tasks ! k) r"
    and "HandlePartitionedJob ops exact picked mp call es j g = Done (Some (r, j', g'))" "rp_ok r"
  shows "r = reply (jo_result ops j') 200 True [] \<and> parts j' = map Some vals"
proof -
  let ?ws = "job_workers exact picked mp (jo_size ops j)"
  have d: "distinct (map w_id ?ws)" by (rule job_workers_distinct [OF assms(3)])
  have n0: "jo_size ops j \<noteq> 0"
  proof
    assume "jo_size ops j = 0"
    with assms(6) have "empty_reply = r" by (simp add: HandlePartitionedJob_def)
    with assms(7) show False by (auto simp: empty_reply_def reply_def)
  qed
  consider (none) "?ws = []" | (one) wk where "?ws = [wk]" | (many) w1 w2 ws where "?ws = w1 # w2 # ws"
    by (cases ?ws rule: list.exhaust; cases "tl ?ws") auto
  then show ?thesis
  proof cases
    case none
    with assms(6,7) n0 show ?thesis by (auto simp: HandlePartitionedJob_def no_worker_reply_def reply_def)
  next
    case one
    with assms(6) n0 have "single_loop ops call wk (length vals) 0 0 j g = Done (Some (r, j', g'))"
      by (simp add: HandlePartitionedJob_def assms(2))
    from single_good [OF assms(1,2) _ _ _ _ this assms(7), where ?j0.0 = j] assms(4) show ?thesis by blast
  next
    case many
    with assms(6) n0 obtain tasks where t: "split_tasks (map (weight ops (jo_size ops j)) ?ws) (jo_size ops j) = Done tasks"
      "run_pool ops ?ws tasks es j = Done (Some (r, j'))"
      by (auto simp: HandlePartitionedJob_def Let_def)
    from split_tasks_tiles [OF t(1)] many have tl: "length tasks = length ?ws" "tiles 0 tasks (length vals)"
      by (simp_all add: assms(2))
    from pool_good [OF assms(1,2) tl(2,1) d _ t(2) assms(7)] assms(5) [OF t(1)] show ?thesis by blast
  qed
qed

end

end
