(* ===== verification/Embeddings.thy ===== *)
theory Embeddings
  imports PartitionJobs HttpWriter
begin

text \<open>
  The embeddings endpoint: the partitionable job of \<^verbatim>\<open>modules/llm/ext/openai/partition.go\<close> and the
  handlers of \<^verbatim>\<open>openai/embeddings.go\<close>.
\<close>

section \<open>The codec\<close>

text \<open>
  \<^verbatim>\<open>encoding/json\<close> is a parameter: \<open>js_object\<close> is a body as a \<^verbatim>\<open>map[string]json.RawMessage\<close> and
  \<open>js_array\<close> a raw message as a \<^verbatim>\<open>[]json.RawMessage\<close> (\<open>None\<close> when it is none); the others decode into or
  encode the struct they are named after, a decoder leaving zero values where the text does not fit.
\<close>

record usage =
  us_prompt :: int
  us_total :: int

record emb_response =
  er_data :: "string list"
  er_model :: string
  er_usage :: usage

record json_ops =
  js_model :: "string \<Rightarrow> string"
  js_stream :: "string \<Rightarrow> bool"
  js_object :: "string \<Rightarrow> (string \<times> string) list"
  js_array :: "string \<Rightarrow> string list option"
  js_chunk :: "(string \<times> string) list \<Rightarrow> string list \<Rightarrow> string"
  js_response :: "string \<Rightarrow> emb_response"
  js_result :: "string option list \<Rightarrow> string \<Rightarrow> usage \<Rightarrow> string"
  js_any :: "string \<Rightarrow> any option"

section \<open>The job\<close>

text \<open>A slot of \<open>ej_final\<close> that no answer has filled is \<open>None\<close> (a nil message).\<close>

record emb_job =
  ej_base :: "(string \<times> string) list"
  ej_inputs :: "string list"
  ej_final :: "string option list"
  ej_usage :: usage
  ej_model :: string

definition newEmbeddingPartitionJob :: "(string \<times> string) list \<Rightarrow> string list \<Rightarrow> emb_job" where
  "newEmbeddingPartitionJob payload inputs =
     \<lparr>ej_base = filter (\<lambda>(k, _). k \<noteq> ''input'') payload, ej_inputs = inputs,
      ej_final = replicate (length inputs) None, ej_usage = \<lparr>us_prompt = 0, us_total = 0\<rparr>, ej_model = []\<rparr>"

definition emb_Size :: "emb_job \<Rightarrow> nat" where
  "emb_Size j = length (ej_inputs j)"

definition emb_MakeChunk :: "json_ops \<Rightarrow> emb_job \<Rightarrow> nat \<Rightarrow> nat \<Rightarrow> string \<times> nat" where
  "emb_MakeChunk js j start count =
     (if length (ej_inputs j) \<le> start then ([], 0)
      else
        let fin = (if start + count > length (ej_inputs j) then length (ej_inputs j) else start + count)
        in (js_chunk js (ej_base j) (take (fin - start) (drop start (ej_inputs j))), fin - start))"

definition emb_Append :: "json_ops \<Rightarrow> string \<Rightarrow> nat \<Rightarrow> emb_job \<Rightarrow> emb_job option" where
  "emb_Append js resp start j =
     (let r = js_response js resp;
          u = ej_usage j
      in Some (j\<lparr>ej_final := write_at start (map Some (er_data r)) (ej_final j),
                 ej_usage := \<lparr>us_prompt = wrap64 (us_prompt u + us_prompt (er_usage r)),
                              us_total = wrap64 (us_total u + us_total (er_usage r))\<rparr>,
                 ej_model := (if ej_model j = [] then er_model r else ej_model j)\<rparr>))"

definition emb_Result :: "json_ops \<Rightarrow> emb_job \<Rightarrow> string" where
  "emb_Result js j = js_result js (ej_final j) (ej_model j) (ej_usage j)"

definition emb_ops :: "json_ops \<Rightarrow> emb_job job_ops" where
  "emb_ops js =
     \<lparr>jo_size = emb_Size, jo_chunk = emb_MakeChunk js, jo_append = emb_Append js, jo_result = emb_Result js,
      jo_path = ''/embeddings'', jo_desired = w_batch\<rparr>"

definition emb_ok :: "emb_job \<Rightarrow> bool" where
  "emb_ok j \<longleftrightarrow> length (ej_final j) = length (ej_inputs j)"

interpretation embeddings: partition_job "emb_ops js" ej_final "\<lambda>b. er_data (js_response js b)" emb_ok
proof unfold_locales
  fix j st n
  show "snd (jo_chunk (emb_ops js) j st n) = min n (jo_size (emb_ops js) j - st)"
    by (auto simp: emb_ops_def emb_MakeChunk_def emb_Size_def)
next
  fix j st b
  assume "emb_ok j" "st \<le> jo_size (emb_ops js) j"
  then show "\<exists>j'. jo_append (emb_ops js) b st j = Some j' \<and> emb_ok j' \<and>
      ej_final j' = write_at st (map Some (er_data (js_response js b))) (ej_final j) \<and>
      (\<forall>s n. jo_chunk (emb_ops js) j' s n = jo_chunk (emb_ops js) j s n)"
    by (simp add: emb_ops_def emb_Append_def emb_MakeChunk_def emb_Size_def emb_ok_def Let_def)
qed (simp add: emb_ops_def emb_Size_def emb_ok_def)

lemma new_job_ok [simp]: "emb_ok (newEmbeddingPartitionJob payload inputs)"
  by (simp add: emb_ok_def newEmbeddingPartitionJob_def)

lemma new_job_size [simp]: "jo_size (emb_ops js) (newEmbeddingPartitionJob payload inputs) = length inputs"
  by (simp add: emb_ops_def emb_Size_def newEmbeddingPartitionJob_def)

section \<open>The partitioned request\<close>

text \<open>
  The caller's view of \<open>HandlePartitionedJob\<close>: a body, a status, whether it succeeded and the error
  message, put into the response.
\<close>

definition write_partitioned :: "reply \<Rightarrow> writer \<Rightarrow> writer" where
  "write_partitioned r w =
     (let w = put_header ''Content-Type'' ''application/json'' w in
      if \<not> rp_ok r then
        let status = (if rp_status r = 0 then 502 else rp_status r);
            w = WriteHeader status w
        in if rp_body r \<noteq> [] then Write (rp_body r) w
           else Write (''{\"error\":\"'' @ rp_err r @ ''\"}'') w
      else Write (rp_body r) w)"

text \<open>
  \<open>address\<close> gives the address of a worker, \<open>attempts\<close> what happens during the calls; the sends the
  pool makes are its events.
\<close>

definition emb_call ::
  "(worker \<Rightarrow> nat) \<Rightarrow> header \<Rightarrow> duration \<Rightarrow> (nat \<Rightarrow> attempt) \<Rightarrow> nat \<Rightarrow> worker \<Rightarrow> string \<Rightarrow> nat \<Rightarrow> gateway
    \<Rightarrow> (reply \<times> gateway) option outcome" where
  "emb_call address headers timeout attempts k w body n g =
     counted_call (address w) (w_id w) headers ''/embeddings'' body timeout (attempts k) g"

definition handlePartitionedEmbeddings ::
  "json_ops \<Rightarrow> (string \<Rightarrow> catalogue \<Rightarrow> worker list) \<Rightarrow> (string \<Rightarrow> catalogue \<Rightarrow> worker option) \<Rightarrow> (worker \<Rightarrow> nat)
    \<Rightarrow> duration \<Rightarrow> int \<Rightarrow> string \<Rightarrow> post_request \<Rightarrow> string \<Rightarrow> (string \<times> string) list \<Rightarrow> string list
    \<Rightarrow> (nat \<Rightarrow> attempt) \<Rightarrow> pool_event list \<Rightarrow> gateway \<Rightarrow> (writer \<times> gateway) option outcome" where
  "handlePartitionedEmbeddings js workersFor pick address timeout maxParallel logID r model payload inputs
     attempts es g =
     (let headers = forward_headers logID r;
          job = newEmbeddingPartitionJob payload inputs
      in bind_outcome
           (HandlePartitionedJob (emb_ops js) (workersFor model (gw_cat g)) (pick model (gw_cat g)) maxParallel
              (emb_call address headers timeout attempts) es job g)
           (\<lambda>res. Done (map_option (\<lambda>(rep, j, g). (write_partitioned rep new_writer, g)) res)))"

end
