(* ===== verification/Relay.thy ===== *)
theory Relay
  imports ProxyOnce HttpWriter Embeddings
begin

text \<open>
  Passing a worker's answer on to the client as it arrives: the message handling that
  \<^verbatim>\<open>openai/embeddings.go\<close> and \<^verbatim>\<open>openai/generation_proxy.go\<close> share, and the loop of the former.
\<close>

section \<open>One message\<close>

record relay_state =
  rl_writer :: writer
  rl_headers :: bool
  rl_bytes :: bool
  rl_status :: int
  rl_success :: bool
  rl_err :: string

definition start_relay :: "writer \<Rightarrow> bool \<Rightarrow> relay_state" where
  "start_relay w sent =
     \<lparr>rl_writer = w, rl_headers = sent, rl_bytes = False, rl_status = 0, rl_success = False, rl_err = []\<rparr>"

definition hop_header :: "string \<Rightarrow> bool" where
  "hop_header k \<longleftrightarrow> EqualFold k ''Transfer-Encoding'' \<or> EqualFold k ''Connection''"

fun copy_headers :: "header \<Rightarrow> writer \<Rightarrow> writer" where
  "copy_headers [] w = w"
| "copy_headers ((k, v) # hs) w = copy_headers hs (if hop_header k then w else put_header k v w)"

definition take_headers :: "header \<Rightarrow> writer \<Rightarrow> writer" where
  "take_headers hs w =
     (let w = copy_headers hs w in
      if EqualFold (get_header ''Content-Type'' (rw_header w)) ''text/event-stream''
      then put_header ''Cache-Control'' ''no-store'' w else w)"

definition emb_headers :: "int \<Rightarrow> header \<Rightarrow> relay_state \<Rightarrow> relay_state" where
  "emb_headers st hs s =
     s\<lparr>rl_status := st, rl_headers := True, rl_writer := WriteHeader st (take_headers hs (rl_writer s))\<rparr>"

definition gen_headers :: "int \<Rightarrow> header \<Rightarrow> relay_state \<Rightarrow> relay_state" where
  "gen_headers st hs s =
     (let w = take_headers hs (rl_writer s) in
      s\<lparr>rl_status := st, rl_headers := True, rl_writer := (if \<not> rl_headers s then WriteHeader st w else w)\<rparr>)"

text \<open>\<open>written\<close> says whether the write to the client succeeded.\<close>

definition relay_chunk :: "bool \<Rightarrow> string \<Rightarrow> relay_state \<Rightarrow> relay_state" where
  "relay_chunk written d s =
     (if d \<noteq> [] then
        if \<not> written then s\<lparr>rl_writer := WriteHeader 200 (rl_writer s)\<rparr>
        else s\<lparr>rl_writer := Write d (rl_writer s), rl_bytes := True\<rparr>
      else s)"

definition upstream_error_body :: string where
  "upstream_error_body = ''{\"error\":\"upstream_error\"}''"

definition timeout_body :: string where
  "timeout_body = ''{\"error\":\"timeout\"}''"

definition relay_end :: "proxy_error option \<Rightarrow> relay_state \<Rightarrow> relay_state" where
  "relay_end e s =
     (case e of
        Some pe \<Rightarrow>
          if \<not> rl_bytes s then
            let w = rl_writer s;
                w = (if \<not> rl_headers s then WriteHeader 502 (put_header ''Content-Type'' ''application/json'' w) else w)
            in s\<lparr>rl_writer := Write upstream_error_body w, rl_err := pe_message pe\<rparr>
          else s\<lparr>rl_success := True\<rparr>
      | None \<Rightarrow> s\<lparr>rl_success := True\<rparr>)"

text \<open>The channel closed, and the worker silent for longer than the timeout.\<close>

definition relay_closed :: "relay_state \<Rightarrow> relay_state" where
  "relay_closed s =
     s\<lparr>rl_writer := (if \<not> rl_headers s then json_answer 502 upstream_error_body (rl_writer s) else rl_writer s),
       rl_err := ''closed''\<rparr>"

definition relay_timeout :: "relay_state \<Rightarrow> relay_state" where
  "relay_timeout s =
     s\<lparr>rl_writer := (if \<not> rl_headers s then json_answer 504 timeout_body (rl_writer s) else rl_writer s),
       rl_err := ''timeout''\<rparr>"

section \<open>The loop of the embeddings endpoint\<close>

record relay_turn =
  rt_before :: "gateway \<Rightarrow> gateway"
  rt_pick :: pick
  rt_now :: time
  rt_written :: bool

fun emb_loop ::
  "nat \<Rightarrow> string \<Rightarrow> nat \<Rightarrow> duration \<Rightarrow> relay_turn list \<Rightarrow> relay_state \<Rightarrow> gateway
    \<Rightarrow> (relay_state \<times> gateway) option outcome" where
  "emb_loop p reqID h timeout [] s g = Done None"
| "emb_loop p reqID h timeout (t # ts) s g =
     (let g = rt_before t g in
      case rt_pick t of
        Cancelled \<Rightarrow> bind_outcome (offer p (HTTPProxyCancel reqID) g) (\<lambda>(_, g). Done (Some (s, g)))
      | TimerFired \<Rightarrow>
          if 0 < timeout \<and> time_sub (rt_now t) (heartbeat p g) > timeout then
            bind_outcome (offer p (HTTPProxyCancel reqID) g) (\<lambda>(_, g). Done (Some (relay_timeout s, g)))
          else emb_loop p reqID h timeout ts s g
      | Received \<Rightarrow>
          (case take_message h g of
             Panics \<Rightarrow> Panics
           | Blocks \<Rightarrow> emb_loop p reqID h timeout ts s g
           | Done (None, g) \<Rightarrow> Done (Some (relay_closed s, g))
           | Done (Some m, g) \<Rightarrow>
               (case m of
                  HTTPProxyResponseHeaders _ st hs \<Rightarrow> emb_loop p reqID h timeout ts (emb_headers st hs s) g
                | HTTPProxyResponseChunk _ d \<Rightarrow> emb_loop p reqID h timeout ts (relay_chunk (rt_written t) d s) g
                | HTTPProxyResponseEnd _ e \<Rightarrow> Done (Some (relay_end e s, g))
                | _ \<Rightarrow> emb_loop p reqID h timeout ts s g)))"

section \<open>The handler\<close>

record emb_request =
  eq_post :: post_request
  eq_log :: string
  eq_id :: string
  eq_chan :: nat
  eq_start :: time
  eq_end :: time
  eq_turns :: "relay_turn list"
  eq_attempts :: "nat \<Rightarrow> attempt"
  eq_events :: "pool_event list"

text \<open>
  A request without \<^verbatim>\<open>input\<close> is passed through to one worker.  The deferred calls run in the order
  written here: the metrics, the job's channel, the in-flight count.
\<close>

definition emb_pass ::
  "json_ops \<Rightarrow> (string \<Rightarrow> catalogue \<Rightarrow> worker option) \<Rightarrow> (worker \<Rightarrow> nat) \<Rightarrow> duration \<Rightarrow> emb_request \<Rightarrow> string
    \<Rightarrow> gateway \<Rightarrow> (writer \<times> gateway) option outcome" where
  "emb_pass js pick address timeout r body g =
     (let model = js_model js body in
      case pick model (gw_cat g) of
        None \<Rightarrow> Done (Some (HttpError ''no worker'' 404 new_writer, g))
      | Some wk \<Rightarrow>
          let i = w_id wk; p = address wk;
              g = set_reg (IncInFlight i (gw_reg g)) g;
              g = open_job p (eq_id r) (eq_chan r) g;
              msg = HTTPProxyRequest (eq_id r) ''POST'' ''/embeddings'' (forward_headers (eq_log r) (eq_post r)) False body;
              leave = (\<lambda>w g. bind_outcome (close_job p (eq_id r) g)
                         (\<lambda>g. Done (Some (w, set_reg (DecInFlight i (gw_reg g)) g))))
          in bind_outcome (offer p msg g)
               (\<lambda>(sent, g).
                  if \<not> sent then leave (json_answer 503 busy_body new_writer) g
                  else
                    let g = set_metrics (SetWorkerStatus i StatusWorking (RecordJobStart i (gw_metrics g))) g in
                    bind_outcome (emb_loop p (eq_id r) (eq_chan r) timeout (eq_turns r) (start_relay new_writer False) g)
                      (\<lambda>res. case res of
                         None \<Rightarrow> Done None
                       | Some (s, g) \<Rightarrow>
                           let dur = time_sub (eq_end r) (eq_start r);
                               m = RecordJobEnd i dur (rl_success s) (rl_err s) (gw_metrics g)
                           in leave (rl_writer s) (set_metrics (SetWorkerStatus i StatusIdle m) g))))"

definition EmbeddingsHandler ::
  "json_ops \<Rightarrow> (string \<Rightarrow> catalogue \<Rightarrow> worker list) \<Rightarrow> (string \<Rightarrow> catalogue \<Rightarrow> worker option) \<Rightarrow> (worker \<Rightarrow> nat)
    \<Rightarrow> duration \<Rightarrow> int \<Rightarrow> emb_request \<Rightarrow> gateway \<Rightarrow> (writer \<times> gateway) option outcome" where
  "EmbeddingsHandler js workersFor pick address timeout maxParallel r g =
     (case read_post (eq_post r) of
        None \<Rightarrow> Done (Some (HttpError ''bad request'' 400 new_writer, g))
      | Some body \<Rightarrow>
          let model = js_model js body; payload = js_object js body;
              partitioned = (\<lambda>inputs.
                handlePartitionedEmbeddings js workersFor pick address timeout maxParallel (eq_log r) (eq_post r) model
                  payload inputs (eq_attempts r) (eq_events r) g)
          in case map_of payload ''input'' of
               None \<Rightarrow> emb_pass js pick address timeout r body g
             | Some raw \<Rightarrow>
                 (case js_array js raw of
                    Some inputs \<Rightarrow> if inputs \<noteq> [] then partitioned inputs else partitioned [raw]
                  | None \<Rightarrow> partitioned [raw]))"

definition TargetedEmbeddingsHandler ::
  "json_ops \<Rightarrow> string list \<Rightarrow> string \<Rightarrow> (worker \<Rightarrow> nat) \<Rightarrow> duration \<Rightarrow> int \<Rightarrow> emb_request \<Rightarrow> gateway
    \<Rightarrow> (writer \<times> gateway) option outcome" where
  "TargetedEmbeddingsHandler js order target address timeout maxParallel r g =
     (if \<not> targeted_HasWorker order target target (gw_cat g)
      then Done (Some (HttpError ''no worker'' 404 new_writer, g))
      else EmbeddingsHandler js (targeted_WorkersForLabel order target) (targeted_PickWorker order target) address
             timeout maxParallel r g)"

section \<open>Lemmas\<close>

lemma copy_headers_frame [simp]:
  "rw_sent (copy_headers hs w) = rw_sent w" "rw_body (copy_headers hs w) = rw_body w"
  by (induction hs w rule: copy_headers.induct) auto

lemma take_headers_frame [simp]: "rw_sent (take_headers hs w) = rw_sent w" "rw_body (take_headers hs w) = rw_body w"
  by (simp_all add: take_headers_def Let_def)

lemma copy_headers_get:
  "distinct (map (ToLower \<circ> fst) hs) \<Longrightarrow> (k, v) \<in> set hs \<Longrightarrow> \<not> hop_header k \<Longrightarrow>
   get_header k (rw_header (copy_headers hs w)) = v"
proof (induction hs w rule: copy_headers.induct)
  case (2 k' v' hs w)
  show ?case
  proof (cases "(k, v) \<in> set hs")
    case True
    with 2 show ?thesis by simp
  next
    case False
    with "2.prems" have kv: "k' = k" "v' = v" by auto
    have "get_header k (rw_header (copy_headers hs u)) = get_header k (rw_header u)"
      if "\<forall>n \<in> fst ` set hs. \<not> EqualFold n k" for u
      using that
    proof (induction hs u rule: copy_headers.induct)
      case (2 a b xs u)
      then show ?case by (simp add: put_header_def get_set_other)
    qed simp
    moreover have "\<forall>n \<in> fst ` set hs. \<not> EqualFold n k"
      using "2.prems"(1) kv by (auto simp: EqualFold_def image_iff)
    ultimately show ?thesis using "2.prems"(3) kv by (simp add: put_header_def)
  qed
qed simp

end
