(* ===== verification/GenProxy.thy ===== *)
theory GenProxy
  imports LlmQueue Usage Relay
begin

text \<open>
  Chat completions and responses, \<^verbatim>\<open>openai/generation_proxy.go\<close>: dispatch to a worker or wait in the
  queue for one, then pass the answer on while counting its tokens.
\<close>

section \<open>What the handler is built with\<close>

text \<open>The interfaces \<^verbatim>\<open>spi.WorkerRegistry\<close> and \<^verbatim>\<open>spi.Scheduler\<close> as far as the handler calls them.\<close>

record spi =
  sp_pick :: "string \<Rightarrow> catalogue \<Rightarrow> worker option"
  sp_model :: "string \<Rightarrow> int \<Rightarrow> catalogue \<Rightarrow> model_info option \<times> catalogue"
  sp_models :: "int \<Rightarrow> catalogue \<Rightarrow> model_info list \<times> catalogue"
  sp_address :: "worker \<Rightarrow> nat"

definition base_spi :: "scheduler \<Rightarrow> string list \<Rightarrow> (worker \<Rightarrow> nat) \<Rightarrow> spi" where
  "base_spi sch order address =
     \<lparr>sp_pick = (\<lambda>model c. PickWorker sch order model (ca_reg c)), sp_model = AggregatedModel order,
      sp_models = AggregatedModels order, sp_address = address\<rparr>"

definition targeted_spi :: "string list \<Rightarrow> string \<Rightarrow> (worker \<Rightarrow> nat) \<Rightarrow> spi" where
  "targeted_spi order target address =
     \<lparr>sp_pick = targeted_PickWorker order target, sp_model = targeted_AggregatedModel order target,
      sp_models = targeted_AggregatedModels order target, sp_address = address\<rparr>"

record gen_options =
  go_timeout :: duration
  go_queue_size :: int
  go_update :: int

record llm =
  lm_gw :: gateway
  lm_queue :: "cqueue option"

definition set_gw :: "gateway \<Rightarrow> llm \<Rightarrow> llm" where
  "set_gw g s = s\<lparr>lm_gw := g\<rparr>"

definition set_cat :: "catalogue \<Rightarrow> llm \<Rightarrow> llm" where
  "set_cat c s = s\<lparr>lm_gw := (lm_gw s)\<lparr>gw_cat := c\<rparr>\<rparr>"

definition leave_queue :: "string \<Rightarrow> llm \<Rightarrow> llm" where
  "leave_queue i s = s\<lparr>lm_queue := map_option (Leave i) (lm_queue s)\<rparr>"

section \<open>The queue status events\<close>

definition headerWritten :: "header \<Rightarrow> bool" where
  "headerWritten h \<longleftrightarrow> get_header ''Content-Type'' h \<noteq> []"

definition queueStatusWriter :: "string \<Rightarrow> string \<Rightarrow> nat \<Rightarrow> writer \<Rightarrow> writer" where
  "queueStatusWriter reqID model pos w =
     (let w = (if \<not> headerWritten (rw_header w)
               then WriteHeader 200 (put_header ''Cache-Control'' ''no-store''
                      (put_header ''Content-Type'' ''text/event-stream'' w))
               else w);
          payload = ''{\"type\":\"nfrx.queue\",\"request_id\":\"'' @ reqID @ ''\",\"model\":\"'' @ model @
                    ''\",\"position\":'' @ decimal pos @ ''}'';
          w = Write (''event: nfrx.queue'' @ [newline]) w;
          w = Write ''data: '' w;
          w = Write payload w
      in Write [newline, newline] w)"

text \<open>The writer and whether the header has gone out.\<close>

definition writeQueueStatus ::
  "bool \<Rightarrow> bool \<Rightarrow> string \<Rightarrow> string \<Rightarrow> nat \<Rightarrow> writer \<times> bool \<Rightarrow> writer \<times> bool" where
  "writeQueueStatus stream flusher reqID model pos wh =
     (if \<not> stream \<or> \<not> flusher then wh else (queueStatusWriter reqID model pos (fst wh), True))"

section \<open>Dispatch\<close>

definition modelSupported :: "spi \<Rightarrow> int \<Rightarrow> string \<Rightarrow> catalogue \<Rightarrow> bool \<times> catalogue" where
  "modelSupported sp now model c =
     (case sp_model sp model now c of
        (Some _, c) \<Rightarrow> (True, c)
      | (None, c) \<Rightarrow>
          (case AliasKey model of
             None \<Rightarrow> (False, c)
           | Some ak \<Rightarrow> let (ms, c) = sp_models sp now c in (\<exists>m \<in> set ms. AliasKey (mi_id m) = Some ak, c)))"

definition canDispatch :: "spi \<Rightarrow> int \<Rightarrow> string \<Rightarrow> catalogue \<Rightarrow> bool \<times> catalogue" where
  "canDispatch sp now model c =
     (let (ok, c) = modelSupported sp now model c in if \<not> ok then (False, c) else (sp_pick sp model c \<noteq> None, c))"

record gen_request =
  gq_post :: post_request
  gq_log :: string
  gq_id :: string
  gq_flusher :: bool
  gq_between :: "gateway \<Rightarrow> gateway"
  gq_start :: time
  gq_end :: time

text \<open>
  The worker is picked in one critical section and counted in another: \<open>between\<close> is what other
  requests do after the pick.
\<close>

definition tryDispatch ::
  "spi \<Rightarrow> string \<Rightarrow> json_ops \<Rightarrow> gen_request \<Rightarrow> string \<Rightarrow> nat \<Rightarrow> (gateway \<Rightarrow> gateway) \<Rightarrow> gateway
    \<Rightarrow> (worker option \<times> gateway) outcome" where
  "tryDispatch sp path js r body h between g =
     (case sp_pick sp (js_model js body) (gw_cat g) of
        None \<Rightarrow> Done (None, g)
      | Some wk \<Rightarrow>
          let p = sp_address sp wk; i = w_id wk;
              msg = HTTPProxyRequest (gq_id r) ''POST'' path (forward_headers (gq_log r) (gq_post r))
                      (js_stream js body) body
          in bind_outcome (offer p msg (open_job p (gq_id r) h (between g)))
               (\<lambda>(sent, g).
                  if \<not> sent then bind_outcome (close_job p (gq_id r) g) (\<lambda>g. Done (None, g))
                  else
                    let g = set_metrics (SetWorkerStatus i StatusWorking (RecordJobStart i (gw_metrics g))) g
                    in Done (Some wk, set_reg (IncInFlight i (gw_reg g)) g)))"

section \<open>Waiting\<close>

datatype wait_pick = WaitDone | WaitRetry | WaitStatus

record wait_turn =
  wt_before :: "llm \<Rightarrow> llm"
  wt_pick :: wait_pick
  wt_now :: int
  wt_chan :: nat
  wt_between :: "gateway \<Rightarrow> gateway"

datatype wait_end = Gave_up writer | No_worker writer | Got worker nat writer bool

text \<open>\<open>None\<close> is a request still waiting.\<close>

fun wait_loop ::
  "spi \<Rightarrow> string \<Rightarrow> json_ops \<Rightarrow> gen_options \<Rightarrow> gen_request \<Rightarrow> string \<Rightarrow> wait_turn list \<Rightarrow> writer \<times> bool \<Rightarrow> llm
    \<Rightarrow> (wait_end \<times> llm) option outcome" where
  "wait_loop sp path js opts r body [] wh s = Done None"
| "wait_loop sp path js opts r body (t # ts) wh s =
     (let s = wt_before t s; i = gq_id r; model = js_model js body; now = wt_now t in
      case wt_pick t of
        WaitDone \<Rightarrow> Done (Some (Gave_up (fst wh), leave_queue i s))
      | WaitRetry \<Rightarrow>
          let (ok, c) = modelSupported sp now model (gw_cat (lm_gw s)); s = set_cat c s in
          if \<not> ok then Done (Some (No_worker (HttpError ''no worker'' 404 (fst wh)), leave_queue i s))
          else
            let (mine, c) = (case lm_queue s of
                               None \<Rightarrow> (False, gw_cat (lm_gw s))
                             | Some q \<Rightarrow> IsFirstDispatchable i (canDispatch sp now) q (gw_cat (lm_gw s)));
                s = set_cat c s
            in if \<not> mine then wait_loop sp path js opts r body ts wh s
               else
                 (case tryDispatch sp path js r body (wt_chan t) (wt_between t) (lm_gw s) of
                    Panics \<Rightarrow> Panics
                  | Blocks \<Rightarrow> Blocks
                  | Done (None, g) \<Rightarrow> wait_loop sp path js opts r body ts wh (set_gw g s)
                  | Done (Some wk, g) \<Rightarrow>
                      Done (Some (Got wk (wt_chan t) (fst wh) (snd wh), leave_queue i (set_gw g s))))
      | WaitStatus \<Rightarrow>
          if \<not> js_stream js body \<or> go_update opts \<le> 0 then wait_loop sp path js opts r body ts wh s
          else
            let pos = (case lm_queue s of None \<Rightarrow> 0 | Some q \<Rightarrow> Position i q);
                wh = (if 0 < pos
                      then writeQueueStatus (js_stream js body) (gq_flusher r) i model pos wh else wh)
            in wait_loop sp path js opts r body ts wh s)"

section \<open>Relaying\<close>

text \<open>The token counts, the unfinished line of an event stream, and the body of a plain answer.\<close>

record gen_state =
  gs_relay :: relay_state
  gs_tokens :: "64 word \<times> 64 word"
  gs_sse :: string
  gs_body :: string

definition gen_chunk :: "json_ops \<Rightarrow> bool \<Rightarrow> bool \<Rightarrow> string \<Rightarrow> gen_state \<Rightarrow> gen_state" where
  "gen_chunk js stream written d s =
     (let s = s\<lparr>gs_relay := relay_chunk written d (gs_relay s)\<rparr> in
      if stream then
        let (rest, t) = sse_chunk (js_any js) d (gs_sse s, gs_tokens s) in s\<lparr>gs_sse := rest, gs_tokens := t\<rparr>
      else s\<lparr>gs_body := gs_body s @ d\<rparr>)"

definition gen_end :: "json_ops \<Rightarrow> bool \<Rightarrow> proxy_error option \<Rightarrow> gen_state \<Rightarrow> gen_state" where
  "gen_end js stream e s =
     (let t = (if \<not> stream then keep_usage (extractUsageFromJSON (js_any js) (gs_body s)) (gs_tokens s) else gs_tokens s)
      in s\<lparr>gs_tokens := t, gs_relay := relay_end e (gs_relay s)\<rparr>)"

fun gen_loop ::
  "json_ops \<Rightarrow> bool \<Rightarrow> nat \<Rightarrow> string \<Rightarrow> nat \<Rightarrow> duration \<Rightarrow> relay_turn list \<Rightarrow> gen_state \<Rightarrow> gateway
    \<Rightarrow> (gen_state \<times> gateway) option outcome" where
  "gen_loop js stream p reqID h timeout [] s g = Done None"
| "gen_loop js stream p reqID h timeout (t # ts) s g =
     (let g = rt_before t g in
      case rt_pick t of
        Cancelled \<Rightarrow> bind_outcome (offer p (HTTPProxyCancel reqID) g) (\<lambda>(_, g). Done (Some (s, g)))
      | TimerFired \<Rightarrow>
          if 0 < timeout \<and> time_sub (rt_now t) (heartbeat p g) > timeout then
            bind_outcome (offer p (HTTPProxyCancel reqID) g)
              (\<lambda>(_, g). Done (Some (s\<lparr>gs_relay := relay_timeout (gs_relay s)\<rparr>, g)))
          else gen_loop js stream p reqID h timeout ts s g
      | Received \<Rightarrow>
          (case take_message h g of
             Panics \<Rightarrow> Panics
           | Blocks \<Rightarrow> gen_loop js stream p reqID h timeout ts s g
           | Done (None, g) \<Rightarrow> Done (Some (s\<lparr>gs_relay := relay_closed (gs_relay s)\<rparr>, g))
           | Done (Some m, g) \<Rightarrow>
               (case m of
                  HTTPProxyResponseHeaders _ st hs \<Rightarrow>
                    gen_loop js stream p reqID h timeout ts (s\<lparr>gs_relay := gen_headers st hs (gs_relay s)\<rparr>) g
                | HTTPProxyResponseChunk _ d \<Rightarrow>
                    gen_loop js stream p reqID h timeout ts (gen_chunk js stream (rt_written t) d s) g
                | HTTPProxyResponseEnd _ e \<Rightarrow> Done (Some (gen_end js stream e s, g))
                | _ \<Rightarrow> gen_loop js stream p reqID h timeout ts s g)))"

text \<open>The deferred clean-up.\<close>

definition gen_finish :: "nat \<Rightarrow> string \<Rightarrow> string \<Rightarrow> duration \<Rightarrow> gen_state \<Rightarrow> gateway \<Rightarrow> gateway outcome" where
  "gen_finish p i reqID dur s g =
     bind_outcome (close_job p reqID g)
       (\<lambda>g. let m = RecordJobEnd i dur (rl_success (gs_relay s)) (rl_err (gs_relay s)) (gw_metrics g);
                m = SetWorkerStatus i StatusIdle m;
                m = (if 0 < fst (gs_tokens s) then AddWorkerTokens i ''in'' (fst (gs_tokens s)) m else m);
                m = (if 0 < snd (gs_tokens s) then AddWorkerTokens i ''out'' (snd (gs_tokens s)) m else m);
                g = set_metrics m g
            in Done (set_reg (DecInFlight i (gw_reg g)) g))"

definition proxy_phase ::
  "spi \<Rightarrow> json_ops \<Rightarrow> gen_options \<Rightarrow> gen_request \<Rightarrow> string \<Rightarrow> worker \<Rightarrow> nat \<Rightarrow> relay_turn list \<Rightarrow> writer \<times> bool \<Rightarrow> llm
    \<Rightarrow> (writer \<times> llm) option outcome" where
  "proxy_phase sp js opts r body wk h turns wh s =
     (let p = sp_address sp wk in
      bind_outcome
        (gen_loop js (js_stream js body) p (gq_id r) h (go_timeout opts) turns
           \<lparr>gs_relay = start_relay (fst wh) (snd wh), gs_tokens = (0, 0), gs_sse = [], gs_body = []\<rparr> (lm_gw s))
        (\<lambda>res. case res of
           None \<Rightarrow> Done None
         | Some (gs, g) \<Rightarrow>
             bind_outcome (gen_finish p (w_id wk) (gq_id r) (time_sub (gq_end r) (gq_start r)) gs g)
               (\<lambda>g. Done (Some (rl_writer (gs_relay gs), set_gw g s)))))"

section \<open>The handler\<close>

text \<open>\<open>h\<close> is the channel of the first try, \<open>now\<close> the Unix time of the first look at the models.\<close>

definition generationProxyHandler ::
  "spi \<Rightarrow> string \<Rightarrow> json_ops \<Rightarrow> gen_options \<Rightarrow> gen_request \<Rightarrow> nat \<Rightarrow> int \<Rightarrow> wait_turn list \<Rightarrow> relay_turn list \<Rightarrow> llm
    \<Rightarrow> (writer \<times> llm) option outcome" where
  "generationProxyHandler sp path js opts r h now waits turns s =
     (case read_post (gq_post r) of
        None \<Rightarrow> Done (Some (HttpError ''bad request'' 400 new_writer, s))
      | Some body \<Rightarrow>
          let model = js_model js body; i = gq_id r in
          case tryDispatch sp path js r body h (gq_between r) (lm_gw s) of
            Panics \<Rightarrow> Panics
          | Blocks \<Rightarrow> Blocks
          | Done (Some wk, g) \<Rightarrow> proxy_phase sp js opts r body wk h turns (new_writer, False) (set_gw g s)
          | Done (None, g) \<Rightarrow>
              let s = set_gw g s;
                  (ok, c) = modelSupported sp now model (gw_cat (lm_gw s));
                  s = set_cat c s
              in if \<not> ok then Done (Some (HttpError ''no worker'' 404 new_writer, s))
                 else
                   case lm_queue s of
                     None \<Rightarrow> Done (Some (json_answer 503 busy_body new_writer, s))
                   | Some q \<Rightarrow>
                       if go_queue_size opts = 0 then Done (Some (json_answer 503 busy_body new_writer, s))
                       else
                         let ((pos, ok), q) = Enter i model q; s = s\<lparr>lm_queue := Some q\<rparr> in
                         if \<not> ok then Done (Some (json_answer 503 busy_body new_writer, s))
                         else
                           bind_outcome
                             (wait_loop sp path js opts r body waits
                                (writeQueueStatus (js_stream js body) (gq_flusher r) i model pos (new_writer, False)) s)
                             (\<lambda>res. case res of
                                None \<Rightarrow> Done None
                              | Some (Gave_up w, s) \<Rightarrow> Done (Some (w, s))
                              | Some (No_worker w, s) \<Rightarrow> Done (Some (w, s))
                              | Some (Got wk h w sent, s) \<Rightarrow> proxy_phase sp js opts r body wk h turns (w, sent) s))"

definition ChatCompletionsHandler ::
  "spi \<Rightarrow> json_ops \<Rightarrow> gen_options \<Rightarrow> gen_request \<Rightarrow> nat \<Rightarrow> int \<Rightarrow> wait_turn list \<Rightarrow> relay_turn list \<Rightarrow> llm
    \<Rightarrow> (writer \<times> llm) option outcome" where
  "ChatCompletionsHandler sp = generationProxyHandler sp ''/chat/completions''"

definition ResponsesHandler ::
  "spi \<Rightarrow> json_ops \<Rightarrow> gen_options \<Rightarrow> gen_request \<Rightarrow> nat \<Rightarrow> int \<Rightarrow> wait_turn list \<Rightarrow> relay_turn list \<Rightarrow> llm
    \<Rightarrow> (writer \<times> llm) option outcome" where
  "ResponsesHandler sp = generationProxyHandler sp ''/responses''"

definition targeted_generation ::
  "string list \<Rightarrow> string \<Rightarrow> (worker \<Rightarrow> nat) \<Rightarrow> string \<Rightarrow> json_ops \<Rightarrow> gen_options \<Rightarrow> gen_request \<Rightarrow> nat \<Rightarrow> int
    \<Rightarrow> wait_turn list \<Rightarrow> relay_turn list \<Rightarrow> llm \<Rightarrow> (writer \<times> llm) option outcome" where
  "targeted_generation order target address path js opts r h now waits turns s =
     (if \<not> targeted_HasWorker order target target (gw_cat (lm_gw s))
      then Done (Some (HttpError ''no worker'' 404 new_writer, s))
      else generationProxyHandler (targeted_spi order target address) path js opts r h now waits turns s)"


section \<open>Lemmas\<close>

text \<open>The messages a run of the loop receives, with the results of the writes to the client.\<close>

fun taken_messages :: "nat \<Rightarrow> nat \<Rightarrow> duration \<Rightarrow> relay_turn list \<Rightarrow> gateway \<Rightarrow> (wire \<times> bool) list" where
  "taken_messages p h timeout [] g = []"
| "taken_messages p h timeout (t # ts) g =
     (let g = rt_before t g in
      case rt_pick t of
        Cancelled \<Rightarrow> []
      | TimerFired \<Rightarrow>
          if 0 < timeout \<and> time_sub (rt_now t) (heartbeat p g) > timeout then [] else taken_messages p h timeout ts g
      | Received \<Rightarrow>
          (case take_message h g of
             Panics \<Rightarrow> []
           | Blocks \<Rightarrow> taken_messages p h timeout ts g
           | Done (None, g) \<Rightarrow> []
           | Done (Some m, g) \<Rightarrow>
               (m, rt_written t) # (case m of HTTPProxyResponseEnd _ _ \<Rightarrow> [] | _ \<Rightarrow> taken_messages p h timeout ts g)))"

definition chunk_data :: "wire \<Rightarrow> string" where
  "chunk_data m = (case m of HTTPProxyResponseChunk _ d \<Rightarrow> d | _ \<Rightarrow> [])"

fun first_status :: "wire list \<Rightarrow> int" where
  "first_status [] = 200"
| "first_status (m # ms) =
     (case m of
        HTTPProxyResponseHeaders _ st _ \<Rightarrow> st
      | HTTPProxyResponseChunk _ d \<Rightarrow> if d \<noteq> [] then 200 else first_status ms
      | _ \<Rightarrow> first_status ms)"

definition status_from :: "writer \<Rightarrow> wire list \<Rightarrow> int" where
  "status_from w ms = (case rw_sent w of Some (st, _) \<Rightarrow> st | None \<Rightarrow> first_status ms)"

lemma chunk_frame:
  "rl_headers (gs_relay (gen_chunk js stream True d s)) = rl_headers (gs_relay s)"
  "rl_writer (gs_relay (gen_chunk js stream True d s)) =
     (if d \<noteq> [] then Write d (rl_writer (gs_relay s)) else rl_writer (gs_relay s))"
  "rl_success (gs_relay (gen_chunk js stream True d s)) = rl_success (gs_relay s)"
  by (simp_all add: gen_chunk_def relay_chunk_def split: prod.splits)

lemma status_from_chunk:
  "status_from (if d \<noteq> [] then Write d w else w) ms = status_from w (HTTPProxyResponseChunk j d # ms)"
  by (auto simp: status_from_def Write_def WriteHeader_def split: option.splits)

lemma status_from_headers:
  "rl_headers s \<longrightarrow> rw_sent (rl_writer s) \<noteq> None \<Longrightarrow>
   status_from (rl_writer (gen_headers st hs s)) ms = status_from (rl_writer s) (HTTPProxyResponseHeaders j st hs # ms) \<and>
   rw_sent (rl_writer (gen_headers st hs s)) \<noteq> None \<and> rw_body (rl_writer (gen_headers st hs s)) = rw_body (rl_writer s) \<and>
   rl_success (gen_headers st hs s) = rl_success s"
  by (cases "rw_sent (rl_writer s)")
     (auto simp: gen_headers_def status_from_def WriteHeader_def Let_def split: option.splits)

lemma end_success:
  assumes "rl_success (gs_relay (gen_end js stream e s))" "\<not> rl_success (gs_relay s)"
  shows "rl_writer (gs_relay (gen_end js stream e s)) = rl_writer (gs_relay s)"
  using assms by (auto simp: gen_end_def relay_end_def Let_def split: option.splits if_splits)

end
