(* ===== verification/PartitionProperties.thy ===== *)
theory PartitionProperties
  imports Embeddings
begin

text \<open>
  The properties of a partitioned request: the pool of goroutines, the cutting of the job, and the
  embeddings answer put together from the ranges.
\<close>

section \<open>The pool\<close>

text \<open>A run with one worker refusing its range and the other taking both.\<close>

definition pool_example :: "pool_event list" where
  "pool_example =
     [Reply 0 (reply [] 503 False ''worker_busy''), Check 0, Acquire 0, Reply 1 (reply ''r'' 200 True []), Wake 0,
      Acquire 0]"

definition pool_example_end :: pool where
  "pool_example_end =
     \<lparr>po_ids = [''a'', ''b''], po_tasks = [(0, 1), (1, 1)], po_phase = [Calling ''b'' [''a''], Finished],
      po_used = [''b''], po_cond = False, po_results = [\<lparr>cr_task = 1, cr_start = 1, cr_reply = reply ''r'' 200 True []\<rparr>]\<rparr>"

lemma pool_example_run:
  "run (pool_guard (\<lambda>_. False)) pool_step pool_example (start_pool [''a'', ''b''] [(0, 1), (1, 1)]) =
     Some pool_example_end"
  by code_simp

text \<open>
  C37: in every interleaving of the goroutines of a partitioned request a worker of the pool serves at
  most one range at a time, a range is tried on a worker at most once, and no range gets two results.
\<close>

theorem worker_serves_one_task:
  assumes "distinct ids" "length tasks = length ids"
    and "run (pool_guard noChunk) pool_step es (start_pool ids tasks) = Some q"
  shows "(\<forall>k < length ids. \<forall>j < length ids. \<forall>i a b.
      po_phase q ! k = Calling i a \<longrightarrow> po_phase q ! j = Calling i b \<longrightarrow> k = j) \<and>
    (\<forall>k < length ids. \<forall>i att. po_phase q ! k = Calling i att \<longrightarrow> distinct (i # att) \<and> set (i # att) \<subseteq> set ids) \<and>
    distinct (map cr_task (po_results q))"
proof -
  have "pinit (start_pool ids tasks)" using assms(1,2) by (auto simp: pinit_def)
  then have inv: "pinv q" by (rule pool_runs.reach_inv [OF _ assms(3)])
  have ids: "po_ids q = ids" using run_ids [OF assms(3)] by (simp add: start_pool_def)
  have one: "k = j" if "k < length ids" "j < length ids" "po_phase q ! k = Calling i a" "po_phase q ! j = Calling i b"
    for k j i a b
    using pinvD(4) [OF inv, of k j i] that by (simp add: ids)
  have once: "distinct (i # att) \<and> set (i # att) \<subseteq> set ids"
    if "k < length ids" "po_phase q ! k = Calling i att" for k i att
    using pinvD(3) [OF inv, of k] that by (simp add: ids att_ok_def)
  show ?thesis using one once pinvD(5) [OF inv] by (auto simp: results_ok_def)
qed

theorem worker_serves_one_task_witness:
  "po_phase pool_example_end ! 0 = Calling ''b'' [''a''] \<and> distinct [''b'', ''a''] \<and>
   distinct (map cr_task (po_results pool_example_end))"
  using worker_serves_one_task [OF _ _ pool_example_run] by (simp add: pool_example_end_def)

text \<open>
  C34: every run of the pool of n ranges ends within 5 n n steps, whatever the calls answer; and where
  no range is empty, a pool that can make no further step has a result of every range, so nobody
  sleeps for ever and the collector returns.
\<close>

theorem pool_ends:
  assumes "distinct ids" "length tasks = length ids"
    and "run (pool_guard noChunk) pool_step es (start_pool ids tasks) = Some q"
  shows "length es \<le> 5 * length ids * length ids \<and>
    (noChunk = (\<lambda>_. False) \<longrightarrow> (\<forall>e. \<not> pool_guard noChunk e q) \<longrightarrow>
       set (map cr_task (po_results q)) = {..<length ids})"
proof -
  let ?q = "start_pool ids tasks"
  have init: "pinit ?q" using assms(1,2) by (auto simp: pinit_def)
  have ids: "po_ids q = ids" using run_ids [OF assms(3)] by (simp add: start_pool_def)
  have "sum_list (map (fuel (length ids)) (map (\<lambda>i. Calling i []) xs)) = 5 * length ids * length xs" for xs :: "string list"
    by (induction xs) simp_all
  then have "pool_fuel ?q = 5 * length ids * length ids" by (simp add: pool_fuel_def start_pool_def)
  with run_fuel [OF start_inv [OF init] assms(3)] have len: "length es \<le> 5 * length ids * length ids" by simp
  have "set (map cr_task (po_results q)) = {..<length ids}"
    if "noChunk = (\<lambda>_. False)" "\<forall>e. \<not> pool_guard noChunk e q"
  proof -
    have inv: "pinv q \<and> linv q" using live_runs.reach_inv [OF init] assms(3) that(1) by blast
    have "\<forall>k < length ids. po_phase q ! k = Finished" using live_enabled inv that by (simp add: ids)
    with pinvD(5) [of q] inv show ?thesis unfolding results_ok_def ids by auto
  qed
  with len show ?thesis by blast
qed

theorem pool_ends_witness:
  "\<exists>q. run (pool_guard (\<lambda>_. False)) pool_step (pool_example @ [Reply 0 (reply ''s'' 200 True [])])
       (start_pool [''a'', ''b''] [(0, 1), (1, 1)]) = Some q \<and> set (map cr_task (po_results q)) = {..<2}"
proof -
  let ?r = "reply ''s'' 200 True []"
  have g: "pool_guard (\<lambda>_. False) (Reply 0 ?r) pool_example_end" by (simp add: pool_example_end_def)
  let ?q = "pool_step (Reply 0 ?r) pool_example_end"
  have r: "run (pool_guard (\<lambda>_. False)) pool_step (pool_example @ [Reply 0 ?r])
      (start_pool [''a'', ''b''] [(0, 1), (1, 1)]) = Some ?q"
    unfolding run_append pool_example_run using g by simp
  have e: "po_phase ?q = [Finished, Finished]" by (simp add: pool_example_end_def reply_step_def reply_def)
  have "\<not> pool_guard (\<lambda>_. False) ev ?q" for ev
    by (cases ev) (auto simp: e nth_Cons simp del: pool_step.simps split: nat.splits)
  with pool_ends [OF _ _ r] r show ?thesis by (simp del: pool_step.simps)
qed

section \<open>Cutting the job\<close>

definition sized_worker :: "string \<Rightarrow> int \<Rightarrow> worker" where
  "sized_worker i batch =
     \<lparr>w_id = i, w_name = i, w_labels = [], w_max = 8, w_batch = batch, w_inflight = 0, w_heartbeat = 0,
      w_send = None, w_jobs = []\<rparr>"

text \<open>
  Three inputs for workers that ask for batches of 10, 1 and 1 are cut into ranges of 2, 1 and 0,
  and the empty range fails the whole request with an empty answer of status 400 as soon as its result
  is the first to arrive, although the two other ranges hold every input.
\<close>

theorem empty_share_fails_request:
  "HandlePartitionedJob (emb_ops js) [sized_worker ''a'' 10, sized_worker ''b'' 1, sized_worker ''c'' 1] None 3 call
     [NoChunk 2] (newEmbeddingPartitionJob payload [x, y, z]) g =
   Done (Some (reply [] 400 False ''empty'', newEmbeddingPartitionJob payload [x, y, z], g))"
proof -
  let ?ws = "[sized_worker ''a'' 10, sized_worker ''b'' 1, sized_worker ''c'' 1]"
  let ?j = "newEmbeddingPartitionJob payload [x, y, z]"
  have n: "jo_size (emb_ops js) (newEmbeddingPartitionJob payload [x, y, z]) = 3" by simp
  have ws: "job_workers ?ws None 3 3 = ?ws" by code_simp
  have "map (weight (emb_ops js) 3) ?ws = [10, 1, 1]" by (simp add: weight_def emb_ops_def sized_worker_def)
  moreover have "split_tasks [10, 1, 1] 3 = Done [(0, 2), (2, 1), (3, 0)]" by code_simp
  moreover have "run_pool (emb_ops js) ?ws [(0, 2), (2, 1), (3, 0)] [NoChunk 2] ?j =
      Done (Some (reply [] 400 False ''empty'', ?j))"
    by (simp add: run_pool_def start_pool_def emb_ops_def emb_MakeChunk_def newEmbeddingPartitionJob_def put_result_def
        set_phase_def empty_reply_def reply_def sized_worker_def numeral_2_eq_2)
  ultimately show ?thesis unfolding HandlePartitionedJob_def n Let_def ws by simp
qed

text \<open>
  The batch sizes of the workers are added as 64-bit numbers without a check: two workers that
  registered with the largest one and a third with 2 make the sum 0, and the request panics with a
  division by zero.
\<close>

theorem weights_overflow_panic:
  "HandlePartitionedJob (emb_ops js)
     [sized_worker ''a'' 9223372036854775807, sized_worker ''b'' 9223372036854775807, sized_worker ''c'' 2] None 3 call
     es (newEmbeddingPartitionJob payload [x, y, z]) g = Panics"
proof -
  let ?ws = "[sized_worker ''a'' 9223372036854775807, sized_worker ''b'' 9223372036854775807, sized_worker ''c'' 2]"
  have n: "jo_size (emb_ops js) (newEmbeddingPartitionJob payload [x, y, z]) = 3" by simp
  have ws: "job_workers ?ws None 3 3 = ?ws" by code_simp
  have "map (weight (emb_ops js) 3) ?ws = [9223372036854775807, 9223372036854775807, 2]"
    by (simp add: weight_def emb_ops_def sized_worker_def)
  moreover have "split_tasks [9223372036854775807, 9223372036854775807, 2] 3 = Panics" by code_simp
  ultimately show ?thesis unfolding HandlePartitionedJob_def n Let_def ws by simp
qed

section \<open>The answer\<close>


text \<open>The text of an embedding is its input; the second range is answered before the first.\<close>

definition sample_json :: json_ops where
  "sample_json =
     \<lparr>js_model = \<lambda>_. [], js_stream = \<lambda>_. False, js_object = \<lambda>_. [], js_array = \<lambda>_. None, js_chunk = \<lambda>_ xs. concat xs,
      js_response = \<lambda>b. \<lparr>er_data = map (\<lambda>c. [c]) b, er_model = ''m'', er_usage = \<lparr>us_prompt = 1, us_total = 1\<rparr>\<rparr>,
      js_result = \<lambda>vs _ _. concat (map the vs), js_any = \<lambda>_. None\<rparr>"


text \<open>
  A worker that reports an error after it has sent the status of the answer makes the call fail,
  but the embeddings handler then answers the client with that status, so an error after a 200 reaches
  the client as a 200 without data.
\<close>

theorem embedding_error_keeps_status:
  assumes "pt_pick t = Received" "take_message h (pt_before t g) = Done (Some (HTTPProxyResponseEnd rid (Some e)), g1)"
    and "status \<noteq> 0"
  shows "\<exists>r g'. proxy_loop p i reqID h timeout start (t # ts) status buf g = Done (Some (r, g')) \<and> \<not> rp_ok r \<and>
    sent_status (write_partitioned r new_writer) = status"
  using assms
  by (simp add: reply_def write_partitioned_def Let_def sent_status_def new_writer_def WriteHeader_def put_header_def
      Write_def)

definition answered_gateway :: "wire list \<Rightarrow> gateway" where
  "answered_gateway ms =
     \<lparr>gw_cat = NewCatalogue (NewWorkerRegistry\<lparr>ws_chans := [5 \<mapsto> \<lparr>gc_buf = ms, gc_cap = 16, gc_closed = False\<rparr>]\<rparr>),
      gw_metrics = NewMetricsRegistry [] [] [] 0\<rparr>"

theorem embedding_error_keeps_status_witness:
  "\<exists>r g'. proxy_loop 0 ''w'' ''r'' 5 0 0 [\<lparr>pt_before = id, pt_pick = Received, pt_now = 1\<rparr>] 200 []
      (answered_gateway [HTTPProxyResponseEnd ''r'' (Some \<lparr>pe_code = ''x'', pe_message = ''lost''\<rparr>)]) = Done (Some (r, g')) \<and>
    \<not> rp_ok r \<and> sent_status (write_partitioned r new_writer) = 200"
  by (rule embedding_error_keeps_status)
     (simp_all add: take_message_def answered_gateway_def recv_chan_def NewCatalogue_def)

end
