(* ===== verification/GenProperties.thy ===== *)
theory GenProperties
  imports GenProxy PartitionProperties
begin

text \<open>
  The properties of the generation proxy: what the client gets of a stream, which request of the queue
  is dispatched, and what the counts show.
\<close>

section \<open>Relaying\<close>

lemma status_from_other:
  "\<not> (\<exists>i st hs. m = HTTPProxyResponseHeaders i st hs) \<Longrightarrow> \<not> (\<exists>i d. m = HTTPProxyResponseChunk i d) \<Longrightarrow>
   status_from w (m # ms) = status_from w ms"
  by (cases m) (simp_all add: status_from_def split: option.split)

lemma Write_sends: "rw_sent (Write d w) \<noteq> None"
  by (auto simp: Write_def WriteHeader_def split: option.splits)

text \<open>One message other than the end.\<close>

lemma relay_message:
  fixes s m js stream
  defines "s1 \<equiv> (case m of
      HTTPProxyResponseHeaders _ st hs \<Rightarrow> s\<lparr>gs_relay := gen_headers st hs (gs_relay s)\<rparr>
    | HTTPProxyResponseChunk _ d \<Rightarrow> gen_chunk js stream True d s
    | _ \<Rightarrow> s)"
  assumes "\<not> rl_success (gs_relay s)" "rl_headers (gs_relay s) \<longrightarrow> rw_sent (rl_writer (gs_relay s)) \<noteq> None"
    and "\<not> (\<exists>i e. m = HTTPProxyResponseEnd i e)"
  shows "\<not> rl_success (gs_relay s1) \<and>
    (rl_headers (gs_relay s1) \<longrightarrow> rw_sent (rl_writer (gs_relay s1)) \<noteq> None) \<and>
    rw_body (rl_writer (gs_relay s1)) = rw_body (rl_writer (gs_relay s)) @ chunk_data m \<and>
    status_from (rl_writer (gs_relay s1)) ms = status_from (rl_writer (gs_relay s)) (m # ms)"
proof (cases m)
  case (HTTPProxyResponseHeaders j st hs)
  with status_from_headers [OF assms(3), of st hs ms j] assms(2) show ?thesis
    by (simp add: s1_def chunk_data_def)
next
  case (HTTPProxyResponseChunk j d)
  with status_from_chunk [of d _ ms j] assms(2,3) show ?thesis
    by (auto simp: s1_def chunk_data_def chunk_frame simp del: not_None_eq intro: Write_sends)
qed (use assms in \<open>simp_all add: s1_def chunk_data_def status_from_other\<close>)

lemma gen_loop_relays:
  "gen_loop js stream p reqID h timeout ts s g = Done (Some (s', g')) \<Longrightarrow>
   rl_success (gs_relay s') \<Longrightarrow> \<not> rl_success (gs_relay s) \<Longrightarrow>
   (rl_headers (gs_relay s) \<longrightarrow> rw_sent (rl_writer (gs_relay s)) \<noteq> None) \<Longrightarrow>
   \<forall>x \<in> set (taken_messages p h timeout ts g). snd x \<Longrightarrow>
   rw_body (rl_writer (gs_relay s')) =
     rw_body (rl_writer (gs_relay s)) @ concat (map (\<lambda>x. chunk_data (fst x)) (taken_messages p h timeout ts g)) \<and>
   sent_status (rl_writer (gs_relay s')) = status_from (rl_writer (gs_relay s)) (map fst (taken_messages p h timeout ts g))"
proof (induction ts arbitrary: s g)
  case (Cons t ts)
  let ?g = "rt_before t g"
  note loop = Cons.prems(1) and IH = Cons.IH [OF _ Cons.prems(2)]
  show ?case
  proof (cases "rt_pick t")
    case Cancelled
    with loop Cons.prems(2,3) show ?thesis by (auto simp: Let_def)
  next
    case TimerFired
    show ?thesis
    proof (cases "0 < timeout \<and> time_sub (rt_now t) (heartbeat p ?g) > timeout")
      case True
      with TimerFired loop Cons.prems(2,3) show ?thesis by (auto simp: Let_def relay_timeout_def)
    next
      case False
      with TimerFired loop have "gen_loop js stream p reqID h timeout ts s ?g = Done (Some (s', g'))"
        by (simp add: Let_def)
      moreover have "taken_messages p h timeout (t # ts) g = taken_messages p h timeout ts ?g" using TimerFired False by (auto simp: Let_def)
      ultimately show ?thesis using IH [OF _ Cons.prems(3,4)] Cons.prems(5) by (simp only:)
    qed
  next
    case Received
    show ?thesis
    proof (cases "take_message h ?g")
      case Blocks
      with Received loop have "gen_loop js stream p reqID h timeout ts s ?g = Done (Some (s', g'))"
        by (simp add: Let_def)
      from IH [OF this Cons.prems(3,4)] Cons.prems(5) Received Blocks show ?thesis by (simp add: Let_def)
    next
      case Panics
      with Received loop show ?thesis by (simp add: Let_def)
    next
      case (Done x)
      then obtain mo g1 where x: "take_message h ?g = Done (mo, g1)" by (cases x) auto
      show ?thesis
      proof (cases mo)
        case None
        with Received x loop Cons.prems(2,3) show ?thesis by (auto simp: Let_def relay_closed_def)
      next
        case (Some m)
        note step = Received x Some
        have w: "rt_written t" using Cons.prems(5) step by (simp add: Let_def)
        show ?thesis
        proof (cases "\<exists>i e. m = HTTPProxyResponseEnd i e")
          case True
          then obtain i e where m: "m = HTTPProxyResponseEnd i e" by blast
          with step loop have "s' = gen_end js stream e s" by (simp add: Let_def)
          with end_success Cons.prems(2,3) have "rl_writer (gs_relay s') = rl_writer (gs_relay s)" by blast
          then show ?thesis using step m by (auto simp: Let_def chunk_data_def status_from_def sent_status_def split: option.splits)
        next
          case False
          define s1 where "s1 = (case m of
              HTTPProxyResponseHeaders _ st hs \<Rightarrow> s\<lparr>gs_relay := gen_headers st hs (gs_relay s)\<rparr>
            | HTTPProxyResponseChunk _ d \<Rightarrow> gen_chunk js stream True d s
            | _ \<Rightarrow> s)"
          from False step loop w have run: "gen_loop js stream p reqID h timeout ts s1 g1 = Done (Some (s', g'))"
            by (cases m) (simp_all add: Let_def s1_def)
          from False step have tk: "taken_messages p h timeout (t # ts) g = (m, rt_written t) # taken_messages p h timeout ts g1"
            by (cases m) (simp_all add: Let_def)
          have s1: "\<not> rl_success (gs_relay s1)"
            "rl_headers (gs_relay s1) \<longrightarrow> rw_sent (rl_writer (gs_relay s1)) \<noteq> None"
            "rw_body (rl_writer (gs_relay s1)) = rw_body (rl_writer (gs_relay s)) @ chunk_data m"
            "status_from (rl_writer (gs_relay s1)) ms = status_from (rl_writer (gs_relay s)) (m # ms)" for ms
            using relay_message [OF Cons.prems(3,4) False] unfolding s1_def by blast+
          have "\<forall>x \<in> set (taken_messages p h timeout ts g1). snd x" using Cons.prems(5) unfolding tk by simp
          from IH [OF run s1(1,2) this] show ?thesis unfolding tk by (simp add: s1(3,4))
        qed
      qed
    qed
  qed
qed (simp)

text \<open>
  When the relaying of a chat completion ends with success and every write to the client went
  through, the client has received the status of the answer and exactly the bytes of its chunks, in
  their order, whatever keep-alive timers fired in between and for streams and plain answers alike.
\<close>

theorem stream_relayed_exactly:
  assumes "gen_loop js stream p reqID h timeout ts
      \<lparr>gs_relay = start_relay new_writer False, gs_tokens = t0, gs_sse = [], gs_body = []\<rparr> g = Done (Some (s, g'))"
    and "rl_success (gs_relay s)" "\<forall>x \<in> set (taken_messages p h timeout ts g). snd x"
  shows "rw_body (rl_writer (gs_relay s)) = concat (map (\<lambda>x. chunk_data (fst x)) (taken_messages p h timeout ts g)) \<and>
    sent_status (rl_writer (gs_relay s)) = first_status (map fst (taken_messages p h timeout ts g))"
  using gen_loop_relays [OF assms(1,2) _ _ assms(3)] by (simp add: start_relay_def new_writer_def status_from_def)

definition receive :: relay_turn where
  "receive = \<lparr>rt_before = id, rt_pick = Received, rt_now = 0, rt_written = True\<rparr>"

definition start_gen :: gen_state where
  "start_gen = \<lparr>gs_relay = start_relay new_writer False, gs_tokens = (0, 0), gs_sse = [], gs_body = []\<rparr>"

theorem stream_relayed_exactly_witness:
  "\<exists>s g'. gen_loop sample_json True 0 ''r'' 5 0 [receive, receive, receive, receive] start_gen
      (answered_gateway [HTTPProxyResponseHeaders ''r'' 206 [], HTTPProxyResponseChunk ''r'' ''ab'', HTTPProxyResponseChunk ''r'' ''c'',
        HTTPProxyResponseEnd ''r'' None]) = Done (Some (s, g')) \<and>
    rw_body (rl_writer (gs_relay s)) = ''abc'' \<and> sent_status (rl_writer (gs_relay s)) = 206"
proof -
  let ?ms = "[HTTPProxyResponseHeaders ''r'' 206 [], HTTPProxyResponseChunk ''r'' ''ab'',
     HTTPProxyResponseChunk ''r'' ''c'', HTTPProxyResponseEnd ''r'' None]"
  let ?ts = "[receive, receive, receive, receive]"
  have tk: "map fst (taken_messages 0 5 0 ?ts (answered_gateway ?ms)) = ?ms" "\<forall>x \<in> set (taken_messages 0 5 0 ?ts (answered_gateway ?ms)). snd x"
    by (simp_all add: Let_def receive_def take_message_def answered_gateway_def recv_chan_def NewCatalogue_def set_reg_def)
  have "\<exists>s g'. gen_loop sample_json True 0 ''r'' 5 0 ?ts start_gen (answered_gateway ?ms) = Done (Some (s, g')) \<and> rl_success (gs_relay s)"
    by (simp add: Let_def receive_def take_message_def answered_gateway_def recv_chan_def NewCatalogue_def set_reg_def
        gen_end_def relay_end_def)
  then obtain s g' where r: "gen_loop sample_json True 0 ''r'' 5 0 ?ts start_gen (answered_gateway ?ms) = Done (Some (s, g'))"
    "rl_success (gs_relay s)" by blast
  have "concat (map (\<lambda>x. chunk_data (fst x)) (taken_messages 0 5 0 ?ts (answered_gateway ?ms))) =
      concat (map chunk_data (map fst (taken_messages 0 5 0 ?ts (answered_gateway ?ms))))" by (simp add: comp_def)
  with stream_relayed_exactly [OF r(1) [unfolded start_gen_def] r(2) tk(2)] r show ?thesis
    unfolding tk(1) by (auto simp: chunk_data_def)
qed

text \<open>
  An error of the worker after the first bytes of an answer is counted as a success: the client
  gets no sign of it beyond the missing rest, the completed jobs go up by one and the failed ones stay.
\<close>

theorem late_error_counted_as_success:
  assumes "rt_pick t = Received" "take_message h (rt_before t g) = Done (Some (HTTPProxyResponseEnd rid (Some e)), g1)"
    and "rl_bytes (gs_relay s)"
  shows "\<exists>s'. gen_loop js stream p reqID h timeout (t # ts) s g = Done (Some (s', g1)) \<and>
    rl_success (gs_relay s') \<and> rl_writer (gs_relay s') = rl_writer (gs_relay s) \<and>
    (\<forall>g2. gen_finish p i reqID dur s' g1 = Done g2 \<longrightarrow>
       mr_completed (gw_metrics g2) = mr_completed (gw_metrics g1) + 1 \<and>
       mr_failed (gw_metrics g2) = mr_failed (gw_metrics g1))"
proof -
  let ?s = "gen_end js stream (Some e) s"
  have ok: "rl_success (gs_relay ?s)" "rl_writer (gs_relay ?s) = rl_writer (gs_relay s)"
    using assms(3) by (simp_all add: gen_end_def relay_end_def Let_def)
  have "mr_completed (gw_metrics g2) = mr_completed (gw_metrics g1) + 1 \<and> mr_failed (gw_metrics g2) = mr_failed (gw_metrics g1)"
    if "gen_finish p i reqID dur ?s g1 = Done g2" for g2
    using that ok(1)
    by (auto simp: gen_finish_def close_job_def set_metrics_def set_reg_def RecordJobEnd_def SetWorkerStatus_def
        AddWorkerTokens_def on_worker_def Let_def split: option.splits if_splits)
  with ok assms(1,2) show ?thesis by (simp add: Let_def)
qed

theorem late_error_counted_as_success_witness:
  "\<exists>s' g1. gen_loop sample_json True 0 ''r'' 5 0 [receive, receive] start_gen
      (answered_gateway [HTTPProxyResponseChunk ''r'' ''ab'', HTTPProxyResponseEnd ''r'' (Some \<lparr>pe_code = ''x'', pe_message = ''lost''\<rparr>)]) =
        Done (Some (s', g1)) \<and> rl_success (gs_relay s') \<and> rw_body (rl_writer (gs_relay s')) = ''ab''"
proof -
  let ?e = "HTTPProxyResponseEnd ''r'' (Some \<lparr>pe_code = ''x'', pe_message = ''lost''\<rparr>)"
  let ?g = "answered_gateway [HTTPProxyResponseChunk ''r'' ''ab'', ?e]"
  let ?s = "gen_chunk sample_json True True ''ab'' start_gen"
  obtain g1 where g1: "take_message 5 ?g = Done (Some (HTTPProxyResponseChunk ''r'' ''ab''), g1)"
      "take_message 5 g1 = Done (Some ?e, answered_gateway [])"
    by (simp add: take_message_def answered_gateway_def recv_chan_def NewCatalogue_def set_reg_def)
  have one: "gen_loop sample_json True 0 ''r'' 5 0 [receive, receive] start_gen ?g = gen_loop sample_json True 0 ''r'' 5 0 [receive] ?s g1"
    by (simp add: receive_def g1(1))
  have b: "rl_bytes (gs_relay ?s)" "rw_body (rl_writer (gs_relay ?s)) = ''ab''"
    by (simp_all add: gen_chunk_def relay_chunk_def start_gen_def start_relay_def new_writer_def Let_def split: prod.split)
  have "rt_pick receive = Received" "take_message 5 (rt_before receive g1) = Done (Some ?e, answered_gateway [])"
    by (simp_all add: receive_def g1(2))
  from late_error_counted_as_success [OF this b(1)] b(2) show ?thesis unfolding one by metis
qed

section \<open>The queue\<close>

lemma base_models:
  "ca_reg (snd (AggregatedModels order now c)) = ca_reg c"
  "mi_id ` set (fst (AggregatedModels order now c)) = set (concat (map LabelKeys (snapshot_workers order c)))"
  by (simp_all add: AggregatedModels_def Let_def image_image split: prod.split)

lemma base_model:
  "ca_reg (snd (AggregatedModel order i now c)) = ca_reg c"
  "fst (AggregatedModel order i now c) = None \<longleftrightarrow> (\<forall>w \<in> set (snapshot_workers order c). \<not> HasLabel w i)"
  by (auto simp: AggregatedModel_def Let_def filter_empty_conv)

lemma snapshot_cong: "ca_reg c = ca_reg c' \<Longrightarrow> snapshot_workers order c = snapshot_workers order c'"
  by (simp add: snapshot_workers_def)

lemma supported_iff:
  assumes "modelSupported (base_spi sch order address) now model c = (ok, c')"
  shows "ca_reg c' = ca_reg c \<and>
    (ok \<longleftrightarrow> (\<exists>w \<in> set (snapshot_workers order c). HasLabel w model) \<or>
      (\<exists>ak. AliasKey model = Some ak \<and>
        (\<exists>i \<in> set (concat (map LabelKeys (snapshot_workers order c))). AliasKey i = Some ak)))"
proof -
  let ?sn = "snapshot_workers order c"
  obtain m c1 where m: "AggregatedModel order model now c = (m, c1)" by fastforce
  from base_model [of order model now c] m have c1: "ca_reg c1 = ca_reg c"
    and some: "m = None \<longleftrightarrow> (\<forall>w \<in> set ?sn. \<not> HasLabel w model)" by simp_all
  obtain ms c2 where ms: "AggregatedModels order now c1 = (ms, c2)" by fastforce
  have sn: "snapshot_workers order c1 = ?sn" using c1 by (rule snapshot_cong)
  from base_models [of order now c1] ms have c2: "ca_reg c2 = ca_reg c" and "mi_id ` set ms = set (concat (map LabelKeys ?sn))"
    by (simp_all add: c1 sn)
  then have ex: "(\<exists>x \<in> set ms. AliasKey (mi_id x) = Some ak) \<longleftrightarrow>
      (\<exists>i \<in> set (concat (map LabelKeys ?sn)). AliasKey i = Some ak)" for ak
    by (metis (no_types, lifting) image_iff)
  have "modelSupported (base_spi sch order address) now model c =
     (case m of Some _ \<Rightarrow> (True, c1)
      | None \<Rightarrow> (case AliasKey model of None \<Rightarrow> (False, c1) | Some ak \<Rightarrow> (\<exists>x \<in> set ms. AliasKey (mi_id x) = Some ak, c2)))"
    by (simp add: modelSupported_def base_spi_def m ms split: option.split)
  with assms c1 c2 some show ?thesis unfolding ex by (auto split: option.splits)
qed

lemma dispatch_cong:
  assumes "ca_reg c = ca_reg c'"
  shows "fst (canDispatch (base_spi sch order address) now model c) = fst (canDispatch (base_spi sch order address) now model c') \<and>
    ca_reg (snd (canDispatch (base_spi sch order address) now model c)) = ca_reg c"
proof -
  let ?sp = "base_spi sch order address"
  obtain ok d where a: "modelSupported ?sp now model c = (ok, d)" by fastforce
  obtain ok' d' where b: "modelSupported ?sp now model c' = (ok', d')" by fastforce
  from supported_iff [OF a] have a': "ca_reg d = ca_reg c" by (rule conjunct1)
  from supported_iff [OF b] assms have b': "ca_reg d' = ca_reg c" by simp
  have "ok = ok'"
    using conjunct2 [OF supported_iff [OF a]] conjunct2 [OF supported_iff [OF b]] snapshot_cong [OF assms, of order] by simp
  moreover have "sp_pick ?sp model d = sp_pick ?sp model d'" by (simp add: base_spi_def a' b')
  ultimately show ?thesis by (simp add: canDispatch_def a b a' del: not_None_eq)
qed

lemma first_dispatchable_split:
  assumes "\<And>m c. rel c \<Longrightarrow> fst (can m c) = fst (can m c0) \<and> rel (snd (can m c))"
  shows "rel c \<Longrightarrow> first_dispatchable i can items c = (True, c') \<Longrightarrow>
    \<exists>xs ys m. items = xs @ (i, m) # ys \<and> fst (can m c0) \<and> (\<forall>x \<in> set xs. \<not> fst (can (snd x) c0))"
proof (induction items arbitrary: c)
  case (Cons x items)
  obtain ok c1 where can: "can (snd x) c = (ok, c1)" by fastforce
  with assms [OF Cons.prems(1), of "snd x"] have ok: "ok = fst (can (snd x) c0)" and rel: "rel c1" by simp_all
  show ?case
  proof (cases ok)
    case True
    with Cons.prems(2) can have "x # items = [] @ (i, snd x) # items" by auto
    with True ok show ?thesis by (metis empty_iff empty_set)
  next
    case False
    with Cons.prems(2) can have "first_dispatchable i can items c1 = (True, c')" by simp
    from Cons.IH [OF rel this] obtain xs ys m where
      s: "items = xs @ (i, m) # ys" "fst (can m c0)" "\<forall>x \<in> set xs. \<not> fst (can (snd x) c0)" by blast
    then have "x # items = (x # xs) @ (i, m) # ys" "\<forall>y \<in> set (x # xs). \<not> fst (can (snd y) c0)"
      using False ok by simp_all
    with s(2) show ?thesis by blast
  qed
qed simp

text \<open>One worker with room for one task, and a queue of two.\<close>

definition the_worker :: worker where
  "the_worker = \<lparr>w_id = ''w'', w_name = ''w'', w_labels = [''m''], w_max = 1, w_batch = 0, w_inflight = 0,
                         w_heartbeat = 0, w_send = Some 1, w_jobs = []\<rparr>"
definition one_worker_gateway :: gateway where
  "one_worker_gateway =
     \<lparr>gw_cat = NewCatalogue
        \<lparr>ws_heap = [0 \<mapsto> the_worker],
         ws_table = [''w'' \<mapsto> 0], ws_chans = [1 \<mapsto> new_chan 4]\<rparr>,
      gw_metrics = NewMetricsRegistry [] [] [] 0\<rparr>"
abbreviation plain_spi :: spi where
  "plain_spi \<equiv> base_spi (NewScoreScheduler None) [''w''] (\<lambda>_. 0)"
lemma one_snapshot: "ca_reg c = gw_reg one_worker_gateway \<Longrightarrow> snapshot_workers [''w''] c = [the_worker]"
  by (simp add: snapshot_workers_def Snapshot_def one_worker_gateway_def NewCatalogue_def range_values_def List.map_filter_def)
lemma one_pick: "ca_reg c = gw_reg one_worker_gateway \<Longrightarrow> sp_pick plain_spi m c = Some the_worker"
  by (simp add: base_spi_def PickWorker_def Snapshot_def one_worker_gateway_def NewCatalogue_def range_values_def
      List.map_filter_def choose_worker_def the_worker_def NewScoreScheduler_def DefaultExactMatchScore_def)

definition plain_json :: "string \<Rightarrow> json_ops" where
  "plain_json model =
     \<lparr>js_model = \<lambda>_. model, js_stream = \<lambda>_. False, js_object = \<lambda>_. [], js_array = \<lambda>_. None, js_chunk = \<lambda>_ _. [],
      js_response = \<lambda>_. \<lparr>er_data = [], er_model = [], er_usage = \<lparr>us_prompt = 0, us_total = 0\<rparr>\<rparr>,
      js_result = \<lambda>_ _ _. [], js_any = \<lambda>_. None\<rparr>"

definition plain_request :: "string \<Rightarrow> gen_request" where
  "plain_request i =
     \<lparr>gq_post = \<lparr>hp_body = Some (Some []), hp_type = ''application/json'', hp_accept = [], hp_language = [], hp_agent = [],
        hp_id = []\<rparr>, gq_log = i, gq_id = i, gq_flusher = True, gq_between = id, gq_start = 0, gq_end = 0\<rparr>"
lemma one_supported:
  assumes "ca_reg c = gw_reg one_worker_gateway"
  shows "\<exists>c'. modelSupported plain_spi now m c = (m = ''m'', c') \<and> ca_reg c' = gw_reg one_worker_gateway"
proof -
  obtain ok c' where c: "modelSupported plain_spi now m c = (ok, c')" by fastforce
  have "AliasKey ''m'' = None" by code_simp
  with supported_iff [OF c] assms one_snapshot [OF assms]
  have "ok = (m = ''m'')" "ca_reg c' = gw_reg one_worker_gateway"
    by (auto simp: HasLabel_def LabelKeys_def the_worker_def)
  with c show ?thesis by blast
qed

lemma one_dispatch:
  assumes "ca_reg c = gw_reg one_worker_gateway"
  shows "\<exists>c'. canDispatch plain_spi now m c = (m = ''m'', c') \<and> ca_reg c' = gw_reg one_worker_gateway"
proof -
  obtain c' where c: "modelSupported plain_spi now m c = (m = ''m'', c')" "ca_reg c' = gw_reg one_worker_gateway"
    using one_supported [OF assms] by blast
  with one_pick [OF c(2)] show ?thesis by (simp add: canDispatch_def)
qed

lemma plain_dispatch:
  assumes "gw_reg g = gw_reg one_worker_gateway"
  shows
  "\<exists>g' u c. tryDispatch plain_spi path js (plain_request i) [] 6 id g =
     Done (Some the_worker, g') \<and> ws_table (gw_reg g') ''w'' = Some 0 \<and> ws_heap (gw_reg g') 0 = Some u \<and> w_inflight u = w_max u \<and> w_send u = Some 1 \<and>
    ws_chans (gw_reg g') 1 = Some c \<and> \<not> gc_closed c \<and> length (gc_buf c) < gc_cap c"
proof -
  have p: "sp_pick plain_spi (js_model js []) (gw_cat g) = Some the_worker" using assms by (rule one_pick)
  have h: "gw_reg g = \<lparr>ws_heap = [0 \<mapsto> the_worker], ws_table = [''w'' \<mapsto> 0], ws_chans = [1 \<mapsto> new_chan 4]\<rparr>"
    using assms by (simp add: one_worker_gateway_def NewCatalogue_def)
  have a: "sp_address plain_spi w = 0" for w by (simp add: base_spi_def)
  show ?thesis
    using h by (auto simp: tryDispatch_def p a offer_def send_channel_def open_job_def AddJob_def update_worker_def set_reg_def
      set_metrics_def offer_chan_def send_chan_def IncInFlight_def Let_def the_worker_def new_chan_def)
qed


definition waiting_llm :: llm where
  "waiting_llm =
     \<lparr>lm_gw = one_worker_gateway, lm_queue = Some \<lparr>cq_items = [(''q'', ''x''), (''r'', ''m'')], cq_cap = 3, cq_metrics = None\<rparr>\<rparr>"




text \<open>
  The worker is picked and counted in separate steps and the room is not looked at again, so a
  worker that another request fills in between takes one task more than its limit.
\<close>

theorem dispatch_over_capacity:
  assumes "sp_pick sp (js_model js body) (gw_cat g) = Some wk"
    and "ws_table (gw_reg (between g)) (w_id wk) = Some (sp_address sp wk)"
    and "ws_heap (gw_reg (between g)) (sp_address sp wk) = Some u" "w_inflight u = w_max u"
    and "w_send u = Some n" "n \<noteq> h" "ws_chans (gw_reg (between g)) n = Some c" "\<not> gc_closed c"
    and "length (gc_buf c) < gc_cap c"
  shows "\<exists>g' v. tryDispatch sp path js r body h between g = Done (Some wk, g') \<and>
    ws_heap (gw_reg g') (sp_address sp wk) = Some v \<and> w_inflight v = w_max v + 1"
  using assms
  by (simp add: tryDispatch_def offer_def send_channel_def open_job_def AddJob_def update_worker_def set_reg_def
      set_metrics_def offer_chan_def send_chan_def IncInFlight_def Let_def)

theorem dispatch_over_capacity_witness:
  "\<exists>g' v. tryDispatch plain_spi ''/responses'' (plain_json ''m'') (plain_request ''r2'') [] 7
      (\<lambda>g. case tryDispatch plain_spi ''/responses'' (plain_json ''m'') (plain_request ''r1'') [] 6 id g of
         Done (_, g) \<Rightarrow> g | _ \<Rightarrow> g) one_worker_gateway = Done (Some the_worker, g') \<and>
    ws_heap (gw_reg g') 0 = Some v \<and> w_inflight v = w_max v + 1"
proof -
  let ?b = "\<lambda>g. case tryDispatch plain_spi ''/responses'' (plain_json ''m'') (plain_request ''r1'') [] 6 id g of
     Done (_, g) \<Rightarrow> g | _ \<Rightarrow> g"
  obtain g u c where r1: "tryDispatch plain_spi ''/responses'' (plain_json ''m'') (plain_request ''r1'') [] 6 id one_worker_gateway =
      Done (Some the_worker, g)" and b: "ws_table (gw_reg g) ''w'' = Some 0" "ws_heap (gw_reg g) 0 = Some u" "w_inflight u = w_max u"
    "w_send u = Some 1" "ws_chans (gw_reg g) 1 = Some c" "\<not> gc_closed c" "length (gc_buf c) < gc_cap c"
    using plain_dispatch [OF refl] by blast
  have w: "w_id the_worker = ''w''" "sp_address plain_spi the_worker = 0"
    by (simp_all add: the_worker_def base_spi_def)
  have bg: "?b one_worker_gateway = g" using r1 by simp
  have pick: "sp_pick plain_spi (js_model (plain_json ''m'') []) (gw_cat one_worker_gateway) = Some the_worker"
    by (rule one_pick) simp
  from dispatch_over_capacity [of plain_spi "plain_json ''m''" "[]" one_worker_gateway the_worker ?b, OF pick,
      unfolded w bg, OF b(1-4) _ b(5-7), of 7]
  show ?thesis by simp
qed

end
