(* ===== verification/Transports.thy ===== *)
theory Transports
  imports GenProperties
begin

text \<open>
  The two extensions that pass one request to a worker and its answer back unchanged:
  \<^verbatim>\<open>modules/asr/ext\<close> (transcriptions and its model listing) and \<^verbatim>\<open>modules/docling/ext\<close>.
\<close>

section \<open>The request\<close>

text \<open>
  \<open>jq_body\<close> is \<open>None\<close> for a nil body, \<open>Some None\<close> for one that cannot be read; \<open>jq_header\<close> maps the
  canonical names to their values.
\<close>

record job_request =
  jq_method :: string
  jq_body :: "string option option"
  jq_header :: "(string \<times> string list) list"
  jq_log :: string
  jq_id :: string
  jq_chan :: nat
  jq_start :: time
  jq_end :: time
  jq_turns :: "relay_turn list"

fun first_values :: "(string \<times> string list) list \<Rightarrow> header" where
  "first_values [] = []"
| "first_values ((k, vals) # h) = (case vals of [] \<Rightarrow> first_values h | v # _ \<Rightarrow> (k, v) # first_values h)"

definition put_key :: "string \<Rightarrow> string \<Rightarrow> header \<Rightarrow> header" where
  "put_key k v h = (k, v) # filter (\<lambda>(n, _). n \<noteq> k) h"

definition worker_headers :: "job_request \<Rightarrow> header" where
  "worker_headers r =
     (let headers = first_values (jq_header r);
          rid = get_header ''X-Request-Id'' (first_values (jq_header r));
          rid = (if rid = [] then jq_log r else rid)
      in put_key ''Cache-Control'' ''no-store'' (put_key ''X-Request-Id'' rid headers))"

text \<open>
  The parser of forms is a parameter: \<open>mp_boundary\<close> is \<^verbatim>\<open>mime.ParseMediaType\<close> with the boundary it
  finds, \<open>None\<close> for an error; \<open>mp_parts\<close> are the parts \<^verbatim>\<open>NextPart\<close> yields before the end or the first
  error, each with its form name and what can be read of it.
\<close>

record multipart =
  mp_boundary :: "string \<Rightarrow> string option"
  mp_parts :: "string \<Rightarrow> string \<Rightarrow> (string \<times> string) list"

fun form_fields :: "(string \<times> string) list \<Rightarrow> string \<times> bool \<Rightarrow> string \<times> bool" where
  "form_fields [] acc = acc"
| "form_fields ((name, d) # parts) (model, stream) =
     form_fields parts
       (if name = ''model'' then (d, stream)
        else if name = ''stream'' then (model, ParseBool (TrimSpace d) = Some True)
        else (model, stream))"

section \<open>The answer\<close>

fun copy_all :: "header \<Rightarrow> writer \<Rightarrow> writer" where
  "copy_all [] w = w"
| "copy_all ((k, v) # hs) w =
     copy_all hs (if k = ''Transfer-Encoding'' \<or> k = ''Connection'' then w else put_header k v w)"

definition asr_headers :: "int \<Rightarrow> header \<Rightarrow> relay_state \<Rightarrow> relay_state" where
  "asr_headers st hs s =
     (let w = copy_all hs (rl_writer s);
          w = (if EqualFold (get_header ''Content-Type'' (rw_header w)) ''text/event-stream''
               then put_header ''Cache-Control'' ''no-store'' w else w)
      in s\<lparr>rl_headers := True, rl_writer := WriteHeader st w\<rparr>)"

definition docling_headers :: "int \<Rightarrow> header \<Rightarrow> relay_state \<Rightarrow> relay_state" where
  "docling_headers st hs s =
     s\<lparr>rl_headers := True, rl_writer := WriteHeader st (copy_all hs (rl_writer s))\<rparr>"

text \<open>A failed write leaves at most the implicit status behind; the error is not looked at.\<close>

definition plain_chunk :: "bool \<Rightarrow> string \<Rightarrow> relay_state \<Rightarrow> relay_state" where
  "plain_chunk written d s =
     (if d \<noteq> [] then
        s\<lparr>rl_writer := (if written then Write d (rl_writer s) else WriteHeader 200 (rl_writer s))\<rparr>
      else s)"

definition plain_end :: "proxy_error option \<Rightarrow> relay_state \<Rightarrow> relay_state" where
  "plain_end e s = (case e of Some pe \<Rightarrow> s\<lparr>rl_err := pe_code pe\<rparr> | None \<Rightarrow> s\<lparr>rl_success := True\<rparr>)"

text \<open>\<open>take\<close> is what a message with headers does; a timer that fires ends the call, heartbeats or not.\<close>

fun transport_loop ::
  "(int \<Rightarrow> header \<Rightarrow> relay_state \<Rightarrow> relay_state) \<Rightarrow> nat \<Rightarrow> string \<Rightarrow> nat \<Rightarrow> duration \<Rightarrow> relay_turn list
    \<Rightarrow> relay_state \<Rightarrow> gateway \<Rightarrow> (relay_state \<times> gateway) option outcome" where
  "transport_loop put p reqID h timeout [] s g = Done None"
| "transport_loop put p reqID h timeout (t # ts) s g =
     (let g = rt_before t g in
      case rt_pick t of
        Cancelled \<Rightarrow> bind_outcome (offer p (HTTPProxyCancel reqID) g) (\<lambda>(_, g). Done (Some (s, g)))
      | TimerFired \<Rightarrow>
          if 0 < timeout then
            bind_outcome (offer p (HTTPProxyCancel reqID) g) (\<lambda>(_, g). Done (Some (relay_timeout s, g)))
          else transport_loop put p reqID h timeout ts s g
      | Received \<Rightarrow>
          (case take_message h g of
             Panics \<Rightarrow> Panics
           | Blocks \<Rightarrow> transport_loop put p reqID h timeout ts s g
           | Done (None, g) \<Rightarrow> Done (Some (relay_closed s, g))
           | Done (Some m, g) \<Rightarrow>
               (case m of
                  HTTPProxyResponseHeaders _ st hs \<Rightarrow> transport_loop put p reqID h timeout ts (put st hs s) g
                | HTTPProxyResponseChunk _ d \<Rightarrow>
                    transport_loop put p reqID h timeout ts (plain_chunk (rt_written t) d s) g
                | HTTPProxyResponseEnd _ e \<Rightarrow> Done (Some (plain_end e s, g))
                | _ \<Rightarrow> transport_loop put p reqID h timeout ts s g)))"

section \<open>The handlers\<close>

text \<open>
  From the chosen worker on the two handlers are the same but for the method, the path and the way
  headers are taken over.  The deferred calls run in the order written in \<open>leave\<close> and before it.
\<close>

definition transport_send ::
  "(worker \<Rightarrow> nat) \<Rightarrow> string \<Rightarrow> string \<Rightarrow> bool \<Rightarrow> string \<Rightarrow> job_request \<Rightarrow> worker \<Rightarrow> gateway
    \<Rightarrow> (bool \<times> gateway) outcome" where
  "transport_send address meth path stream body r wk g =
     (let i = w_id wk; p = address wk;
          g = set_reg (IncInFlight i (gw_reg g)) g;
          g = open_job p (jq_id r) (jq_chan r) g;
          msg = HTTPProxyRequest (jq_id r) meth path (worker_headers r) stream body
      in bind_outcome (offer p msg g)
           (\<lambda>(sent, g).
              Done (sent, if sent then set_metrics (SetWorkerStatus i StatusWorking (RecordJobStart i (gw_metrics g))) g
                          else g)))"

definition transport ::
  "(int \<Rightarrow> header \<Rightarrow> relay_state \<Rightarrow> relay_state) \<Rightarrow> (worker \<Rightarrow> nat) \<Rightarrow> duration \<Rightarrow> string \<Rightarrow> string \<Rightarrow> bool
    \<Rightarrow> string \<Rightarrow> job_request \<Rightarrow> worker \<Rightarrow> gateway \<Rightarrow> (writer \<times> gateway) option outcome" where
  "transport put address timeout meth path stream body r wk g =
     (let i = w_id wk; p = address wk;
          leave = (\<lambda>w g. bind_outcome (close_job p (jq_id r) g)
                     (\<lambda>g. Done (Some (w, set_reg (DecInFlight i (gw_reg g)) g))))
      in bind_outcome (transport_send address meth path stream body r wk g)
           (\<lambda>(sent, g).
              if \<not> sent then leave (json_answer 503 busy_body new_writer) g
              else
                bind_outcome (transport_loop put p (jq_id r) (jq_chan r) timeout (jq_turns r) (start_relay new_writer False) g)
                  (\<lambda>res. case res of
                     None \<Rightarrow> Done None
                   | Some (s, g) \<Rightarrow>
                       let dur = time_sub (jq_end r) (jq_start r);
                           m = RecordJobEnd i dur (rl_success s) (rl_err s) (gw_metrics g)
                       in leave (rl_writer s) (set_metrics (SetWorkerStatus i StatusIdle m) g))))"

definition transcribeHandler ::
  "multipart \<Rightarrow> (string \<Rightarrow> wstate \<Rightarrow> worker option) \<Rightarrow> (worker \<Rightarrow> nat) \<Rightarrow> duration \<Rightarrow> job_request \<Rightarrow> gateway
    \<Rightarrow> (writer \<times> gateway) option outcome" where
  "transcribeHandler mp pick address timeout r g =
     (case jq_body r of
        None \<Rightarrow> Done (Some (HttpError ''bad request'' 400 new_writer, g))
      | Some None \<Rightarrow> Done (Some (HttpError ''bad request'' 400 new_writer, g))
      | Some (Some body) \<Rightarrow>
          let ct = get_header ''Content-Type'' (first_values (jq_header r)) in
          if \<not> HasPrefix ct ''multipart/form-data'' then Done (Some (HttpError ''bad request'' 400 new_writer, g))
          else
            let (model, stream) = (case mp_boundary mp ct of
                                     None \<Rightarrow> ([], False)
                                   | Some boundary \<Rightarrow> form_fields (mp_parts mp boundary body) ([], False))
            in if model = [] then Done (Some (HttpError ''no model'' 400 new_writer, g))
               else
                 case pick model (gw_reg g) of
                   None \<Rightarrow> Done (Some (HttpError ''no worker'' 404 new_writer, g))
                 | Some wk \<Rightarrow>
                     transport asr_headers address timeout ''POST'' ''/audio/transcriptions'' stream body r wk g)"

text \<open>The scheduler of the extension with the smallest score it accepts.\<close>

definition asr_pick :: "rat \<Rightarrow> string list \<Rightarrow> string \<Rightarrow> wstate \<Rightarrow> worker option" where
  "asr_pick minScore = PickWorker (NewScoreSchedulerWithMinScore (Some asrScore) minScore)"

text \<open>\<open>None\<close> for the body is a nil reader, whose read panics.\<close>

definition proxyHandler ::
  "(string \<Rightarrow> wstate \<Rightarrow> worker option) \<Rightarrow> (worker \<Rightarrow> nat) \<Rightarrow> string \<Rightarrow> duration \<Rightarrow> job_request \<Rightarrow> gateway
    \<Rightarrow> (writer \<times> gateway) option outcome" where
  "proxyHandler pick address path timeout r g =
     (case jq_body r of
        None \<Rightarrow> Panics
      | Some None \<Rightarrow> Done (Some (HttpError ''bad request'' 400 new_writer, g))
      | Some (Some body) \<Rightarrow>
          (case pick [] (gw_reg g) of
             None \<Rightarrow> Done (Some (HttpError ''no worker'' 503 new_writer, g))
           | Some wk \<Rightarrow> transport docling_headers address timeout (jq_method r) path False body r wk g))"

definition docling_pick :: "string list \<Rightarrow> string \<Rightarrow> wstate \<Rightarrow> worker option" where
  "docling_pick = PickWorker (NewScoreScheduler (Some AlwaysEligibleScore))"

section \<open>The model listing\<close>

text \<open>The tracker's map is \<open>ca_seen\<close>.\<close>

definition listModelsHandler :: "string list \<Rightarrow> int \<Rightarrow> catalogue \<Rightarrow> model_answer \<times> catalogue" where
  "listModelsHandler order now c =
     (let ws = snapshot_workers order c;
          (owners, seen) = note_workers now ws (\<lambda>_. [], ca_seen c);
          ids = remdups (concat (map LabelKeys ws));
          items = map (\<lambda>i. \<lparr>it_id = i, it_created = seen_at seen i, it_owned_by = join_on (CHR '','') (sort (owners i))\<rparr>) ids
      in (ModelList (sort_key it_id items), c\<lparr>ca_seen := seen\<rparr>))"

definition getModelHandler :: "string list \<Rightarrow> string \<Rightarrow> int \<Rightarrow> catalogue \<Rightarrow> model_answer \<times> catalogue" where
  "getModelHandler order i now c =
     (let owners = map NameValue (filter (\<lambda>w. HasLabel w i) (snapshot_workers order c)) in
      if owners = [] then (ModelNotFound, c)
      else
        let seen = see now i (ca_seen c) in
        (ModelItem \<lparr>it_id = i, it_created = seen_at seen i, it_owned_by = join_on (CHR '','') (sort owners)\<rparr>,
         c\<lparr>ca_seen := seen\<rparr>))"

section \<open>What a run hears\<close>

text \<open>The messages a run of the loop receives, with the results of the writes to the client.\<close>

fun heard :: "nat \<Rightarrow> duration \<Rightarrow> relay_turn list \<Rightarrow> gateway \<Rightarrow> (wire \<times> bool) list" where
  "heard h timeout [] g = []"
| "heard h timeout (t # ts) g =
     (let g = rt_before t g in
      case rt_pick t of
        Cancelled \<Rightarrow> []
      | TimerFired \<Rightarrow> if 0 < timeout then [] else heard h timeout ts g
      | Received \<Rightarrow>
          (case take_message h g of
             Panics \<Rightarrow> []
           | Blocks \<Rightarrow> heard h timeout ts g
           | Done (None, g) \<Rightarrow> []
           | Done (Some m, g) \<Rightarrow>
               (m, rt_written t) # (case m of HTTPProxyResponseEnd _ _ \<Rightarrow> [] | _ \<Rightarrow> heard h timeout ts g)))"

text \<open>The end message among them, with its error if it has one.\<close>

fun asr_ended :: "wire list \<Rightarrow> proxy_error option option" where
  "asr_ended [] = None"
| "asr_ended (m # ms) = (case m of HTTPProxyResponseEnd _ e \<Rightarrow> Some e | _ \<Rightarrow> asr_ended ms)"

lemma copy_all_frame [simp]:
  "rw_sent (copy_all hs w) = rw_sent w" "rw_body (copy_all hs w) = rw_body w"
  by (induction hs w rule: copy_all.induct) auto

lemma plain_chunk_frame:
  "rl_success (plain_chunk b d s) = rl_success s"
  "rw_body (rl_writer (plain_chunk True d s)) = rw_body (rl_writer s) @ d"
  by (simp_all add: plain_chunk_def)

lemma status_chunk:
  "status_from (rl_writer (plain_chunk True d s)) ms = status_from (rl_writer s) (HTTPProxyResponseChunk i d # ms)"
  by (auto simp: plain_chunk_def status_from_def Write_def WriteHeader_def Let_def split: option.splits)

section \<open>Taking over headers\<close>

locale header_taker =
  fixes put :: "int \<Rightarrow> header \<Rightarrow> relay_state \<Rightarrow> relay_state"
  assumes put_status: "sent_status (rl_writer (put st hs s)) =
      (case rw_sent (rl_writer s) of None \<Rightarrow> st | Some (st', _) \<Rightarrow> st')"
    and put_sent: "rw_sent (rl_writer (put st hs s)) \<noteq> None"
    and put_body: "rw_body (rl_writer (put st hs s)) = rw_body (rl_writer s)"
    and put_success: "rl_success (put st hs s) = rl_success s"
begin

lemma put_from: "status_from (rl_writer (put st hs s)) ms = status_from (rl_writer s) (HTTPProxyResponseHeaders i st hs # ms)"
  using put_status [of st hs s] put_sent [of st hs s]
  by (auto simp: status_from_def sent_status_def split: option.splits)

lemma loop_relays:
  assumes "transport_loop put p reqID h timeout ts s g = Done (Some (s', g'))"
    and "\<forall>x \<in> set (heard h timeout ts g). snd x" "asr_ended (map fst (heard h timeout ts g)) = Some e"
    and "\<not> rl_success s"
  shows "rw_body (rl_writer s') = rw_body (rl_writer s) @ concat (map (chunk_data \<circ> fst) (heard h timeout ts g)) \<and>
    sent_status (rl_writer s') = status_from (rl_writer s) (map fst (heard h timeout ts g)) \<and>
    (rl_success s' \<longleftrightarrow> e = None)"
  using assms
proof (induction ts arbitrary: s g)
  case (Cons t ts)
  let ?g = "rt_before t g"
  show ?case
  proof (cases "rt_pick t")
    case Received
    show ?thesis
    proof (cases "take_message h ?g")
      case (Done x)
      then obtain mo g1 where x: "take_message h ?g = Done (mo, g1)" by (cases x) auto
      show ?thesis
      proof (cases mo)
        case (Some m)
        note step = Received x Some
        have w: "rt_written t" using Cons.prems(2) step by (simp add: Let_def)
        show ?thesis
        proof (cases m)
          case (HTTPProxyResponseHeaders i st hs)
          with step Cons.prems Cons.IH [of "put st hs s" g1] put_body put_success
          show ?thesis by (simp add: Let_def put_from [of st hs s _ i] chunk_data_def)
        next
          case (HTTPProxyResponseChunk i d)
          with step w Cons.prems Cons.IH [of "plain_chunk True d s" g1]
          show ?thesis by (simp add: Let_def plain_chunk_frame status_chunk chunk_data_def)
        next
          case (HTTPProxyResponseEnd i e')
          with step Cons.prems show ?thesis
            by (auto simp: Let_def plain_end_def chunk_data_def status_from_def sent_status_def split: option.splits)
        qed (use step Cons.prems Cons.IH [of s g1] in \<open>simp_all add: Let_def chunk_data_def status_from_other\<close>)
      qed (use Received x Cons.prems in \<open>simp add: Let_def\<close>)
    qed (use Received Cons in \<open>simp_all add: Let_def\<close>)
  next
    case TimerFired
    with Cons show ?thesis by (cases "0 < timeout") (simp_all add: Let_def)
  qed (use Cons.prems in \<open>simp add: Let_def\<close>)
qed simp

end

interpretation asr_taker: header_taker asr_headers
  by unfold_locales (auto simp: asr_headers_def WriteHeader_def sent_status_def Let_def split: option.splits)

interpretation docling_taker: header_taker docling_headers
  by unfold_locales (auto simp: docling_headers_def WriteHeader_def sent_status_def split: option.splits)

section \<open>The whole call\<close>

lemma transport_answer:
  assumes "transport_send address meth path stream body r wk g = Done (True, g1)"
    and "transport put address timeout meth path stream body r wk g = Done (Some (w, g'))"
  shows "\<exists>s g2. transport_loop put (address wk) (jq_id r) (jq_chan r) timeout (jq_turns r) (start_relay new_writer False) g1 =
    Done (Some (s, g2)) \<and> w = rl_writer s"
  using assms
  by (auto simp: transport_def Let_def split: option.splits prod.splits)

text \<open>What a client sends in a header reaches the worker, credentials included.\<close>

lemma header_reaches_worker:
  assumes "(k, v # vs) \<in> set (jq_header r)" "k \<noteq> ''X-Request-Id''" "k \<noteq> ''Cache-Control''"
  shows "(k, v) \<in> set (worker_headers r)"
proof -
  have "(k, v # vs) \<in> set h \<Longrightarrow> (k, v) \<in> set (first_values h)" for h
    by (induction h rule: first_values.induct) (auto split: list.splits)
  with assms show ?thesis by (simp add: worker_headers_def put_key_def Let_def)
qed

text \<open>
  C33: a call of either extension that was sent and asr_ended by the worker relays the answer
  exactly: the client has the bytes of the chunks in their order and the status of the first headers,
  with an end that reports an error as without one.  So a worker that fails before it sends headers is
  answered to the client with status 200 and nothing else.
\<close>

theorem transport_relays:
  assumes "put = asr_headers \<or> put = docling_headers"
    and "transport_send address meth path stream body r wk g = Done (True, g1)"
    and "transport put address timeout meth path stream body r wk g = Done (Some (w, g'))"
    and "\<forall>x \<in> set (heard (jq_chan r) timeout (jq_turns r) g1). snd x"
    and "asr_ended (map fst (heard (jq_chan r) timeout (jq_turns r) g1)) = Some e"
  shows "rw_body w = concat (map (chunk_data \<circ> fst) (heard (jq_chan r) timeout (jq_turns r) g1)) \<and>
    sent_status w = first_status (map fst (heard (jq_chan r) timeout (jq_turns r) g1))"
proof -
  from transport_answer [OF assms(2,3)] obtain s g2 where s:
    "transport_loop put (address wk) (jq_id r) (jq_chan r) timeout (jq_turns r) (start_relay new_writer False) g1 =
      Done (Some (s, g2))" "w = rl_writer s" by blast
  have "\<not> rl_success (start_relay new_writer False)" by (simp add: start_relay_def)
  with s assms(1) asr_taker.loop_relays [OF _ assms(4,5)] docling_taker.loop_relays [OF _ assms(4,5)]
  show ?thesis by (auto simp: start_relay_def new_writer_def status_from_def)
qed

definition preload :: "nat \<Rightarrow> wire list \<Rightarrow> gateway \<Rightarrow> gateway" where
  "preload h ms g = set_reg ((gw_reg g)\<lparr>ws_chans := (ws_chans (gw_reg g))(h \<mapsto> \<lparr>gc_buf = ms, gc_cap = 16, gc_closed = False\<rparr>)\<rparr>) g"

definition failing_call :: job_request where
  "failing_call =
     \<lparr>jq_method = ''POST'', jq_body = Some (Some []), jq_header = [], jq_log = [], jq_id = ''r'', jq_chan = 7,
      jq_start = 0, jq_end = 1,
      jq_turns = [\<lparr>rt_before = preload 7 [HTTPProxyResponseEnd ''r'' (Some \<lparr>pe_code = ''x'', pe_message = ''lost''\<rparr>)],
                   rt_pick = Received, rt_now = 1, rt_written = True\<rparr>]\<rparr>"

theorem transport_relays_witness:
  "\<exists>w g'. transport docling_headers (\<lambda>_. 0) 60 ''POST'' ''/v1/convert/file'' False [] failing_call the_worker one_worker_gateway =
     Done (Some (w, g')) \<and> rw_body w = [] \<and> sent_status w = 200"
proof -
  let ?send = "transport_send (\<lambda>_. 0) ''POST'' ''/v1/convert/file'' False [] failing_call the_worker one_worker_gateway"
  let ?call = "transport docling_headers (\<lambda>_. 0) 60 ''POST'' ''/v1/convert/file'' False [] failing_call the_worker one_worker_gateway"
  note defs = transport_send_def failing_call_def one_worker_gateway_def the_worker_def offer_def send_channel_def open_job_def
        set_reg_def set_metrics_def NewCatalogue_def offer_chan_def send_chan_def IncInFlight_def AddJob_def new_chan_def update_worker_def
        Let_def preload_def take_message_def recv_chan_def
  obtain g1 where g1: "?send = Done (True, g1)"
      "heard 7 60 (jq_turns failing_call) g1 =
        [(HTTPProxyResponseEnd ''r'' (Some \<lparr>pe_code = ''x'', pe_message = ''lost''\<rparr>), True)]"
    by (simp add: defs)
  have "\<exists>w g'. ?call = Done (Some (w, g'))"
    by (simp add: transport_def defs close_job_def RemoveJob_def close_chan_def job_chan_def put_job_def)
  then obtain w g' where w: "?call = Done (Some (w, g'))" by blast
  have j: "jq_chan failing_call = 7" by (simp add: failing_call_def)
  have "rw_body w = concat (map (chunk_data \<circ> fst) (heard 7 60 (jq_turns failing_call) g1)) \<and>
      sent_status w = first_status (map fst (heard 7 60 (jq_turns failing_call) g1))"
    using transport_relays [OF disjI2 [OF refl] g1(1) w] by (simp add: j g1(2))
  with w show ?thesis by (simp add: g1(2) chunk_data_def)
qed

text \<open>
  The model listing of the transcription extension and its lookup of one model answer
  exactly like those of the chat extension over the same workers and first-seen times.
\<close>

theorem asr_models_agree:
  "listModelsHandler order now c = ListModelsHandler (AggregatedModels order) now c \<and>
   getModelHandler order i now c = GetModelHandler (AggregatedModel order) i now c"
proof -
  have ins: "map item (insort_key mi_id m ms) = insort_key it_id (item m) (map item ms)" for m ms
    by (induction ms) (auto simp: item_def)
  have "map item (sort_key mi_id ms) = sort_key it_id (map item ms)" for ms
    by (induction ms) (simp_all add: ins)
  then show ?thesis
    by (simp add: listModelsHandler_def ListModelsHandler_def AggregatedModels_def getModelHandler_def
        GetModelHandler_def AggregatedModel_def item_def Let_def comp_def split: prod.split)
qed

end
