(* ===== verification/Options.thy ===== *)
theory Options
  imports GoPrelude
begin

text \<open>
  How settings are read: the options of the extensions (\<^verbatim>\<open>core/options\<close>), the masking of secrets when
  they are shown (\<^verbatim>\<open>core/secret\<close>, \<^verbatim>\<open>sdk/base/plugin\<close>), and the helpers of \<^verbatim>\<open>core/config\<close>.
\<close>

section \<open>The options of an extension\<close>

text \<open>A nil map reads like an empty one.\<close>

type_synonym option_values = "string \<rightharpoonup> string"
type_synonym plugin_options = "string \<rightharpoonup> option_values"

definition opt_String :: "plugin_options \<Rightarrow> string \<Rightarrow> string \<Rightarrow> string \<Rightarrow> string" where
  "opt_String pluginOptions pluginID key def =
     (case pluginOptions pluginID of
        None \<Rightarrow> def
      | Some po \<Rightarrow> (case po key of None \<Rightarrow> def | Some v \<Rightarrow> if v \<noteq> [] then v else def))"

text \<open>\<open>parse\<close> is the parser of \<^verbatim>\<open>strconv\<close> for the type; \<open>None\<close> is its error.\<close>

definition opt_parsed :: "(string \<Rightarrow> 'a option) \<Rightarrow> plugin_options \<Rightarrow> string \<Rightarrow> string \<Rightarrow> 'a \<Rightarrow> 'a" where
  "opt_parsed parse pluginOptions pluginID key def =
     (let v = opt_String pluginOptions pluginID key [] in
      if v = [] then def else case parse v of Some n \<Rightarrow> n | None \<Rightarrow> def)"

definition opt_Int :: "plugin_options \<Rightarrow> string \<Rightarrow> string \<Rightarrow> int \<Rightarrow> int" where
  "opt_Int = opt_parsed Atoi"

text \<open>\<^verbatim>\<open>ParseInt\<close> in base ten and 64 bits reads what \<^verbatim>\<open>Atoi\<close> does where an \<^verbatim>\<open>int\<close> has 64 bits.\<close>

definition opt_Int64 :: "plugin_options \<Rightarrow> string \<Rightarrow> string \<Rightarrow> int \<Rightarrow> int" where
  "opt_Int64 = opt_parsed Atoi"

definition opt_Bool :: "plugin_options \<Rightarrow> string \<Rightarrow> string \<Rightarrow> bool \<Rightarrow> bool" where
  "opt_Bool = opt_parsed ParseBool"

text \<open>The parser of floating point numbers is a parameter.\<close>

definition opt_Float ::
  "(string \<Rightarrow> rat option) \<Rightarrow> plugin_options \<Rightarrow> string \<Rightarrow> string \<Rightarrow> rat \<Rightarrow> rat" where
  "opt_Float ParseFloat = opt_parsed ParseFloat"

section \<open>Descriptors\<close>

record arg_spec =
  ar_id :: string
  ar_flag :: string
  ar_env :: string
  ar_default :: string
  ar_secret :: bool

record descriptor =
  de_id :: string
  de_name :: string
  de_summary :: string
  de_args :: "arg_spec list"

definition Mask :: "string \<Rightarrow> string" where
  "Mask s =
     (let n = length s; stars = (\<lambda>k. replicate k (CHR ''*'')) in
      if n = 0 then []
      else if n \<le> 5 then stars n
      else if n \<le> 20 then
        (if n = 1 then ''*'' else take 1 s @ stars (n - 2) @ drop (n - 1) s)
      else if n \<le> 4 then stars n
      else take 3 s @ stars (n - 4) @ drop (n - 1) s)"

definition is_secret :: "descriptor \<Rightarrow> string \<Rightarrow> bool" where
  "is_secret d k \<longleftrightarrow> (\<exists>a \<in> set (de_args d). ar_secret a \<and> ar_id a = k)"

text \<open>What the root of an extension shows of its options; the map is empty when there are none.\<close>

definition masked_options :: "descriptor \<Rightarrow> option_values \<Rightarrow> option_values" where
  "masked_options d opts =
     (\<lambda>k. case opts k of
            None \<Rightarrow> None
          | Some v \<Rightarrow> Some (if is_secret d k \<and> v \<noteq> [] then Mask v else v))"

section \<open>Environment and paths\<close>

text \<open>The environment is a function; an absent variable reads as the empty string.\<close>

type_synonym environment = "string \<Rightarrow> string"

definition GetEnv :: "environment \<Rightarrow> string \<Rightarrow> string \<Rightarrow> string" where
  "GetEnv env key def = (let v = env key in if v \<noteq> [] then v else def)"

definition trim_end :: "char list \<Rightarrow> string \<Rightarrow> string" where
  "trim_end cs s = rev (dropWhile (\<lambda>c. c \<in> set cs) (rev s))"

text \<open>\<open>join\<close> is \<^verbatim>\<open>filepath.Join\<close> of the system the program runs on.\<close>

definition ResolveConfigPath ::
  "(string list \<Rightarrow> string) \<Rightarrow> string \<Rightarrow> string \<Rightarrow> string \<Rightarrow> string \<Rightarrow> string" where
  "ResolveConfigPath join goos home programData name =
     (if goos = ''darwin'' then join [home, ''Library'', ''Application Support'', ''nfrx'', name]
      else if goos = ''windows'' then
        let programData = (if programData = [] then ''C:/ProgramData'' else programData);
            programData = trim_end [CHR 0x5C, CHR ''/''] programData
        in join [programData, ''nfrx'', name]
      else join [''/etc'', ''nfrx'', name])"

definition DefaultConfigPath ::
  "(string list \<Rightarrow> string) \<Rightarrow> string \<Rightarrow> string \<Rightarrow> environment \<Rightarrow> string \<Rightarrow> string" where
  "DefaultConfigPath join goos home env name = ResolveConfigPath join goos home (env ''ProgramData'') name"

text \<open>
  The parsers of floating point seconds, of durations, and of integers in the syntax of Go (the
  \<^verbatim>\<open>flag\<close> package reads integers with base 0) are parameters; \<open>None\<close> is an error.
\<close>

record parsers =
  pr_seconds :: "string \<Rightarrow> duration option"
  pr_duration :: "string \<Rightarrow> duration option"
  pr_int :: "string \<Rightarrow> int option"

text \<open>Reading a config file is a parameter; it yields the settings with the file's on top.\<close>

datatype 'c load_result = Loaded 'c | NotExist | LoadFailed

section \<open>Lemmas\<close>

lemma length_Mask [simp]: "length (Mask s) = length s"
  by (auto simp: Mask_def Let_def)

lemma Mask_short: "length s \<le> 5 \<Longrightarrow> Mask s = replicate (length s) (CHR ''*'')"
  by (auto simp: Mask_def Let_def)

lemma Mask_agree:
  assumes "length s = length t" "take 3 s = take 3 t" "drop (length s - 1) s = drop (length t - 1) t"
  shows "Mask s = Mask t"
proof -
  have "take 1 s = take 1 t" using arg_cong [OF assms(2), of "take 1"] by simp
  with assms show ?thesis by (simp add: Mask_def Let_def)
qed

end
