(* ===== verification/CommandLine.thy ===== *)
theory CommandLine
  imports GoPrelude "HOL-Library.List_Lexorder" "HOL-Library.Char_ord"
begin

text \<open>
  Command lines: how the package \<^verbatim>\<open>flag\<close> reads them, and how the agents read them a second time to put
  the arguments back on top of a config file (\<^verbatim>\<open>captureCLIOverrides\<close> of the \<^verbatim>\<open>cmd\<close> packages).
\<close>

section \<open>The package flag\<close>

datatype flag_item = Stop | BadFlag | Item string "string option"

definition before_eq :: "string \<Rightarrow> string" where
  "before_eq name = takeWhile (\<lambda>c. c \<noteq> CHR ''='') name"

definition after_eq :: "string \<Rightarrow> string" where
  "after_eq name = drop (length (before_eq name) + 1) name"

definition flag_item :: "string \<Rightarrow> flag_item" where
  "flag_item a =
     (if length a < 2 \<or> hd a \<noteq> CHR ''-'' then Stop
      else
        let n = (if a ! 1 = CHR ''-'' then 2 else 1) in
        if n = 2 \<and> length a = 2 then Stop
        else
          let name = drop n a in
          if name = [] \<or> hd name = CHR ''-'' \<or> hd name = CHR ''='' then BadFlag
          else Item (before_eq name) (if CHR ''='' \<in> set name then Some (after_eq name) else None))"

text \<open>
  \<open>kinds\<close> tells the flags there are and which of them are boolean.  The result is the list of names and
  values in the order they are set; \<open>None\<close> ends the program.
\<close>

fun parse_flags :: "(string \<Rightarrow> bool option) \<Rightarrow> string list \<Rightarrow> (string \<times> string) list option" where
  "parse_flags kinds [] = Some []"
| "parse_flags kinds (a # as) =
     (case flag_item a of
        Stop \<Rightarrow> Some []
      | BadFlag \<Rightarrow> None
      | Item name val \<Rightarrow>
          (case kinds name of
             None \<Rightarrow> None
           | Some True \<Rightarrow>
               map_option (Cons (name, case val of Some v \<Rightarrow> v | None \<Rightarrow> ''true'')) (parse_flags kinds as)
           | Some False \<Rightarrow>
               (case val of
                  Some v \<Rightarrow> map_option (Cons (name, v)) (parse_flags kinds as)
                | None \<Rightarrow>
                    (case as of
                       [] \<Rightarrow> None
                     | v # as' \<Rightarrow> map_option (Cons (name, v)) (parse_flags kinds as')))))"

text \<open>\<open>set\<close> is the \<^verbatim>\<open>Set\<close> of the flag with that name; its error ends the program as well.\<close>

fun apply_flags :: "(string \<Rightarrow> string \<Rightarrow> 'c \<Rightarrow> 'c option) \<Rightarrow> (string \<times> string) list \<Rightarrow> 'c \<Rightarrow> 'c option" where
  "apply_flags put [] c = Some c"
| "apply_flags put ((n, v) # fs) c = (case put n v c of None \<Rightarrow> None | Some c \<Rightarrow> apply_flags put fs c)"

definition flag_Parse ::
  "(string \<Rightarrow> bool option) \<Rightarrow> (string \<Rightarrow> string \<Rightarrow> 'c \<Rightarrow> 'c option) \<Rightarrow> string list \<Rightarrow> 'c \<Rightarrow> ((string \<times> string) list \<times> 'c) option" where
  "flag_Parse kinds put args c =
     (case parse_flags kinds args of
        None \<Rightarrow> None
      | Some fs \<Rightarrow> (case apply_flags put fs c of None \<Rightarrow> None | Some c \<Rightarrow> Some (fs, c)))"

section \<open>The second reading\<close>

fun capture :: "string list \<Rightarrow> (string \<rightharpoonup> string) \<Rightarrow> (string \<rightharpoonup> string)" where
  "capture [] overrides = overrides"
| "capture (arg # args) overrides =
     (if arg = ''--'' then overrides
      else if length arg < 2 \<or> hd arg \<noteq> CHR ''-'' then capture args overrides
      else
        let name = dropWhile (\<lambda>c. c = CHR ''-'') arg in
        if name = [] then capture args overrides
        else if CHR ''='' \<in> set name then capture args (overrides(before_eq name \<mapsto> after_eq name))
        else
          case args of
            [] \<Rightarrow> capture args (overrides(name \<mapsto> ''true''))
          | v # rest \<Rightarrow>
              if v = [] \<or> hd v \<noteq> CHR ''-'' then capture rest (overrides(name \<mapsto> v))
              else capture args (overrides(name \<mapsto> ''true'')))"

definition captureCLIOverrides :: "string list \<Rightarrow> (string \<rightharpoonup> string)" where
  "captureCLIOverrides args = capture args Map.empty"

text \<open>The flags that were set are visited in the order of their names; each captured value is set again.\<close>

fun restore_loop ::
  "(string \<Rightarrow> string \<Rightarrow> 'c \<Rightarrow> 'c option) \<Rightarrow> (string \<rightharpoonup> string) \<Rightarrow> string list \<Rightarrow> 'c \<Rightarrow> 'c option" where
  "restore_loop put overrides [] c = Some c"
| "restore_loop put overrides (n # ns) c =
     (case overrides n of
        None \<Rightarrow> restore_loop put overrides ns c
      | Some v \<Rightarrow> (case put n v c of None \<Rightarrow> None | Some c \<Rightarrow> restore_loop put overrides ns c))"

definition restore_flags ::
  "(string \<Rightarrow> string \<Rightarrow> 'c \<Rightarrow> 'c option) \<Rightarrow> (string \<rightharpoonup> string) \<Rightarrow> (string \<times> string) list \<Rightarrow> 'c \<Rightarrow> 'c option" where
  "restore_flags put overrides fs c = restore_loop put overrides (sort (remdups (map fst fs))) c"

section \<open>Well-formed command lines\<close>

datatype cli_item = Joined string string | Separate string string | Bare string

fun render :: "cli_item \<Rightarrow> string list" where
  "render (Joined n v) = [''--'' @ n @ ''='' @ v]"
| "render (Separate n v) = [''--'' @ n, v]"
| "render (Bare n) = [''--'' @ n]"

fun item_value :: "cli_item \<Rightarrow> string \<times> string" where
  "item_value (Joined n v) = (n, v)"
| "item_value (Separate n v) = (n, v)"
| "item_value (Bare n) = (n, ''true'')"

definition flag_name :: "string \<Rightarrow> bool" where
  "flag_name n \<longleftrightarrow> n \<noteq> [] \<and> hd n \<noteq> CHR ''-'' \<and> CHR ''='' \<notin> set n"

fun legal :: "(string \<Rightarrow> bool option) \<Rightarrow> cli_item \<Rightarrow> bool" where
  "legal kinds (Joined n v) \<longleftrightarrow> flag_name n \<and> kinds n \<noteq> None"
| "legal kinds (Separate n v) \<longleftrightarrow> flag_name n \<and> kinds n = Some False \<and> (v = [] \<or> hd v \<noteq> CHR ''-'')"
| "legal kinds (Bare n) \<longleftrightarrow> flag_name n \<and> kinds n = Some True"

lemma before_plain [simp]: "CHR ''='' \<notin> set n \<Longrightarrow> before_eq n = n"
  unfolding before_eq_def by (induction n) auto

lemma before_joined [simp]: "CHR ''='' \<notin> set n \<Longrightarrow> before_eq (n @ CHR ''='' # v) = n"
  unfolding before_eq_def by (induction n) auto

lemma after_joined [simp]: "CHR ''='' \<notin> set n \<Longrightarrow> after_eq (n @ CHR ''='' # v) = v"
  by (simp add: after_eq_def)

lemma hd_not_eq: "flag_name n \<Longrightarrow> hd n \<noteq> CHR ''=''"
  by (cases n) (auto simp: flag_name_def)

lemma flag_item_dashes:
  assumes "flag_name n"
  shows "flag_item (CHR ''-'' # CHR ''-'' # n) = Item n None"
    "flag_item (CHR ''-'' # CHR ''-'' # n @ CHR ''='' # v) = Item n (Some v)"
  using assms hd_not_eq [OF assms] by (auto simp: flag_item_def flag_name_def)

lemma drop_dashes:
  "n \<noteq> [] \<Longrightarrow> hd n \<noteq> CHR ''-'' \<Longrightarrow> dropWhile (\<lambda>c. c = CHR ''-'') n = n"
  "n \<noteq> [] \<Longrightarrow> hd n \<noteq> CHR ''-'' \<Longrightarrow> dropWhile (\<lambda>c. c = CHR ''-'') (n @ s) = n @ s"
  by (cases n; simp)+

lemma render_dash: "\<forall>it \<in> set items. legal kinds it \<Longrightarrow>
    concat (map render items) = [] \<or> (\<exists>r rest. concat (map render items) = (CHR ''-'' # CHR ''-'' # r) # rest \<and> r \<noteq> [])"
  by (cases items; cases "hd items") (auto simp: flag_name_def)

lemma parse_render:
  "\<forall>it \<in> set items. legal kinds it \<Longrightarrow>
   parse_flags kinds (concat (map render items)) = Some (map item_value items)"
proof (induction items)
  case (Cons it items)
  then show ?case by (cases it) (auto simp: flag_item_dashes split: option.splits bool.splits)
qed simp

lemma capture_render:
  "\<forall>it \<in> set items. legal kinds it \<Longrightarrow>
   capture (concat (map render items)) acc = acc ++ map_of (rev (map item_value items))"
proof (induction items arbitrary: acc)
  case (Cons it items)
  have ne: "flag_name n \<Longrightarrow> n \<noteq> []" for n by (simp add: flag_name_def)
  show ?case
  proof (cases it)
    case (Joined n v)
    with Cons show ?thesis by (simp add: drop_dashes flag_name_def Let_def)
  next
    case (Separate n v)
    with Cons show ?thesis by (auto simp: drop_dashes flag_name_def Let_def)
  next
    case (Bare n)
    from Cons.prems have "\<forall>it \<in> set items. legal kinds it" by simp
    from render_dash [OF this]
    have "(case concat (map render items) of [] \<Rightarrow> x | v # rest \<Rightarrow> if v = [] \<or> hd v \<noteq> CHR ''-'' then f v rest else x) = x"
      for x :: "string \<rightharpoonup> string" and f by (auto simp del: concat_eq_Nil_conv split: list.split)
    with Cons Bare show ?thesis by (simp add: drop_dashes flag_name_def Let_def)
  qed
qed simp

section \<open>Both readings\<close>

text \<open>
  C36: on a command line whose separate values do not begin with a dash, and whose boolean flags
  stand alone, the second reading finds the value the package \<^verbatim>\<open>flag\<close> set last for every flag, and
  nothing else.
\<close>

theorem cli_readings_agree:
  assumes "\<forall>it \<in> set items. legal kinds it"
  shows "parse_flags kinds (concat (map render items)) = Some (map item_value items) \<and>
    captureCLIOverrides (concat (map render items)) = map_of (rev (map item_value items))"
  using parse_render [OF assms] capture_render [OF assms, of Map.empty] by (simp add: captureCLIOverrides_def)

theorem cli_readings_agree_witness:
  "captureCLIOverrides [''--port'', ''1'', ''--r'', ''--port=2''] = map_of [(''port'', ''2''), (''r'', ''true''), (''port'', ''1'')]"
proof -
  let ?items = "[Separate ''port'' ''1'', Bare ''r'', Joined ''port'' ''2'']"
  have "\<forall>it \<in> set ?items. legal (\<lambda>n. Some (n = ''r'')) it" by (simp add: flag_name_def)
  from cli_readings_agree [OF this] show ?thesis by simp
qed

text \<open>A value that begins with a dash is taken by \<^verbatim>\<open>flag\<close> but read as \<^verbatim>\<open>true\<close> the second time.\<close>

lemma dash_value:
  assumes "flag_name n" "kinds n = Some False" "flag_name v"
  shows "parse_flags kinds [''--'' @ n, CHR ''-'' # v] = Some [(n, CHR ''-'' # v)]"
    "captureCLIOverrides [''--'' @ n, CHR ''-'' # v] n = Some ''true''"
  using assms flag_item_dashes(1) [OF assms(1)]
  by (auto simp: captureCLIOverrides_def drop_dashes flag_name_def Let_def)

end
