(* ===== verification/ServerConfig.thy ===== *)
theory ServerConfig
  imports Options CommandLine
begin

text \<open>
  The settings of the server: \<^verbatim>\<open>server/internal/config\<close> and the part of \<^verbatim>\<open>cmd/nfrx/main.go\<close> that puts
  defaults, file, environment and arguments on top of each other.
\<close>

section \<open>The settings\<close>

text \<open>\<open>sc_plugins\<close> is \<open>None\<close> for a nil slice; for the other lists nil and empty behave alike.\<close>

record server_config =
  sc_port :: int
  sc_metrics :: string
  sc_api_key :: string
  sc_client_key :: string
  sc_api_roles :: "string list"
  sc_client_roles :: "string list"
  sc_timeout :: duration
  sc_drain :: duration
  sc_sse_delay :: duration
  sc_client_ttl :: duration
  sc_origins :: "string list"
  sc_file :: string
  sc_log :: string
  sc_redis :: string
  sc_plugins :: "string list option"
  sc_options :: plugin_options

definition no_config :: server_config where
  "no_config =
     \<lparr>sc_port = 0, sc_metrics = [], sc_api_key = [], sc_client_key = [], sc_api_roles = [], sc_client_roles = [],
      sc_timeout = 0, sc_drain = 0, sc_sse_delay = 0, sc_client_ttl = 0, sc_origins = [], sc_file = [], sc_log = [],
      sc_redis = [], sc_plugins = None, sc_options = Map.empty\<rparr>"

abbreviation second :: duration where
  "second \<equiv> 1000000000"

definition port_address :: "int \<Rightarrow> string" where
  "port_address port = CHR '':'' # Itoa port"

definition SetDefaults :: "string \<Rightarrow> server_config \<Rightarrow> server_config" where
  "SetDefaults default_file c =
     (let c = (if sc_log c = [] then c\<lparr>sc_log := ''info''\<rparr> else c);
          c = (if sc_port c = 0 then c\<lparr>sc_port := 8080\<rparr> else c);
          c = (if sc_metrics c = [] then c\<lparr>sc_metrics := port_address (sc_port c)\<rparr> else c);
          c = (if sc_timeout c = 0 then c\<lparr>sc_timeout := 120 * second\<rparr> else c);
          c = (if sc_drain c = 0 then c\<lparr>sc_drain := 300 * second\<rparr> else c);
          c = (if sc_sse_delay c = 0 then c\<lparr>sc_sse_delay := 5 * second\<rparr> else c);
          c = (if sc_client_ttl c = 0 then c\<lparr>sc_client_ttl := 30 * second\<rparr> else c);
          c = (if sc_plugins c = None then c\<lparr>sc_plugins := Some [''*'']\<rparr> else c)
      in if sc_file c = [] then c\<lparr>sc_file := default_file\<rparr> else c)"

definition splitComma :: "string \<Rightarrow> string list" where
  "splitComma v = (if v = [] then [] else map TrimSpace (split_on (CHR '','') v))"

section \<open>The environment\<close>

definition env_set :: "environment \<Rightarrow> string \<Rightarrow> (string \<Rightarrow> 'c \<Rightarrow> 'c) \<Rightarrow> 'c \<Rightarrow> 'c" where
  "env_set env k f c = (let v = GetEnv env k [] in if v \<noteq> [] then f v c else c)"

definition env_parse :: "environment \<Rightarrow> string \<Rightarrow> (string \<Rightarrow> 'a option) \<Rightarrow> ('a \<Rightarrow> 'c \<Rightarrow> 'c) \<Rightarrow> 'c \<Rightarrow> 'c" where
  "env_parse env k p f = env_set env k (\<lambda>v c. case p v of Some x \<Rightarrow> f x c | None \<Rightarrow> c)"

definition metrics_env :: "environment \<Rightarrow> server_config \<Rightarrow> server_config" where
  "metrics_env env c =
     (let v = GetEnv env ''METRICS_PORT'' [] in
      if v \<noteq> [] then
        if Contains v '':'' then c\<lparr>sc_metrics := v\<rparr> else c\<lparr>sc_metrics := CHR '':'' # v\<rparr>
      else if sc_metrics c = [] then c\<lparr>sc_metrics := port_address (sc_port c)\<rparr>
      else c)"

definition ApplyEnv :: "parsers \<Rightarrow> environment \<Rightarrow> server_config \<Rightarrow> server_config" where
  "ApplyEnv ps env c =
     (let c = env_set env ''CONFIG_FILE'' (\<lambda>v c. c\<lparr>sc_file := v\<rparr>) c;
          c = env_set env ''LOG_LEVEL'' (\<lambda>v c. c\<lparr>sc_log := v\<rparr>) c;
          c = env_parse env ''PORT'' Atoi (\<lambda>n c. c\<lparr>sc_port := n\<rparr>) c;
          c = metrics_env env c;
          c = env_set env ''API_KEY'' (\<lambda>v c. c\<lparr>sc_api_key := v\<rparr>) c;
          c = env_set env ''CLIENT_KEY'' (\<lambda>v c. c\<lparr>sc_client_key := v\<rparr>) c;
          c = env_set env ''API_HTTP_ROLES'' (\<lambda>v c. c\<lparr>sc_api_roles := splitComma v\<rparr>) c;
          c = env_set env ''CLIENT_HTTP_ROLES'' (\<lambda>v c. c\<lparr>sc_client_roles := splitComma v\<rparr>) c;
          c = env_set env ''REDIS_ADDR'' (\<lambda>v c. c\<lparr>sc_redis := v\<rparr>) c;
          c = env_parse env ''REQUEST_TIMEOUT'' (pr_seconds ps) (\<lambda>d c. c\<lparr>sc_timeout := d\<rparr>) c;
          c = env_parse env ''JOBS_SSE_CLOSE_DELAY'' (pr_duration ps) (\<lambda>d c. c\<lparr>sc_sse_delay := d\<rparr>) c;
          c = env_parse env ''JOBS_CLIENT_TTL'' (pr_duration ps) (\<lambda>d c. c\<lparr>sc_client_ttl := d\<rparr>) c;
          c = env_parse env ''DRAIN_TIMEOUT'' (pr_duration ps) (\<lambda>d c. c\<lparr>sc_drain := d\<rparr>) c;
          c = env_set env ''ALLOWED_ORIGINS'' (\<lambda>v c. c\<lparr>sc_origins := splitComma v\<rparr>) c
      in env_set env ''PLUGINS'' (\<lambda>v c. c\<lparr>sc_plugins := Some (splitComma v)\<rparr>) c)"

section \<open>The options of the extensions\<close>

definition put_option :: "string \<Rightarrow> string \<Rightarrow> string \<Rightarrow> plugin_options \<Rightarrow> plugin_options" where
  "put_option pluginID key val po =
     po(pluginID \<mapsto> (case po pluginID of None \<Rightarrow> Map.empty | Some m \<Rightarrow> m)(key \<mapsto> val))"

definition SetPluginOption :: "string \<Rightarrow> string \<Rightarrow> string \<Rightarrow> server_config \<Rightarrow> server_config" where
  "SetPluginOption pluginID key val c = c\<lparr>sc_options := put_option pluginID key val (sc_options c)\<rparr>"

text \<open>The descriptors in the order of the \<^verbatim>\<open>range\<close> loop, with the id each is registered under.\<close>

fun env_args :: "environment \<Rightarrow> string \<Rightarrow> arg_spec list \<Rightarrow> plugin_options \<Rightarrow> plugin_options" where
  "env_args env i [] po = po"
| "env_args env i (a # as) po =
     env_args env i as
       (if ar_env a = [] then po
        else let v = env (ar_env a) in if v \<noteq> [] then put_option i (ar_id a) v po else po)"

fun env_extensions :: "environment \<Rightarrow> (string \<times> descriptor) list \<Rightarrow> plugin_options \<Rightarrow> plugin_options" where
  "env_extensions env [] po = po"
| "env_extensions env ((i, d) # ds) po = env_extensions env ds (env_args env i (de_args d) po)"

definition ApplyEnvExtensions :: "environment \<Rightarrow> (string \<times> descriptor) list \<Rightarrow> server_config \<Rightarrow> server_config" where
  "ApplyEnvExtensions env descs c = c\<lparr>sc_options := env_extensions env descs (sc_options c)\<rparr>"

section \<open>The arguments\<close>

definition with_seconds :: "parsers \<Rightarrow> string \<Rightarrow> (duration \<Rightarrow> server_config) \<Rightarrow> server_config option" where
  "with_seconds ps v f = map_option f (pr_seconds ps v)"

definition with_duration :: "parsers \<Rightarrow> string \<Rightarrow> (duration \<Rightarrow> server_config) \<Rightarrow> server_config option" where
  "with_duration ps v f = map_option f (pr_duration ps v)"

definition core_flags :: "string list" where
  "core_flags =
     [''config'', ''log-level'', ''port'', ''metrics-port'', ''api-key'', ''client-key'', ''api-http-roles'',
      ''client-http-roles'', ''redis-addr'', ''plugins'', ''request-timeout'', ''jobs-sse-close-delay'',
      ''jobs-client-ttl'', ''drain-timeout'', ''allowed-origins'']"

text \<open>\<^verbatim>\<open>BindFlagsFromCurrent\<close>: what each flag sets; \<open>None\<close> is a value it does not accept.\<close>

definition core_flag :: "parsers \<Rightarrow> string \<Rightarrow> string \<Rightarrow> server_config \<Rightarrow> server_config option" where
  "core_flag ps n v c =
     (if n = ''config'' then Some (c\<lparr>sc_file := v\<rparr>)
      else if n = ''log-level'' then Some (c\<lparr>sc_log := v\<rparr>)
      else if n = ''port'' then map_option (\<lambda>p. c\<lparr>sc_port := p\<rparr>) (pr_int ps v)
      else if n = ''metrics-port'' then Some (c\<lparr>sc_metrics := v\<rparr>)
      else if n = ''api-key'' then Some (c\<lparr>sc_api_key := v\<rparr>)
      else if n = ''client-key'' then Some (c\<lparr>sc_client_key := v\<rparr>)
      else if n = ''api-http-roles'' then Some (c\<lparr>sc_api_roles := splitComma v\<rparr>)
      else if n = ''client-http-roles'' then Some (c\<lparr>sc_client_roles := splitComma v\<rparr>)
      else if n = ''redis-addr'' then Some (c\<lparr>sc_redis := v\<rparr>)
      else if n = ''plugins'' then Some (c\<lparr>sc_plugins := (if v = [] then None else Some (splitComma v))\<rparr>)
      else if n = ''request-timeout'' then with_seconds ps v (\<lambda>d. c\<lparr>sc_timeout := d\<rparr>)
      else if n = ''jobs-sse-close-delay'' then with_duration ps v (\<lambda>d. c\<lparr>sc_sse_delay := d\<rparr>)
      else if n = ''jobs-client-ttl'' then with_duration ps v (\<lambda>d. c\<lparr>sc_client_ttl := d\<rparr>)
      else if n = ''drain-timeout'' then with_duration ps v (\<lambda>d. c\<lparr>sc_drain := d\<rparr>)
      else if n = ''allowed-origins'' then Some (c\<lparr>sc_origins := splitComma v\<rparr>)
      else None)"

text \<open>The flag of an option of an extension, by its name without the dashes.\<close>

definition arg_flag :: "arg_spec \<Rightarrow> string" where
  "arg_flag a = TrimPrefix (ar_flag a) ''--''"

fun find_arg :: "string \<Rightarrow> arg_spec list \<Rightarrow> arg_spec option" where
  "find_arg n [] = None"
| "find_arg n (a # as) = (if ar_flag a \<noteq> [] \<and> arg_flag a = n then Some a else find_arg n as)"

fun ext_flag :: "(string \<times> descriptor) list \<Rightarrow> string \<Rightarrow> (string \<times> string) option" where
  "ext_flag [] n = None"
| "ext_flag ((i, d) # ds) n =
     (case find_arg n (de_args d) of Some a \<Rightarrow> Some (i, ar_id a) | None \<Rightarrow> ext_flag ds n)"

definition server_kinds :: "(string \<times> descriptor) list \<Rightarrow> string \<Rightarrow> bool option" where
  "server_kinds descs n =
     (if n \<in> set [''version'', ''help-plugins''] then Some True
      else if n \<in> set core_flags \<or> ext_flag descs n \<noteq> None then Some False
      else None)"

definition server_flag ::
  "parsers \<Rightarrow> (string \<times> descriptor) list \<Rightarrow> string \<Rightarrow> string \<Rightarrow> server_config \<Rightarrow> server_config option" where
  "server_flag ps descs n v c =
     (if n \<in> set [''version'', ''help-plugins''] then (case ParseBool v of None \<Rightarrow> None | Some _ \<Rightarrow> Some c)
      else if n \<in> set core_flags then core_flag ps n v c
      else case ext_flag descs n of
             Some (i, k) \<Rightarrow> Some (SetPluginOption i k v c)
           | None \<Rightarrow> None)"

section \<open>The start of the program\<close>

text \<open>The config file named by the arguments is looked for before they are parsed.\<close>

fun scan_config :: "string list \<Rightarrow> string option" where
  "scan_config [] = None"
| "scan_config (a # as) =
     (if a = ''--config'' \<and> as \<noteq> [] then Some (hd as)
      else if HasPrefix a ''--config='' then Some (TrimPrefix a ''--config='')
      else scan_config as)"

definition before_file :: "parsers \<Rightarrow> string \<Rightarrow> environment \<Rightarrow> string list \<Rightarrow> server_config" where
  "before_file ps default_file env args =
     (let c = ApplyEnv ps env (SetDefaults default_file no_config)
      in case scan_config args of Some p \<Rightarrow> c\<lparr>sc_file := p\<rparr> | None \<Rightarrow> c)"

definition after_file ::
  "parsers \<Rightarrow> (string \<Rightarrow> server_config \<Rightarrow> server_config load_result) \<Rightarrow> string \<Rightarrow> environment \<Rightarrow> string list \<Rightarrow> server_config option" where
  "after_file ps load default_file env args =
     (let c = before_file ps default_file env args in
      if sc_file c \<noteq> [] then
        (case load (sc_file c) c of Loaded c \<Rightarrow> Some c | NotExist \<Rightarrow> Some c | LoadFailed \<Rightarrow> None)
      else Some c)"

definition asks :: "string \<Rightarrow> (string \<times> string) list \<Rightarrow> bool" where
  "asks n fs \<longleftrightarrow> (case map_of (rev fs) n of None \<Rightarrow> False | Some v \<Rightarrow> ParseBool v = Some True)"

text \<open>\<open>None\<close> is a start that ends before the server is built.\<close>

definition resolve ::
  "parsers \<Rightarrow> (string \<Rightarrow> server_config \<Rightarrow> server_config load_result) \<Rightarrow> string \<Rightarrow> environment \<Rightarrow> (string \<times> descriptor) list
    \<Rightarrow> string list \<Rightarrow> server_config option" where
  "resolve ps load default_file env descs args =
     (case after_file ps load default_file env args of
        None \<Rightarrow> None
      | Some c \<Rightarrow>
          let c = ApplyEnvExtensions env descs (ApplyEnv ps env c) in
          (case flag_Parse (server_kinds descs) (server_flag ps descs) args c of
             None \<Rightarrow> None
           | Some (fs, c) \<Rightarrow> if asks ''version'' fs \<or> asks ''help-plugins'' fs then None else Some c))"

section \<open>What the extensions get\<close>

fun default_args :: "arg_spec list \<Rightarrow> option_values \<Rightarrow> option_values" where
  "default_args [] po = po"
| "default_args (a # as) po =
     default_args as
       (if ar_default a \<noteq> [] \<and> (po (ar_id a) = None \<or> po (ar_id a) = Some []) then po(ar_id a \<mapsto> ar_default a)
        else po)"

fun with_defaults :: "(string \<Rightarrow> descriptor option) \<Rightarrow> string list \<Rightarrow> plugin_options \<Rightarrow> plugin_options" where
  "with_defaults desc [] po = po"
| "with_defaults desc (i # is) po =
     with_defaults desc is
       (case desc i of
          None \<Rightarrow> po
        | Some d \<Rightarrow> po(i \<mapsto> default_args (de_args d) (case po i of None \<Rightarrow> Map.empty | Some m \<Rightarrow> m)))"

definition enabled_ids :: "string list \<Rightarrow> server_config \<Rightarrow> string list" where
  "enabled_ids registered c =
     (let ids = (case sc_plugins c of None \<Rightarrow> [] | Some is \<Rightarrow> is)
      in if ids = [''*''] then sort registered else ids)"

text \<open>Metrics are served by a server of their own unless its address is the port of the server.\<close>

definition own_metrics_server :: "server_config \<Rightarrow> bool" where
  "own_metrics_server c \<longleftrightarrow> sc_metrics c \<noteq> port_address (sc_port c)"

end
