(* ===== verification/Descriptors.thy ===== *)
theory Descriptors
  imports Options
begin

text \<open>
  The descriptors of the built-in extensions (\<^verbatim>\<open>modules/*/ext/descriptor.go\<close>, \<^verbatim>\<open>sdk/base/worker/options.go\<close>)
  and the registry they are entered in (\<^verbatim>\<open>server/internal/plugin/registry.go\<close>).  Texts shown to people
  and the type hints of the arguments are left out.
\<close>

definition upper_char :: "char \<Rightarrow> char" where
  "upper_char c = (if 97 \<le> byte c \<and> byte c \<le> 122 then char_of (byte c - 32) else c)"

text \<open>\<^verbatim>\<open>strings.ToUpper\<close> on ASCII text, which the ids of extensions are.\<close>

definition ToUpper :: "string \<Rightarrow> string" where
  "ToUpper s = map upper_char s"

definition arg :: "string \<Rightarrow> string \<Rightarrow> string \<Rightarrow> string \<Rightarrow> arg_spec" where
  "arg i flag var def = \<lparr>ar_id = i, ar_flag = flag, ar_env = var, ar_default = def, ar_secret = False\<rparr>"

definition ArgSpecs :: "string \<Rightarrow> arg_spec list" where
  "ArgSpecs pluginID =
     [arg ''min_score'' (''--'' @ pluginID @ ''-min-score'') (ToUpper pluginID @ ''_MIN_SCORE'') ''0.01'']"

definition llm_Descriptor :: descriptor where
  "llm_Descriptor =
     \<lparr>de_id = ''llm'', de_name = ''LLM Gateway'', de_summary = ''OpenAI-compatible API over an agent pool'',
      de_args =
        [arg ''max_parallel_embeddings'' ''--llm-max-parallel-embeddings'' ''LLM_MAX_PARALLEL_EMBEDDINGS'' ''8'',
         arg ''queue_size'' ''--llm-queue-size'' ''LLM_QUEUE_SIZE'' ''100'',
         arg ''queue_update_seconds'' ''--llm-queue-update-seconds'' ''LLM_QUEUE_UPDATE_SECONDS'' ''10'']
        @ ArgSpecs ''llm''\<rparr>"

definition mcp_Descriptor :: descriptor where
  "mcp_Descriptor =
     \<lparr>de_id = ''mcp'', de_name = ''MCP Relay'', de_summary = ''Relay for Model Context Protocol providers'',
      de_args =
        [arg ''max_req_bytes'' ''--mcp-max-req-bytes'' ''BROKER_MAX_REQ_BYTES'' ''10485760'',
         arg ''max_resp_bytes'' ''--mcp-max-resp-bytes'' ''BROKER_MAX_RESP_BYTES'' ''10485760'',
         arg ''ws_heartbeat_ms'' ''--mcp-ws-heartbeat-ms'' ''BROKER_WS_HEARTBEAT_MS'' ''15000'',
         arg ''ws_dead_after_ms'' ''--mcp-ws-dead-after-ms'' ''BROKER_WS_DEAD_AFTER_MS'' ''45000'',
         arg ''max_concurrency_per_client'' ''--mcp-max-concurrency-per-client'' ''BROKER_MAX_CONCURRENCY_PER_CLIENT'' ''16'']\<rparr>"

definition asr_Descriptor :: descriptor where
  "asr_Descriptor =
     \<lparr>de_id = ''asr'', de_name = ''ASR'', de_summary = ''Audio transcription (worker-style)'', de_args = []\<rparr>"

definition docling_Descriptor :: descriptor where
  "docling_Descriptor =
     \<lparr>de_id = ''docling'', de_name = ''Docling'', de_summary = ''Document conversion (worker-style)'', de_args = []\<rparr>"

section \<open>The registry\<close>

text \<open>A factory is whatever builds an extension; the two maps as lists in the order of registration.\<close>

record 'f plugins =
  pl_factories :: "(string \<times> 'f) list"
  pl_descriptors :: "(string \<times> descriptor) list"

definition put_entry :: "string \<Rightarrow> 'a \<Rightarrow> (string \<times> 'a) list \<Rightarrow> (string \<times> 'a) list" where
  "put_entry i x es = filter (\<lambda>(k, _). k \<noteq> i) es @ [(i, x)]"

definition Register :: "string \<Rightarrow> 'f \<Rightarrow> descriptor \<Rightarrow> 'f plugins \<Rightarrow> 'f plugins" where
  "Register i f d r =
     (let r = r\<lparr>pl_factories := put_entry i f (pl_factories r)\<rparr>;
          d = (if de_id d = [] then d\<lparr>de_id := i\<rparr> else d)
      in r\<lparr>pl_descriptors := put_entry i d (pl_descriptors r)\<rparr>)"

definition plugin_Get :: "string \<Rightarrow> 'f plugins \<Rightarrow> 'f option" where
  "plugin_Get i r = map_of (pl_factories r) i"

definition IDs :: "'f plugins \<Rightarrow> string list" where
  "IDs r = map fst (pl_factories r)"

definition plugin_Descriptor :: "string \<Rightarrow> 'f plugins \<Rightarrow> descriptor option" where
  "plugin_Descriptor i r = map_of (pl_descriptors r) i"

definition Descriptors :: "'f plugins \<Rightarrow> (string \<times> descriptor) list" where
  "Descriptors r = pl_descriptors r"

text \<open>The built-in extensions; the argument gives the constructor of each.\<close>

definition builtin :: "(string \<Rightarrow> 'f) \<Rightarrow> 'f plugins" where
  "builtin new =
     Register ''asr'' (new ''asr'') asr_Descriptor
       (Register ''docling'' (new ''docling'') docling_Descriptor
         (Register ''mcp'' (new ''mcp'') mcp_Descriptor
           (Register ''llm'' (new ''llm'') llm_Descriptor \<lparr>pl_factories = [], pl_descriptors = []\<rparr>)))"

section \<open>Lemmas\<close>

lemma map_of_put_entry: "map_of (put_entry i x es) k = (if k = i then Some x else map_of es k)"
  by (induction es) (auto simp: put_entry_def)

lemma builtin_descriptors:
  "Descriptors (builtin new) =
     [(''llm'', llm_Descriptor), (''mcp'', mcp_Descriptor), (''docling'', docling_Descriptor), (''asr'', asr_Descriptor)]"
  by (simp add: builtin_def Register_def Descriptors_def put_entry_def Let_def llm_Descriptor_def mcp_Descriptor_def
      docling_Descriptor_def asr_Descriptor_def)

lemma builtin_descriptor: "plugin_Descriptor i (builtin new) = map_of (Descriptors (builtin new)) i"
  by (simp add: plugin_Descriptor_def Descriptors_def)

lemma upper_llm: "ToUpper ''llm'' = ''LLM''"
  by code_simp

end
