(* ===== verification/ServerSettings.thy ===== *)
theory ServerSettings
  imports ServerConfig Descriptors
begin

text \<open>
  What the layers of settings add up to: arguments over environment over file over defaults, for the
  settings of the server and for the options of the extensions, and the one setting that is not.
\<close>

section \<open>Layers\<close>

definition layered :: "string option \<Rightarrow> string \<Rightarrow> string \<Rightarrow> string" where
  "layered flag env below = (case flag of Some v \<Rightarrow> v | None \<Rightarrow> if env \<noteq> [] then env else below)"

definition last_value :: "string \<Rightarrow> (string \<times> string) list \<Rightarrow> string option" where
  "last_value n fs = map_of (rev fs) n"

lemma apply_flags_field:
  assumes "\<And>n v c c'. put n v c = Some c' \<Longrightarrow> get c' = (if n = k then h v else get c)"
    and "apply_flags put fs c = Some c'"
  shows "get c' = (case last_value k fs of Some v \<Rightarrow> h v | None \<Rightarrow> get c)"
  using assms(2)
proof (induction fs arbitrary: c)
  case (Cons f fs)
  obtain n v where f: "f = (n, v)" by (cases f) auto
  with Cons.prems obtain c1 where c1: "put n v c = Some c1" "apply_flags put fs c1 = Some c'"
    by (auto split: option.splits)
  from Cons.IH [OF c1(2)] assms(1) [OF c1(1)] show ?case
    by (auto simp: f last_value_def map_add_def split: option.splits)
qed (simp add: last_value_def)

lemma apply_flags_keeps:
  assumes "\<And>n v c c'. put n v c = Some c' \<Longrightarrow> n \<in> fst ` set fs \<Longrightarrow> get c' = get c"
    and "apply_flags put fs c = Some c'"
  shows "get c' = get c"
  using assms
proof (induction fs arbitrary: c)
  case (Cons f fs)
  obtain n v where f: "f = (n, v)" by (cases f) auto
  with Cons.prems(2) obtain c1 where c1: "put n v c = Some c1" "apply_flags put fs c1 = Some c'"
    by (auto split: option.splits)
  have "get c' = get c1" using Cons.IH [OF _ c1(2)] Cons.prems(1) by simp
  with Cons.prems(1) [OF c1(1)] f show ?case by simp
qed simp

lemma env_set_frame: "(\<And>v c. g (f v c) = g c) \<Longrightarrow> g (env_set env k f c) = g c"
  by (simp add: env_set_def Let_def)

lemma env_parse_frame: "(\<And>v c. g (f v c) = g c) \<Longrightarrow> g (env_parse env k p f c) = g c"
  by (simp add: env_parse_def env_set_def Let_def split: option.split)

lemma env_set_get:
  "(\<And>v c. g (f v c) = v) \<Longrightarrow> g (env_set env k f c) = (if env k \<noteq> [] then env k else g c)"
  by (simp add: env_set_def GetEnv_def Let_def)

locale string_setting =
  fixes get :: "server_config \<Rightarrow> string"
    and flag var :: string
  assumes of_env: "get (ApplyEnv ps env c) = (if env var \<noteq> [] then env var else get c)"
    and of_flag: "server_flag ps descs n v c = Some c' \<Longrightarrow> get c' = (if n = flag then v else get c)"
    and of_options: "get (c\<lparr>sc_options := po\<rparr>) = get c"
begin

lemma resolved:
  assumes "after_file ps load default_file env args = Some f" "parse_flags (server_kinds descs) args = Some fs"
    and "resolve ps load default_file env descs args = Some c"
  shows "get c = layered (last_value flag fs) (env var) (get f)"
proof -
  let ?c = "ApplyEnvExtensions env descs (ApplyEnv ps env f)"
  from assms have "apply_flags (server_flag ps descs) fs ?c = Some c"
    by (auto simp: resolve_def flag_Parse_def Let_def split: option.splits if_splits)
  then have "get c = (case last_value flag fs of Some v \<Rightarrow> v | None \<Rightarrow> get ?c)"
    by (intro apply_flags_field [where h = "\<lambda>v. v", OF of_flag])
  then show ?thesis by (auto simp: layered_def ApplyEnvExtensions_def of_options of_env split: option.split)
qed

end

lemmas server_flag_defs = server_flag_def core_flag_def core_flags_def with_seconds_def with_duration_def SetPluginOption_def

lemma metrics_env_frame:
  "sc_log (metrics_env env c) = sc_log c" "sc_api_key (metrics_env env c) = sc_api_key c"
  "sc_client_key (metrics_env env c) = sc_client_key c" "sc_redis (metrics_env env c) = sc_redis c"
  "sc_port (metrics_env env c) = sc_port c" "sc_options (metrics_env env c) = sc_options c"
  by (simp_all add: metrics_env_def Let_def)

interpretation log_level: string_setting sc_log "''log-level''" "''LOG_LEVEL''"
  by unfold_locales
    (auto simp: ApplyEnv_def Let_def env_set_frame [of sc_log] env_parse_frame [of sc_log] env_set_get [of sc_log]
      metrics_env_frame server_flag_defs split: if_splits option.splits prod.splits)

interpretation api_key: string_setting sc_api_key "''api-key''" "''API_KEY''"
  by unfold_locales
    (auto simp: ApplyEnv_def Let_def env_set_frame [of sc_api_key] env_parse_frame [of sc_api_key] env_set_get [of sc_api_key]
      metrics_env_frame server_flag_defs split: if_splits option.splits prod.splits)

interpretation client_key: string_setting sc_client_key "''client-key''" "''CLIENT_KEY''"
  by unfold_locales
    (auto simp: ApplyEnv_def Let_def env_set_frame [of sc_client_key] env_parse_frame [of sc_client_key]
      env_set_get [of sc_client_key] metrics_env_frame server_flag_defs split: if_splits option.splits prod.splits)

interpretation redis_addr: string_setting sc_redis "''redis-addr''" "''REDIS_ADDR''"
  by unfold_locales
    (auto simp: ApplyEnv_def Let_def env_set_frame [of sc_redis] env_parse_frame [of sc_redis] env_set_get [of sc_redis]
      metrics_env_frame server_flag_defs split: if_splits option.splits prod.splits)


definition sample_parsers :: parsers where
  "sample_parsers = \<lparr>pr_seconds = \<lambda>_. None, pr_duration = \<lambda>_. None, pr_int = Atoi\<rparr>"

definition key_env :: environment where
  "key_env k = (if k = ''API_KEY'' then ''b'' else if k = ''CLIENT_KEY'' then ''c'' else [])"

lemma port_address_8080: "port_address 8080 = '':8080''"
  by (simp add: port_address_def Itoa_def decimal.simps char_of_def bit_Suc_0_iff)


section \<open>The address of the metrics\<close>

lemma apply_metrics:
  assumes "server_flag ps descs n v c = Some c'" "n \<noteq> ''metrics-port''"
  shows "sc_metrics c' = sc_metrics c"
  using assms by (auto simp: server_flag_defs split: if_splits option.splits prod.splits)

lemma ApplyEnv_metrics:
  assumes "env ''METRICS_PORT'' = []" "sc_metrics c \<noteq> []"
  shows "sc_metrics (ApplyEnv ps env c) = sc_metrics c"
proof -
  have "sc_metrics (metrics_env env d) = sc_metrics d" if "sc_metrics d \<noteq> []" for d
    using that assms by (simp add: metrics_env_def GetEnv_def Let_def)
  with assms show ?thesis
    by (simp add: ApplyEnv_def Let_def env_set_frame [of sc_metrics] env_parse_frame [of sc_metrics])
qed

lemma env_parse_get:
  "(\<And>x c. g (f x c) = x) \<Longrightarrow> g (env_parse env k p f c) =
     (if env k = [] then g c else case p (env k) of Some x \<Rightarrow> x | None \<Rightarrow> g c)"
  by (simp add: env_parse_def env_set_def GetEnv_def Let_def split: option.split)

lemma ApplyEnv_port:
  "sc_port (ApplyEnv ps env c) =
     (if env ''PORT'' = [] then sc_port c else case Atoi (env ''PORT'') of Some n \<Rightarrow> n | None \<Rightarrow> sc_port c)"
  by (simp add: ApplyEnv_def Let_def env_set_frame [of sc_port] env_parse_frame [of sc_port] env_parse_get [of sc_port]
      metrics_env_frame split: option.split)

text \<open>
  Unless the environment, the file or an argument sets the address of the metrics, it is the
  one of port 8080, whatever port the server is started on; on any other port a second server listens
  on 8080 for the metrics.
\<close>

theorem metrics_stay_on_8080:
  assumes "env ''METRICS_PORT'' = []" "last_value ''metrics-port'' fs = None"
    and "after_file ps load default_file env args = Some f"
    and "sc_metrics f = sc_metrics (before_file ps default_file env args)"
    and "parse_flags (server_kinds descs) args = Some fs" "resolve ps load default_file env descs args = Some c"
  shows "sc_metrics c = '':8080'' \<and> (own_metrics_server c \<longleftrightarrow> sc_port c \<noteq> 8080)"
proof -
  have d: "sc_metrics (SetDefaults default_file no_config) = '':8080''"
    by (simp add: SetDefaults_def no_config_def port_address_8080 Let_def)
  then have f: "sc_metrics f = '':8080''"
    using ApplyEnv_metrics [of env "SetDefaults default_file no_config" ps, OF assms(1)] assms(4)
    by (simp add: before_file_def Let_def split: option.splits)
  let ?c = "ApplyEnvExtensions env descs (ApplyEnv ps env f)"
  from assms have run: "apply_flags (server_flag ps descs) fs ?c = Some c"
    by (auto simp: resolve_def flag_Parse_def Let_def split: option.splits if_splits)
  have "''metrics-port'' \<notin> fst ` set fs"
    using assms(2) by (simp add: last_value_def map_of_eq_None_iff)
  then have "sc_metrics c = sc_metrics ?c"
    by (intro apply_flags_keeps [OF _ run]) (metis apply_metrics)
  then have c: "sc_metrics c = '':8080''"
    using ApplyEnv_metrics [of env f ps, OF assms(1)] f by (simp add: ApplyEnvExtensions_def)
  moreover have "'':8080'' = port_address p \<longleftrightarrow> p = 8080" for p
    unfolding port_address_8080 [symmetric] by (auto simp: port_address_def Itoa_inj)
  ultimately show ?thesis by (simp add: own_metrics_server_def)
qed

definition port_env :: environment where
  "port_env k = (if k = ''PORT'' then ''9090'' else [])"

theorem metrics_stay_on_8080_witness:
  "\<exists>c. resolve sample_parsers (\<lambda>_ _. NotExist) ''f'' port_env [] [] = Some c \<and>
    sc_port c = 9090 \<and> sc_metrics c = '':8080'' \<and> own_metrics_server c"
proof -
  let ?f = "before_file sample_parsers ''f'' port_env []"
  let ?c = "ApplyEnvExtensions port_env [] (ApplyEnv sample_parsers port_env ?f)"
  have f: "after_file sample_parsers (\<lambda>_ _. NotExist) ''f'' port_env [] = Some ?f"
    by (simp add: after_file_def Let_def)
  have c: "resolve sample_parsers (\<lambda>_ _. NotExist) ''f'' port_env [] [] = Some ?c"
    by (simp add: resolve_def f flag_Parse_def asks_def Let_def)
  have p: "sc_port ?c = 9090"
    by (simp add: ApplyEnvExtensions_def ApplyEnv_port port_env_def Atoi_def byte_def)
  have "port_env ''METRICS_PORT'' = []" "last_value ''metrics-port'' [] = None" "parse_flags (server_kinds []) [] = Some []"
    by (simp_all add: last_value_def port_env_def)
  from metrics_stay_on_8080 [OF this(1,2) f refl this(3) c] c p show ?thesis by auto
qed

section \<open>The options of the extensions\<close>

definition option_at :: "string \<Rightarrow> string \<Rightarrow> plugin_options \<Rightarrow> string option" where
  "option_at i k po = (case po i of None \<Rightarrow> None | Some m \<Rightarrow> m k)"

lemma option_at_put: "option_at i k (put_option i' k' v po) = (if i = i' \<and> k = k' then Some v else option_at i k po)"
  by (auto simp: option_at_def put_option_def split: option.split)

lemma opt_String_at:
  "opt_String po i k def = (case option_at i k po of None \<Rightarrow> def | Some v \<Rightarrow> if v \<noteq> [] then v else def)"
  by (simp add: opt_String_def option_at_def split: option.split)

definition from_env :: "environment \<Rightarrow> arg_spec \<Rightarrow> string option" where
  "from_env env a = (if ar_env a \<noteq> [] \<and> env (ar_env a) \<noteq> [] then Some (env (ar_env a)) else None)"

lemma env_args_other:
  "i \<noteq> j \<or> k \<notin> ar_id ` set as \<Longrightarrow> option_at i k (env_args env j as po) = option_at i k po"
  by (induction as arbitrary: po) (auto simp: option_at_put Let_def)

lemma other_id: "ar_id b \<notin> ar_id ` set as \<Longrightarrow> ar_id a = ar_id b \<Longrightarrow> a \<notin> set as"
  by (metis imageI)

lemma env_args_at:
  "distinct (map ar_id as) \<Longrightarrow> a \<in> set as \<Longrightarrow>
   option_at i (ar_id a) (env_args env i as po) =
     (case from_env env a of Some v \<Rightarrow> Some v | None \<Rightarrow> option_at i (ar_id a) po)"
proof (induction as arbitrary: po)
  case (Cons b as)
  show ?case
  proof (cases "a = b")
    case True
    with Cons.prems have "ar_id a \<notin> ar_id ` set as" by simp
    with True show ?thesis by (simp add: env_args_other option_at_put from_env_def Let_def)
  next
    case False
    with Cons.prems have "a \<in> set as" "ar_id a \<noteq> ar_id b" by (auto dest: other_id)
    with Cons show ?thesis by (simp add: option_at_put Let_def split: option.split)
  qed
qed simp

lemma env_extensions_other:
  "i \<notin> fst ` set ds \<Longrightarrow> option_at i k (env_extensions env ds po) = option_at i k po"
  by (induction ds arbitrary: po) (auto simp: env_args_other)

lemma env_extensions_at:
  "distinct (map fst ds) \<Longrightarrow> (i, d) \<in> set ds \<Longrightarrow> distinct (map ar_id (de_args d)) \<Longrightarrow> a \<in> set (de_args d) \<Longrightarrow>
   option_at i (ar_id a) (env_extensions env ds po) =
     (case from_env env a of Some v \<Rightarrow> Some v | None \<Rightarrow> option_at i (ar_id a) po)"
proof (induction ds arbitrary: po)
  case (Cons x ds)
  obtain j e where x: "x = (j, e)" by (cases x) auto
  show ?case
  proof (cases "i = j")
    case True
    with Cons.prems x have "e = d" "i \<notin> fst ` set ds" by (auto simp: image_iff)
    moreover from x True have "x = (i, e)" by simp
    ultimately show ?thesis using Cons.prems by (simp add: env_extensions_other env_args_at)
  next
    case False
    with x Cons show ?thesis by (simp add: env_args_other split: option.split)
  qed
qed simp

definition defaulted :: "arg_spec \<Rightarrow> string option \<Rightarrow> string option" where
  "defaulted a v = (if ar_default a \<noteq> [] \<and> (v = None \<or> v = Some []) then Some (ar_default a) else v)"

lemma defaulted_twice [simp]: "defaulted a (defaulted a v) = defaulted a v"
  by (simp add: defaulted_def)

lemma default_args_other: "k \<notin> ar_id ` set as \<Longrightarrow> default_args as po k = po k"
  by (induction as arbitrary: po) auto

lemma default_args_at:
  "distinct (map ar_id as) \<Longrightarrow> a \<in> set as \<Longrightarrow> default_args as po (ar_id a) = defaulted a (po (ar_id a))"
proof (induction as arbitrary: po)
  case (Cons b as)
  show ?case
  proof (cases "a = b")
    case True
    with Cons.prems have "ar_id a \<notin> ar_id ` set as" by simp
    with True show ?thesis by (simp add: default_args_other defaulted_def)
  next
    case False
    with Cons.prems have "a \<in> set as" "ar_id a \<noteq> ar_id b" by (auto dest: other_id)
    with Cons show ?thesis by simp
  qed
qed simp

lemma with_defaults_step:
  assumes "desc i = Some d" "distinct (map ar_id (de_args d))" "a \<in> set (de_args d)"
  shows "option_at i (ar_id a) (with_defaults desc is po) =
    (if i \<in> set is then defaulted a (option_at i (ar_id a) po) else option_at i (ar_id a) po)"
proof (induction "is" arbitrary: po)
  case (Cons j js)
  define q where "q = (case desc j of None \<Rightarrow> po
        | Some d \<Rightarrow> po(j \<mapsto> default_args (de_args d) (case po j of None \<Rightarrow> Map.empty | Some m \<Rightarrow> m)))"
  have "option_at i (ar_id a) q =
      (if j = i then defaulted a (option_at i (ar_id a) po) else option_at i (ar_id a) po)"
    using assms by (auto simp: q_def option_at_def default_args_at split: option.split)
  with Cons [of q] show ?case by (simp add: q_def [symmetric])
qed simp

lemma options_frame: "sc_options (ApplyEnv ps env c) = sc_options c"
  by (simp add: ApplyEnv_def Let_def env_set_frame [of sc_options] env_parse_frame [of sc_options] metrics_env_frame)

lemma flag_option:
  assumes "server_flag ps descs n v c = Some c'" "f \<notin> set core_flags" "f \<notin> set [''version'', ''help-plugins'']"
    and "\<And>m. ext_flag descs m = Some (i, k) \<longleftrightarrow> m = f"
  shows "option_at i k (sc_options c') = (if n = f then Some v else option_at i k (sc_options c))"
proof -
  have "option_at i k (sc_options c') = option_at i k (sc_options c)"
    if "n \<in> set core_flags \<or> n \<in> set [''version'', ''help-plugins'']"
    using that assms(1) by (auto simp: server_flag_defs split: if_splits option.splits)
  moreover have "option_at i k (sc_options c') = (if ext_flag descs n = Some (i, k) then Some v else option_at i k (sc_options c))"
    if "\<not> (n \<in> set core_flags \<or> n \<in> set [''version'', ''help-plugins''])"
  proof -
    from that assms(1) obtain i' k' where e: "ext_flag descs n = Some (i', k')" "c' = SetPluginOption i' k' v c"
      by (auto simp: server_flag_def split: option.splits)
    show ?thesis unfolding e(2) by (auto simp: e(1) SetPluginOption_def option_at_put)
  qed
  ultimately show ?thesis
  proof (cases "n \<in> set core_flags \<or> n \<in> set [''version'', ''help-plugins'']")
    case True
    with assms(2,3) have "n \<noteq> f" by blast
    with True \<open>n \<in> set core_flags \<or> _ \<Longrightarrow> _\<close> show ?thesis by simp
  qed (simp add: assms(4))
qed

text \<open>What the layers below the defaults hold for one option of an extension.\<close>

definition given :: "environment \<Rightarrow> (string \<times> string) list \<Rightarrow> server_config \<Rightarrow> string \<Rightarrow> arg_spec \<Rightarrow> string option" where
  "given env fs f i a =
     (case last_value (arg_flag a) fs of
        Some v \<Rightarrow> Some v
      | None \<Rightarrow> (case from_env env a of Some v \<Rightarrow> Some v | None \<Rightarrow> option_at i (ar_id a) (sc_options f)))"

locale option_setting =
  fixes descs :: "(string \<times> descriptor) list"
    and i :: string and d :: descriptor and a :: arg_spec
  assumes one_descriptor: "distinct (map fst descs)" "(i, d) \<in> set descs"
    and one_arg: "distinct (map ar_id (de_args d))" "a \<in> set (de_args d)"
    and own_flag: "arg_flag a \<notin> set core_flags" "arg_flag a \<notin> set [''version'', ''help-plugins'']"
      "\<And>m. ext_flag descs m = Some (i, ar_id a) \<longleftrightarrow> m = arg_flag a"
begin

lemma resolved:
  assumes "after_file ps load default_file env args = Some f" "parse_flags (server_kinds descs) args = Some fs"
    and "resolve ps load default_file env descs args = Some c"
  shows "option_at i (ar_id a) (sc_options c) = given env fs f i a"
proof -
  let ?c = "ApplyEnvExtensions env descs (ApplyEnv ps env f)"
  from assms have run: "apply_flags (server_flag ps descs) fs ?c = Some c"
    by (auto simp: resolve_def flag_Parse_def Let_def split: option.splits if_splits)
  have "option_at i (ar_id a) (sc_options c) =
      (case last_value (arg_flag a) fs of Some v \<Rightarrow> Some v | None \<Rightarrow> option_at i (ar_id a) (sc_options ?c))"
    by (rule apply_flags_field [where get = "\<lambda>c. option_at i (ar_id a) (sc_options c)" and h = Some, OF flag_option run])
      (use own_flag in auto)
  then show ?thesis
    by (simp add: given_def ApplyEnvExtensions_def options_frame env_extensions_at [OF one_descriptor one_arg] split: option.split)
qed

lemma read_back:
  assumes "after_file ps load default_file env args = Some f" "parse_flags (server_kinds descs) args = Some fs"
    and "resolve ps load default_file env descs args = Some c" "desc i = Some d" "i \<in> set ids"
  shows "opt_String (with_defaults desc ids (sc_options c)) i (ar_id a) def =
    (case given env fs f i a of
       Some v \<Rightarrow> if v \<noteq> [] then v else if ar_default a \<noteq> [] then ar_default a else def
     | None \<Rightarrow> if ar_default a \<noteq> [] then ar_default a else def)"
  using resolved [OF assms(1-3)] assms(4,5)
  by (auto simp: opt_String_at with_defaults_step [of desc i d a, OF assms(4) one_arg] defaulted_def split: option.split)

end

lemmas builtin_args = llm_Descriptor_def mcp_Descriptor_def docling_Descriptor_def asr_Descriptor_def ArgSpecs_def arg_def
  upper_llm

definition builtin_table :: "(string \<times> (string \<times> string)) list" where
  "builtin_table =
     [(''llm-max-parallel-embeddings'', (''llm'', ''max_parallel_embeddings'')), (''llm-queue-size'', (''llm'', ''queue_size'')),
      (''llm-queue-update-seconds'', (''llm'', ''queue_update_seconds'')), (''llm-min-score'', (''llm'', ''min_score'')),
      (''mcp-max-req-bytes'', (''mcp'', ''max_req_bytes'')), (''mcp-max-resp-bytes'', (''mcp'', ''max_resp_bytes'')),
      (''mcp-ws-heartbeat-ms'', (''mcp'', ''ws_heartbeat_ms'')), (''mcp-ws-dead-after-ms'', (''mcp'', ''ws_dead_after_ms'')),
      (''mcp-max-concurrency-per-client'', (''mcp'', ''max_concurrency_per_client''))]"

lemma builtin_flags:
  "ext_flag (Descriptors (builtin new)) m = map_option snd (List.find (\<lambda>x. fst x = m) builtin_table)"
  unfolding builtin_descriptors by (simp add: builtin_args builtin_table_def arg_flag_def TrimPrefix_def HasPrefix_def)

lemma find_unique:
  "distinct (map fst T) \<Longrightarrow> distinct (map snd T) \<Longrightarrow> (f, x) \<in> set T \<Longrightarrow>
   map_option snd (List.find (\<lambda>y. fst y = m) T) = Some x \<longleftrightarrow> m = f"
proof (induction T)
  case (Cons p T)
  have snd: "List.find (\<lambda>y. fst y = m) T = Some y \<Longrightarrow> y \<in> set T" for y
    by (auto simp: find_Some_iff)
  show ?case
  proof (cases "p = (f, x)")
    case True
    with Cons.prems show ?thesis by (auto simp: image_iff dest!: snd)
  next
    case False
    with Cons.prems have T: "(f, x) \<in> set T" by auto
    then have "f \<in> fst ` set T" "x \<in> snd ` set T" by force+
    with Cons.prems have "fst p \<noteq> f" "snd p \<noteq> x" by auto
    with Cons T show ?thesis by auto
  qed
qed simp

lemma builtin_all:
  "list_all (\<lambda>(i, d). distinct (map ar_id (de_args d)) \<and> list_all (\<lambda>a. ar_default a \<noteq> [] \<and> arg_flag a \<notin> set core_flags \<and>
      arg_flag a \<notin> set [''version'', ''help-plugins''] \<and> (arg_flag a, (i, ar_id a)) \<in> set builtin_table) (de_args d))
    [(''llm'', llm_Descriptor), (''mcp'', mcp_Descriptor), (''docling'', docling_Descriptor), (''asr'', asr_Descriptor)]"
  "distinct (map fst builtin_table)" "distinct (map snd builtin_table)"
  by code_simp+

lemma builtin_option:
  assumes "(i, d) \<in> set (Descriptors (builtin new))" "a \<in> set (de_args d)"
  shows "option_setting (Descriptors (builtin new)) i d a" "ar_default a \<noteq> []"
proof -
  have "list_all (\<lambda>(i, d). distinct (map ar_id (de_args d)) \<and> list_all (\<lambda>a. ar_default a \<noteq> [] \<and> arg_flag a \<notin> set core_flags \<and>
      arg_flag a \<notin> set [''version'', ''help-plugins''] \<and> (arg_flag a, (i, ar_id a)) \<in> set builtin_table) (de_args d))
    (Descriptors (builtin new))" unfolding builtin_descriptors by (rule builtin_all)
  with assms have a: "distinct (map ar_id (de_args d))" "ar_default a \<noteq> []" "arg_flag a \<notin> set core_flags"
    "arg_flag a \<notin> set [''version'', ''help-plugins'']" "(arg_flag a, (i, ar_id a)) \<in> set builtin_table"
    by (fastforce simp: list_all_iff)+
  have "distinct (map fst (Descriptors (builtin new)))" by (simp add: builtin_descriptors)
  with assms a find_unique [OF builtin_all(2,3) a(5)] show "option_setting (Descriptors (builtin new)) i d a"
    by (simp add: option_setting_def builtin_flags)
  show "ar_default a \<noteq> []" by (rule a(2))
qed

interpretation queue_size: option_setting "Descriptors (builtin new)" "''llm''" llm_Descriptor
    "arg ''queue_size'' ''--llm-queue-size'' ''LLM_QUEUE_SIZE'' ''100''" for new
  by (rule builtin_option(1)) (simp_all add: builtin_descriptors llm_Descriptor_def)

interpretation max_sessions: option_setting "Descriptors (builtin new)" "''mcp''" mcp_Descriptor
    "last (de_args mcp_Descriptor)" for new
  by (rule builtin_option(1)) (simp_all add: builtin_descriptors mcp_Descriptor_def)

text \<open>
  An extension that reads one of the options of its descriptor gets the last value among the
  arguments, else the environment's, else the file's, and the default of the descriptor when that
  value is missing or empty.
\<close>

theorem option_precedence:
  assumes "(i, d) \<in> set (Descriptors (builtin new))" "a \<in> set (de_args d)" "i \<in> set ids"
    and "after_file ps load default_file env args = Some f"
    and "parse_flags (server_kinds (Descriptors (builtin new))) args = Some fs"
    and "resolve ps load default_file env (Descriptors (builtin new)) args = Some c"
  shows "opt_String (with_defaults (\<lambda>i. plugin_Descriptor i (builtin new)) ids (sc_options c)) i (ar_id a) def =
    (case given env fs f i a of Some v \<Rightarrow> if v \<noteq> [] then v else ar_default a | None \<Rightarrow> ar_default a)"
proof -
  have "plugin_Descriptor i (builtin new) = Some d"
    using assms(1) unfolding builtin_descriptor by (auto simp: builtin_descriptors)
  from option_setting.read_back [OF builtin_option(1) [OF assms(1,2)] assms(4,5,6), of "\<lambda>i. plugin_Descriptor i (builtin new)", OF this assms(3)]
    builtin_option(2) [OF assms(1,2)]
  show ?thesis by (simp split: option.split)
qed

definition queue_env :: environment where
  "queue_env k = (if k = ''LLM_QUEUE_SIZE'' then ''5'' else [])"

theorem option_precedence_witness:
  "\<exists>c. resolve sample_parsers (\<lambda>_ _. NotExist) ''f'' queue_env (Descriptors (builtin id)) [] = Some c \<and>
    opt_String (with_defaults (\<lambda>i. plugin_Descriptor i (builtin id)) [''llm''] (sc_options c)) ''llm'' ''queue_size'' [] = ''5''"
proof -
  let ?D = "Descriptors (builtin id)" and ?a = "arg ''queue_size'' ''--llm-queue-size'' ''LLM_QUEUE_SIZE'' ''100''"
  let ?f = "before_file sample_parsers ''f'' queue_env []"
  let ?c = "ApplyEnvExtensions queue_env ?D (ApplyEnv sample_parsers queue_env ?f)"
  have f: "after_file sample_parsers (\<lambda>_ _. NotExist) ''f'' queue_env [] = Some ?f"
    by (simp add: after_file_def Let_def)
  have c: "resolve sample_parsers (\<lambda>_ _. NotExist) ''f'' queue_env ?D [] = Some ?c"
    by (simp add: resolve_def f flag_Parse_def asks_def Let_def)
  have "(''llm'', llm_Descriptor) \<in> set ?D" "?a \<in> set (de_args llm_Descriptor)" "''llm'' \<in> set [''llm'']"
    "parse_flags (server_kinds ?D) [] = Some []"
    by (simp_all add: builtin_descriptors llm_Descriptor_def)
  from option_precedence [OF this(1-3) f this(4) c, of "[]"] c show ?thesis
    by (simp add: given_def last_value_def from_env_def arg_def queue_env_def)
qed

text \<open>
  The root of an extension shows the same for two values of a secret option of equal length
  that agree in their first three and their last character, in the first and the last when they have
  at most twenty, and for any two of at most five.
\<close>

theorem secrets_stay_hidden:
  assumes "is_secret d k" "opts k = Some s" "length s = length t" "0 < length s"
    and "length s \<le> 5 \<or> (take (if length s \<le> 20 then 1 else 3) s = take (if length s \<le> 20 then 1 else 3) t \<and> last s = last t)"
  shows "masked_options d opts = masked_options d (opts(k \<mapsto> t))"
proof -
  have drop: "drop (length u - 1) u = [last u]" if "0 < length u" for u :: string
    using that by (metis append_butlast_last_id append_eq_conv_conj length_0_conv length_butlast less_numeral_extra(3))
  have "Mask s = Mask t"
  proof (cases "length s \<le> 5")
    case True
    with assms(3) show ?thesis by (simp add: Mask_short)
  next
    case False
    with assms(3,4,5) drop [of s] drop [of t] show ?thesis
      by (cases "length s \<le> 20") (auto simp: Mask_def Let_def)
  qed
  moreover have "s \<noteq> []" "t \<noteq> []" using assms(3,4) by auto
  ultimately show ?thesis using assms(1,2) by (auto simp: masked_options_def fun_eq_iff)
qed

theorem secrets_stay_hidden_witness:
  "masked_options \<lparr>de_id = ''x'', de_name = [], de_summary = [],
       de_args = [(arg ''key'' [] [] [])\<lparr>ar_secret := True\<rparr>]\<rparr> [''key'' \<mapsto> ''abcdef''] ''key'' = Some ''a****f''"
proof -
  let ?d = "\<lparr>de_id = ''x'', de_name = [], de_summary = [], de_args = [(arg ''key'' [] [] [])\<lparr>ar_secret := True\<rparr>]\<rparr>"
  have "is_secret ?d ''key''" "[''key'' \<mapsto> ''abcdef''] ''key'' = Some ''abcdef''" "length ''abcdef'' = length ''aXXXXf''"
    "0 < length ''abcdef''"
    "length ''abcdef'' \<le> 5 \<or> (take (if length ''abcdef'' \<le> 20 then 1 else 3) ''abcdef'' =
       take (if length ''abcdef'' \<le> 20 then 1 else 3) ''aXXXXf'' \<and> last ''abcdef'' = last ''aXXXXf'')"
    by (simp_all add: is_secret_def arg_def)
  from secrets_stay_hidden [of ?d "''key''" "[''key'' \<mapsto> ''abcdef'']" "''abcdef''" "''aXXXXf''", OF this] show ?thesis
    by (simp add: masked_options_def is_secret_def arg_def Mask_def Let_def numeral_eq_Suc)
qed

end
