(* ===== verification/AgentConfig.thy ===== *)
theory AgentConfig
  imports ServerSettings
begin

text \<open>
  The settings of the agents and the start of their programs: \<^verbatim>\<open>agent/internal/config\<close> and \<^verbatim>\<open>main\<close> of
  \<^verbatim>\<open>nfrx-llm\<close>, \<^verbatim>\<open>nfrx-asr\<close>, \<^verbatim>\<open>nfrx-docling\<close> and \<^verbatim>\<open>nfrx-mcp\<close>.
\<close>

section \<open>Shared steps\<close>

definition metrics_address :: "environment \<Rightarrow> string" where
  "metrics_address env =
     (let mp = GetEnv env ''METRICS_PORT'' []
      in if mp \<noteq> [] \<and> \<not> Contains mp '':'' then CHR '':'' # mp else mp)"

text \<open>The host name, or a made-up one when the system has none; \<open>uuid\<close> is a fresh UUID.\<close>

definition host_name :: "string \<Rightarrow> string option \<Rightarrow> string \<Rightarrow> string" where
  "host_name prefix hostname uuid =
     (case hostname of None \<Rightarrow> prefix @ take 8 uuid | Some h \<Rightarrow> if h = [] then prefix @ take 8 uuid else h)"

definition parsed_or :: "(string \<Rightarrow> 'a option) \<Rightarrow> string \<Rightarrow> 'a \<Rightarrow> 'a" where
  "parsed_or p v def = (case p v of Some x \<Rightarrow> x | None \<Rightarrow> def)"

section \<open>The agents of the generic worker\<close>

record worker_config =
  wc_server :: string
  wc_key :: string
  wc_base :: string
  wc_api_key :: string
  wc_max :: int
  wc_id :: string
  wc_name :: string
  wc_status :: string
  wc_metrics :: string
  wc_drain :: duration
  wc_timeout :: duration
  wc_file :: string
  wc_log :: string
  wc_reconnect :: bool

text \<open>What differs between the two agents.\<close>

record flavour =
  fl_server :: string
  fl_base_env :: string
  fl_base :: string
  fl_key_env :: string
  fl_base_flag :: string
  fl_key_flag :: string

definition bind_env :: "parsers \<Rightarrow> flavour \<Rightarrow> string \<Rightarrow> string \<Rightarrow> environment \<Rightarrow> worker_config" where
  "bind_env ps fl default_file host env =
     \<lparr>wc_server = GetEnv env ''SERVER_URL'' (fl_server fl),
      wc_key = GetEnv env ''CLIENT_KEY'' [],
      wc_base = GetEnv env (fl_base_env fl) (fl_base fl),
      wc_api_key = GetEnv env (fl_key_env fl) [],
      wc_max = parsed_or Atoi (GetEnv env ''MAX_CONCURRENCY'' ''2'') 2,
      wc_id = GetEnv env ''CLIENT_ID'' [],
      wc_name = GetEnv env ''CLIENT_NAME'' host,
      wc_status = [],
      wc_metrics = metrics_address env,
      wc_drain = parsed_or (pr_duration ps) (GetEnv env ''DRAIN_TIMEOUT'' ''1m'') (60 * second),
      wc_timeout = parsed_or (pr_seconds ps) (GetEnv env ''REQUEST_TIMEOUT'' ''300'') (300 * second),
      wc_file = GetEnv env ''CONFIG_FILE'' default_file,
      wc_log = GetEnv env ''LOG_LEVEL'' ''info'',
      wc_reconnect = parsed_or ParseBool (GetEnv env ''RECONNECT'' ''false'') False\<rparr>"

definition worker_flags :: "flavour \<Rightarrow> string list" where
  "worker_flags fl =
     [''config'', ''log-level'', ''server-url'', ''client-key'', fl_base_flag fl, fl_key_flag fl, ''max-concurrency'',
      ''client-id'', ''client-name'', ''status-addr'', ''metrics-port'', ''drain-timeout'', ''request-timeout'']"

definition worker_kinds :: "flavour \<Rightarrow> string \<Rightarrow> bool option" where
  "worker_kinds fl n =
     (if n \<in> set [''reconnect'', ''r'', ''version''] then Some True
      else if n \<in> set (worker_flags fl) then Some False
      else None)"

definition worker_flag :: "parsers \<Rightarrow> flavour \<Rightarrow> string \<Rightarrow> string \<Rightarrow> worker_config \<Rightarrow> worker_config option" where
  "worker_flag ps fl n v c =
     (if n = ''config'' then Some (c\<lparr>wc_file := v\<rparr>)
      else if n = ''log-level'' then Some (c\<lparr>wc_log := v\<rparr>)
      else if n = ''server-url'' then Some (c\<lparr>wc_server := v\<rparr>)
      else if n = ''client-key'' then Some (c\<lparr>wc_key := v\<rparr>)
      else if n = fl_base_flag fl then Some (c\<lparr>wc_base := v\<rparr>)
      else if n = fl_key_flag fl then Some (c\<lparr>wc_api_key := v\<rparr>)
      else if n = ''max-concurrency'' then map_option (\<lambda>x. c\<lparr>wc_max := x\<rparr>) (pr_int ps v)
      else if n = ''client-id'' then Some (c\<lparr>wc_id := v\<rparr>)
      else if n = ''client-name'' then Some (c\<lparr>wc_name := v\<rparr>)
      else if n = ''status-addr'' then Some (c\<lparr>wc_status := v\<rparr>)
      else if n = ''metrics-port'' then Some (c\<lparr>wc_metrics := v\<rparr>)
      else if n = ''drain-timeout'' then map_option (\<lambda>d. c\<lparr>wc_drain := d\<rparr>) (pr_duration ps v)
      else if n = ''request-timeout'' then map_option (\<lambda>d. c\<lparr>wc_timeout := d\<rparr>) (pr_seconds ps v)
      else if n \<in> set [''reconnect'', ''r''] then map_option (\<lambda>b. c\<lparr>wc_reconnect := b\<rparr>) (ParseBool v)
      else if n = ''version'' then map_option (\<lambda>_. c) (ParseBool v)
      else None)"

definition asr_flavour :: flavour where
  "asr_flavour =
     \<lparr>fl_server = ''ws://localhost:8080/api/asr/connect'', fl_base_env = ''ASR_BASE_URL'', fl_base = ''http://127.0.0.1:5002/v1'',
      fl_key_env = ''ASR_API_KEY'', fl_base_flag = ''asr-base-url'', fl_key_flag = ''asr-api-key''\<rparr>"

definition docling_flavour :: flavour where
  "docling_flavour =
     \<lparr>fl_server = ''ws://localhost:8080/api/docling/connect'', fl_base_env = ''DOC_BASE_URL'', fl_base = ''http://127.0.0.1:5001'',
      fl_key_env = ''DOC_API_KEY'', fl_base_flag = ''doc-base-url'', fl_key_flag = ''doc-api-key''\<rparr>"

definition asr_BindFlags ::
  "parsers \<Rightarrow> string \<Rightarrow> string option \<Rightarrow> string \<Rightarrow> environment
    \<Rightarrow> worker_config \<times> (string \<Rightarrow> bool option) \<times> (string \<Rightarrow> string \<Rightarrow> worker_config \<Rightarrow> worker_config option)" where
  "asr_BindFlags ps default_file hostname uuid env =
     (bind_env ps asr_flavour default_file (host_name ''asr-'' hostname uuid) env, worker_kinds asr_flavour,
      worker_flag ps asr_flavour)"

definition docling_BindFlags ::
  "parsers \<Rightarrow> string \<Rightarrow> string option \<Rightarrow> string \<Rightarrow> environment
    \<Rightarrow> worker_config \<times> (string \<Rightarrow> bool option) \<times> (string \<Rightarrow> string \<Rightarrow> worker_config \<Rightarrow> worker_config option)" where
  "docling_BindFlags ps default_file hostname uuid env =
     (bind_env ps docling_flavour default_file (host_name ''docling-'' hostname uuid) env, worker_kinds docling_flavour,
      worker_flag ps docling_flavour)"

section \<open>The agent of the language models\<close>

record llm_config = worker_config +
  lc_version :: string
  lc_style :: string
  lc_batch :: int
  lc_poll :: duration
  lc_log_dir :: string

definition resolveWorkerPaths ::
  "(string list \<Rightarrow> string) \<Rightarrow> string \<Rightarrow> string \<Rightarrow> string \<Rightarrow> string \<times> string" where
  "resolveWorkerPaths join goos home programData =
     (ResolveConfigPath join goos home programData ''worker.yaml'',
      if goos = ''darwin'' then join [home, ''Library'', ''Logs'', ''nfrx'']
      else if goos = ''windows'' then
        let programData = (if programData = [] then ''C:/ProgramData'' else programData);
            programData = trim_end [CHR 0x5C, CHR ''/''] programData
        in join [programData, ''nfrx'', ''Logs'']
      else [])"

definition llm_bind_env :: "parsers \<Rightarrow> string \<times> string \<Rightarrow> string \<Rightarrow> environment \<Rightarrow> llm_config" where
  "llm_bind_env ps paths host env =
     \<lparr>wc_server = GetEnv env ''SERVER_URL'' ''ws://localhost:8080/api/llm/connect'',
      wc_key = GetEnv env ''CLIENT_KEY'' [],
      wc_base = GetEnv env ''COMPLETION_BASE_URL'' ''http://127.0.0.1:11434/v1'',
      wc_api_key = GetEnv env ''COMPLETION_API_KEY'' (GetEnv env ''OLLAMA_API_KEY'' []),
      wc_max = parsed_or Atoi (GetEnv env ''MAX_CONCURRENCY'' ''2'') 2,
      wc_id = GetEnv env ''CLIENT_ID'' [],
      wc_name = GetEnv env ''CLIENT_NAME'' host,
      wc_status = GetEnv env ''STATUS_ADDR'' [],
      wc_metrics = metrics_address env,
      wc_drain = parsed_or (pr_duration ps) (GetEnv env ''DRAIN_TIMEOUT'' ''1m'') (60 * second),
      wc_timeout = parsed_or (pr_seconds ps) (GetEnv env ''REQUEST_TIMEOUT'' ''300'') (300 * second),
      wc_file = GetEnv env ''CONFIG_FILE'' (fst paths),
      wc_log = GetEnv env ''LOG_LEVEL'' ''info'',
      wc_reconnect = parsed_or ParseBool (GetEnv env ''RECONNECT'' ''false'') False,
      lc_version = GetEnv env ''COMPLETION_AGENT_VERSION'' [],
      lc_style = ToLower (GetEnv env ''API_STYLE'' ''openai''),
      lc_batch = parsed_or Atoi (GetEnv env ''EMBEDDING_BATCH_SIZE'' ''0'') 0,
      lc_poll = parsed_or (pr_duration ps) (GetEnv env ''MODEL_POLL_INTERVAL'' ''1m'') (60 * second),
      lc_log_dir = GetEnv env ''LOG_DIR'' (snd paths)\<rparr>"

definition llm_flags :: "string list" where
  "llm_flags =
     [''server-url'', ''client-key'', ''completion-base-url'', ''completion-api-key'', ''completion-agent-version'', ''api-style'',
      ''max-concurrency'', ''embedding-batch-size'', ''client-id'', ''client-name'', ''status-addr'', ''metrics-port'', ''config'',
      ''log-dir'', ''log-level'', ''drain-timeout'', ''model-poll-interval'', ''request-timeout'']"

definition llm_kinds :: "string \<Rightarrow> bool option" where
  "llm_kinds n =
     (if n \<in> set [''reconnect'', ''r'', ''version''] then Some True
      else if n \<in> set llm_flags then Some False
      else None)"

definition llm_flag :: "parsers \<Rightarrow> string \<Rightarrow> string \<Rightarrow> llm_config \<Rightarrow> llm_config option" where
  "llm_flag ps n v c =
     (if n = ''server-url'' then Some (c\<lparr>wc_server := v\<rparr>)
      else if n = ''client-key'' then Some (c\<lparr>wc_key := v\<rparr>)
      else if n = ''completion-base-url'' then Some (c\<lparr>wc_base := v\<rparr>)
      else if n = ''completion-api-key'' then Some (c\<lparr>wc_api_key := v\<rparr>)
      else if n = ''completion-agent-version'' then Some (c\<lparr>lc_version := v\<rparr>)
      else if n = ''api-style'' then Some (c\<lparr>lc_style := v\<rparr>)
      else if n = ''max-concurrency'' then map_option (\<lambda>x. c\<lparr>wc_max := x\<rparr>) (pr_int ps v)
      else if n = ''embedding-batch-size'' then map_option (\<lambda>x. c\<lparr>lc_batch := x\<rparr>) (pr_int ps v)
      else if n = ''client-id'' then Some (c\<lparr>wc_id := v\<rparr>)
      else if n = ''client-name'' then Some (c\<lparr>wc_name := v\<rparr>)
      else if n = ''status-addr'' then Some (c\<lparr>wc_status := v\<rparr>)
      else if n = ''metrics-port'' then Some (c\<lparr>wc_metrics := v\<rparr>)
      else if n = ''config'' then Some (c\<lparr>wc_file := v\<rparr>)
      else if n = ''log-dir'' then Some (c\<lparr>lc_log_dir := v\<rparr>)
      else if n = ''log-level'' then Some (c\<lparr>wc_log := v\<rparr>)
      else if n = ''drain-timeout'' then map_option (\<lambda>d. c\<lparr>wc_drain := d\<rparr>) (pr_duration ps v)
      else if n = ''model-poll-interval'' then map_option (\<lambda>d. c\<lparr>lc_poll := d\<rparr>) (pr_duration ps v)
      else if n = ''request-timeout'' then map_option (\<lambda>d. c\<lparr>wc_timeout := d\<rparr>) (pr_seconds ps v)
      else if n \<in> set [''reconnect'', ''r''] then map_option (\<lambda>b. c\<lparr>wc_reconnect := b\<rparr>) (ParseBool v)
      else if n = ''version'' then map_option (\<lambda>_. c) (ParseBool v)
      else None)"

definition llm_BindFlags ::
  "parsers \<Rightarrow> string \<times> string \<Rightarrow> string option \<Rightarrow> string \<Rightarrow> environment
    \<Rightarrow> llm_config \<times> (string \<Rightarrow> bool option) \<times> (string \<Rightarrow> string \<Rightarrow> llm_config \<Rightarrow> llm_config option)" where
  "llm_BindFlags ps paths hostname uuid env =
     (llm_bind_env ps paths (host_name ''worker-'' hostname uuid) env, llm_kinds, llm_flag ps)"

section \<open>The relay\<close>

record mcp_config =
  mc_server :: string
  mc_key :: string
  mc_id :: string
  mc_name :: string
  mc_provider :: string
  mc_token :: string
  mc_metrics :: string
  mc_timeout :: duration
  mc_reconnect :: bool
  mc_file :: string
  mc_log :: string
  mc_streaming :: bool

definition mcp_bind_env :: "parsers \<Rightarrow> string \<Rightarrow> string \<Rightarrow> environment \<Rightarrow> mcp_config" where
  "mcp_bind_env ps default_file host env =
     \<lparr>mc_server = GetEnv env ''SERVER_URL'' ''ws://localhost:8080/api/mcp/connect'',
      mc_key = GetEnv env ''CLIENT_KEY'' [],
      mc_id = GetEnv env ''CLIENT_ID'' [],
      mc_name = GetEnv env ''CLIENT_NAME'' host,
      mc_provider = GetEnv env ''PROVIDER_URL'' ''http://127.0.0.1:7777/'',
      mc_token = GetEnv env ''AUTH_TOKEN'' [],
      mc_metrics = metrics_address env,
      mc_timeout = parsed_or (pr_seconds ps) (GetEnv env ''REQUEST_TIMEOUT'' ''300'') (300 * second),
      mc_reconnect = parsed_or ParseBool (GetEnv env ''RECONNECT'' ''false'') False,
      mc_file = GetEnv env ''CONFIG_FILE'' default_file,
      mc_log = GetEnv env ''LOG_LEVEL'' ''info'',
      mc_streaming =
        (let v = GetEnv env ''MCP_HTTP_ALLOW_STREAMING'' [] in if v \<noteq> [] then parsed_or ParseBool v True else True)\<rparr>"

definition mcp_flags :: "string list" where
  "mcp_flags =
     [''config'', ''log-level'', ''server-url'', ''client-key'', ''provider-url'', ''auth-token'', ''metrics-port'',
      ''request-timeout'', ''client-id'', ''client-name'']"

definition mcp_kinds :: "string \<Rightarrow> bool option" where
  "mcp_kinds n =
     (if n \<in> set [''reconnect'', ''r'', ''mcp-http-allow-streaming'', ''version''] then Some True
      else if n \<in> set mcp_flags then Some False
      else None)"

definition mcp_flag :: "parsers \<Rightarrow> string \<Rightarrow> string \<Rightarrow> mcp_config \<Rightarrow> mcp_config option" where
  "mcp_flag ps n v c =
     (if n = ''config'' then Some (c\<lparr>mc_file := v\<rparr>)
      else if n = ''log-level'' then Some (c\<lparr>mc_log := v\<rparr>)
      else if n = ''server-url'' then Some (c\<lparr>mc_server := v\<rparr>)
      else if n = ''client-key'' then Some (c\<lparr>mc_key := v\<rparr>)
      else if n = ''provider-url'' then Some (c\<lparr>mc_provider := v\<rparr>)
      else if n = ''auth-token'' then Some (c\<lparr>mc_token := v\<rparr>)
      else if n = ''metrics-port'' then Some (c\<lparr>mc_metrics := v\<rparr>)
      else if n = ''request-timeout'' then map_option (\<lambda>d. c\<lparr>mc_timeout := d\<rparr>) (pr_seconds ps v)
      else if n = ''client-id'' then Some (c\<lparr>mc_id := v\<rparr>)
      else if n = ''client-name'' then Some (c\<lparr>mc_name := v\<rparr>)
      else if n \<in> set [''reconnect'', ''r''] then map_option (\<lambda>b. c\<lparr>mc_reconnect := b\<rparr>) (ParseBool v)
      else if n = ''mcp-http-allow-streaming'' then map_option (\<lambda>b. c\<lparr>mc_streaming := b\<rparr>) (ParseBool v)
      else if n = ''version'' then map_option (\<lambda>_. c) (ParseBool v)
      else None)"

definition mcp_BindFlags ::
  "parsers \<Rightarrow> string \<Rightarrow> string option \<Rightarrow> string \<Rightarrow> environment
    \<Rightarrow> mcp_config \<times> (string \<Rightarrow> bool option) \<times> (string \<Rightarrow> string \<Rightarrow> mcp_config \<Rightarrow> mcp_config option)" where
  "mcp_BindFlags ps default_file hostname uuid env =
     (mcp_bind_env ps default_file (host_name ''mcp-'' hostname uuid) env, mcp_kinds, mcp_flag ps)"

section \<open>The start\<close>

text \<open>
  \<open>bound\<close> is the result of \<^verbatim>\<open>BindFlags\<close>, \<open>file\<close> the name of the config file in the settings.  \<open>None\<close> is
  a start that ends there.
\<close>

definition start_program ::
  "('c \<Rightarrow> string) \<Rightarrow> (string \<Rightarrow> 'c \<Rightarrow> 'c load_result)
    \<Rightarrow> 'c \<times> (string \<Rightarrow> bool option) \<times> (string \<Rightarrow> string \<Rightarrow> 'c \<Rightarrow> 'c option) \<Rightarrow> string list \<Rightarrow> 'c option" where
  "start_program file load bound args =
     (let (c, kinds, put) = bound; overrides = captureCLIOverrides args in
      case flag_Parse kinds put args c of
        None \<Rightarrow> None
      | Some (fs, c) \<Rightarrow>
          if asks ''version'' fs then None
          else if file c \<noteq> [] then
            (case load (file c) c of
               LoadFailed \<Rightarrow> None
             | NotExist \<Rightarrow> Some c
             | Loaded c \<Rightarrow> restore_flags put overrides fs c)
          else Some c)"

definition llm_start ::
  "(string \<Rightarrow> llm_config \<Rightarrow> llm_config load_result) \<Rightarrow> parsers \<Rightarrow> string \<times> string \<Rightarrow> string option \<Rightarrow> string \<Rightarrow> environment
    \<Rightarrow> string list \<Rightarrow> llm_config option" where
  "llm_start load ps paths hostname uuid env args = start_program wc_file load (llm_BindFlags ps paths hostname uuid env) args"

definition docling_start ::
  "(string \<Rightarrow> worker_config \<Rightarrow> worker_config load_result) \<Rightarrow> parsers \<Rightarrow> string \<Rightarrow> string option \<Rightarrow> string \<Rightarrow> environment
    \<Rightarrow> string list \<Rightarrow> worker_config option" where
  "docling_start load ps path hostname uuid env args = start_program wc_file load (docling_BindFlags ps path hostname uuid env) args"

definition mcp_start ::
  "(string \<Rightarrow> mcp_config \<Rightarrow> mcp_config load_result) \<Rightarrow> parsers \<Rightarrow> string \<Rightarrow> string option \<Rightarrow> string \<Rightarrow> environment
    \<Rightarrow> string list \<Rightarrow> mcp_config option" where
  "mcp_start load ps path hostname uuid env args = start_program mc_file load (mcp_BindFlags ps path hostname uuid env) args"

text \<open>The transcription agent does not put the arguments back.\<close>

definition start_from_file ::
  "('c \<Rightarrow> string) \<Rightarrow> (string \<Rightarrow> 'c \<Rightarrow> 'c load_result)
    \<Rightarrow> 'c \<times> (string \<Rightarrow> bool option) \<times> (string \<Rightarrow> string \<Rightarrow> 'c \<Rightarrow> 'c option) \<Rightarrow> string list \<Rightarrow> 'c option" where
  "start_from_file file load bound args =
     (let (c, kinds, put) = bound in
      case flag_Parse kinds put args c of
        None \<Rightarrow> None
      | Some (fs, c) \<Rightarrow>
          if asks ''version'' fs then None
          else if file c \<noteq> [] then
            (case load (file c) c of LoadFailed \<Rightarrow> None | NotExist \<Rightarrow> Some c | Loaded c \<Rightarrow> Some c)
          else Some c)"

definition asr_start ::
  "(string \<Rightarrow> worker_config \<Rightarrow> worker_config load_result) \<Rightarrow> parsers \<Rightarrow> string \<Rightarrow> string option \<Rightarrow> string \<Rightarrow> environment
    \<Rightarrow> string list \<Rightarrow> worker_config option" where
  "asr_start load ps path hostname uuid env args = start_from_file wc_file load (asr_BindFlags ps path hostname uuid env) args"

section \<open>Arguments over files\<close>

text \<open>What \<open>restore_flags\<close> leaves in the setting \<open>get\<close> that the flag \<open>k\<close> sets to \<open>h\<close> of its value.\<close>

locale flag_setting =
  fixes put :: "string \<Rightarrow> string \<Rightarrow> 'c \<Rightarrow> 'c option" and get :: "'c \<Rightarrow> 'v" and k :: string and h :: "string \<Rightarrow> 'v"
  assumes of_flag: "put n v c = Some c' \<Longrightarrow> get c' = (if n = k then h v else get c)"
begin

lemma restored:
  "restore_loop put overrides ns c = Some c' \<Longrightarrow>
   get c' = (case overrides k of Some v \<Rightarrow> if k \<in> set ns then h v else get c | None \<Rightarrow> get c)"
proof (induction ns arbitrary: c)
  case (Cons n ns)
  show ?case
  proof (cases "overrides n")
    case None
    with Cons show ?thesis by (auto split: option.splits)
  next
    case (Some v)
    with Cons.prems obtain d where "put n v c = Some d" "restore_loop put overrides ns d = Some c'"
      by (auto split: option.splits)
    with Cons.IH [of d] of_flag [of n v c d] Some show ?thesis by (auto split: option.splits)
  qed
qed (simp split: option.split)

lemma started:
  assumes "\<forall>it \<in> set items. legal kinds it"
    and "start_program file load (c0, kinds, put) (concat (map render items)) = Some c"
  shows "\<exists>f. start_from_file file load (c0, kinds, put) (concat (map render items)) = Some f \<and>
    get c = (case last_value k (map item_value items) of Some v \<Rightarrow> h v | None \<Rightarrow> get f)"
proof -
  let ?fs = "map item_value items"
  have over: "captureCLIOverrides (concat (map render items)) = map_of (rev ?fs)"
    using capture_render [OF assms(1), of Map.empty] by (simp add: captureCLIOverrides_def)
  from assms(2) obtain c1 where c1: "apply_flags put ?fs c0 = Some c1"
    and c: "(if file c1 \<noteq> [] then
            (case load (file c1) c1 of
               LoadFailed \<Rightarrow> None
             | NotExist \<Rightarrow> Some c1
             | Loaded f \<Rightarrow> restore_flags put (map_of (rev ?fs)) ?fs f)
          else Some c1) = Some c" and v: "\<not> asks ''version'' ?fs"
    by (auto simp: start_program_def flag_Parse_def parse_render [OF assms(1)] over Let_def split: option.splits if_splits)
  have g1: "get c1 = (case last_value k ?fs of Some v \<Rightarrow> h v | None \<Rightarrow> get c0)"
    by (rule apply_flags_field [OF of_flag c1])
  have mem: "k \<in> fst ` set ?fs" if "last_value k ?fs = Some v" for v
    using map_of_SomeD [OF that [unfolded last_value_def]] by (metis fst_conv image_eqI set_rev)
  show ?thesis
  proof (cases "file c1 \<noteq> [] \<and> (\<exists>f. load (file c1) c1 = Loaded f)")
    case True
    then obtain f where f: "load (file c1) c1 = Loaded f" by blast
    with True c have "restore_flags put (map_of (rev ?fs)) ?fs f = Some c" by simp
    from restored [OF this [unfolded restore_flags_def]] mem
    have "get c = (case last_value k ?fs of Some v \<Rightarrow> h v | None \<Rightarrow> get f)"
      by (auto simp: last_value_def split: option.splits)
    moreover have "start_from_file file load (c0, kinds, put) (concat (map render items)) = Some f"
      using True f v by (simp add: start_from_file_def flag_Parse_def parse_render [OF assms(1)] c1)
    ultimately show ?thesis by blast
  next
    case False
    with c have [simp]: "c = c1" by (auto split: if_splits load_result.splits)
    have "start_from_file file load (c0, kinds, put) (concat (map render items)) = Some c"
      using False c v by (auto simp: start_from_file_def flag_Parse_def parse_render [OF assms(1)] c1 split: load_result.splits if_splits)
    with g1 show ?thesis by (auto split: option.split)
  qed
qed

end

lemma branch:
  "(if b then x else y) = Some c' \<Longrightarrow> (b \<Longrightarrow> x = Some c' \<Longrightarrow> P) \<Longrightarrow> (y = Some c' \<Longrightarrow> P) \<Longrightarrow> P"
  by (simp split: if_splits)

interpretation llm_key: flag_setting "llm_flag ps" wc_key "''client-key''" "\<lambda>v. v" for ps
  by unfold_locales (unfold llm_flag_def, elim branch; auto)

interpretation llm_server: flag_setting "llm_flag ps" wc_server "''server-url''" "\<lambda>v. v" for ps
  by unfold_locales (unfold llm_flag_def, elim branch; auto)

interpretation llm_max: flag_setting "llm_flag ps" wc_max "''max-concurrency''" "\<lambda>v. the (pr_int ps v)" for ps
  by unfold_locales (unfold llm_flag_def, elim branch; auto)

interpretation docling_key: flag_setting "worker_flag ps docling_flavour" wc_key "''client-key''" "\<lambda>v. v" for ps
  by unfold_locales (unfold worker_flag_def, elim branch; auto simp: docling_flavour_def)

interpretation mcp_key: flag_setting "mcp_flag ps" mc_key "''client-key''" "\<lambda>v. v" for ps
  by unfold_locales (unfold mcp_flag_def, elim branch; auto)

lemmas agent_starts = llm_start_def llm_BindFlags_def docling_start_def docling_BindFlags_def mcp_start_def mcp_BindFlags_def

definition over :: "'v option \<Rightarrow> 'v \<Rightarrow> 'v" where
  "over flag below = (case flag of Some v \<Rightarrow> v | None \<Rightarrow> below)"

text \<open>
  On a command line whose separate values do not begin with a dash, the key the agents of
  the language models, of the documents and of the relay start with is the last value among the
  arguments, and the one of the file (or below it) only when there is none.
\<close>

theorem agent_key_precedence:
  assumes "\<forall>it \<in> set items. legal llm_kinds it \<and> legal (worker_kinds docling_flavour) it \<and> legal mcp_kinds it"
    and "llm_start lload ps paths hostname uuid env (concat (map render items)) = Some lc"
    and "docling_start dload ps path hostname uuid env (concat (map render items)) = Some dc"
    and "mcp_start mload ps path hostname uuid env (concat (map render items)) = Some mc"
  shows "\<exists>lf df mf.
    start_from_file wc_file lload (llm_BindFlags ps paths hostname uuid env) (concat (map render items)) = Some lf \<and>
    start_from_file wc_file dload (docling_BindFlags ps path hostname uuid env) (concat (map render items)) = Some df \<and>
    start_from_file mc_file mload (mcp_BindFlags ps path hostname uuid env) (concat (map render items)) = Some mf \<and>
    wc_key lc = over (last_value ''client-key'' (map item_value items)) (wc_key lf) \<and>
    wc_key dc = over (last_value ''client-key'' (map item_value items)) (wc_key df) \<and>
    mc_key mc = over (last_value ''client-key'' (map item_value items)) (mc_key mf)"
proof -
  have l: "\<forall>it \<in> set items. legal llm_kinds it" "\<forall>it \<in> set items. legal (worker_kinds docling_flavour) it"
    "\<forall>it \<in> set items. legal mcp_kinds it" using assms(1) by auto
  from llm_key.started [OF l(1) assms(2) [unfolded agent_starts]]
    docling_key.started [OF l(2) assms(3) [unfolded agent_starts]]
    mcp_key.started [OF l(3) assms(4) [unfolded agent_starts]]
  show ?thesis unfolding agent_starts over_def by blast
qed

lemma start_one:
  assumes "parse_flags kinds args = Some [(n, v)]" "captureCLIOverrides args n = Some w" "n \<noteq> ''version''"
  shows "start_program file load (c0, kinds, put) args =
    (case put n v c0 of
       None \<Rightarrow> None
     | Some c \<Rightarrow>
         if file c = [] then Some c
         else (case load (file c) c of LoadFailed \<Rightarrow> None | NotExist \<Rightarrow> Some c | Loaded c \<Rightarrow> put n w c))"
  using assms by (auto simp: start_program_def flag_Parse_def asks_def restore_flags_def split: option.split load_result.split)

lemma start_file_one:
  assumes "parse_flags kinds args = Some [(n, v)]" "n \<noteq> ''version''"
  shows "start_from_file file load (c0, kinds, put) args =
    (case put n v c0 of
       None \<Rightarrow> None
     | Some c \<Rightarrow>
         if file c = [] then Some c
         else (case load (file c) c of LoadFailed \<Rightarrow> None | NotExist \<Rightarrow> Some c | Loaded c \<Rightarrow> Some c))"
  using assms by (auto simp: start_from_file_def flag_Parse_def asks_def split: option.split)

definition keyed :: "string \<Rightarrow> string \<Rightarrow> 'a worker_config_scheme \<Rightarrow> 'a worker_config_scheme load_result" where
  "keyed key path c = Loaded (c\<lparr>wc_key := key\<rparr>)"

definition mcp_keyed :: "string \<Rightarrow> string \<Rightarrow> mcp_config \<Rightarrow> mcp_config load_result" where
  "mcp_keyed key path c = Loaded (c\<lparr>mc_key := key\<rparr>)"

definition no_env :: environment where
  "no_env k = []"

lemma key_kinds: "llm_kinds ''client-key'' = Some False" "worker_kinds asr_flavour ''client-key'' = Some False"
  "worker_kinds docling_flavour ''client-key'' = Some False" "mcp_kinds ''client-key'' = Some False"
  by (simp_all add: llm_kinds_def worker_kinds_def mcp_kinds_def llm_flags_def worker_flags_def mcp_flags_def)

lemma key_name: "flag_name ''client-key''" by (simp add: flag_name_def)

lemma key_flags: "llm_flag ps ''client-key'' v lc = Some (lc\<lparr>wc_key := v\<rparr>)"
  "worker_flag ps fl ''client-key'' v wc = Some (wc\<lparr>wc_key := v\<rparr>)" "mcp_flag ps ''client-key'' v mc = Some (mc\<lparr>mc_key := v\<rparr>)"
  by (simp_all add: llm_flag_def worker_flag_def mcp_flag_def)

lemma key_files: "wc_file (llm_bind_env ps paths host env) = GetEnv env ''CONFIG_FILE'' (fst paths)"
  "wc_file (bind_env ps fl path host env) = GetEnv env ''CONFIG_FILE'' path"
  "mc_file (mcp_bind_env ps path host env) = GetEnv env ''CONFIG_FILE'' path"
  by (simp_all add: llm_bind_env_def bind_env_def mcp_bind_env_def)

lemma key_args:
  assumes "kinds ''client-key'' = Some False"
  shows "parse_flags kinds [''--client-key'', ''b''] = Some [(''client-key'', ''b'')]"
    "captureCLIOverrides [''--client-key'', ''b''] ''client-key'' = Some ''b''"
  using parse_render [of "[Separate ''client-key'' ''b'']" kinds] capture_render [of "[Separate ''client-key'' ''b'']" kinds Map.empty]
    assms key_name by (simp_all add: captureCLIOverrides_def)

theorem agent_key_precedence_witness:
  "\<exists>lc dc mc. llm_start (keyed ''f'') sample_parsers (''p'', []) None ''12345678'' no_env [''--client-key'', ''b''] = Some lc \<and>
    docling_start (keyed ''f'') sample_parsers ''p'' None ''12345678'' no_env [''--client-key'', ''b''] = Some dc \<and>
    mcp_start (mcp_keyed ''f'') sample_parsers ''p'' None ''12345678'' no_env [''--client-key'', ''b''] = Some mc \<and>
    wc_key lc = ''b'' \<and> wc_key dc = ''b'' \<and> mc_key mc = ''b''"
proof -
  let ?items = "[Separate ''client-key'' ''b'']" and ?args = "[''--client-key'', ''b'']"
  have legal: "\<forall>it \<in> set ?items. legal llm_kinds it \<and> legal (worker_kinds docling_flavour) it \<and> legal mcp_kinds it"
    by (simp add: key_name key_kinds)
  have args: "concat (map render ?items) = ?args" by simp
  have l: "\<exists>lc. llm_start (keyed ''f'') sample_parsers (''p'', []) None ''12345678'' no_env ?args = Some lc"
    by (simp add: llm_start_def llm_BindFlags_def start_one [OF key_args] key_kinds key_files GetEnv_def no_env_def keyed_def key_flags del: parse_flags.simps)
  have d: "\<exists>dc. docling_start (keyed ''f'') sample_parsers ''p'' None ''12345678'' no_env ?args = Some dc"
    by (simp add: docling_start_def docling_BindFlags_def start_one [OF key_args] key_kinds key_files GetEnv_def no_env_def keyed_def key_flags del: parse_flags.simps)
  have m: "\<exists>mc. mcp_start (mcp_keyed ''f'') sample_parsers ''p'' None ''12345678'' no_env ?args = Some mc"
    by (simp add: mcp_start_def mcp_BindFlags_def start_one [OF key_args] key_kinds key_files GetEnv_def no_env_def mcp_keyed_def key_flags del: parse_flags.simps)
  from l d m obtain lc dc mc where "llm_start (keyed ''f'') sample_parsers (''p'', []) None ''12345678'' no_env ?args = Some lc"
    "docling_start (keyed ''f'') sample_parsers ''p'' None ''12345678'' no_env ?args = Some dc"
    "mcp_start (mcp_keyed ''f'') sample_parsers ''p'' None ''12345678'' no_env ?args = Some mc" by blast
  with agent_key_precedence [OF legal, unfolded args, OF this] show ?thesis
    by (auto simp: over_def last_value_def)
qed

text \<open>
  With the same config file and command line, the agent of the documents starts with the key
  of the last argument that names one, and the agent of the transcriptions with the one of the file.
\<close>

theorem asr_file_wins:
  assumes "\<forall>it \<in> set items. legal (worker_kinds docling_flavour) it"
    and "docling_start (keyed key) ps path hostname uuid env (concat (map render items)) = Some dc" "wc_file dc \<noteq> []"
    and "asr_start (keyed key) ps' path' hostname' uuid' env' args = Some ac" "wc_file ac \<noteq> []"
  shows "wc_key ac = key \<and> (\<exists>k. wc_key dc = over (last_value ''client-key'' (map item_value items)) k)"
proof -
  from assms(4,5) have "wc_key ac = key"
    by (auto simp: asr_start_def start_from_file_def keyed_def asr_BindFlags_def split: option.splits if_splits prod.splits)
  with docling_key.started [OF assms(1) assms(2) [unfolded agent_starts]] show ?thesis by (auto simp: over_def)
qed

theorem asr_file_wins_witness:
  "\<exists>dc ac. docling_start (keyed ''f'') sample_parsers ''p'' None ''12345678'' no_env [''--client-key'', ''b''] = Some dc \<and>
    asr_start (keyed ''f'') sample_parsers ''p'' None ''12345678'' no_env [''--client-key'', ''b''] = Some ac \<and>
    wc_key dc = ''b'' \<and> wc_key ac = ''f''"
proof -
  let ?items = "[Separate ''client-key'' ''b'']" and ?args = "[''--client-key'', ''b'']"
  have legal: "\<forall>it \<in> set ?items. legal (worker_kinds docling_flavour) it" by (simp add: key_name key_kinds)
  have args: "concat (map render ?items) = ?args" by simp
  have "\<exists>dc. docling_start (keyed ''f'') sample_parsers ''p'' None ''12345678'' no_env ?args = Some dc \<and> wc_file dc \<noteq> []"
    by (simp add: docling_start_def docling_BindFlags_def start_one [OF key_args] key_kinds key_files GetEnv_def no_env_def keyed_def key_flags del: parse_flags.simps)
  moreover have "\<exists>ac. asr_start (keyed ''f'') sample_parsers ''p'' None ''12345678'' no_env ?args = Some ac \<and> wc_file ac \<noteq> []"
    by (simp add: asr_start_def asr_BindFlags_def start_file_one [OF key_args(1)] key_kinds key_flags key_files GetEnv_def no_env_def keyed_def del: parse_flags.simps)
  ultimately obtain dc ac where "docling_start (keyed ''f'') sample_parsers ''p'' None ''12345678'' no_env ?args = Some dc" "wc_file dc \<noteq> []"
    "asr_start (keyed ''f'') sample_parsers ''p'' None ''12345678'' no_env ?args = Some ac" "wc_file ac \<noteq> []" by blast
  with asr_file_wins [OF legal, unfolded args, OF this] show ?thesis
    by (auto simp: over_def last_value_def)
qed

text \<open>
  A key given as a separate argument that begins with a dash is taken as it is when there is no
  config file, and becomes the word \<^verbatim>\<open>true\<close> when there is one.
\<close>

theorem dash_key_with_file:
  assumes "flag_name v" "GetEnv env ''CONFIG_FILE'' (fst paths) \<noteq> []"
  shows "map_option wc_key (llm_start (keyed key) ps paths hostname uuid env [''--client-key'', CHR ''-'' # v]) = Some ''true'' \<and>
    map_option wc_key (llm_start (\<lambda>_ _. NotExist) ps paths hostname uuid env [''--client-key'', CHR ''-'' # v]) = Some (CHR ''-'' # v)"
proof -
  have args: "parse_flags llm_kinds [''--client-key'', CHR ''-'' # v] = Some [(''client-key'', CHR ''-'' # v)]"
    "captureCLIOverrides [''--client-key'', CHR ''-'' # v] ''client-key'' = Some ''true''"
    using dash_value [of "''client-key''" llm_kinds v] key_name key_kinds(1) assms(1) by simp_all
  have "map_option wc_key (llm_start (keyed key) ps paths hostname uuid env [''--client-key'', CHR ''-'' # v]) = Some ''true''"
    by (simp add: llm_start_def llm_BindFlags_def start_one [OF args] key_files assms(2) keyed_def key_flags del: parse_flags.simps)
  moreover have "map_option wc_key (llm_start (\<lambda>_ _. NotExist) ps paths hostname uuid env [''--client-key'', CHR ''-'' # v]) = Some (CHR ''-'' # v)"
    by (simp add: llm_start_def llm_BindFlags_def start_one [OF args] key_files assms(2) keyed_def key_flags del: parse_flags.simps)
  ultimately show ?thesis by simp
qed

theorem dash_key_with_file_witness:
  "map_option wc_key (llm_start (keyed ''f'') sample_parsers (''p'', []) None ''12345678'' no_env [''--client-key'', ''-secret'']) = Some ''true''"
  using dash_key_with_file [of "''secret''" no_env "(''p'', [])" "''f''" sample_parsers None "''12345678''"]
  by (simp add: flag_name_def GetEnv_def no_env_def)

end
