(* ===== verification/ServerState.thy ===== *)
theory ServerState
  imports GoPrelude
begin

text \<open>
  \<^verbatim>\<open>server/internal/serverstate\<close>: the status and draining flag behind a store, the in-memory and the
  Redis store, the parsing of the Redis address, and the registry of state elements.
\<close>

section \<open>The state and its store\<close>

record server_state =
  Status :: string
  Draining :: bool

text \<open>The interface \<^verbatim>\<open>Store\<close>, with the one law its clients need.\<close>

locale state_store =
  fixes load :: "'m \<Rightarrow> server_state"
    and save :: "server_state \<Rightarrow> 'm \<Rightarrow> 'm"
  assumes load_save: "load (save st m) = st"

text \<open>\<open>between\<close> is what other goroutines do to the store between the load and the save.\<close>

definition SetState ::
  "('m \<Rightarrow> server_state) \<Rightarrow> (server_state \<Rightarrow> 'm \<Rightarrow> 'm) \<Rightarrow> ('m \<Rightarrow> 'm) \<Rightarrow> string \<Rightarrow> 'm \<Rightarrow> 'm" where
  "SetState load save between status m = (let st = load m in save (st\<lparr>Status := status\<rparr>) (between m))"

definition GetState :: "('m \<Rightarrow> server_state) \<Rightarrow> 'm \<Rightarrow> string" where
  "GetState load m = Status (load m)"

definition server_StartDrain ::
  "('m \<Rightarrow> server_state) \<Rightarrow> (server_state \<Rightarrow> 'm \<Rightarrow> 'm) \<Rightarrow> ('m \<Rightarrow> 'm) \<Rightarrow> 'm \<Rightarrow> 'm" where
  "server_StartDrain load save between m =
     (let st = load m in save (st\<lparr>Draining := True, Status := ''draining''\<rparr>) (between m))"

definition IsDraining :: "('m \<Rightarrow> server_state) \<Rightarrow> 'm \<Rightarrow> bool" where
  "IsDraining load m = Draining (load m)"

text \<open>\<^verbatim>\<open>UseStore\<close>: a nil store is ignored.\<close>

definition UseStore :: "'s option \<Rightarrow> 's \<Rightarrow> 's" where
  "UseStore s active = (case s of None \<Rightarrow> active | Some s' \<Rightarrow> s')"

context state_store
begin

lemma set_then_get: "GetState load (SetState load save between status m) = status"
  by (simp add: GetState_def SetState_def load_save Let_def)

lemma set_keeps_draining: "IsDraining load (SetState load save id status m) = IsDraining load m"
  by (simp add: IsDraining_def SetState_def load_save Let_def)

lemma drain_sets: "IsDraining load (server_StartDrain load save between m)"
  "GetState load (server_StartDrain load save between m) = ''draining''"
  by (simp_all add: IsDraining_def GetState_def server_StartDrain_def load_save Let_def)

lemma overlapped_set: "IsDraining load (SetState load save (server_StartDrain load save b) status m) = IsDraining load m"
  by (simp add: IsDraining_def SetState_def load_save Let_def)

end

section \<open>The in-memory store\<close>

text \<open>\<open>None\<close> is an \<^verbatim>\<open>atomic.Value\<close> nothing has been stored in.\<close>

type_synonym memory_store = "server_state option"

definition NewMemoryStore :: memory_store where
  "NewMemoryStore = Some \<lparr>Status = ''not_ready'', Draining = False\<rparr>"

definition memory_Load :: "memory_store \<Rightarrow> server_state" where
  "memory_Load m = (case m of Some st \<Rightarrow> st | None \<Rightarrow> \<lparr>Status = ''unknown'', Draining = False\<rparr>)"

definition memory_Store :: "server_state \<Rightarrow> memory_store \<Rightarrow> memory_store" where
  "memory_Store s m = Some s"

interpretation memory: state_store memory_Load memory_Store
  by unfold_locales (simp add: memory_Load_def memory_Store_def)

section \<open>The Redis store\<close>

text \<open>
  The client is a parameter: \<open>get\<close> answers a value, that there is none (\<^verbatim>\<open>redis.Nil\<close>), or an error;
  \<open>put\<close> is \<^verbatim>\<open>Set\<close>, \<open>put_nx\<close> is \<^verbatim>\<open>SetNX\<close>.  \<open>enc\<close> and \<open>dec\<close> are \<^verbatim>\<open>json.Marshal\<close> and
  \<^verbatim>\<open>json.Unmarshal\<close> on \<^verbatim>\<open>State\<close>.
\<close>

datatype redis_reply = RedisValue string | RedisNil | RedisErr string

definition redisKey :: string where "redisKey = ''nfrx:state''"

definition redis_Load ::
  "('c \<Rightarrow> string \<Rightarrow> redis_reply) \<Rightarrow> (string \<Rightarrow> server_state option) \<Rightarrow> 'c \<Rightarrow> server_state" where
  "redis_Load get dec c =
     (case get c redisKey of
        RedisNil \<Rightarrow> \<lparr>Status = ''not_ready'', Draining = False\<rparr>
      | RedisErr _ \<Rightarrow> \<lparr>Status = ''unknown'', Draining = False\<rparr>
      | RedisValue b \<Rightarrow>
          (case dec b of
             None \<Rightarrow> \<lparr>Status = ''unknown'', Draining = False\<rparr>
           | Some st \<Rightarrow> st))"

definition redis_Store ::
  "(string \<Rightarrow> string \<Rightarrow> 'c \<Rightarrow> 'c) \<Rightarrow> (server_state \<Rightarrow> string option) \<Rightarrow> server_state \<Rightarrow> 'c \<Rightarrow> 'c" where
  "redis_Store put enc s c = (case enc s of None \<Rightarrow> c | Some b \<Rightarrow> put redisKey b c)"

text \<open>What \<^verbatim>\<open>url.Parse\<close> returns, with the query as \<^verbatim>\<open>Query().Get\<close>.\<close>

record parsed_url =
  u_scheme :: string
  u_user :: "(string \<times> string option) option"
  u_host :: string
  u_path :: string
  u_query :: "string \<Rightarrow> string"

record redis_options =
  ro_addrs :: "string list"
  ro_user :: string
  ro_password :: string
  ro_db :: int
  ro_master :: string
  ro_sentinel_user :: string
  ro_sentinel_password :: string
  ro_tls :: bool

datatype redis_err = BadURL | InvalidDB | InvalidScheme string

definition zero_options :: redis_options where
  "zero_options =
     \<lparr>ro_addrs = [], ro_user = [], ro_password = [], ro_db = 0, ro_master = [],
      ro_sentinel_user = [], ro_sentinel_password = [], ro_tls = False\<rparr>"

definition set_db :: "string \<Rightarrow> redis_options \<Rightarrow> redis_err + redis_options" where
  "set_db s opts = (case Atoi s of Some db \<Rightarrow> Inr (opts\<lparr>ro_db := db\<rparr>) | None \<Rightarrow> Inl InvalidDB)"

definition parseRedisURL :: "(string \<Rightarrow> parsed_url option) \<Rightarrow> string \<Rightarrow> redis_err + redis_options" where
  "parseRedisURL parse addr =
     (if \<not> Contains addr ''://'' then Inr (zero_options\<lparr>ro_addrs := [addr]\<rparr>)
      else case parse addr of
        None \<Rightarrow> Inl BadURL
      | Some u \<Rightarrow>
          let opts = (case u_user u of
                        None \<Rightarrow> zero_options
                      | Some (name, pw) \<Rightarrow>
                          zero_options\<lparr>ro_user := name,
                            ro_password := (case pw of None \<Rightarrow> [] | Some p \<Rightarrow> p)\<rparr>);
              opts = opts\<lparr>ro_addrs := split_on (CHR '','') (u_host u)\<rparr>;
              q = u_query u
          in if u_scheme u = ''redis'' \<or> u_scheme u = ''rediss'' then
               map_sum id (\<lambda>o1. if u_scheme u = ''rediss'' then o1\<lparr>ro_tls := True\<rparr> else o1)
                 (if u_path u \<noteq> [] \<and> u_path u \<noteq> ''/'' then set_db (TrimPrefix (u_path u) ''/'') opts
                  else if q ''db'' \<noteq> [] then set_db (q ''db'') opts
                  else Inr opts)
             else if u_scheme u = ''redis-sentinel'' \<or> u_scheme u = ''rediss-sentinel'' then
               map_sum id
                 (\<lambda>o1.
                    let o2 = (if q ''sentinel_username'' \<noteq> []
                              then o1\<lparr>ro_sentinel_user := q ''sentinel_username''\<rparr> else o1);
                        o3 = (if q ''sentinel_password'' \<noteq> []
                              then o2\<lparr>ro_sentinel_password := q ''sentinel_password''\<rparr> else o2)
                    in if u_scheme u = ''rediss-sentinel'' then o3\<lparr>ro_tls := True\<rparr> else o3)
                 (let o0 = opts\<lparr>ro_master := TrimPrefix (u_path u) ''/''\<rparr> in
                  if q ''db'' \<noteq> [] then set_db (q ''db'') o0 else Inr o0)
             else Inl (InvalidScheme (u_scheme u)))"

text \<open>\<open>NewRedisStore\<close>: the client after the address is parsed, the ping and the default state.\<close>

definition NewRedisStore ::
  "(string \<Rightarrow> parsed_url option) \<Rightarrow> (redis_options \<Rightarrow> 'c) \<Rightarrow> ('c \<Rightarrow> bool) \<Rightarrow> (string \<Rightarrow> string \<Rightarrow> 'c \<Rightarrow> 'c)
    \<Rightarrow> (server_state \<Rightarrow> string option) \<Rightarrow> string \<Rightarrow> redis_err option + 'c" where
  "NewRedisStore parse connect ping put_nx enc addr =
     (case parseRedisURL parse addr of
        Inl e \<Rightarrow> Inl (Some e)
      | Inr opts \<Rightarrow>
          let c = connect opts in
          if \<not> ping c then Inl None
          else Inr (put_nx redisKey
                 (case enc \<lparr>Status = ''not_ready'', Draining = False\<rparr> of None \<Rightarrow> [] | Some b \<Rightarrow> b) c))"

section \<open>State elements\<close>

text \<open>The two callbacks of an element are kept as they are; the id is its key.\<close>

record 'f element =
  el_id :: string
  el_data :: 'f
  el_html :: 'f

definition NewElements :: "string \<rightharpoonup> 'f element" where
  "NewElements = Map.empty"

definition add_element :: "'f element \<Rightarrow> (string \<rightharpoonup> 'f element) \<Rightarrow> (string \<rightharpoonup> 'f element)" where
  "add_element e m = m(el_id e \<mapsto> e)"

definition get_element :: "string \<Rightarrow> (string \<rightharpoonup> 'f element) \<Rightarrow> 'f element option" where
  "get_element i m = m i"

definition elements :: "string list \<Rightarrow> (string \<rightharpoonup> 'f element) \<Rightarrow> 'f element list" where
  "elements order m = range_values order m"

section \<open>Properties\<close>

text \<open>
  A status change that runs alone keeps the draining flag, but loading and saving are two steps:
  when a drain starts between them it is lost, and the server takes work again although it was told
  to drain.
\<close>

theorem overlapping_set_loses_drain:
  "IsDraining memory_Load (SetState memory_Load memory_Store id status (server_StartDrain memory_Load memory_Store id m)) \<and>
   (\<not> IsDraining memory_Load m \<longrightarrow>
     \<not> IsDraining memory_Load
        (SetState memory_Load memory_Store (server_StartDrain memory_Load memory_Store id) status m) \<and>
     GetState memory_Load
        (SetState memory_Load memory_Store (server_StartDrain memory_Load memory_Store id) status m) = status)"
  by (simp add: memory.set_keeps_draining memory.drain_sets memory.overlapped_set memory.set_then_get)

lemma overlapping_set_loses_drain_witness:
  "\<not> IsDraining memory_Load
     (SetState memory_Load memory_Store (server_StartDrain memory_Load memory_Store id) ''ready'' NewMemoryStore)"
proof -
  have "\<not> IsDraining memory_Load NewMemoryStore"
    by (simp add: IsDraining_def memory_Load_def NewMemoryStore_def)
  with overlapping_set_loses_drain [of "''ready''" NewMemoryStore] show ?thesis by blast
qed

end
