(* ===== verification/Access.thy ===== *)
theory Access
  imports GoPrelude
begin

text \<open>
  Who may call: the middlewares of \<^verbatim>\<open>sdk/base/auth\<close> over the two headers they read, and the checks the
  worker and tunnel endpoints repeat.  A verdict is passing the request on or the \<open>401\<close> answer.
\<close>

datatype verdict = Pass | Unauthorized

text \<open>The two headers, empty when absent (\<^verbatim>\<open>Header.Get\<close>).\<close>

record auth_request =
  hd_authorization :: string
  hd_roles :: string

definition ExtractBearer :: "auth_request \<Rightarrow> string" where
  "ExtractBearer r =
     (let auth = hd_authorization r in
      if HasPrefix (ToLower auth) ''bearer '' then TrimSpace (drop 7 auth) else [])"

definition CheckSecret :: "string \<Rightarrow> string \<Rightarrow> bool" where
  "CheckSecret token expected \<longleftrightarrow> expected = [] \<or> token = expected"

definition BearerSecretMiddleware :: "string \<Rightarrow> auth_request \<Rightarrow> verdict" where
  "BearerSecretMiddleware secret r =
     (if secret = [] then Pass
      else let tok = ExtractBearer r in if tok = [] \<or> tok \<noteq> secret then Unauthorized else Pass)"

fun matchesAnySecret_loop :: "string \<Rightarrow> string list \<Rightarrow> bool" where
  "matchesAnySecret_loop token [] = False"
| "matchesAnySecret_loop token (s # ss) =
     (let t = TrimSpace s in if t \<noteq> [] \<and> token = t then True else matchesAnySecret_loop token ss)"

definition matchesAnySecret :: "string \<Rightarrow> string list \<Rightarrow> bool" where
  "matchesAnySecret token secrets =
     (if token = [] \<or> length secrets = 0 then False else matchesAnySecret_loop token secrets)"

text \<open>The set of allowed roles as the list of the keys put into the map.\<close>

fun allowed_set :: "string list \<Rightarrow> string list" where
  "allowed_set [] = []"
| "allowed_set (r # rs) = (let rr = TrimSpace r in if rr \<noteq> [] then rr # allowed_set rs else allowed_set rs)"

fun any_item :: "string list \<Rightarrow> string list \<Rightarrow> bool" where
  "any_item allow [] = False"
| "any_item allow (it # items) = (if TrimSpace it \<in> set allow then True else any_item allow items)"

definition hasAnyAllowedRole :: "string \<Rightarrow> string list \<Rightarrow> bool" where
  "hasAnyAllowedRole header allowed =
     (if header = [] \<or> length allowed = 0 then False
      else any_item (allowed_set allowed) (split_on (CHR '','') header))"

definition BearerAnyOrRolesMiddleware :: "string list \<Rightarrow> string list \<Rightarrow> auth_request \<Rightarrow> verdict" where
  "BearerAnyOrRolesMiddleware secrets allowedRoles r =
     (if length secrets = 0 \<and> length allowedRoles = 0 then Pass
      else
        let tok = ExtractBearer r in
        if tok \<noteq> [] \<and> matchesAnySecret tok secrets then Pass
        else if hasAnyAllowedRole (hd_roles r) allowedRoles then Pass
        else Unauthorized)"

definition BearerOrRolesMiddleware :: "string \<Rightarrow> string list \<Rightarrow> auth_request \<Rightarrow> verdict" where
  "BearerOrRolesMiddleware secret allowedRoles = BearerAnyOrRolesMiddleware [secret] allowedRoles"

section \<open>Lemmas\<close>

lemma matchesAnySecret_iff:
  "matchesAnySecret token secrets \<longleftrightarrow> token \<noteq> [] \<and> (\<exists>s \<in> set secrets. TrimSpace s = token)"
proof -
  have "matchesAnySecret_loop token ss \<longleftrightarrow> token \<noteq> [] \<and> (\<exists>s \<in> set ss. TrimSpace s = token)" for ss
    by (induction ss) (auto simp: Let_def)
  then show ?thesis by (auto simp: matchesAnySecret_def)
qed

lemma set_allowed: "set (allowed_set rs) = TrimSpace ` set rs - {[]}"
  by (induction rs) (auto simp: Let_def)

lemma any_item_iff: "any_item allow items \<longleftrightarrow> (\<exists>it \<in> set items. TrimSpace it \<in> set allow)"
  by (induction items) auto

lemma hasAnyAllowedRole_iff:
  "hasAnyAllowedRole header allowed \<longleftrightarrow>
     (\<exists>it \<in> set (split_on (CHR '','') header). TrimSpace it \<noteq> [] \<and> (\<exists>a \<in> set allowed. TrimSpace a = TrimSpace it))"
proof -
  have "hasAnyAllowedRole header allowed \<longleftrightarrow>
      (\<exists>it \<in> set (split_on (CHR '','') header). TrimSpace it \<in> TrimSpace ` set allowed - {[]})"
    if "header \<noteq> []" "allowed \<noteq> []"
    using that by (simp add: hasAnyAllowedRole_def any_item_iff set_allowed)
  moreover have "TrimSpace it \<in> TrimSpace ` set allowed - {[]} \<longleftrightarrow>
      TrimSpace it \<noteq> [] \<and> (\<exists>a \<in> set allowed. TrimSpace a = TrimSpace it)" for it
  proof -
    have "TrimSpace it \<in> TrimSpace ` set allowed \<longleftrightarrow> (\<exists>a \<in> set allowed. TrimSpace a = TrimSpace it)"
      by (auto simp: image_iff dest: sym)
    then show ?thesis by blast
  qed
  ultimately show ?thesis
    by (cases "header = [] \<or> allowed = []") (auto simp: hasAnyAllowedRole_def)
qed

section \<open>Properties\<close>


text \<open>
  The variant for a single secret wraps it into a list, so the case of nothing configured is never
  reached: with an empty secret and no roles it refuses every request, where its comment promises
  to allow all.
\<close>

theorem empty_secret_refuses_all:
  "BearerOrRolesMiddleware [] [] r = Unauthorized \<and> BearerAnyOrRolesMiddleware [] [] r = Pass"
  by (simp add: BearerOrRolesMiddleware_def BearerAnyOrRolesMiddleware_def Let_def matchesAnySecret_iff
      hasAnyAllowedRole_iff)

end
