(* ===== verification/WorkerSocket.thy ===== *)
theory WorkerSocket
  imports WorkerSafety WorkerMetrics ServerState Access
begin

text \<open>
  The websocket endpoint workers connect to, \<^verbatim>\<open>sdk/base/worker/ws.go\<close>: registration and its
  authorisation, the loop that reads the worker's messages and passes answers to the waiting
  requests, the goroutine that writes to the worker, and the clean-up when the connection ends.
\<close>

section \<open>Messages\<close>

record register_msg =
  rg_id :: string
  rg_name :: string
  rg_models :: "string list"
  rg_max :: int
  rg_version :: string
  rg_sha :: string
  rg_date :: string
  rg_config :: "(string \<times> string) list option"

record status_msg =
  su_max :: int
  su_models :: "string list option"
  su_status :: string
  su_config :: "(string \<times> string) list option"

text \<open>
  A frame by the \<^verbatim>\<open>type\<close> of its envelope, with the message it decodes to; \<open>None\<close> is a message that
  does not decode, \<open>NotEnvelope\<close> a frame whose envelope does not.
\<close>

datatype frame =
    NotEnvelope
  | FHeartbeat "(rat \<times> rat) option"
  | FStatusUpdate "status_msg option"
  | FJobChunk "(string \<times> string) option"
  | FJobResult "(string \<times> string) option"
  | FJobError "(string \<times> string \<times> string) option"
  | FHeaders "(string \<times> int \<times> (string \<times> string) list) option"
  | FChunk "(string \<times> string) option"
  | FEnd "(string \<times> proxy_error option) option"
  | FOther string

section \<open>State\<close>

text \<open>\<open>so_server\<close> is \<open>None\<close> when the handler is built without a server state.\<close>

record socket_state =
  so_reg :: wstate
  so_metrics :: metrics_reg
  so_server :: "memory_store option"

definition is_draining :: "socket_state \<Rightarrow> bool" where
  "is_draining s = (case so_server s of None \<Rightarrow> False | Some m \<Rightarrow> IsDraining memory_Load m)"

definition SetStatus :: "string \<Rightarrow> socket_state \<Rightarrow> socket_state" where
  "SetStatus status s = s\<lparr>so_server := map_option (SetState memory_Load memory_Store (\<lambda>m. m) status) (so_server s)\<rparr>"

section \<open>Registration\<close>

definition checkBearer :: "string \<Rightarrow> string \<Rightarrow> bool" where
  "checkBearer authHeader expected =
     (if expected = [] then False
      else
        let ah = TrimSpace authHeader in
        if ah = [] then False
        else if HasPrefix (ToLower ah) ''bearer '' then
          let tok = TrimSpace (drop 7 ah) in tok = expected
        else False)"

definition worker_has_role :: "string \<Rightarrow> string list \<Rightarrow> bool" where
  "worker_has_role header allowed =
     (if header = [] \<or> length allowed = 0 then False
      else any_item (allowed_set allowed) (split_on (CHR '','') header))"

definition worker_authorized :: "string \<Rightarrow> string list \<Rightarrow> string \<Rightarrow> string \<Rightarrow> bool" where
  "worker_authorized clientKey allowedRoles roles auth \<longleftrightarrow>
     clientKey = [] \<or> worker_has_role roles allowedRoles \<or> checkBearer auth clientKey"

definition worker_name :: "register_msg \<Rightarrow> string \<Rightarrow> string" where
  "worker_name rm remote =
     (if rg_name rm = [] then
        (if 8 \<le> length (rg_id rm) then take 8 (rg_id rm)
         else if rg_id rm \<noteq> [] then rg_id rm
         else hd (split_on (CHR '':'') remote))
      else rg_name rm)"

definition pref_batch :: "(string \<times> string) list option \<Rightarrow> int" where
  "pref_batch config =
     (case config of
        None \<Rightarrow> 0
      | Some c \<Rightarrow>
          (case map_of c ''embedding_batch_size'' of
             None \<Rightarrow> 0
           | Some v \<Rightarrow> (case Atoi v of Some b \<Rightarrow> b | None \<Rightarrow> 0)))"

definition registered_worker :: "register_msg \<Rightarrow> string \<Rightarrow> time \<Rightarrow> nat \<Rightarrow> worker" where
  "registered_worker rm remote now n =
     \<lparr>w_id = rg_id rm, w_name = worker_name rm remote, w_labels = label_set [] (rg_models rm),
      w_max = rg_max rm, w_batch = pref_batch (rg_config rm), w_inflight = 0, w_heartbeat = now,
      w_send = Some n, w_jobs = []\<rparr>"

text \<open>\<open>p\<close> is the new worker's address and \<open>n\<close> its send channel.\<close>

definition ws_join :: "register_msg \<Rightarrow> string \<Rightarrow> time \<Rightarrow> nat \<Rightarrow> nat \<Rightarrow> socket_state \<Rightarrow> socket_state" where
  "ws_join rm remote now p n s =
     (let wk = registered_worker rm remote now n;
          s = s\<lparr>so_reg := register p wk (so_reg s)\<rparr>;
          s = (if so_server s \<noteq> None \<and> WorkerCount (so_reg s) = 1 then SetStatus ''ready'' s else s);
          m = UpsertWorker (w_id wk) (w_name wk) (rg_version rm) (rg_sha rm) (rg_date rm) (rg_max rm)
                (pref_batch (rg_config rm)) now (so_metrics s);
          m = SetWorkerHostInfo (w_id wk) (rg_config rm) m;
          status = (if rg_max rm = 0 then StatusNotReady else StatusIdle)
      in s\<lparr>so_metrics := SetWorkerStatus (w_id wk) status m\<rparr>)"

section \<open>The end of a connection\<close>

text \<open>How a step ends: normally, never, or with a panic, after which the deferred calls still run.\<close>

datatype ws_signal = Okay | Stuck | Crash

definition ws_leave :: "string \<Rightarrow> socket_state \<Rightarrow> ws_signal \<times> socket_state" where
  "ws_leave i s =
     (case Remove i (so_reg s) of
        Done r \<Rightarrow>
          let s = s\<lparr>so_reg := r, so_metrics := RemoveWorker i (so_metrics s)\<rparr> in
          (Okay, if so_server s \<noteq> None \<and> \<not> is_draining s \<and> WorkerCount (so_reg s) = 0
                 then SetStatus ''not_ready'' s else s)
      | Blocks \<Rightarrow> (Stuck, s)
      | Panics \<Rightarrow> (Crash, s))"

section \<open>Reading\<close>

text \<open>
  Passing an answer on: the channel is looked up under the worker's lock and used after the lock is
  released, so \<open>between\<close>, what other goroutines do, comes in between.  A last answer also takes the
  channel out of the table and closes it.
\<close>

definition send_on :: "nat option \<Rightarrow> wire \<Rightarrow> wstate \<Rightarrow> ws_signal \<times> wstate" where
  "send_on h m s =
     (case send_chan h m (ws_chans s) of
        Done cs \<Rightarrow> (Okay, s\<lparr>ws_chans := cs\<rparr>)
      | Blocks \<Rightarrow> (Stuck, s)
      | Panics \<Rightarrow> (Crash, s))"

definition close_on :: "nat option \<Rightarrow> wstate \<Rightarrow> ws_signal \<times> wstate" where
  "close_on h s =
     (case close_chan h (ws_chans s) of
        Done cs \<Rightarrow> (Okay, s\<lparr>ws_chans := cs\<rparr>)
      | Blocks \<Rightarrow> (Stuck, s)
      | Panics \<Rightarrow> (Crash, s))"

definition relay :: "nat \<Rightarrow> string \<Rightarrow> wire \<Rightarrow> (wstate \<Rightarrow> wstate) \<Rightarrow> wstate \<Rightarrow> ws_signal \<times> wstate" where
  "relay p i m between s =
     (case job_chan p i s of
        None \<Rightarrow> (Okay, between s)
      | Some h \<Rightarrow> send_on h m (between s))"

definition relay_last :: "nat \<Rightarrow> string \<Rightarrow> wire \<Rightarrow> (wstate \<Rightarrow> wstate) \<Rightarrow> wstate \<Rightarrow> ws_signal \<times> wstate" where
  "relay_last p i m between s =
     (case job_chan p i s of
        None \<Rightarrow> (Okay, between s)
      | Some h \<Rightarrow>
          (case send_on h m (between (forget_job p i s)) of
             (Okay, s) \<Rightarrow> close_on h s
           | r \<Rightarrow> r))"

definition with_reg :: "socket_state \<Rightarrow> ws_signal \<times> wstate \<Rightarrow> ws_signal \<times> socket_state" where
  "with_reg s r = (fst r, s\<lparr>so_reg := snd r\<rparr>)"

definition apply_status :: "nat \<Rightarrow> string \<Rightarrow> status_msg \<Rightarrow> socket_state \<Rightarrow> socket_state" where
  "apply_status p i m s =
     (let batch = pref_batch (su_config m);
          r = update_worker p (\<lambda>w.
                let w = w\<lparr>w_max := su_max m, w_batch := batch\<rparr>
                in case su_models m of None \<Rightarrow> w | Some ms \<Rightarrow> w\<lparr>w_labels := label_set [] ms\<rparr>) (so_reg s);
          x = UpdateWorker i (su_max m) batch (so_metrics s);
          x = (if su_config m \<noteq> None then SetWorkerHostInfo i (su_config m) x else x);
          x = (if su_status m \<noteq> [] then SetWorkerStatus i (su_status m) x else x)
      in s\<lparr>so_reg := r, so_metrics := x\<rparr>)"

definition ws_message ::
  "nat \<Rightarrow> string \<Rightarrow> time \<Rightarrow> (wstate \<Rightarrow> wstate) \<Rightarrow> frame \<Rightarrow> socket_state \<Rightarrow> ws_signal \<times> socket_state" where
  "ws_message p i now between f s =
     (case f of
        FHeartbeat (Some (cpu, ram)) \<Rightarrow>
          (Okay, s\<lparr>so_reg := UpdateHeartbeat i now (so_reg s),
                   so_metrics := RecordHeartbeat i cpu ram now (so_metrics s)\<rparr>)
      | FStatusUpdate (Some m) \<Rightarrow> (Okay, apply_status p i m s)
      | FJobChunk (Some (j, d)) \<Rightarrow> with_reg s (relay p j (JobChunk j d) between (so_reg s))
      | FJobResult (Some (j, d)) \<Rightarrow> with_reg s (relay_last p j (JobResult j d) between (so_reg s))
      | FJobError (Some (j, c, e)) \<Rightarrow> with_reg s (relay_last p j (JobError j c e) between (so_reg s))
      | FHeaders (Some (j, st, hs)) \<Rightarrow>
          with_reg s (relay p j (HTTPProxyResponseHeaders j st hs) between (so_reg s))
      | FChunk (Some (j, d)) \<Rightarrow> with_reg s (relay p j (HTTPProxyResponseChunk j d) between (so_reg s))
      | FEnd (Some (j, e)) \<Rightarrow> with_reg s (relay_last p j (HTTPProxyResponseEnd j e) between (so_reg s))
      | _ \<Rightarrow> (Okay, s))"

text \<open>One turn of the read loop; \<open>None\<close> for the frame is a failed read, which ends the loop.\<close>

record turn =
  tn_before :: "socket_state \<Rightarrow> socket_state"
  tn_frame :: "frame option"
  tn_now :: time
  tn_between :: "wstate \<Rightarrow> wstate"

datatype loop_end = Ended | Waiting | Jammed | Crashed

fun ws_loop :: "nat \<Rightarrow> string \<Rightarrow> turn list \<Rightarrow> socket_state \<Rightarrow> loop_end \<times> socket_state" where
  "ws_loop p i [] s = (Waiting, s)"
| "ws_loop p i (t # ts) s =
     (let s = tn_before t s in
      case tn_frame t of
        None \<Rightarrow> (Ended, s)
      | Some f \<Rightarrow>
          (case ws_message p i (tn_now t) (tn_between t) f s of
             (Okay, s) \<Rightarrow> ws_loop p i ts s
           | (Stuck, s) \<Rightarrow> (Jammed, s)
           | (Crash, s) \<Rightarrow> (Crashed, s)))"

section \<open>Writing\<close>

datatype write_result = MarshalErr | WriteErr | Written

fun writer_loop :: "nat option \<Rightarrow> write_result list \<Rightarrow> wire chans \<Rightarrow> wire list \<times> wire chans" where
  "writer_loop h [] cs = ([], cs)"
| "writer_loop h (r # rs) cs =
     (case recv_chan h cs of
        Done (Some m, cs) \<Rightarrow>
          (case r of
             MarshalErr \<Rightarrow> writer_loop h rs cs
           | WriteErr \<Rightarrow> ([], cs)
           | Written \<Rightarrow> let (sent, cs) = writer_loop h rs cs in (m # sent, cs))
      | _ \<Rightarrow> ([], cs))"

section \<open>The handler\<close>

datatype first_read = ReadFails | FirstFrame "string option" "register_msg option"

record connection =
  cn_remote :: string
  cn_roles :: string
  cn_auth :: string
  cn_accept :: bool
  cn_first :: first_read
  cn_now :: time
  cn_turns :: "turn list"

datatype ws_answer =
    Unavailable | NotAccepted | NoRegister | PolicyViolation string | BadRegister
  | Serving | Finished ws_signal

definition WSHandler ::
  "string \<Rightarrow> string list \<Rightarrow> connection \<Rightarrow> nat \<Rightarrow> nat \<Rightarrow> socket_state \<Rightarrow> ws_answer \<times> socket_state" where
  "WSHandler clientKey allowedRoles c p n s =
     (if so_server s \<noteq> None \<and> is_draining s then (Unavailable, s)
      else if \<not> cn_accept c then (NotAccepted, s)
      else
        case cn_first c of
          ReadFails \<Rightarrow> (NoRegister, s)
        | FirstFrame env msg \<Rightarrow>
            if env \<noteq> Some ''register'' then (PolicyViolation ''expected register'', s)
            else
              case msg of
                None \<Rightarrow> (BadRegister, s)
              | Some rm \<Rightarrow>
                  if \<not> worker_authorized clientKey allowedRoles (cn_roles c) (cn_auth c)
                  then (PolicyViolation ''unauthorized'', s)
                  else
                    let s = ws_join rm (cn_remote c) (cn_now c) p n s in
                    case ws_loop p (rg_id rm) (cn_turns c) s of
                      (Ended, s) \<Rightarrow> let (g, s) = ws_leave (rg_id rm) s in (Finished g, s)
                    | (Crashed, s) \<Rightarrow> let (g, s) = ws_leave (rg_id rm) s in (Finished Crash, s)
                    | (_, s) \<Rightarrow> (Serving, s))"


section \<open>Lemmas\<close>

lemma register_tables [simp]:
  "ws_table (register p w s) = (ws_table s)(w_id w \<mapsto> p)" "ws_heap (register p w s) = (ws_heap s)(p \<mapsto> w)"
  "ws_chans (register p w s) =
     (case w_send w of None \<Rightarrow> ws_chans s | Some n \<Rightarrow> (ws_chans s)(n \<mapsto> new_chan 32))"
  by (simp_all add: register_def Add_def)

lemma SetStatus_frame [simp]:
  "so_reg (SetStatus st s) = so_reg s" "so_metrics (SetStatus st s) = so_metrics s"
  "is_draining (SetStatus st s) = is_draining s"
  by (simp_all add: SetStatus_def is_draining_def memory.set_keeps_draining [unfolded id_def] split: option.splits)

lemma ws_join_reg [simp]: "so_reg (ws_join rm remote now p n s) = register p (registered_worker rm remote now n) (so_reg s)"
  by (simp add: ws_join_def Let_def)

lemma send_held:
  assumes "wsafe s T" "h \<in> T"
  shows "send_on (Some h) m s = (Stuck, s) \<or>
    (\<exists>cs. send_on (Some h) m s = (Okay, s\<lparr>ws_chans := cs\<rparr>) \<and> is_open h cs)"
proof -
  have o: "is_open h (ws_chans s)" using wsafeD(1) [OF assms(1), of SlotTaken h] assms(2) by simp
  from send_open [OF o, of m] send_is_open [of "Some h" m "ws_chans s" _ h] o show ?thesis
    by (cases "send_chan (Some h) m (ws_chans s)") (auto simp: send_on_def)
qed

lemma close_held: "is_open h (ws_chans s) \<Longrightarrow> fst (close_on (Some h) s) = Okay"
  using close_open [of h "ws_chans s"] by (auto simp: close_on_def)

lemma remove_job_closes:
  assumes "job_chan p j s = Some (Some h)" "RemoveJob p j s = Done r"
  shows "send_on (Some h) m r = (Crash, r)"
proof -
  from assms obtain cs where cs: "close_chan (Some h) (ws_chans s) = Done cs" "ws_chans r = cs"
    by (cases "close_chan (Some h) (ws_chans s)") (auto simp: RemoveJob_def)
  with close_closes [OF cs(1)] obtain c where "ws_chans r h = Some c" "gc_closed c" by auto
  then have "send_chan (Some h) m (ws_chans r) = Panics" by (rule send_closed)
  then show ?thesis by (simp add: send_on_def)
qed

lemma Remove_gone: "Remove i s = Done s' \<Longrightarrow> ws_table s' i = None"
  by (auto simp: Remove_def drop_jobs_def split: option.splits if_splits)

section \<open>Properties\<close>

text \<open>
  The last message of an answer never brings the connection of its worker down, whatever the
  other goroutines do between the lookup of the waiting request and the send: the channel has left
  the table, so nobody else closes it.
\<close>

theorem last_answer_never_crashes:
  assumes "wsafe (so_reg s) T" "\<And>r T. wsafe r T \<Longrightarrow> wsafe (between r) T"
    and "f = FJobResult (Some (j, d)) \<or> f = FJobError (Some (j, c, d)) \<or> f = FEnd (Some (j, e))"
    and "job_chan p j (so_reg s) \<noteq> Some None"
  shows "fst (ws_message p i now between f s) \<noteq> Crash"
proof -
  have "fst (relay_last p j m between (so_reg s)) \<noteq> Crash" for m
  proof (cases "job_chan p j (so_reg s)")
    case None
    then show ?thesis by (simp add: relay_last_def)
  next
    case (Some ho)
    with assms(4) obtain h where h: "job_chan p j (so_reg s) = Some (Some h)" by (cases ho) auto
    define r where "r = between (forget_job p j (so_reg s))"
    have "wsafe r (insert h T)" unfolding r_def by (intro assms(2) take_safe [OF assms(1) h])
    from send_held [OF this insertI1, of m] show ?thesis
    proof
      assume "send_on (Some h) m r = (Stuck, r)"
      with h show ?thesis by (simp add: relay_last_def r_def)
    next
      assume "\<exists>cs. send_on (Some h) m r = (Okay, r\<lparr>ws_chans := cs\<rparr>) \<and> is_open h cs"
      then obtain cs where cs: "send_on (Some h) m r = (Okay, r\<lparr>ws_chans := cs\<rparr>)" "is_open h cs" by blast
      then have "relay_last p j m between (so_reg s) = close_on (Some h) (r\<lparr>ws_chans := cs\<rparr>)"
        by (simp add: relay_last_def h r_def)
      with close_held [of h "r\<lparr>ws_chans := cs\<rparr>"] cs(2) show ?thesis by simp
    qed
  qed
  with assms(3) show ?thesis by (auto simp: ws_message_def with_reg_def)
qed

text \<open>
  An intermediate message brings it down when the request gives up between the lookup and the
  send: the read loop panics, and the clean-up removes the worker.
\<close>

theorem late_chunk_drops_worker:
  assumes "wsafe (so_reg s) T" "job_chan p j (so_reg s) = Some (Some h)"
    and "tn_before t = (\<lambda>s. s)" "tn_frame t = Some (FChunk (Some (j, d)))"
    and "\<And>r. RemoveJob p j (so_reg s) = Done r \<Longrightarrow> tn_between t (so_reg s) = r"
  shows "\<exists>s' s''. ws_loop p i (t # ts) s = (Crashed, s') \<and> ws_leave i s' = (Okay, s'') \<and>
    ws_table (so_reg s'') i = None \<and> mr_workers (so_metrics s'') i = None"
proof -
  from RemoveJob_safe [OF assms(1)] obtain r where r: "RemoveJob p j (so_reg s) = Done r" "wsafe r T" by blast
  let ?s = "s\<lparr>so_reg := r\<rparr>"
  have "ws_message p i (tn_now t) (tn_between t) (FChunk (Some (j, d))) s = (Crash, ?s)"
    using remove_job_closes [OF assms(2) r(1)] assms(2) assms(5) [OF r(1)]
    by (simp add: ws_message_def with_reg_def relay_def)
  with assms(3,4) have loop: "ws_loop p i (t # ts) s = (Crashed, ?s)" by simp
  from Remove_safe [OF r(2)] obtain r' where r': "Remove i r = Done r'" by blast
  have "ws_table r' i = None" by (rule Remove_gone [OF r'])
  with r' have "\<exists>s''. ws_leave i ?s = (Okay, s'') \<and> ws_table (so_reg s'') i = None \<and> mr_workers (so_metrics s'') i = None"
    by (simp add: ws_leave_def Let_def RemoveWorker_def)
  with loop show ?thesis by blast
qed


definition busy_state :: socket_state where
  "busy_state =
     \<lparr>so_reg = AddJob 0 ''r'' (Some 1)
        ((register 0 (sample_worker ''w'' 0) NewWorkerRegistry)
           \<lparr>ws_chans := (ws_chans (register 0 (sample_worker ''w'' 0) NewWorkerRegistry))(1 \<mapsto> new_chan 16)\<rparr>),
      so_metrics = NewMetricsRegistry [] [] [] 0, so_server = Some NewMemoryStore\<rparr>"

lemma busy_state_safe: "wsafe (so_reg busy_state) {}"
proof -
  let ?s = "register 0 (sample_worker ''w'' 0) NewWorkerRegistry"
  have safe: "wsafe ?s {}"
    by (rule register_safe [OF NewWorkerRegistry_safe, where n = 0])
       (simp_all add: NewWorkerRegistry_def sample_worker_def)
  have "ws_heap ?s 0 = Some (sample_worker ''w'' 0)" by simp
  moreover have "ws_chans ?s 1 = None" by (simp add: register_def Add_def NewWorkerRegistry_def sample_worker_def)
  moreover have "''r'' \<notin> fst ` set (w_jobs (sample_worker ''w'' 0))" by (simp add: sample_worker_def)
  ultimately have "wsafe (AddJob 0 ''r'' (Some 1) (?s\<lparr>ws_chans := (ws_chans ?s)(1 \<mapsto> new_chan 16)\<rparr>)) {}"
    by (intro addjob_safe [OF safe])
  then show ?thesis by (simp add: busy_state_def)
qed

lemma busy_state_chan: "job_chan 0 ''r'' (so_reg busy_state) = Some (Some 1)"
  by code_simp

lemma last_answer_never_crashes_witness:
  "fst (ws_message 0 ''w'' 5 (\<lambda>r. r) (FJobResult (Some (''r'', ''data''))) busy_state) \<noteq> Crash"
  by (rule last_answer_never_crashes [OF busy_state_safe, where j = "''r''" and d = "''data''"])
     (simp_all add: busy_state_chan)

definition late_turn :: turn where
  "late_turn = \<lparr>tn_before = (\<lambda>s. s), tn_frame = Some (FChunk (Some (''r'', ''data''))), tn_now = 5,
     tn_between = (\<lambda>r. case RemoveJob 0 ''r'' r of Done r' \<Rightarrow> r' | _ \<Rightarrow> r)\<rparr>"

lemma late_chunk_drops_worker_witness:
  "\<exists>s' s''. ws_loop 0 ''w'' [late_turn] busy_state = (Crashed, s') \<and> ws_leave ''w'' s' = (Okay, s'') \<and>
     ws_table (so_reg s'') ''w'' = None"
  using late_chunk_drops_worker [OF busy_state_safe busy_state_chan, of late_turn "''data''" "''w''" "[]"]
  by (auto simp: late_turn_def)

text \<open>
  Two connections that register under one id: when the first ends, the clean-up removes the
  second worker and closes its send channel, while its own stays open.
\<close>

theorem reconnect_is_evicted:
  assumes "rg_id rm2 = rg_id rm1" "p1 \<noteq> p2" "n1 \<noteq> n2"
  shows "\<exists>s'. ws_leave (rg_id rm1) (ws_join rm2 h2 t2 p2 n2 (ws_join rm1 h1 t1 p1 n1 s)) = (Okay, s') \<and>
    ws_table (so_reg s') (rg_id rm1) = None \<and> is_open n1 (ws_chans (so_reg s')) \<and>
    \<not> is_open n2 (ws_chans (so_reg s'))"
proof -
  let ?w = "registered_worker rm2 h2 t2 n2"
  let ?r1 = "register p1 (registered_worker rm1 h1 t1 n1) (so_reg s)"
  let ?r = "register p2 ?w ?r1"
  have c: "ws_chans ?r = (ws_chans (so_reg s))(n1 \<mapsto> new_chan 32, n2 \<mapsto> new_chan 32)"
    by (simp add: registered_worker_def)
  obtain r' where r': "Remove (rg_id rm1) ?r = Done r'" "ws_chans r' = (ws_chans ?r)(n2 \<mapsto> (new_chan 32)\<lparr>gc_closed := True\<rparr>)"
    using assms by (auto simp: Remove_def drop_jobs_def c update_worker_heap close_chan_def new_chan_def registered_worker_def)
  have "is_open n1 (ws_chans r')" "\<not> is_open n2 (ws_chans r')"
    using assms(3) by (auto simp: r'(2) registered_worker_def is_open_def new_chan_def)
  with r'(1) Remove_gone [OF r'(1)] show ?thesis by (simp add: ws_leave_def Let_def)
qed

lemma reconnect_is_evicted_witness:
  "\<exists>s'. ws_leave ''w'' (ws_join \<lparr>rg_id = ''w'', rg_name = [], rg_models = [], rg_max = 1, rg_version = [],
       rg_sha = [], rg_date = [], rg_config = None\<rparr> ''h:1'' 2 3 3
     (ws_join \<lparr>rg_id = ''w'', rg_name = [], rg_models = [], rg_max = 1, rg_version = [],
       rg_sha = [], rg_date = [], rg_config = None\<rparr> ''h:0'' 1 2 2 busy_state)) = (Okay, s') \<and>
    ws_table (so_reg s') ''w'' = None"
  using reconnect_is_evicted [of "\<lparr>rg_id = ''w'', rg_name = [], rg_models = [], rg_max = 1, rg_version = [],
       rg_sha = [], rg_date = [], rg_config = None\<rparr>" "\<lparr>rg_id = ''w'', rg_name = [], rg_models = [], rg_max = 1,
       rg_version = [], rg_sha = [], rg_date = [], rg_config = None\<rparr>" 2 3 2 3 "''h:1''" 2 "''h:0''" 1 busy_state]
  by auto

end
