(* ===== verification/Routes.thy ===== *)
theory Routes
  imports ServerSettings WorkerSocket HttpWriter
begin

text \<open>
  The routes of the server and what stands before each: \<^verbatim>\<open>server.New\<close>, the \<^verbatim>\<open>RegisterRoutes\<close> of the
  extensions, \<^verbatim>\<open>openai.Mount\<close> and the middlewares, in the order they are put in place.  The router
  itself is a library: patterns are kept as they are written, and no two of them overlap in a way that
  depends on its rules but for those it documents (a static part before a parameter before \<open>*\<close>).
\<close>

section \<open>Routes\<close>

datatype endpoint =
    Healthz | OpenAPI | Swagger | StatePage | Metrics
  | TransferCreate | TransferRead | TransferWrite
  | JobCreate | JobGet | JobEvents | JobCancel
  | JobClaim | JobStream | JobPayload | JobResultRequest | JobStatus
  | ApiState | ApiStateStream | StateView | StateDescriptors
  | ExtRoot string | ExtConnect string
  | LlmChat | LlmResponses | LlmEmbeddings | LlmModels | LlmModel
  | TargetChat | TargetResponses | TargetEmbeddings | TargetModels | TargetModel
  | AsrModels | AsrModel | AsrTranscribe | DocFile | DocSource | McpRequest

text \<open>
  What a request passes: the check for a drain, the check of credentials against secrets and roles,
  the counting for the drain.
\<close>

datatype guard = NotDraining | Credentials "string list" "string list" | Counted

text \<open>\<open>None\<close> for the verb is a route for all of them.\<close>

record route =
  re_verb :: "string option"
  re_path :: string
  re_guards :: "guard list"
  re_endpoint :: endpoint

definition Get :: "string \<Rightarrow> endpoint \<Rightarrow> route" where
  "Get p e = \<lparr>re_verb = Some ''GET'', re_path = p, re_guards = [], re_endpoint = e\<rparr>"

definition Post :: "string \<Rightarrow> endpoint \<Rightarrow> route" where
  "Post p e = \<lparr>re_verb = Some ''POST'', re_path = p, re_guards = [], re_endpoint = e\<rparr>"

definition Handle :: "string \<Rightarrow> endpoint \<Rightarrow> route" where
  "Handle p e = \<lparr>re_verb = None, re_path = p, re_guards = [], re_endpoint = e\<rparr>"

definition Use :: "guard list \<Rightarrow> route list \<Rightarrow> route list" where
  "Use gs rs = map (\<lambda>r. r\<lparr>re_guards := gs @ re_guards r\<rparr>) rs"

definition Route :: "string \<Rightarrow> route list \<Rightarrow> route list" where
  "Route p rs = map (\<lambda>r. r\<lparr>re_path := p @ re_path r\<rparr>) rs"

section \<open>The extensions\<close>

text \<open>The middleware the server hands to the extensions.\<close>

definition authMW :: "server_config \<Rightarrow> guard list" where
  "authMW c =
     (if sc_api_key c \<noteq> [] \<or> sc_api_roles c \<noteq> [] then [Credentials [sc_api_key c] (sc_api_roles c)] else [])"

definition base_routes :: "string \<Rightarrow> route list" where
  "base_routes i = [Get ''/'' (ExtRoot i)]"

definition openai_Mount :: "route list" where
  "openai_Mount =
     [Post ''/chat/completions'' LlmChat, Post ''/responses'' LlmResponses, Post ''/embeddings'' LlmEmbeddings,
      Get ''/models'' LlmModels, Get ''/models/{id}'' LlmModel]"

definition openai_MountTargeted :: "route list" where
  "openai_MountTargeted =
     [Post ''/chat/completions'' TargetChat, Post ''/responses'' TargetResponses, Post ''/embeddings'' TargetEmbeddings,
      Get ''/models'' TargetModels, Get ''/models/{model}'' TargetModel]"

definition llm_routes :: "server_config \<Rightarrow> route list" where
  "llm_routes c =
     base_routes ''llm'' @ [Handle ''/connect'' (ExtConnect ''llm'')] @
     Use ([NotDraining] @ authMW c @ [Counted])
       (Route ''/v1'' openai_Mount @ Route ''/id/{id}/v1'' openai_MountTargeted)"

definition asr_routes :: "server_config \<Rightarrow> route list" where
  "asr_routes c =
     base_routes ''asr'' @ [Handle ''/connect'' (ExtConnect ''asr'')] @
     Use ([NotDraining] @ authMW c @ [Counted])
       (Route ''/v1''
          [Get ''/models'' AsrModels, Get ''/models/{id}'' AsrModel, Post ''/audio/transcriptions'' AsrTranscribe])"

definition docling_routes :: "server_config \<Rightarrow> route list" where
  "docling_routes c =
     base_routes ''docling'' @ [Handle ''/connect'' (ExtConnect ''docling'')] @
     Use ([NotDraining] @ authMW c @ [Counted])
       (Route ''/v1'' [Post ''/convert/file'' DocFile, Post ''/convert/source'' DocSource])"

text \<open>The relay is given the middleware too and leaves it aside.\<close>

definition mcp_routes :: "route list" where
  "mcp_routes =
     base_routes ''mcp'' @ [Handle ''/connect'' (ExtConnect ''mcp'')] @ Use [Counted] [Handle ''/id/{id}'' McpRequest]"

definition plugin_routes :: "server_config \<Rightarrow> string \<Rightarrow> route list" where
  "plugin_routes c i =
     (if i = ''llm'' then llm_routes c
      else if i = ''asr'' then asr_routes c
      else if i = ''docling'' then docling_routes c
      else if i = ''mcp'' then mcp_routes
      else [])"

definition RegisterSurface :: "server_config \<Rightarrow> string \<Rightarrow> route list" where
  "RegisterSurface c i = Route (''/api/'' @ i) (plugin_routes c i)"

section \<open>The server\<close>

definition state_routes :: "server_config \<Rightarrow> route list" where
  "state_routes c =
     Use (if sc_api_key c \<noteq> [] \<or> sc_api_roles c \<noteq> [] then [Credentials [sc_api_key c] (sc_api_roles c)] else [])
       [Get ''/state'' ApiState, Get ''/state/stream'' ApiStateStream, Get ''/state/view/{id}.html'' StateView,
        Get ''/state/descriptors'' StateDescriptors]"

definition transfer_routes :: "server_config \<Rightarrow> route list" where
  "transfer_routes c =
     (let roles = sc_api_roles c @ sc_client_roles c;
          secrets = (if sc_api_key c \<noteq> [] then [sc_api_key c] else []) @
                    (if sc_client_key c \<noteq> [] \<and> sc_client_key c \<noteq> sc_api_key c then [sc_client_key c] else [])
      in Use [Credentials secrets roles]
           [Post ''/'' TransferCreate, Get ''/{channel_id}'' TransferRead, Post ''/{channel_id}'' TransferWrite])"

definition RegisterClientRoutes :: "route list" where
  "RegisterClientRoutes =
     [Post ''/jobs'' JobCreate, Get ''/jobs/{job_id}'' JobGet, Get ''/jobs/{job_id}/events'' JobEvents,
      Post ''/jobs/{job_id}/cancel'' JobCancel]"

definition RegisterWorkerRoutes :: "route list" where
  "RegisterWorkerRoutes =
     [Post ''/jobs/claim'' JobClaim, Get ''/jobs/stream'' JobStream, Post ''/jobs/{job_id}/payload'' JobPayload,
      Post ''/jobs/{job_id}/result'' JobResultRequest, Post ''/jobs/{job_id}/status'' JobStatus]"

definition job_routes :: "server_config \<Rightarrow> route list" where
  "job_routes c =
     Use [Credentials (if sc_api_key c \<noteq> [] then [sc_api_key c] else []) (sc_api_roles c)] RegisterClientRoutes @
     Use [Credentials (if sc_client_key c \<noteq> [] then [sc_client_key c] else []) (sc_client_roles c)] RegisterWorkerRoutes"

text \<open>\<open>is\<close> are the extensions that are loaded.\<close>

definition server_routes :: "server_config \<Rightarrow> string list \<Rightarrow> route list" where
  "server_routes c is =
     concat (map (RegisterSurface c) is) @
     [Get ''/healthz'' Healthz] @
     Route ''/api''
       (Route ''/client'' [Get ''/openapi.json'' OpenAPI, Get ''/*'' Swagger] @
        Route ''/transfer'' (transfer_routes c) @ job_routes c @ state_routes c) @
     [Get ''/state'' StatePage] @
     (if own_metrics_server c then [] else [Handle ''/metrics'' Metrics])"

section \<open>A request at the guards\<close>

text \<open>A refusal with its status, or the handler with the number of times the request is counted.\<close>

datatype passage = Reached nat | Refused int

fun enter :: "bool \<Rightarrow> auth_request \<Rightarrow> guard list \<Rightarrow> passage" where
  "enter draining r [] = Reached 0"
| "enter draining r (NotDraining # gs) = (if draining then Refused 503 else enter draining r gs)"
| "enter draining r (Credentials secrets roles # gs) =
     (case BearerAnyOrRolesMiddleware secrets roles r of
        Unauthorized \<Rightarrow> Refused 401
      | Pass \<Rightarrow> enter draining r gs)"
| "enter draining r (Counted # gs) = (case enter draining r gs of Reached n \<Rightarrow> Reached (n + 1) | Refused st \<Rightarrow> Refused st)"

section \<open>Joining an extension\<close>

text \<open>The roles each extension passes on to the handler of \<^verbatim>\<open>/connect\<close>.\<close>

definition connect_roles :: "server_config \<Rightarrow> string \<Rightarrow> string list" where
  "connect_roles c i = (if i = ''docling'' then [] else sc_client_roles c)"

definition may_connect :: "server_config \<Rightarrow> string \<Rightarrow> auth_request \<Rightarrow> bool" where
  "may_connect c i r = worker_authorized (sc_client_key c) (connect_roles c i) (hd_roles r) (hd_authorization r)"

section \<open>Lemmas\<close>

definition reached :: "passage \<Rightarrow> bool" where
  "reached e = (case e of Reached _ \<Rightarrow> True | Refused _ \<Rightarrow> False)"

lemma reached_simps [simp]: "reached (Reached n)" "\<not> reached (Refused st)"
  by (simp_all add: reached_def)

text \<open>The handlers a request reaches, in the order of the routes.\<close>

definition reaches :: "bool \<Rightarrow> auth_request \<Rightarrow> route list \<Rightarrow> endpoint list" where
  "reaches draining r rs = map re_endpoint (filter (\<lambda>rt. reached (enter draining r (re_guards rt))) rs)"

definition anonymous :: "auth_request \<Rightarrow> bool" where
  "anonymous r \<longleftrightarrow> ExtractBearer r = [] \<and> (\<forall>it \<in> set (split_on (CHR '','') (hd_roles r)). TrimSpace it = [])"

lemma anonymous_verdict:
  "anonymous r \<Longrightarrow> BearerAnyOrRolesMiddleware secrets roles r = (if secrets = [] \<and> roles = [] then Pass else Unauthorized)"
  by (auto simp: BearerAnyOrRolesMiddleware_def anonymous_def Let_def matchesAnySecret_iff hasAnyAllowedRole_iff)

lemma reaches_append [simp]: "reaches d r (xs @ ys) = reaches d r xs @ reaches d r ys"
  by (simp add: reaches_def)

lemma reaches_nil [simp]: "reaches d r [] = []"
  by (simp add: reaches_def)

lemma reaches_Route [simp]: "reaches d r (Route p rs) = reaches d r rs"
  by (simp add: reaches_def Route_def filter_map comp_def)

lemma reaches_concat: "reaches d r (concat (map f is)) = concat (map (\<lambda>i. reaches d r (f i)) is)"
  by (induction "is") auto

lemma enter_append: "enter d r (gs @ hs) =
    (case enter d r gs of Refused st \<Rightarrow> Refused st
     | Reached n \<Rightarrow> (case enter d r hs of Reached m \<Rightarrow> Reached (n + m) | Refused st \<Rightarrow> Refused st))"
  by (induction d r gs rule: enter.induct) (auto split: passage.splits verdict.splits)

lemma reaches_Use:
  "reaches d r (Use gs rs) = (if reached (enter d r gs) then reaches d r rs else [])"
proof -
  have "reached (enter d r (gs @ hs)) \<longleftrightarrow> reached (enter d r gs) \<and> reached (enter d r hs)" for hs
    by (simp add: enter_append split: passage.split)
  then show ?thesis by (simp add: reaches_def Use_def filter_map comp_def)
qed

lemma reaches_plain [simp]:
  "reaches d r (Get p e # rs) = e # reaches d r rs" "reaches d r (Post p e # rs) = e # reaches d r rs"
  "reaches d r (Handle p e # rs) = e # reaches d r rs"
  by (simp_all add: reaches_def Get_def Post_def Handle_def)

lemma reached_Counted: "reached (enter d r (Counted # gs)) = reached (enter d r gs)"
  by (simp split: passage.split)

section \<open>Who reaches what\<close>

definition public_of :: "string \<Rightarrow> endpoint list" where
  "public_of i =
     (if i \<in> set [''llm'', ''asr'', ''docling''] then [ExtRoot i, ExtConnect i]
      else if i = ''mcp'' then [ExtRoot i, ExtConnect i, McpRequest]
      else [])"

text \<open>
  C19: with an API key or API roles configured, a request without credentials reaches exactly the
  health check, the documentation, the page of the dashboard, the metrics, the root and \<^verbatim>\<open>/connect\<close> of
  the extensions and the endpoint of the relay, and the job endpoints of the workers when neither a
  client key nor client roles are configured.
\<close>

theorem without_credentials:
  assumes "sc_api_key c \<noteq> [] \<or> sc_api_roles c \<noteq> []" "anonymous r"
  shows "reaches draining r (server_routes c is) =
    concat (map public_of is) @ [Healthz, OpenAPI, Swagger] @
    (if sc_client_key c = [] \<and> sc_client_roles c = [] then [JobClaim, JobStream, JobPayload, JobResultRequest, JobStatus] else []) @
    [StatePage] @ (if own_metrics_server c then [] else [Metrics])"
proof -
  note v = anonymous_verdict [OF assms(2)]
  have mw: "\<not> reached (enter draining r ([NotDraining] @ authMW c @ [Counted]))"
    using assms(1) by (simp add: authMW_def v split: passage.split)
  have p: "reaches draining r (RegisterSurface c i) = public_of i" for i
    using mw by (auto simp: RegisterSurface_def plugin_routes_def llm_routes_def asr_routes_def docling_routes_def mcp_routes_def
        base_routes_def public_of_def reaches_Use)
  have t: "reaches draining r (transfer_routes c) = []"
    using assms(1) by (auto simp: transfer_routes_def reaches_Use v Let_def)
  have s: "reaches draining r (state_routes c) = []"
    using assms(1) by (auto simp: state_routes_def reaches_Use v)
  have j: "reaches draining r (job_routes c) =
      (if sc_client_key c = [] \<and> sc_client_roles c = [] then [JobClaim, JobStream, JobPayload, JobResultRequest, JobStatus] else [])"
    using assms(1) by (auto simp: job_routes_def reaches_Use v RegisterClientRoutes_def RegisterWorkerRoutes_def)
  show ?thesis by (simp add: server_routes_def reaches_concat p t s j)
qed

definition keyed_config :: server_config where
  "keyed_config = no_config\<lparr>sc_api_key := ''k'', sc_client_key := ''c'', sc_metrics := ''x''\<rparr>"

theorem without_credentials_witness:
  "reaches False \<lparr>hd_authorization = [], hd_roles = []\<rparr> (server_routes keyed_config [''llm'', ''mcp'']) =
     [ExtRoot ''llm'', ExtConnect ''llm'', ExtRoot ''mcp'', ExtConnect ''mcp'', McpRequest, Healthz, OpenAPI, Swagger, StatePage]"
proof -
  have "anonymous \<lparr>hd_authorization = [], hd_roles = []\<rparr>"
    by (simp add: anonymous_def ExtractBearer_def HasPrefix_def ToLower_def TrimSpace_def)
  moreover have "sc_api_key keyed_config \<noteq> [] \<or> sc_api_roles keyed_config \<noteq> []" by (simp add: keyed_config_def)
  moreover have "own_metrics_server keyed_config" by (simp add: keyed_config_def own_metrics_server_def port_address_def no_config_def)
  ultimately show ?thesis
    using without_credentials [of keyed_config "\<lparr>hd_authorization = [], hd_roles = []\<rparr>" False "[''llm'', ''mcp'']"]
    by (simp add: public_of_def keyed_config_def)
qed

section \<open>Draining\<close>

definition drained :: "endpoint \<Rightarrow> bool" where
  "drained e \<longleftrightarrow> e \<in> set [LlmChat, LlmResponses, LlmEmbeddings, LlmModels, LlmModel, TargetChat, TargetResponses,
     TargetEmbeddings, TargetModels, TargetModel, AsrModels, AsrModel, AsrTranscribe, DocFile, DocSource]"

definition drain_rule :: "bool \<Rightarrow> auth_request \<Rightarrow> route \<Rightarrow> bool" where
  "drain_rule draining r rt \<longleftrightarrow>
     (let e = re_endpoint rt; gs = re_guards rt in
      (if drained e then enter True r gs = Refused 503 else enter True r gs = enter False r gs) \<and>
      (\<forall>n. enter draining r gs = Reached n \<longrightarrow> n = (if drained e \<or> e = McpRequest then 1 else 0)))"

lemma drain_rule_Route: "list_all (drain_rule d r) (Route p rs) = list_all (drain_rule d r) rs"
  by (simp add: Route_def list_all_iff drain_rule_def)

lemma authMW_uncounted: "enter d r (authMW c @ gs) = (case BearerAnyOrRolesMiddleware [sc_api_key c] (sc_api_roles c) r of
    Pass \<Rightarrow> enter d r gs | Unauthorized \<Rightarrow> if authMW c = [] then enter d r gs else Refused 401)"
  by (simp add: authMW_def split: verdict.split)

lemmas route_defs = Use_def Get_def Post_def Handle_def base_routes_def

lemma drain_rule_extension:
  assumes "list_all (\<lambda>rt. re_guards rt = [] \<and> drained (re_endpoint rt)) rs"
  shows "list_all (drain_rule d r) (Use ([NotDraining] @ authMW c @ [Counted]) rs)"
  using assms by (induction rs) (auto simp: Use_def drain_rule_def authMW_uncounted Let_def split: verdict.split if_splits)

lemma drain_rule_checked:
  assumes "list_all (\<lambda>rt. re_guards rt = [] \<and> \<not> drained (re_endpoint rt) \<and> re_endpoint rt \<noteq> McpRequest) rs"
  shows "list_all (drain_rule d r) (Use [Credentials secrets roles] rs)" "list_all (drain_rule d r) rs"
    "list_all (drain_rule d r) (Use [] rs)"
  using assms by (induction rs) (auto simp: Use_def drain_rule_def Let_def split: verdict.split if_splits)

lemma drain_rule_surface: "list_all (drain_rule d r) (RegisterSurface c i)"
proof -
  have b: "list_all (drain_rule d r) (base_routes i)" "drain_rule d r (Handle p (ExtConnect i))"
    "drain_rule d r \<lparr>re_verb = None, re_path = p, re_guards = [], re_endpoint = ExtConnect i\<rparr>" for i p
    by (simp_all add: drain_rule_def route_defs drained_def)
  have l: "list_all (drain_rule d r) (llm_routes c)"
    unfolding llm_routes_def list_all_append
    by (intro conjI b drain_rule_extension)
       (simp_all add: b Route_def openai_Mount_def openai_MountTargeted_def route_defs drained_def)
  have a: "list_all (drain_rule d r) (asr_routes c)"
    unfolding asr_routes_def list_all_append
    by (intro conjI b drain_rule_extension) (simp_all add: b Route_def route_defs drained_def)
  have o: "list_all (drain_rule d r) (docling_routes c)"
    unfolding docling_routes_def list_all_append
    by (intro conjI b drain_rule_extension) (simp_all add: b Route_def route_defs drained_def)
  have m: "list_all (drain_rule d r) mcp_routes"
    unfolding mcp_routes_def list_all_append
    by (intro conjI b) (simp_all add: b drain_rule_def route_defs drained_def split: verdict.split)
  show ?thesis by (simp add: RegisterSurface_def drain_rule_Route plugin_routes_def l a o m)
qed

text \<open>
  While the server drains, a request to the endpoints of the language models, transcriptions
  and documents is refused with 503 before its credentials are looked at, and every other request is
  treated as before; the drain waits for those requests and the ones of the relay, each counted once,
  and for no others.
\<close>

theorem drain_at_the_routes:
  "list_all (drain_rule draining r) (server_routes c is)"
proof -
  have "list_all (drain_rule draining r) (concat (map (RegisterSurface c) is))"
    by (induction "is") (simp_all add: drain_rule_surface)
  moreover have "list_all (drain_rule draining r) (transfer_routes c)"
    unfolding transfer_routes_def Let_def by (rule drain_rule_checked(1)) (simp add: route_defs drained_def)
  moreover have "list_all (drain_rule draining r) (job_routes c)"
    unfolding job_routes_def list_all_append
    by (intro conjI drain_rule_checked(1)) (simp_all add: RegisterClientRoutes_def RegisterWorkerRoutes_def route_defs drained_def)
  moreover have "list_all (drain_rule draining r) (state_routes c)"
  proof -
    have "list_all (drain_rule draining r) (Use gs [Get ''/state'' ApiState, Get ''/state/stream'' ApiStateStream,
        Get ''/state/view/{id}.html'' StateView, Get ''/state/descriptors'' StateDescriptors])"
      if "gs = [Credentials secrets roles] \<or> gs = []" for gs secrets roles
      using that by (elim disjE; hypsubst) (rule drain_rule_checked, simp add: route_defs drained_def)+
    then show ?thesis unfolding state_routes_def by (simp split: if_split)
  qed
  moreover have "drain_rule draining r (Get p e)" "drain_rule draining r (Handle p e)"
    if "\<not> drained e \<and> e \<noteq> McpRequest" for p e using that by (simp_all add: drain_rule_def route_defs)
  ultimately show ?thesis by (simp add: server_routes_def drain_rule_Route drained_def)
qed

section \<open>Workers that join\<close>

text \<open>
  With client roles but no client key everyone may join every extension, while the job
  endpoints of the workers ask for a role; with a key, a request that only carries one of the roles may
  join the language models and transcriptions but not the documents.
\<close>

theorem roles_at_connect:
  assumes "sc_client_roles c \<noteq> []"
  shows "(sc_client_key c = [] \<longrightarrow> may_connect c i r \<and>
      (anonymous r \<longrightarrow> enter draining r [Credentials [] (sc_client_roles c)] = Refused 401)) \<and>
    (sc_client_key c \<noteq> [] \<and> worker_has_role (hd_roles r) (sc_client_roles c) \<and> hd_authorization r = [] \<longrightarrow>
      may_connect c ''llm'' r \<and> may_connect c ''asr'' r \<and> \<not> may_connect c ''docling'' r)"
  using assms anonymous_verdict [of r "[]" "sc_client_roles c"]
  by (auto simp: may_connect_def connect_roles_def worker_authorized_def checkBearer_def worker_has_role_def TrimSpace_def)

theorem roles_at_connect_witness:
  "may_connect (no_config\<lparr>sc_client_roles := [''w'']\<rparr>) ''llm'' \<lparr>hd_authorization = [], hd_roles = []\<rparr>"
  using roles_at_connect [of "no_config\<lparr>sc_client_roles := [''w'']\<rparr>" "''llm''"] by (simp add: no_config_def)

section \<open>The pages of the state\<close>

text \<open>\<open>health\<close> is \<open>None\<close> without a checker, which is how the server is built.\<close>

definition GetHealthz :: "bool option \<Rightarrow> writer" where
  "GetHealthz health =
     (if health = Some False then json_answer 503 ''{\"status\":\"unavailable\"}'' new_writer
      else json_answer 200 ''{\"status\":\"ok\"}'' new_writer)"

text \<open>
  An element holds what its two callbacks return, \<open>None\<close> for a nil callback.  \<open>order\<close> is the order the
  registry is visited in and \<open>enc\<close> the JSON encoder.
\<close>

fun envelope :: "string option element list \<Rightarrow> (string \<times> string) list" where
  "envelope [] = []"
| "envelope (e # es) = (case el_data e of None \<Rightarrow> envelope es | Some d \<Rightarrow> (el_id e, d) # envelope es)"

type_synonym state_elements = "string \<rightharpoonup> string option element"

definition plugins_envelope :: "string list \<Rightarrow> state_elements option \<Rightarrow> (string \<times> string) list" where
  "plugins_envelope order st = (case st of None \<Rightarrow> [] | Some m \<Rightarrow> envelope (elements order m))"

definition api_GetState :: "((string \<times> string) list \<Rightarrow> string) \<Rightarrow> string list \<Rightarrow> state_elements option \<Rightarrow> writer" where
  "api_GetState enc order st =
     Write (enc (plugins_envelope order st)) (put_header ''Content-Type'' ''application/json'' new_writer)"

text \<open>
  The stream: \<open>None\<close> for a tick is the end of the client; a tick comes with the state and whether each
  of the three writes succeeds.
\<close>

fun stream_pieces :: "string list \<Rightarrow> bool list \<Rightarrow> writer \<Rightarrow> bool \<times> writer" where
  "stream_pieces (p # ps) (ok # oks) w = (if ok then stream_pieces ps oks (Write p w) else (False, w))"
| "stream_pieces _ _ w = (True, w)"

fun stream_ticks ::
  "((string \<times> string) list \<Rightarrow> string) \<Rightarrow> (string list \<times> state_elements option \<times> bool list) option list \<Rightarrow> writer \<Rightarrow> writer" where
  "stream_ticks enc [] w = w"
| "stream_ticks enc (None # ts) w = w"
| "stream_ticks enc (Some (order, st, oks) # ts) w =
     (let (ok, w) = stream_pieces [''data: '', enc (plugins_envelope order st), [CHR 0x0A, CHR 0x0A]] oks w
      in if ok then stream_ticks enc ts w else w)"

definition api_GetStateStream ::
  "((string \<times> string) list \<Rightarrow> string) \<Rightarrow> bool \<Rightarrow> (string list \<times> state_elements option \<times> bool list) option list \<Rightarrow> writer" where
  "api_GetStateStream enc flusher ts =
     (let w = put_header ''Connection'' ''keep-alive'' (put_header ''Cache-Control'' ''no-cache''
                (put_header ''Content-Type'' ''text/event-stream'' new_writer))
      in if \<not> flusher then HttpError ''streaming unsupported'' 500 w else stream_ticks enc ts w)"

definition StateViewHTML :: "string \<Rightarrow> state_elements option \<Rightarrow> writer" where
  "StateViewHTML i st =
     (if i = [] then WriteHeader 400 new_writer
      else case st of
        None \<Rightarrow> WriteHeader 204 new_writer
      | Some m \<Rightarrow>
          (case get_element i m of
             None \<Rightarrow> WriteHeader 204 new_writer
           | Some e \<Rightarrow>
               (case el_html e of
                  None \<Rightarrow> WriteHeader 204 new_writer
                | Some html \<Rightarrow>
                    if html = [] then WriteHeader 204 new_writer
                    else Write html (put_header ''Content-Type'' ''text/html; charset=utf-8'' new_writer))))"

text \<open>The older middleware, which wants the scheme written as it writes it.\<close>

definition APIKeyMiddleware :: "string \<Rightarrow> auth_request \<Rightarrow> verdict" where
  "APIKeyMiddleware apiKey r =
     (if apiKey = [] then Pass
      else
        let auth = hd_authorization r in
        if \<not> HasPrefix auth ''Bearer '' \<or> TrimPrefix auth ''Bearer '' \<noteq> apiKey then Unauthorized else Pass)"

lemma view_found: "sent_status (StateViewHTML i (Some m)) = 200 \<longleftrightarrow>
    i \<noteq> [] \<and> (\<exists>e html. get_element i m = Some e \<and> el_html e = Some html \<and> html \<noteq> [])"
  by (auto simp: StateViewHTML_def WriteHeader_status Write_def new_writer_def sent_status_def WriteHeader_def put_header_def
      split: option.splits)

lemma state_shown: "(i, d) \<in> set (plugins_envelope order (Some m)) \<longleftrightarrow>
    (\<exists>e \<in> set (elements order m). el_id e = i \<and> el_data e = Some d)"
proof -
  have "(i, d) \<in> set (envelope es) \<longleftrightarrow> (\<exists>e \<in> set es. el_id e = i \<and> el_data e = Some d)" for es
    by (induction es) (auto split: option.split)
  then show ?thesis by (simp add: plugins_envelope_def)
qed

section \<open>The options of the extensions at work\<close>

text \<open>The options of the language models, with the capacity of the queue they start with.\<close>

record llm_setup =
  ls_timeout :: duration
  ls_parallel :: int
  ls_queue :: "int option"
  ls_update :: int

definition llm_options :: "server_config \<Rightarrow> plugin_options \<Rightarrow> llm_setup" where
  "llm_options c po =
     (let mpe = opt_Int po ''llm'' ''max_parallel_embeddings'' 8;
          qsz = opt_Int po ''llm'' ''queue_size'' 100;
          qus = opt_Int po ''llm'' ''queue_update_seconds'' 10
      in \<lparr>ls_timeout = sc_timeout c, ls_parallel = mpe, ls_queue = (if 0 < qsz then Some qsz else None), ls_update = qus\<rparr>)"

record mcp_setup =
  ms_max_req :: int
  ms_max_resp :: int
  ms_heartbeat :: duration
  ms_dead :: duration
  ms_sessions :: int

definition mcp_options :: "plugin_options \<Rightarrow> mcp_setup" where
  "mcp_options po =
     \<lparr>ms_max_req = opt_Int64 po ''mcp'' ''max_req_bytes'' (10 * 1024 * 1024),
      ms_max_resp = opt_Int64 po ''mcp'' ''max_resp_bytes'' (10 * 1024 * 1024),
      ms_heartbeat = opt_Int po ''mcp'' ''ws_heartbeat_ms'' 15000 * 1000000,
      ms_dead = opt_Int po ''mcp'' ''ws_dead_after_ms'' 45000 * 1000000,
      ms_sessions = opt_Int po ''mcp'' ''max_concurrency_per_client'' 16\<rparr>"

end
