(* ===== verification/Inflight.thy ===== *)
theory Inflight
  imports Machines
begin

text \<open>
  \<^verbatim>\<open>sdk/base/inflight/inflight.go\<close>: the counter of requests that hold up draining.  A new channel is
  made whenever work begins from zero and closed when the count returns to zero, so that a waiter
  that took it earlier is woken.  The channels are numbered in the order they are made;
  \<open>ic_closed\<close> are those that have been closed and \<open>ic_panic\<close> records a second close.  The count is
  an unbounded integer: it moves by one and \<open>2^63\<close> requests in flight are out of reach.
\<close>

record counter =
  ic_count :: int
  ic_zero :: "nat option"
  ic_next :: nat
  ic_closed :: "nat set"
  ic_panic :: bool

definition zero_counter :: counter where
  "zero_counter = \<lparr>ic_count = 0, ic_zero = None, ic_next = 0, ic_closed = {}, ic_panic = False\<rparr>"

definition make_chan :: "counter \<Rightarrow> counter" where
  "make_chan c = c\<lparr>ic_zero := Some (ic_next c), ic_next := ic_next c + 1\<rparr>"

definition close_zero :: "counter \<Rightarrow> counter" where
  "close_zero c =
     (case ic_zero c of
        None \<Rightarrow> c\<lparr>ic_panic := True\<rparr>
      | Some z \<Rightarrow>
          if z \<in> ic_closed c then c\<lparr>ic_panic := True\<rparr> else c\<lparr>ic_closed := insert z (ic_closed c)\<rparr>)"

definition ensure_chan :: "counter \<Rightarrow> counter" where
  "ensure_chan c =
     (if ic_zero c = None
      then let c = make_chan c in if ic_count c = 0 then close_zero c else c
      else c)"

definition Inc :: "counter \<Rightarrow> counter" where
  "Inc c =
     (let c = ensure_chan c;
          c = (if ic_count c = 0 then make_chan c else c)
      in c\<lparr>ic_count := ic_count c + 1\<rparr>)"

definition Dec :: "counter \<Rightarrow> counter" where
  "Dec c =
     (let c = ensure_chan c in
      if 0 < ic_count c then
        let c = c\<lparr>ic_count := ic_count c - 1\<rparr> in if ic_count c = 0 then close_zero c else c
      else c)"

definition Load :: "counter \<Rightarrow> int" where
  "Load c = ic_count c"

definition zeroChannel :: "counter \<Rightarrow> nat \<times> counter" where
  "zeroChannel c = (let c = ensure_chan c in (the (ic_zero c), c))"

text \<open>
  What ends \<open>WaitForZero\<close>: the channel it took, if it is closed in the state it is observed in, or
  the context.
\<close>

definition WaitForZero :: "nat \<Rightarrow> bool \<Rightarrow> counter \<Rightarrow> bool option" where
  "WaitForZero z ctx_done c =
     (if z \<in> ic_closed c then Some True else if ctx_done then Some False else None)"

text \<open>\<open>serve\<close> is what the wrapped handler and the requests beside it do to the counter.\<close>

definition Middleware :: "(counter \<Rightarrow> counter) \<Rightarrow> counter \<Rightarrow> counter" where
  "Middleware serve c = Dec (serve (Inc c))"

definition bracket_step :: "bracket \<Rightarrow> counter \<Rightarrow> counter" where
  "bracket_step b = (case b of Enter \<Rightarrow> Inc | Exit \<Rightarrow> Dec)"

section \<open>Invariant\<close>

definition counter_ok :: "counter \<Rightarrow> bool" where
  "counter_ok c \<longleftrightarrow> 0 \<le> ic_count c \<and> \<not> ic_panic c \<and> (\<forall>z \<in> ic_closed c. z < ic_next c) \<and>
     (case ic_zero c of
        None \<Rightarrow> ic_count c = 0
      | Some z \<Rightarrow> z < ic_next c \<and> (z \<in> ic_closed c \<longleftrightarrow> ic_count c = 0))"

lemma zero_counter_ok: "counter_ok zero_counter"
  by (simp add: counter_ok_def zero_counter_def)

lemma ensure_chan_ok:
  assumes "counter_ok c"
  shows "counter_ok (ensure_chan c)" "ic_count (ensure_chan c) = ic_count c"
    "\<exists>z. ic_zero (ensure_chan c) = Some z"
  using assms
  by (auto simp: counter_ok_def ensure_chan_def make_chan_def close_zero_def Let_def split: option.splits)

lemma Inc_ok: "counter_ok c \<Longrightarrow> counter_ok (Inc c) \<and> ic_count (Inc c) = ic_count c + 1"
proof -
  assume "counter_ok c"
  note e = ensure_chan_ok [OF this]
  obtain z where "ic_zero (ensure_chan c) = Some z" using e(3) by blast
  with e(1,2) show ?thesis by (auto simp: Inc_def Let_def make_chan_def counter_ok_def)
qed

lemma Dec_ok:
  "counter_ok c \<Longrightarrow> counter_ok (Dec c) \<and> ic_count (Dec c) = (if 0 < ic_count c then ic_count c - 1 else ic_count c)"
proof -
  assume ok: "counter_ok c"
  note e = ensure_chan_ok [OF ok]
  obtain z where "ic_zero (ensure_chan c) = Some z" using e(3) by blast
  with e(1,2) ok show ?thesis by (auto simp: Dec_def Let_def close_zero_def counter_ok_def)
qed

lemma counter_machine_step: "counter_ok c \<Longrightarrow> counter_ok (bracket_step b c)"
  using Inc_ok Dec_ok by (cases b) (auto simp: bracket_step_def)

interpretation counter_runs: guarded_machine "\<lambda>c. c = zero_counter" "\<lambda>_ _. True" bracket_step counter_ok
  by unfold_locales (auto simp: zero_counter_ok counter_machine_step)

lemma Inc_count: "ic_count (Inc c) = ic_count c + 1"
  by (auto simp: Inc_def Let_def ensure_chan_def make_chan_def close_zero_def split: option.splits)

lemma Dec_count: "ic_count (Dec c) = (if 0 < ic_count c then ic_count c - 1 else ic_count c)"
  by (auto simp: Dec_def Let_def ensure_chan_def make_chan_def close_zero_def split: option.splits)

interpretation inflight: clamped_counter ic_count Inc Dec
  by unfold_locales (auto simp: Inc_count Dec_count)

section \<open>Waiters\<close>

lemma closed_mono: "z \<in> ic_closed c \<Longrightarrow> z \<in> ic_closed (bracket_step b c)"
  by (cases b)
     (auto simp: bracket_step_def Inc_def Dec_def Let_def ensure_chan_def make_chan_def close_zero_def
        split: option.splits)

lemma closed_fold: "z \<in> ic_closed c \<Longrightarrow> z \<in> ic_closed (fold bracket_step bs c)"
  by (induction bs arbitrary: c) (auto intro: closed_mono)

lemma counter_ok_fold: "counter_ok c \<Longrightarrow> counter_ok (fold bracket_step bs c)"
  by (induction bs arbitrary: c) (auto intro: counter_machine_step)

text \<open>While the count stays positive the current channel stays and stays open.\<close>

lemma current_step:
  assumes "counter_ok c" "ic_zero c = Some z" "0 < ic_count c"
  shows "(0 < ic_count (bracket_step b c) \<longrightarrow>
      ic_zero (bracket_step b c) = Some z \<and> z \<notin> ic_closed (bracket_step b c)) \<and>
    (ic_count (bracket_step b c) = 0 \<longrightarrow> z \<in> ic_closed (bracket_step b c))"
  using assms
  by (cases b)
     (auto simp: bracket_step_def Inc_def Dec_def Let_def ensure_chan_def close_zero_def counter_ok_def)

lemma waiter_woken:
  "counter_ok c \<Longrightarrow> ic_zero c = Some z \<Longrightarrow> 0 < ic_count c \<Longrightarrow>
   z \<in> ic_closed (fold bracket_step bs c) \<longleftrightarrow> (\<exists>k \<le> length bs. ic_count (fold bracket_step (take k bs) c) = 0)"
proof (induction bs arbitrary: c)
  case Nil
  then show ?case by (auto simp: counter_ok_def)
next
  case (Cons b bs)
  let ?d = "bracket_step b c"
  have ok: "counter_ok ?d" using Cons.prems(1) by (rule counter_machine_step)
  show ?case
  proof (cases "ic_count ?d = 0")
    case True
    with current_step [OF Cons.prems, of b] have "z \<in> ic_closed ?d" by blast
    with closed_fold [of z ?d bs] True show ?thesis
      by (auto intro!: exI [of _ "Suc 0"])
  next
    case False
    with ok have pos: "0 < ic_count ?d" by (simp add: counter_ok_def)
    with current_step [OF Cons.prems, of b] have z: "ic_zero ?d = Some z" by blast
    from Cons.IH [OF ok z pos]
    have "z \<in> ic_closed (fold bracket_step (b # bs) c) \<longleftrightarrow>
        (\<exists>k \<le> length bs. ic_count (fold bracket_step (take k bs) ?d) = 0)" by simp
    also have "\<dots> \<longleftrightarrow> (\<exists>k \<le> length (b # bs). ic_count (fold bracket_step (take k (b # bs)) c) = 0)"
    proof
      assume "\<exists>k \<le> length bs. ic_count (fold bracket_step (take k bs) ?d) = 0"
      then obtain k where "k \<le> length bs" "ic_count (fold bracket_step (take k bs) ?d) = 0" by blast
      then show "\<exists>k \<le> length (b # bs). ic_count (fold bracket_step (take k (b # bs)) c) = 0"
        by (intro exI [of _ "Suc k"]) simp
    next
      assume "\<exists>k \<le> length (b # bs). ic_count (fold bracket_step (take k (b # bs)) c) = 0"
      then obtain k where k: "k \<le> length (b # bs)" "ic_count (fold bracket_step (take k (b # bs)) c) = 0"
        by blast
      with Cons.prems(3) obtain m where "k = Suc m" by (cases k) auto
      with k show "\<exists>k \<le> length bs. ic_count (fold bracket_step (take k bs) ?d) = 0" by auto
    qed
    finally show ?thesis .
  qed
qed

section \<open>Properties\<close>

text \<open>
  Whatever sequence of \<open>Inc\<close> and \<open>Dec\<close> runs from the fresh counter, no channel is closed twice and
  the count never goes below zero; where every \<open>Dec\<close> ends an earlier \<open>Inc\<close>, it is the number of
  requests still open.
\<close>

theorem counter_never_panics:
  "let c = fold bracket_step bs zero_counter in
   \<not> ic_panic c \<and> 0 \<le> Load c \<and> (nested 0 bs \<longrightarrow> Load c = int (open_after 0 bs))"
proof -
  have ok: "counter_ok (fold bracket_step bs zero_counter)"
    by (rule counter_ok_fold [OF zero_counter_ok])
  have eq: "bracket_step = (\<lambda>b. case b of Enter \<Rightarrow> Inc | Exit \<Rightarrow> Dec)"
    by (simp add: bracket_step_def fun_eq_iff)
  have "ic_count zero_counter = int 0" by (simp add: zero_counter_def)
  from inflight.nested_count [OF this, of bs] ok show ?thesis
    by (simp add: Let_def counter_ok_def Load_def eq)
qed

lemma counter_never_panics_witness:
  "Load (fold bracket_step [Enter, Enter, Exit, Exit, Enter] zero_counter) = 1"
  using counter_never_panics [of "[Enter, Enter, Exit, Exit, Enter]"] by (simp add: Let_def)

text \<open>
  A drain that took the channel while requests were in flight is woken exactly when the count has
  been zero at some moment since, and stays woken when new requests arrive afterwards.
\<close>

theorem drain_woken_iff_reached_zero:
  assumes "counter_ok c" "0 < Load c" "zeroChannel c = (z, c')"
  shows "WaitForZero z False (fold bracket_step bs c') = Some True \<longleftrightarrow>
    (\<exists>k \<le> length bs. Load (fold bracket_step (take k bs) c') = 0)"
proof -
  from assms(3) have c': "c' = ensure_chan c" and z: "z = the (ic_zero (ensure_chan c))"
    by (auto simp: zeroChannel_def Let_def)
  note e = ensure_chan_ok [OF assms(1)]
  from e(3) z have "ic_zero c' = Some z" by (auto simp: c')
  from waiter_woken [OF _ this, of bs] e(1,2) assms(2) show ?thesis
    by (simp add: WaitForZero_def Load_def c')
qed

lemma drain_woken_iff_reached_zero_witness:
  "WaitForZero (fst (zeroChannel (Inc zero_counter))) False
     (fold bracket_step [Exit, Enter] (snd (zeroChannel (Inc zero_counter)))) = Some True"
proof -
  have ok: "counter_ok (Inc zero_counter)" "0 < Load (Inc zero_counter)"
    using Inc_ok [OF zero_counter_ok] by (simp_all add: Load_def zero_counter_def Inc_count)
  obtain z c' where zc: "zeroChannel (Inc zero_counter) = (z, c')" by fastforce
  have "Load (fold bracket_step (take 1 [Exit, Enter]) c') = 0"
    using zc ensure_chan_ok(2) [OF ok(1)]
    by (auto simp: Load_def bracket_step_def Dec_count Inc_count zero_counter_def zeroChannel_def Let_def)
  then have "\<exists>k \<le> length [Exit, Enter]. Load (fold bracket_step (take k [Exit, Enter]) c') = 0"
    by (intro exI [of _ 1]) simp
  with drain_woken_iff_reached_zero [OF ok zc, of "[Exit, Enter]"] zc show ?thesis by simp
qed

end
