(* ===== verification/Shutdown.thy ===== *)
theory Shutdown
  imports Inflight ServerState
begin

text \<open>
  How the server ends: the goroutine of \<^verbatim>\<open>main\<close> that reads signals, the ones it starts to wait for the
  requests in flight, and the requests themselves, which pass the check for a drain before they are
  counted (\<^verbatim>\<open>RegisterRoutes\<close> of the extensions).  When the context is cancelled \<^verbatim>\<open>Shutdown\<close> makes
  \<^verbatim>\<open>ListenAndServe\<close> return, and the program ends.
\<close>

section \<open>The machine\<close>

text \<open>
  \<open>sd_waits\<close> are the waiting goroutines, with the channel each has taken and whether it has a
  deadline; \<open>sd_passed\<close> counts the requests past the check that are not counted yet.
\<close>

record shutdown =
  sd_server :: memory_store
  sd_counter :: counter
  sd_waits :: "(nat option \<times> bool) list"
  sd_stopped :: bool
  sd_listening :: bool
  sd_passed :: nat

definition new_shutdown :: shutdown where
  "new_shutdown = \<lparr>sd_server = NewMemoryStore, sd_counter = zero_counter, sd_waits = [], sd_stopped = False,
     sd_listening = True, sd_passed = 0\<rparr>"

definition sd_draining :: "shutdown \<Rightarrow> bool" where
  "sd_draining s = IsDraining memory_Load (sd_server s)"

definition on_signal :: "duration \<Rightarrow> shutdown \<Rightarrow> shutdown" where
  "on_signal timeout s =
     (if sd_draining s \<or> timeout = 0 then s\<lparr>sd_stopped := True, sd_listening := False\<rparr>
      else s\<lparr>sd_server := server_StartDrain memory_Load memory_Store (\<lambda>m. m) (sd_server s),
             sd_waits := sd_waits s @ [(None, 0 < timeout)]\<rparr>)"

definition take_channel :: "nat \<Rightarrow> shutdown \<Rightarrow> shutdown" where
  "take_channel k s =
     (let (z, c) = zeroChannel (sd_counter s)
      in s\<lparr>sd_counter := c, sd_waits := (sd_waits s)[k := (Some z, snd (sd_waits s ! k))]\<rparr>)"

text \<open>\<open>late\<close>: the deadline has passed.\<close>

definition end_wait :: "nat \<Rightarrow> bool \<Rightarrow> shutdown \<Rightarrow> shutdown" where
  "end_wait k late s =
     (case sd_waits s ! k of
        (None, d) \<Rightarrow> s
      | (Some z, d) \<Rightarrow>
          (case WaitForZero z (sd_stopped s \<or> late) (sd_counter s) of
             None \<Rightarrow> s
           | Some reached \<Rightarrow>
               let s' = s\<lparr>sd_waits := take k (sd_waits s) @ drop (Suc k) (sd_waits s)\<rparr>
               in if reached \<or> late then s'\<lparr>sd_stopped := True\<rparr> else s'))"

datatype shutdown_event = Signal | TakeChannel nat | Wake nat | Deadline nat | Admit | Begin | Finish

definition sd_step :: "duration \<Rightarrow> shutdown_event \<Rightarrow> shutdown \<Rightarrow> shutdown" where
  "sd_step timeout e s =
     (case e of
        Signal \<Rightarrow> on_signal timeout s
      | TakeChannel k \<Rightarrow> take_channel k s
      | Wake k \<Rightarrow> end_wait k False s
      | Deadline k \<Rightarrow> end_wait k True s
      | Admit \<Rightarrow> s\<lparr>sd_passed := sd_passed s + 1\<rparr>
      | Begin \<Rightarrow> s\<lparr>sd_passed := sd_passed s - 1, sd_counter := Inc (sd_counter s)\<rparr>
      | Finish \<Rightarrow> s\<lparr>sd_counter := Dec (sd_counter s)\<rparr>)"

definition sd_guard :: "shutdown_event \<Rightarrow> shutdown \<Rightarrow> bool" where
  "sd_guard e s =
     (case e of
        Signal \<Rightarrow> sd_listening s
      | TakeChannel k \<Rightarrow> k < length (sd_waits s) \<and> fst (sd_waits s ! k) = None
      | Wake k \<Rightarrow>
          k < length (sd_waits s) \<and>
          (case sd_waits s ! k of (None, _) \<Rightarrow> False | (Some z, _) \<Rightarrow> WaitForZero z (sd_stopped s) (sd_counter s) \<noteq> None)
      | Deadline k \<Rightarrow> k < length (sd_waits s) \<and> fst (sd_waits s ! k) \<noteq> None \<and> snd (sd_waits s ! k)
      | Admit \<Rightarrow> \<not> sd_draining s \<and> \<not> sd_stopped s
      | Begin \<Rightarrow> 0 < sd_passed s
      | Finish \<Rightarrow> 0 < Load (sd_counter s))"

section \<open>Waiting for the requests in flight\<close>

definition busy_guard :: "duration \<Rightarrow> shutdown_event \<Rightarrow> shutdown \<Rightarrow> bool" where
  "busy_guard timeout e s \<longleftrightarrow>
     sd_guard e s \<and> e \<noteq> Signal \<and> (\<forall>k. e \<noteq> Deadline k) \<and> 0 < Load (sd_counter (sd_step timeout e s))"

definition holds_on :: "shutdown \<Rightarrow> bool" where
  "holds_on s \<longleftrightarrow> \<not> sd_stopped s \<and> counter_ok (sd_counter s) \<and> 0 < ic_count (sd_counter s) \<and>
     (\<forall>w \<in> set (sd_waits s). fst w = None \<or> fst w = ic_zero (sd_counter s))"

lemma current_open: "counter_ok c \<Longrightarrow> 0 < ic_count c \<Longrightarrow> \<exists>z. ic_zero c = Some z \<and> z \<notin> ic_closed c \<and> ensure_chan c = c"
  by (auto simp: counter_ok_def ensure_chan_def split: option.splits)

lemma bracket_current:
  assumes "holds_on s" "0 < ic_count (bracket_step b (sd_counter s))"
  shows "holds_on (s\<lparr>sd_passed := m, sd_counter := bracket_step b (sd_counter s)\<rparr>)"
    "holds_on (s\<lparr>sd_counter := bracket_step b (sd_counter s)\<rparr>)"
proof -
  from assms(1) have c: "counter_ok (sd_counter s)" "0 < ic_count (sd_counter s)" by (simp_all add: holds_on_def)
  from current_open [OF c] obtain z where "ic_zero (sd_counter s) = Some z" by blast
  with current_step [OF c(1) this c(2), of b] assms(2)
  have "ic_zero (bracket_step b (sd_counter s)) = ic_zero (sd_counter s)" by simp
  with assms counter_machine_step [OF c(1), of b]
  show "holds_on (s\<lparr>sd_passed := m, sd_counter := bracket_step b (sd_counter s)\<rparr>)"
    "holds_on (s\<lparr>sd_counter := bracket_step b (sd_counter s)\<rparr>)" by (simp_all add: holds_on_def)
qed

lemma holds_on_step:
  assumes "holds_on s" "busy_guard timeout e s"
  shows "holds_on (sd_step timeout e s)"
proof -
  from assms(1) have c: "counter_ok (sd_counter s)" "0 < ic_count (sd_counter s)" by (simp_all add: holds_on_def)
  obtain z where z: "ic_zero (sd_counter s) = Some z" "z \<notin> ic_closed (sd_counter s)" "ensure_chan (sd_counter s) = sd_counter s"
    using current_open [OF c] by blast
  show ?thesis
  proof (cases e)
    case (TakeChannel k)
    have "zeroChannel (sd_counter s) = (z, sd_counter s)" using z by (simp add: zeroChannel_def)
    moreover have "set ((sd_waits s)[k := (Some z, d)]) \<subseteq> insert (Some z, d) (set (sd_waits s))" for d
      by (rule set_update_subset_insert)
    ultimately have "\<forall>w \<in> set ((sd_waits s)[k := (Some z, d)]). fst w = None \<or> fst w = Some z" for d
      using assms(1) z(1) unfolding holds_on_def by (metis fst_conv insertE subsetD)
    with \<open>zeroChannel (sd_counter s) = (z, sd_counter s)\<close> assms(1) z TakeChannel show ?thesis
      by (simp add: sd_step_def take_channel_def holds_on_def)
  next
    case (Wake k)
    with assms(2) obtain y d where y: "k < length (sd_waits s)" "sd_waits s ! k = (Some y, d)"
      "WaitForZero y (sd_stopped s) (sd_counter s) \<noteq> None"
      by (auto simp: busy_guard_def sd_guard_def split: prod.splits option.splits)
    with nth_mem [OF y(1)] assms(1) z have "y = z" "\<not> sd_stopped s" by (auto simp: holds_on_def)
    with y(3) z show ?thesis by (simp add: WaitForZero_def)
  next
    case Begin
    with assms bracket_current(1) [OF assms(1), of Enter "sd_passed s - 1"] show ?thesis
      by (simp add: sd_step_def busy_guard_def bracket_step_def Load_def)
  next
    case Finish
    with assms bracket_current(2) [OF assms(1), of Exit] show ?thesis
      by (simp add: sd_step_def busy_guard_def bracket_step_def Load_def)
  next
    case Admit
    with assms(1) show ?thesis by (simp add: sd_step_def holds_on_def)
  qed (use assms(2) in \<open>auto simp: busy_guard_def\<close>)
qed

interpretation busy_server: guarded_machine holds_on "busy_guard timeout" "sd_step timeout" holds_on for timeout
  by unfold_locales (auto intro: holds_on_step)

definition started_drain :: "shutdown \<Rightarrow> bool" where
  "started_drain s \<longleftrightarrow> \<not> sd_draining s \<and> \<not> sd_stopped s \<and> sd_waits s = [] \<and> counter_ok (sd_counter s) \<and> 0 < Load (sd_counter s)"

text \<open>
  C28: after the first signal the server keeps running while some request is in flight, as long as
  there is no second signal and no deadline passes.
\<close>

theorem drain_waits_for_requests:
  assumes "started_drain s" "timeout \<noteq> 0"
    and "run (busy_guard timeout) (sd_step timeout) es (sd_step timeout Signal s) = Some t"
  shows "\<not> sd_stopped t \<and> sd_draining (sd_step timeout Signal s)"
proof -
  have "holds_on (sd_step timeout Signal s)"
    using assms(1,2) by (simp add: started_drain_def sd_step_def on_signal_def holds_on_def Load_def)
  from busy_server.reach_inv [OF this assms(3)] have "\<not> sd_stopped t" by (simp add: holds_on_def)
  with assms(1,2) show ?thesis
    by (simp add: started_drain_def sd_step_def on_signal_def sd_draining_def memory.drain_sets)
qed

definition one_request :: shutdown where
  "one_request = sd_step 5 Begin (sd_step 5 Admit new_shutdown)"

lemma one_request_counter: "counter_ok (sd_counter one_request)" "ic_count (sd_counter one_request) = 1"
  using Inc_ok [OF zero_counter_ok] by (simp_all add: one_request_def sd_step_def new_shutdown_def zero_counter_def)

lemma one_request_state: "\<not> sd_draining one_request" "\<not> sd_stopped one_request" "sd_waits one_request = []"
  by (simp_all add: one_request_def sd_step_def new_shutdown_def sd_draining_def NewMemoryStore_def IsDraining_def memory_Load_def)

theorem drain_waits_for_requests_witness:
  "\<not> sd_stopped (sd_step 5 (TakeChannel 0) (sd_step 5 Signal one_request))"
proof -
  have s: "started_drain one_request" using one_request_counter one_request_state by (simp add: started_drain_def Load_def)
  have "ic_count (sd_counter (sd_step 5 (TakeChannel 0) (sd_step 5 Signal one_request))) = 1"
    using ensure_chan_ok(2) [OF one_request_counter(1)] one_request_counter(2) one_request_state
    by (simp add: sd_step_def on_signal_def take_channel_def zeroChannel_def Let_def)
  then have "run (busy_guard 5) (sd_step 5) [TakeChannel 0] (sd_step 5 Signal one_request) =
      Some (sd_step 5 (TakeChannel 0) (sd_step 5 Signal one_request))"
    using one_request_state by (simp add: busy_guard_def Load_def) (simp add: sd_guard_def sd_step_def on_signal_def)
  from drain_waits_for_requests [OF s _ this] show ?thesis by simp
qed

text \<open>
  When the last request ends, every goroutine that waits can go on, and the first that does
  ends the server; so does a deadline that passes.
\<close>

theorem drain_ends_server:
  assumes "holds_on s" "k < length (sd_waits s)" "sd_waits s ! k = (Some z, d)"
  shows "(ic_count (sd_counter s) = 1 \<longrightarrow>
      sd_guard (Wake k) (sd_step timeout Finish s) \<and> sd_stopped (sd_step timeout (Wake k) (sd_step timeout Finish s))) \<and>
    (d \<longrightarrow> sd_guard (Deadline k) s \<and> sd_stopped (sd_step timeout (Deadline k) s))"
proof -
  from assms(1) have c: "counter_ok (sd_counter s)" "0 < ic_count (sd_counter s)" by (simp_all add: holds_on_def)
  have z: "ic_zero (sd_counter s) = Some z"
    using assms nth_mem [OF assms(2)] by (auto simp: holds_on_def)
  from current_step [OF c(1) z c(2), of Exit]
  have "z \<in> ic_closed (Dec (sd_counter s))" if "ic_count (sd_counter s) = 1"
    using that by (simp add: bracket_step_def Dec_count)
  with assms(2,3) show ?thesis
    by (auto simp: sd_step_def sd_guard_def end_wait_def WaitForZero_def Let_def)
qed

theorem drain_ends_server_witness:
  "sd_stopped (sd_step 5 (Wake 0) (sd_step 5 Finish (sd_step 5 (TakeChannel 0) (sd_step 5 Signal one_request))))"
proof -
  let ?s = "sd_step 5 Signal one_request" and ?t = "sd_step 5 (TakeChannel 0) (sd_step 5 Signal one_request)"
  have h: "holds_on ?s" using one_request_counter one_request_state
    by (simp add: sd_step_def on_signal_def holds_on_def)
  have c: "sd_counter ?s = sd_counter one_request" using one_request_state by (simp add: sd_step_def on_signal_def)
  from current_open [OF one_request_counter(1)] one_request_counter(2)
  obtain z where z: "ic_zero (sd_counter ?s) = Some z" "ensure_chan (sd_counter ?s) = sd_counter ?s" unfolding c by auto
  have w: "sd_waits ?s = [(None, True)]" using one_request_state by (simp add: sd_step_def on_signal_def)
  have t: "?t = ?s\<lparr>sd_waits := [(Some z, True)]\<rparr>"
    using z w by (simp add: sd_step_def [of 5 "TakeChannel 0"] take_channel_def zeroChannel_def)
  with h z have "holds_on ?t" by (simp add: holds_on_def)
  from drain_ends_server [OF this, of 0 z True 5] t c one_request_counter(2) show ?thesis by simp
qed

text \<open>
  A request that has passed the check for a drain and is not counted yet does not hold the
  server up: the first signal, with no other request in flight, ends the server before it begins.
\<close>

theorem admitted_request_lost:
  assumes "\<not> sd_draining s" "\<not> sd_stopped s" "sd_listening s" "sd_waits s = []" "counter_ok (sd_counter s)"
    and "Load (sd_counter s) = 0" "timeout \<noteq> 0"
  shows "\<exists>t. run sd_guard (sd_step timeout) [Admit, Signal, TakeChannel 0, Wake 0] s = Some t \<and>
    sd_stopped t \<and> sd_passed t = sd_passed s + 1 \<and> Load (sd_counter t) = 0"
proof -
  note e = ensure_chan_ok [OF assms(5)]
  obtain z where z: "ic_zero (ensure_chan (sd_counter s)) = Some z" using e(3) by blast
  with e(1,2) assms(6) have "z \<in> ic_closed (ensure_chan (sd_counter s))"
    by (simp add: counter_ok_def Load_def)
  with assms z e(2) show ?thesis
    by (simp add: sd_guard_def sd_step_def on_signal_def take_channel_def zeroChannel_def end_wait_def WaitForZero_def
        Load_def Let_def sd_draining_def)
qed

theorem admitted_request_lost_witness:
  "\<exists>t. run sd_guard (sd_step 5) [Admit, Signal, TakeChannel 0, Wake 0] new_shutdown = Some t \<and> sd_stopped t \<and> sd_passed t = 1"
proof -
  have "\<not> sd_draining new_shutdown" "\<not> sd_stopped new_shutdown" "sd_listening new_shutdown" "sd_waits new_shutdown = []"
    "counter_ok (sd_counter new_shutdown)" "Load (sd_counter new_shutdown) = 0" "sd_passed new_shutdown = 0"
    using zero_counter_ok
    by (simp_all add: new_shutdown_def sd_draining_def NewMemoryStore_def IsDraining_def memory_Load_def Load_def zero_counter_def)
  from admitted_request_lost [OF this(1-6), of 5] this(7) show ?thesis by (auto simp del: run.simps)
qed

end
