(* ===== verification/Readiness.thy ===== *)
theory Readiness
  imports WorkerSocket Machines
begin

text \<open>
  Whether the server calls itself ready: the joins and leaves of \<^verbatim>\<open>sdk/base/worker/ws.go\<close> and the
  loops of the extensions that prune their pools (\<^verbatim>\<open>New\<close> in \<^verbatim>\<open>llmplugin.go\<close>, \<^verbatim>\<open>asrplugin.go\<close> and
  \<^verbatim>\<open>doclingplugin.go\<close>), with one pool and with several that share the state of the server.
\<close>

section \<open>Pruning\<close>

definition prune_interval :: "duration \<Rightarrow> duration" where
  "prune_interval interval = (if interval = 0 then HeartbeatInterval else interval)"

definition prune_expiry :: "duration \<Rightarrow> duration" where
  "prune_expiry expiry = (if expiry = 0 then HeartbeatExpiry else expiry)"

text \<open>One tick: \<open>order\<close> is the order the table is visited in.\<close>

definition prune_tick :: "duration \<Rightarrow> time \<Rightarrow> string list \<Rightarrow> socket_state \<Rightarrow> socket_state outcome" where
  "prune_tick expiry now order s =
     bind_outcome (PruneExpired now (prune_expiry expiry) order (so_reg s))
       (\<lambda>r. let s = s\<lparr>so_reg := r\<rparr> in
            Done (if so_server s \<noteq> None \<and> \<not> is_draining s \<and> WorkerCount (so_reg s) = 0
                  then SetStatus ''not_ready'' s else s))"

section \<open>Pools that share the state of the server\<close>

record platform =
  pf_pools :: "string \<rightharpoonup> wstate \<times> metrics_reg"
  pf_server :: memory_store

definition pool_view :: "string \<Rightarrow> platform \<Rightarrow> socket_state option" where
  "pool_view i pf =
     map_option (\<lambda>(r, m). \<lparr>so_reg = r, so_metrics = m, so_server = Some (pf_server pf)\<rparr>) (pf_pools pf i)"

definition put_view :: "string \<Rightarrow> socket_state \<Rightarrow> platform \<Rightarrow> platform" where
  "put_view i s pf =
     \<lparr>pf_pools = (pf_pools pf)(i \<mapsto> (so_reg s, so_metrics s)),
      pf_server = (case so_server s of Some m \<Rightarrow> m | None \<Rightarrow> pf_server pf)\<rparr>"

text \<open>A worker joins, one whose connection ends leaves, a pool is pruned, the drain begins.\<close>

datatype ready_event =
    Joins string register_msg string time nat nat
  | Leaves string string
  | Prunes string duration time "string list"
  | Drains

definition ready_step :: "ready_event \<Rightarrow> platform \<Rightarrow> platform outcome" where
  "ready_step e pf =
     (case e of
        Joins i rm remote now p n \<Rightarrow>
          (case pool_view i pf of
             None \<Rightarrow> Done pf
           | Some s \<Rightarrow> Done (put_view i (ws_join rm remote now p n s) pf))
      | Leaves i w \<Rightarrow>
          (case pool_view i pf of
             None \<Rightarrow> Done pf
           | Some s \<Rightarrow> Done (put_view i (snd (ws_leave w s)) pf))
      | Prunes i expiry now order \<Rightarrow>
          (case pool_view i pf of
             None \<Rightarrow> Done pf
           | Some s \<Rightarrow> bind_outcome (prune_tick expiry now order s) (\<lambda>s. Done (put_view i s pf)))
      | Drains \<Rightarrow> Done (pf\<lparr>pf_server := server_StartDrain memory_Load memory_Store (\<lambda>m. m) (pf_server pf)\<rparr>))"

definition platform_status :: "platform \<Rightarrow> string" where
  "platform_status pf = GetState memory_Load (pf_server pf)"

definition platform_draining :: "platform \<Rightarrow> bool" where
  "platform_draining pf \<longleftrightarrow> IsDraining memory_Load (pf_server pf)"

definition workers_of :: "string \<Rightarrow> platform \<Rightarrow> nat" where
  "workers_of i pf = (case pf_pools pf i of None \<Rightarrow> 0 | Some (r, _) \<Rightarrow> WorkerCount r)"

section \<open>Lemmas\<close>

lemma drop_jobs_table: "drop_jobs p s = Done s' \<Longrightarrow> ws_table s' = ws_table s"
  by (auto simp: drop_jobs_def split: option.splits)

lemma Remove_table: "Remove i s = Done r \<Longrightarrow> ws_table r = (ws_table s)(i := None)"
  by (auto simp: Remove_def fun_upd_idem split: option.splits if_splits dest!: drop_jobs_table)

lemma prune_one_dom: "prune_one now a i s = Done r \<Longrightarrow> dom (ws_table r) \<subseteq> dom (ws_table s)"
  by (auto simp: prune_one_def split: option.splits if_splits dest!: drop_jobs_table)

lemma PruneExpired_dom: "PruneExpired now a order s = Done r \<Longrightarrow> dom (ws_table r) \<subseteq> dom (ws_table s)"
proof (induction order arbitrary: s)
  case (Cons i order)
  from Cons.prems obtain t where "prune_one now a i s = Done t" "PruneExpired now a order t = Done r"
    by (auto)
  with Cons.IH [of t] prune_one_dom [of now a i s t] show ?case by blast
qed simp

lemma status_SetStatus:
  "so_server s = Some m \<Longrightarrow> so_server (SetStatus st s) = Some (SetState memory_Load memory_Store (\<lambda>m. m) st m)"
  by (simp add: SetStatus_def)

lemma set_status_read: "GetState memory_Load (SetState memory_Load memory_Store (\<lambda>m. m) st m) = st"
  by (rule memory.set_then_get)

lemma set_status_draining:
  "IsDraining memory_Load (SetState memory_Load memory_Store (\<lambda>m. m) st m) = IsDraining memory_Load m"
  using memory.set_keeps_draining [of st m] by (simp add: id_def)

section \<open>One pool\<close>

definition ready_guard :: "ready_event \<Rightarrow> platform \<Rightarrow> bool" where
  "ready_guard e pf = (case ready_step e pf of Done _ \<Rightarrow> True | Blocks \<Rightarrow> False | Panics \<Rightarrow> False)"

definition ready_next :: "ready_event \<Rightarrow> platform \<Rightarrow> platform" where
  "ready_next e pf = (case ready_step e pf of Done pf \<Rightarrow> pf | Blocks \<Rightarrow> pf | Panics \<Rightarrow> pf)"

definition new_platform :: "string list \<Rightarrow> platform" where
  "new_platform is =
     \<lparr>pf_pools = (\<lambda>i. if i \<in> set is then Some (NewWorkerRegistry, NewMetricsRegistry [] [] [] 0) else None),
      pf_server = NewMemoryStore\<rparr>"

definition says_ready :: "string \<Rightarrow> platform \<Rightarrow> bool" where
  "says_ready i pf \<longleftrightarrow> dom (pf_pools pf) = {i} \<and> (\<forall>r m. pf_pools pf i = Some (r, m) \<longrightarrow> finite (dom (ws_table r))) \<and>
     (\<not> platform_draining pf \<longrightarrow> (platform_status pf = ''ready'' \<longleftrightarrow> 0 < workers_of i pf))"

text \<open>How a step that ends with \<open>r\<close> and sets the status leaves a view.\<close>

lemma says_ready_put:
  assumes "dom (pf_pools pf) = {i}" "finite (dom (ws_table (so_reg s)))" "so_server s = Some m"
    and "IsDraining memory_Load m = platform_draining pf"
    and "\<not> platform_draining pf \<Longrightarrow> GetState memory_Load m = ''ready'' \<longleftrightarrow> 0 < WorkerCount (so_reg s)"
  shows "says_ready i (put_view i s pf)"
  using assms by (auto simp: says_ready_def put_view_def platform_draining_def platform_status_def workers_of_def)

lemma says_readyD:
  assumes "says_ready i pf" "pool_view i pf = Some s"
  shows "finite (dom (ws_table (so_reg s)))" "so_server s = Some (pf_server pf)" "dom (pf_pools pf) = {i}"
    and "is_draining s = platform_draining pf"
    and "\<not> platform_draining pf \<Longrightarrow> GetState memory_Load (pf_server pf) = ''ready'' \<longleftrightarrow> 0 < WorkerCount (so_reg s)"
  using assms
  by (auto simp: says_ready_def pool_view_def platform_draining_def platform_status_def workers_of_def is_draining_def)

lemma ws_join_server:
  "so_server s = Some m \<Longrightarrow> so_server (ws_join rm remote now p n s) =
     Some (if WorkerCount (so_reg (ws_join rm remote now p n s)) = 1 then SetState memory_Load memory_Store (\<lambda>m. m) ''ready'' m else m)"
  by (simp add: ws_join_def status_SetStatus Let_def)

lemma joined_ready:
  assumes "says_ready i pf" "pool_view i pf = Some s"
  shows "says_ready i (put_view i (ws_join rm remote now p n s) pf)"
proof -
  note v = says_readyD [OF assms]
  let ?s = "ws_join rm remote now p n s"
  have t: "ws_table (so_reg ?s) = (ws_table (so_reg s))(rg_id rm \<mapsto> p)" by (simp add: registered_worker_def)
  have c: "WorkerCount (so_reg ?s) = (if rg_id rm \<in> dom (ws_table (so_reg s)) then WorkerCount (so_reg s) else Suc (WorkerCount (so_reg s)))"
    using v(1) by (simp add: WorkerCount_def registered_worker_def card_insert_if)
  have "0 < WorkerCount (so_reg s)" if "rg_id rm \<in> dom (ws_table (so_reg s))"
    using that v(1) by (auto simp: WorkerCount_def card_gt_0_iff)
  with c have pos: "0 < WorkerCount (so_reg ?s)" "WorkerCount (so_reg ?s) \<noteq> 1 \<Longrightarrow> 0 < WorkerCount (so_reg s)"
    by (auto split: if_splits)
  show ?thesis
    by (rule says_ready_put [OF v(3) _ ws_join_server [OF v(2)]])
       (use v pos in \<open>simp_all add: t set_status_read set_status_draining platform_draining_def del: ws_join_reg\<close>)
qed

lemma left_ready:
  assumes "says_ready i pf" "pool_view i pf = Some s"
  shows "says_ready i (put_view i (snd (ws_leave w s)) pf)"
proof (cases "Remove w (so_reg s)")
  case (Done r)
  note v = says_readyD [OF assms]
  have t: "ws_table r = (ws_table (so_reg s))(w := None)" by (rule Remove_table [OF Done])
  then have c: "WorkerCount r \<le> WorkerCount (so_reg s)" "finite (dom (ws_table r))"
    using v(1) by (auto simp: WorkerCount_def card_Diff1_le)
  let ?s = "snd (ws_leave w s)"
  have s: "so_reg ?s = r" "so_server ?s = Some (if \<not> is_draining s \<and> WorkerCount r = 0
      then SetState memory_Load memory_Store (\<lambda>m. m) ''not_ready'' (pf_server pf) else pf_server pf)"
    using v(2) by (simp_all add: ws_leave_def Done Let_def status_SetStatus is_draining_def)
  show ?thesis
    by (rule says_ready_put [OF v(3) _ s(2)])
       (use v c s(1) in \<open>auto simp: set_status_read set_status_draining platform_draining_def\<close>)
next
  case Blocks
  note v = says_readyD [OF assms]
  show ?thesis using Blocks
    by (intro says_ready_put [OF v(3) _ , where m = "pf_server pf"]) (simp_all add: ws_leave_def v platform_draining_def)
next
  case Panics
  note v = says_readyD [OF assms]
  show ?thesis using Panics
    by (intro says_ready_put [OF v(3) _ , where m = "pf_server pf"]) (simp_all add: ws_leave_def v platform_draining_def)
qed

lemma pruned_ready:
  assumes "says_ready i pf" "pool_view i pf = Some s" "prune_tick expiry now order s = Done s'"
  shows "says_ready i (put_view i s' pf)"
proof -
  note v = says_readyD [OF assms(1,2)]
  from assms(3) obtain r where r: "PruneExpired now (prune_expiry expiry) order (so_reg s) = Done r"
    and s': "so_reg s' = r" "so_server s' = Some (if \<not> is_draining s \<and> WorkerCount r = 0
      then SetState memory_Load memory_Store (\<lambda>m. m) ''not_ready'' (pf_server pf) else pf_server pf)"
  proof -
    obtain r where r: "PruneExpired now (prune_expiry expiry) order (so_reg s) = Done r" using assms(3)
      by (auto simp: prune_tick_def)
    with assms(3) have s': "s' = (if so_server s \<noteq> None \<and> \<not> is_draining (s\<lparr>so_reg := r\<rparr>) \<and> WorkerCount r = 0
        then SetStatus ''not_ready'' (s\<lparr>so_reg := r\<rparr>) else s\<lparr>so_reg := r\<rparr>)" by (simp add: prune_tick_def Let_def)
    have "is_draining (s\<lparr>so_reg := r\<rparr>) = is_draining s" by (simp add: is_draining_def)
    with s' v(2) show thesis by (intro that [OF r]) (simp_all add: status_SetStatus)
  qed
  from PruneExpired_dom [OF r] v(1) have c: "WorkerCount r \<le> WorkerCount (so_reg s)" "finite (dom (ws_table r))"
    by (auto simp: WorkerCount_def card_mono finite_subset)
  show ?thesis
    by (rule says_ready_put [OF v(3) _ s'(2)])
       (use v c s'(1) in \<open>auto simp: set_status_read set_status_draining platform_draining_def\<close>)
qed

lemma other_pool: "says_ready i pf \<Longrightarrow> pool_view j pf = Some s \<Longrightarrow> j = i"
  by (auto simp: says_ready_def pool_view_def dom_def)

lemma says_ready_step:
  assumes "says_ready i pf" "ready_guard e pf"
  shows "says_ready i (ready_next e pf)"
proof (cases e)
  case (Joins j rm remote now p n)
  with assms show ?thesis
    by (auto simp: ready_next_def ready_step_def dest: other_pool intro: joined_ready split: option.split)
next
  case (Leaves j w)
  with assms show ?thesis
    by (auto simp: ready_next_def ready_step_def dest: other_pool intro: left_ready split: option.split)
next
  case (Prunes j expiry now order)
  show ?thesis
  proof (cases "pool_view j pf")
    case None
    with Prunes assms(1) show ?thesis by (simp add: ready_next_def ready_step_def)
  next
    case (Some s)
    with assms(1) have "j = i" by (rule other_pool)
    with Prunes Some assms show ?thesis
      by (cases "prune_tick expiry now order s") (simp_all add: ready_next_def ready_guard_def ready_step_def pruned_ready)
  qed
next
  case Drains
  with assms(1) show ?thesis
    by (simp add: ready_next_def ready_step_def says_ready_def platform_draining_def memory.drain_sets workers_of_def)
qed

interpretation readiness: guarded_machine "\<lambda>pf. pf = new_platform [i]" ready_guard ready_next "says_ready i" for i
proof
  fix pf assume "pf = new_platform [i]"
  then show "says_ready i pf"
    by (auto simp: says_ready_def new_platform_def platform_status_def workers_of_def GetState_def memory_Load_def
        NewMemoryStore_def NewWorkerRegistry_def WorkerCount_def dom_def)
qed (rule says_ready_step)

text \<open>
  With one extension and joins that are not interleaved, a server that does not drain says it
  is ready exactly while the pool has a worker, after any sequence of joins, leaves and prunings.
\<close>

theorem one_pool_ready_iff:
  assumes "run ready_guard ready_next es (new_platform [i]) = Some pf" "\<not> platform_draining pf"
  shows "platform_status pf = ''ready'' \<longleftrightarrow> 0 < workers_of i pf"
  using readiness.reach_inv [OF refl assms(1)] assms(2) by (simp add: says_ready_def)

definition sample_register :: "string \<Rightarrow> register_msg" where
  "sample_register w = \<lparr>rg_id = w, rg_name = [], rg_models = [], rg_max = 1, rg_version = [], rg_sha = [], rg_date = [], rg_config = None\<rparr>"

lemma joins_guard [simp]: "ready_guard (Joins i rm remote t p n) pf"
  by (simp add: ready_guard_def ready_step_def split: option.split)

lemma joins_run:
  "run ready_guard ready_next (Joins i rm remote t p n # es) pf = run ready_guard ready_next es (ready_next (Joins i rm remote t p n) pf)"
  by simp

text \<open>The first worker of a pool.\<close>

lemma first_join:
  assumes "pf_pools pf i = Some (NewWorkerRegistry, m)"
  shows "\<exists>r m'. pf_pools (ready_next (Joins i rm remote t p n) pf) = (pf_pools pf)(i \<mapsto> (r, m')) \<and>
      ws_table r = [rg_id rm \<mapsto> p]"
    and "platform_status (ready_next (Joins i rm remote t p n) pf) = ''ready''"
    and "platform_draining (ready_next (Joins i rm remote t p n) pf) = platform_draining pf"
proof -
  let ?s = "\<lparr>so_reg = NewWorkerRegistry, so_metrics = m, so_server = Some (pf_server pf)\<rparr>"
  let ?s' = "ws_join rm remote t p n ?s"
  have t: "ws_table (so_reg ?s') = [rg_id rm \<mapsto> p]" by (simp add: registered_worker_def NewWorkerRegistry_def)
  then have "WorkerCount (so_reg ?s') = 1" by (simp add: WorkerCount_def del: ws_join_reg)
  then have sv: "so_server ?s' = Some (SetState memory_Load memory_Store (\<lambda>m. m) ''ready'' (pf_server pf))"
    by (subst ws_join_server [where m = "pf_server pf"]) simp_all
  have next': "ready_next (Joins i rm remote t p n) pf = put_view i ?s' pf"
    using assms by (simp add: ready_next_def ready_step_def pool_view_def)
  show "\<exists>r m'. pf_pools (ready_next (Joins i rm remote t p n) pf) = (pf_pools pf)(i \<mapsto> (r, m')) \<and>
      ws_table r = [rg_id rm \<mapsto> p]" using t by (auto simp: next' put_view_def simp del: ws_join_reg)
  show "platform_status (ready_next (Joins i rm remote t p n) pf) = ''ready''"
    by (simp add: next' put_view_def sv platform_status_def set_status_read)
  show "platform_draining (ready_next (Joins i rm remote t p n) pf) = platform_draining pf"
    by (simp add: next' put_view_def sv platform_draining_def set_status_draining)
qed

lemma new_platform_pools: "i \<in> set is \<Longrightarrow> pf_pools (new_platform is) i = Some (NewWorkerRegistry, NewMetricsRegistry [] [] [] 0)"
  by (simp add: new_platform_def)

lemma new_platform_draining: "\<not> platform_draining (new_platform is)"
  by (simp add: new_platform_def platform_draining_def NewMemoryStore_def IsDraining_def memory_Load_def)

theorem one_pool_ready_iff_witness:
  "0 < workers_of ''llm'' (ready_next (Joins ''llm'' (sample_register ''a'') ''h:1'' 5 5 5) (new_platform [''llm'']))"
proof -
  let ?e = "Joins ''llm'' (sample_register ''a'') ''h:1'' 5 5 5"
  have run: "run ready_guard ready_next [?e] (new_platform [''llm'']) = Some (ready_next ?e (new_platform [''llm'']))"
    by simp
  have "\<not> platform_draining (ready_next ?e (new_platform [''llm'']))"
    "platform_status (ready_next ?e (new_platform [''llm''])) = ''ready''"
    by (simp_all add: first_join(2,3) [OF new_platform_pools] new_platform_draining)
  with one_pool_ready_iff [OF run] show ?thesis by blast
qed

section \<open>Several pools\<close>

lemma PruneExpired_nil: "prune_tick expiry now [] s =
    Done (if so_server s \<noteq> None \<and> \<not> is_draining s \<and> WorkerCount (so_reg s) = 0 then SetStatus ''not_ready'' s else s)"
  by (simp add: prune_tick_def)

text \<open>
  A tick of an extension without workers makes the server say it is not ready although another
  extension has workers, and further workers that join the other extension do not change that.
\<close>

theorem empty_pool_hides_others:
  assumes "pf_pools pf i = Some (r, m)" "finite (dom (ws_table r))" "0 < workers_of i pf"
    and "pf_pools pf j = Some (NewWorkerRegistry, m')" "\<not> platform_draining pf"
    and "rg_id rm \<notin> dom (ws_table r)"
  shows "\<exists>pf'. ready_step (Prunes j expiry now []) pf = Done pf' \<and> platform_status pf' = ''not_ready'' \<and>
    workers_of i pf' = workers_of i pf \<and>
    platform_status (ready_next (Joins i rm remote t p n) pf') = ''not_ready''"
proof -
  have ij: "i \<noteq> j" using assms(1,3,4) by (auto simp: workers_of_def NewWorkerRegistry_def WorkerCount_def)
  let ?s = "\<lparr>so_reg = NewWorkerRegistry, so_metrics = m', so_server = Some (pf_server pf)\<rparr>"
  let ?m = "SetState memory_Load memory_Store (\<lambda>m. m) ''not_ready'' (pf_server pf)"
  define pf' where "pf' = pf\<lparr>pf_pools := (pf_pools pf)(j \<mapsto> (NewWorkerRegistry, m')), pf_server := ?m\<rparr>"
  have "\<not> is_draining ?s" "WorkerCount NewWorkerRegistry = 0"
    using assms(5) by (simp_all add: is_draining_def platform_draining_def NewWorkerRegistry_def WorkerCount_def)
  then have step: "ready_step (Prunes j expiry now []) pf = Done pf'"
    using assms(4) by (simp add: ready_step_def pool_view_def PruneExpired_nil put_view_def pf'_def status_SetStatus)
  have i: "pf_pools pf' i = Some (r, m)" using ij assms(1) by (simp add: pf'_def)
  have status: "platform_status pf' = ''not_ready''" by (simp add: platform_status_def pf'_def set_status_read)
  let ?v = "\<lparr>so_reg = r, so_metrics = m, so_server = Some (pf_server pf')\<rparr>"
  have "0 < WorkerCount r" using assms(1,3) by (simp add: workers_of_def)
  then have "WorkerCount (so_reg (ws_join rm remote t p n ?v)) \<noteq> 1"
    using assms(2,6) by (auto simp: WorkerCount_def registered_worker_def card_insert_if)
  then have "so_server (ws_join rm remote t p n ?v) = Some (pf_server pf')"
    by (subst ws_join_server [where m = "pf_server pf'"]) simp_all
  then have "platform_status (ready_next (Joins i rm remote t p n) pf') = ''not_ready''"
    using i status by (simp add: ready_next_def ready_step_def pool_view_def put_view_def platform_status_def)
  with step status i assms(1) show ?thesis by (auto simp: workers_of_def)
qed

theorem empty_pool_hides_others_witness:
  "\<exists>pf pf'. run ready_guard ready_next [Joins ''llm'' (sample_register ''a'') ''h:1'' 5 5 5] (new_platform [''asr'', ''llm'']) = Some pf \<and>
    platform_status pf = ''ready'' \<and>
    ready_step (Prunes ''asr'' 0 2 []) pf = Done pf' \<and> platform_status pf' = ''not_ready'' \<and> workers_of ''llm'' pf' = 1"
proof -
  let ?pf = "new_platform [''asr'', ''llm'']" and ?e = "Joins ''llm'' (sample_register ''a'') ''h:1'' 5 5 5"
  have l: "pf_pools ?pf ''llm'' = Some (NewWorkerRegistry, NewMetricsRegistry [] [] [] 0)"
    "pf_pools ?pf ''asr'' = Some (NewWorkerRegistry, NewMetricsRegistry [] [] [] 0)" by (simp_all add: new_platform_pools)
  let ?p = "ready_next ?e ?pf"
  obtain r m where r: "pf_pools ?p = (pf_pools ?pf)(''llm'' \<mapsto> (r, m))" "ws_table r = [rg_id (sample_register ''a'') \<mapsto> 5]"
    using first_join(1) [OF l(1)] by blast
  have w: "workers_of ''llm'' ?p = 1" by (simp add: workers_of_def r WorkerCount_def)
  have run: "run ready_guard ready_next [?e] ?pf = Some ?p" by simp
  have fresh: "rg_id (sample_register ''b'') \<notin> dom (ws_table r)" by (simp add: r sample_register_def)
  have "pf_pools ?p ''llm'' = Some (r, m)" "finite (dom (ws_table r))" "0 < workers_of ''llm'' ?p"
    "pf_pools ?p ''asr'' = Some (NewWorkerRegistry, NewMetricsRegistry [] [] [] 0)" "\<not> platform_draining ?p"
    using w by (simp_all add: r l first_join(3) [OF l(1)] new_platform_draining)
  from empty_pool_hides_others [OF this fresh, of 0 2 "''h:2''" 9 6 6] run first_join(2) [OF l(1)] w show ?thesis by auto
qed

end
