(* ===== verification/Rendezvous.thy ===== *)
theory Rendezvous
  imports Machines
begin

text \<open>
  The rendezvous of \<^verbatim>\<open>server/internal/transfer/transfer.go\<close>: a channel is created for a job's
  payload or result, one reader and one writer attach to it over HTTP, and the writer's body is
  copied to the reader.  A \<^verbatim>\<open>*channel\<close> outlives its entry in the registry (a handler keeps the
  pointer), so the state is a heap of channels, addressed by their unique id, and the set of ids
  the registry still lists.
\<close>

section \<open>State\<close>

datatype terr = ErrNotFound | ErrExpired | ErrRoleTaken | ErrClosed | ErrOther string

datatype role = Reader | Writer | RoleOther int

text \<open>
  \<^verbatim>\<open>time.AfterFunc\<close>: \<open>Armed\<close> until it is stopped or its callback is started in a goroutine of
  its own; \<^verbatim>\<open>Stop\<close> does not recall a callback that has started.
\<close>

datatype timer = Armed | Fired | Stopped

text \<open>
  \<open>t_ready\<close> and \<open>t_done\<close> say whether the two signal channels have been closed; an endpoint is
  the number of the request that brought it.
\<close>

record tchannel =
  t_id :: string
  t_expires :: time
  t_reader :: "nat option"
  t_writer :: "nat option"
  t_ready :: bool
  t_done :: bool
  t_timer :: timer
  t_closed :: bool
  t_err :: "terr option"

record treg =
  tr_heap :: "string \<rightharpoonup> tchannel"
  tr_listed :: "string set"
  tr_ttl :: duration

definition DefaultTTL :: duration where
  "DefaultTTL = 60 * Second"

definition NewRegistry :: "duration \<Rightarrow> treg" where
  "NewRegistry ttl =
     \<lparr>tr_heap = Map.empty, tr_listed = {}, tr_ttl = (if ttl \<le> 0 then DefaultTTL else ttl)\<rparr>"

section \<open>Operations\<close>

text \<open>\<open>cid\<close> is the fresh uuid, \<open>now\<close> the clock.\<close>

definition Create :: "string \<Rightarrow> time \<Rightarrow> treg \<Rightarrow> (string \<times> time) \<times> treg" where
  "Create cid now r =
     (let expires = now + tr_ttl r;
          ch = \<lparr>t_id = cid, t_expires = expires, t_reader = None, t_writer = None, t_ready = False,
                t_done = False, t_timer = Armed, t_closed = False, t_err = None\<rparr>
      in ((cid, expires),
          r\<lparr>tr_heap := (tr_heap r)(cid \<mapsto> ch), tr_listed := insert cid (tr_listed r)\<rparr>))"

text \<open>Closing a Go channel that is closed already panics: \<open>None\<close>.\<close>

definition close_signal :: "bool \<Rightarrow> bool option" where
  "close_signal already = (if already then None else Some True)"

definition ch_close :: "terr option \<Rightarrow> tchannel \<Rightarrow> tchannel option" where
  "ch_close err ch =
     (if t_closed ch then Some ch
      else case close_signal (t_done ch) of
        None \<Rightarrow> None
      | Some d \<Rightarrow> Some (ch\<lparr>t_closed := True, t_err := err, t_done := d\<rparr>))"

text \<open>\<open>attach_ch\<close> is the part of \<^verbatim>\<open>Attach\<close> under the channel's own lock.\<close>

definition pair_up :: "tchannel \<Rightarrow> tchannel" where
  "pair_up ch =
     (if t_reader ch \<noteq> None \<and> t_writer ch \<noteq> None
      then ch\<lparr>t_timer := (if t_timer ch = Armed then Stopped else t_timer ch), t_ready := True\<rparr>
      else ch)"

definition attach_ch :: "role \<Rightarrow> nat \<Rightarrow> tchannel \<Rightarrow> (terr + unit) \<times> tchannel" where
  "attach_ch role ep ch =
     (if t_closed ch then
        (Inl (if t_err ch = Some ErrExpired then ErrExpired else ErrClosed), ch)
      else case role of
        Reader \<Rightarrow>
          if t_reader ch \<noteq> None then (Inl ErrRoleTaken, ch)
          else (Inr (), pair_up (ch\<lparr>t_reader := Some ep\<rparr>))
      | Writer \<Rightarrow>
          if t_writer ch \<noteq> None then (Inl ErrRoleTaken, ch)
          else (Inr (), pair_up (ch\<lparr>t_writer := Some ep\<rparr>))
      | RoleOther _ \<Rightarrow> (Inl ErrClosed, ch))"

definition put_ch :: "string \<Rightarrow> tchannel \<Rightarrow> treg \<Rightarrow> treg" where
  "put_ch cid ch r = r\<lparr>tr_heap := (tr_heap r)(cid \<mapsto> ch)\<rparr>"

definition lookup :: "string \<Rightarrow> treg \<Rightarrow> tchannel option" where
  "lookup cid r = (if cid \<in> tr_listed r then tr_heap r cid else None)"

definition Attach :: "string \<Rightarrow> role \<Rightarrow> nat \<Rightarrow> treg \<Rightarrow> (terr + unit) \<times> treg" where
  "Attach cid role ep r =
     (case lookup cid r of
        None \<Rightarrow> (Inl ErrNotFound, r)
      | Some ch \<Rightarrow> (let (res, ch') = attach_ch role ep ch in (res, put_ch cid ch' r)))"

definition unlist :: "string \<Rightarrow> treg \<Rightarrow> treg" where
  "unlist cid r = r\<lparr>tr_listed := tr_listed r - {cid}\<rparr>"

text \<open>\<open>None\<close> is a panic.\<close>

definition Close :: "string \<Rightarrow> terr option \<Rightarrow> treg \<Rightarrow> treg option" where
  "Close cid err r =
     (case lookup cid r of
        None \<Rightarrow> Some r
      | Some ch \<Rightarrow> map_option (\<lambda>ch'. put_ch cid ch' (unlist cid r)) (ch_close err ch))"

definition expire :: "string \<Rightarrow> treg \<Rightarrow> treg option" where
  "expire cid r =
     (case lookup cid r of
        None \<Rightarrow> Some r
      | Some ch \<Rightarrow> map_option (\<lambda>ch'. put_ch cid ch' (unlist cid r)) (ch_close (Some ErrExpired) ch))"

section \<open>Handlers\<close>

text \<open>A response: the status code and the JSON member that identifies it.\<close>

datatype tresp =
    TJson int string
  | TCreated string stamp
  | TStream
  | TNothing

definition HandleCreate :: "string \<Rightarrow> time \<Rightarrow> treg \<Rightarrow> tresp \<times> treg" where
  "HandleCreate cid now r = (let ((i, expires), r') = Create cid now r in (TCreated i (rfc3339 expires), r'))"

definition writeError :: "terr option \<Rightarrow> tresp" where
  "writeError err =
     (case err of
        None \<Rightarrow> TJson 400 ''invalid_transfer''
      | Some ErrNotFound \<Rightarrow> TJson 404 ''transfer_not_found''
      | Some ErrExpired \<Rightarrow> TJson 410 ''transfer_expired''
      | Some ErrRoleTaken \<Rightarrow> TJson 409 ''transfer_in_use''
      | Some ErrClosed \<Rightarrow> TJson 410 ''transfer_closed''
      | Some (ErrOther _) \<Rightarrow> TJson 502 ''transfer_failed'')"

text \<open>
  What wakes the \<^verbatim>\<open>select\<close> of a handler: the pair is complete, the channel was closed, or the
  request's context ended with an error.
\<close>

datatype wake = WReady | WDone | WCtx string

text \<open>
  The error a handler reports when \<^verbatim>\<open>done\<close> wakes it is the one the channel holds then; \<open>r\<close> is the
  registry at that moment.
\<close>

definition wait_done_error :: "string \<Rightarrow> treg \<Rightarrow> terr option" where
  "wait_done_error cid r = (case tr_heap r cid of None \<Rightarrow> None | Some ch \<Rightarrow> t_err ch)"

definition reader_wake :: "string \<Rightarrow> wake \<Rightarrow> treg \<Rightarrow> (tresp \<times> treg) option" where
  "reader_wake cid w r =
     (case w of
        WReady \<Rightarrow> Some (TStream, r)
      | WDone \<Rightarrow> Some (writeError (wait_done_error cid r), r)
      | WCtx e \<Rightarrow> map_option (\<lambda>r'. (TNothing, r')) (Close cid (Some (ErrOther e)) r))"

text \<open>
  \<open>HandleReader\<close> up to the point where it waits: \<open>Inl\<close> is the immediate error response.
\<close>

definition HandleReader :: "nat \<Rightarrow> string \<Rightarrow> treg \<Rightarrow> (tresp + string) \<times> treg" where
  "HandleReader ep cid r =
     (case Attach cid Reader ep r of
        (Inl e, r') \<Rightarrow> (Inl (writeError (Some e)), r')
      | (Inr _, r') \<Rightarrow> (Inr cid, r'))"

text \<open>
  \<^verbatim>\<open>io.CopyBuffer\<close>: the body yields blocks, then ends or fails; the destination's \<^verbatim>\<open>Write\<close> returns
  how many bytes of a block it took and an error.  The result is what reached the reader and the
  error of the copy.
\<close>

datatype body_end = BodyEOF | BodyErr string

fun copy_loop :: "(string \<Rightarrow> nat \<times> string option) \<Rightarrow> string list \<Rightarrow> body_end \<Rightarrow> string \<Rightarrow> string \<times> terr option" where
  "copy_loop dst [] e acc = (acc, (case e of BodyEOF \<Rightarrow> None | BodyErr m \<Rightarrow> Some (ErrOther m)))"
| "copy_loop dst (b # bs) e acc =
     (let (n, ew) = dst b in
      if length b < n then
        (acc, Some (case ew of None \<Rightarrow> ErrOther ''invalid write result'' | Some m \<Rightarrow> ErrOther m))
      else case ew of
        Some m \<Rightarrow> (acc @ take n b, Some (ErrOther m))
      | None \<Rightarrow>
          if n < length b then (acc @ take n b, Some (ErrOther ''short write''))
          else copy_loop dst bs e (acc @ b))"

definition pipe ::
  "tchannel \<Rightarrow> (string \<Rightarrow> nat \<times> string option) \<Rightarrow> string list \<Rightarrow> body_end \<Rightarrow> string \<times> terr option" where
  "pipe ch dst blocks e =
     (if t_reader ch = None \<or> t_writer ch = None then ([], Some ErrClosed)
      else copy_loop dst blocks e [])"

definition HandleWriter :: "nat \<Rightarrow> string \<Rightarrow> treg \<Rightarrow> (tresp + string) \<times> treg" where
  "HandleWriter ep cid r =
     (case Attach cid Writer ep r of
        (Inl e, r') \<Rightarrow> (Inl (writeError (Some e)), r')
      | (Inr _, r') \<Rightarrow> (Inr cid, r'))"

text \<open>The rest of \<^verbatim>\<open>HandleWriter\<close>, with the bytes the reader received as first component.\<close>

definition writer_wake ::
  "string \<Rightarrow> wake \<Rightarrow> (string \<Rightarrow> nat \<times> string option) \<Rightarrow> string list \<Rightarrow> body_end \<Rightarrow> treg
    \<Rightarrow> (string \<times> tresp \<times> treg) option" where
  "writer_wake cid w dst blocks e r =
     (case w of
        WDone \<Rightarrow> Some ([], writeError (wait_done_error cid r), r)
      | WCtx m \<Rightarrow> map_option (\<lambda>r'. ([], TNothing, r')) (Close cid (Some (ErrOther m)) r)
      | WReady \<Rightarrow>
          (case tr_heap r cid of
             None \<Rightarrow> None
           | Some ch \<Rightarrow>
               (let (sent, copyErr) = pipe ch dst blocks e in
                map_option
                  (\<lambda>r'. (sent, (if copyErr \<noteq> None then TJson 502 ''transfer_failed'' else TJson 200 ''ok''), r'))
                  (Close cid copyErr r))))"

section \<open>The machine\<close>

text \<open>
  The critical sections as events, in any order the guards allow.  \<open>EAttach\<close> works on a pointer
  taken from the registry earlier, so it may hit a channel that has been unlisted and closed
  since; \<^verbatim>\<open>expire\<close> and \<^verbatim>\<open>Close\<close> first unlist (\<open>EUnlist\<close>) and then close (\<open>EClose\<close>).
\<close>

datatype tevent =
    ECreate string time
  | EFire string
  | EAttach string role nat
  | EUnlist string
  | EClose string "terr option"

fun tguard :: "tevent \<Rightarrow> treg option \<Rightarrow> bool" where
  "tguard _ None = False"
| "tguard (ECreate cid now) (Some r) = (tr_heap r cid = None)"
| "tguard (EFire cid) (Some r) =
     (case tr_heap r cid of None \<Rightarrow> False | Some ch \<Rightarrow> t_timer ch = Armed)"
| "tguard (EAttach cid role ep) (Some r) = (tr_heap r cid \<noteq> None)"
| "tguard (EUnlist cid) (Some r) = (tr_heap r cid \<noteq> None)"
| "tguard (EClose cid err) (Some r) = (tr_heap r cid \<noteq> None \<and> cid \<notin> tr_listed r)"

fun tstep :: "tevent \<Rightarrow> treg option \<Rightarrow> treg option" where
  "tstep _ None = None"
| "tstep (ECreate cid now) (Some r) = Some (snd (Create cid now r))"
| "tstep (EFire cid) (Some r) =
     Some (case tr_heap r cid of None \<Rightarrow> r | Some ch \<Rightarrow> put_ch cid (ch\<lparr>t_timer := Fired\<rparr>) r)"
| "tstep (EAttach cid role ep) (Some r) =
     Some (case tr_heap r cid of None \<Rightarrow> r | Some ch \<Rightarrow> put_ch cid (snd (attach_ch role ep ch)) r)"
| "tstep (EUnlist cid) (Some r) = Some (unlist cid r)"
| "tstep (EClose cid err) (Some r) =
     (case tr_heap r cid of
        None \<Rightarrow> Some r
      | Some ch \<Rightarrow> map_option (\<lambda>ch'. put_ch cid ch' r) (ch_close err ch))"

text \<open>
  The invariant: a channel is ready exactly when both roles are taken, its \<^verbatim>\<open>done\<close> signal has been
  closed exactly when it is closed, a closed channel is unlisted, a stopped timer means that the
  pair is complete, and every listed id has a channel.
\<close>

definition ch_ok :: "tchannel \<Rightarrow> bool" where
  "ch_ok ch \<longleftrightarrow>
     t_ready ch = (t_reader ch \<noteq> None \<and> t_writer ch \<noteq> None) \<and>
     t_done ch = t_closed ch \<and>
     (t_timer ch = Stopped \<longrightarrow> t_ready ch) \<and>
     (t_timer ch = Armed \<longrightarrow> \<not> t_ready ch) \<and>
     (t_err ch \<noteq> None \<longrightarrow> t_closed ch)"

definition treg_ok :: "treg \<Rightarrow> bool" where
  "treg_ok r \<longleftrightarrow>
     (\<forall>cid ch. tr_heap r cid = Some ch \<longrightarrow> ch_ok ch \<and> (t_closed ch \<longrightarrow> cid \<notin> tr_listed r)) \<and>
     tr_listed r \<subseteq> dom (tr_heap r) \<and> 0 < tr_ttl r"

definition tinv :: "treg option \<Rightarrow> bool" where
  "tinv s \<longleftrightarrow> (case s of None \<Rightarrow> False | Some r \<Rightarrow> treg_ok r)"

definition tinit :: "treg option \<Rightarrow> bool" where
  "tinit s \<longleftrightarrow> (\<exists>ttl. s = Some (NewRegistry ttl))"

lemma NewRegistry_ok: "treg_ok (NewRegistry ttl)"
  by (simp add: treg_ok_def NewRegistry_def DefaultTTL_def Second_def)

lemma pair_up_ok:
  "ch_ok ch \<Longrightarrow> t_reader ch = None \<Longrightarrow> ch_ok (pair_up (ch\<lparr>t_reader := Some ep\<rparr>))"
  "ch_ok ch \<Longrightarrow> t_writer ch = None \<Longrightarrow> ch_ok (pair_up (ch\<lparr>t_writer := Some ep\<rparr>))"
  by (cases "t_timer ch"; auto simp: ch_ok_def pair_up_def)+

lemma pair_up_simps [simp]:
  "t_closed (pair_up ch) = t_closed ch"
  "t_err (pair_up ch) = t_err ch"
  "t_reader (pair_up ch) = t_reader ch"
  "t_writer (pair_up ch) = t_writer ch"
  "t_id (pair_up ch) = t_id ch"
  "t_expires (pair_up ch) = t_expires ch"
  by (simp_all add: pair_up_def)

lemma attach_ch_ok: "ch_ok ch \<Longrightarrow> ch_ok (snd (attach_ch role ep ch))"
  by (auto simp: attach_ch_def pair_up_ok split: role.splits)

lemma attach_ch_closed [simp]: "t_closed (snd (attach_ch role ep ch)) = t_closed ch"
  by (auto simp: attach_ch_def split: role.splits)

lemma ch_close_ok: "ch_ok ch \<Longrightarrow> \<exists>ch'. ch_close err ch = Some ch' \<and> ch_ok ch' \<and> t_closed ch'"
  by (auto simp: ch_close_def close_signal_def ch_ok_def)

lemma put_ch_ok:
  "treg_ok r \<Longrightarrow> tr_heap r cid \<noteq> None \<Longrightarrow> ch_ok ch \<Longrightarrow> (t_closed ch \<Longrightarrow> cid \<notin> tr_listed r) \<Longrightarrow>
   treg_ok (put_ch cid ch r)"
  by (auto simp: treg_ok_def put_ch_def)

lemma treg_ok_chD:
  "treg_ok r \<Longrightarrow> tr_heap r cid = Some ch \<Longrightarrow> ch_ok ch \<and> (t_closed ch \<longrightarrow> cid \<notin> tr_listed r)"
  by (simp add: treg_ok_def)

lemma ch_new_ok:
  "ch_ok \<lparr>t_id = cid, t_expires = expires, t_reader = None, t_writer = None, t_ready = False,
     t_done = False, t_timer = Armed, t_closed = False, t_err = None\<rparr>"
  by (simp add: ch_ok_def)

lemma Create_ok: "treg_ok r \<Longrightarrow> tr_heap r cid = None \<Longrightarrow> treg_ok (snd (Create cid now r))"
  by (auto simp: Create_def Let_def treg_ok_def ch_new_ok)

lemma unlist_ok: "treg_ok r \<Longrightarrow> treg_ok (unlist cid r)"
  by (auto simp: treg_ok_def unlist_def)

lemma ch_fire_ok: "ch_ok ch \<Longrightarrow> t_timer ch = Armed \<Longrightarrow> ch_ok (ch\<lparr>t_timer := Fired\<rparr>)"
  by (simp add: ch_ok_def)

lemma tstep_tinv: "tinv s \<Longrightarrow> tguard e s \<Longrightarrow> tinv (tstep e s)"
proof -
  assume "tinv s" and g: "tguard e s"
  then obtain r where s: "s = Some r" and ok: "treg_ok r"
    by (auto simp: tinv_def split: option.splits)
  show ?thesis
  proof (cases e)
    case (ECreate cid now)
    with g s ok show ?thesis by (simp add: tinv_def Create_ok)
  next
    case (EFire cid)
    with g s ok show ?thesis
      by (auto simp: tinv_def split: option.splits intro!: put_ch_ok ch_fire_ok dest: treg_ok_chD)
  next
    case (EAttach cid role ep)
    with g s ok show ?thesis
      by (auto simp: tinv_def split: option.splits intro!: put_ch_ok attach_ch_ok dest: treg_ok_chD)
  next
    case (EUnlist cid)
    with s ok show ?thesis by (simp add: tinv_def unlist_ok)
  next
    case (EClose cid err)
    with g s obtain ch where ch: "tr_heap r cid = Some ch" and ul: "cid \<notin> tr_listed r" by auto
    from ch ok obtain ch' where ch': "ch_close err ch = Some ch'" "ch_ok ch'"
      using ch_close_ok treg_ok_chD by blast
    from ok ch ul ch'(2) have "treg_ok (put_ch cid ch' r)" by (intro put_ch_ok) auto
    with EClose s ch ch'(1) show ?thesis by (simp add: tinv_def)
  qed
qed

interpretation transfers: guarded_machine tinit tguard tstep tinv
proof unfold_locales
  show "tinv s" if "tinit s" for s
    using that by (auto simp: tinit_def tinv_def NewRegistry_ok)
qed (rule tstep_tinv)

text \<open>
  What stays once it holds: the endpoint in a role, and the error a channel was closed with.
\<close>

datatype tfact = Known string | HasReader string nat | HasWriter string nat | ClosedWith string "terr option"

fun tholds :: "tfact \<Rightarrow> treg option \<Rightarrow> bool" where
  "tholds _ None = False"
| "tholds (Known cid) (Some r) = (tr_heap r cid \<noteq> None)"
| "tholds (HasReader cid ep) (Some r) = (\<exists>ch. tr_heap r cid = Some ch \<and> t_reader ch = Some ep)"
| "tholds (HasWriter cid ep) (Some r) = (\<exists>ch. tr_heap r cid = Some ch \<and> t_writer ch = Some ep)"
| "tholds (ClosedWith cid err) (Some r) =
     (\<exists>ch. tr_heap r cid = Some ch \<and> t_closed ch \<and> t_err ch = err)"

lemma attach_ch_frame:
  "t_reader ch = Some a \<Longrightarrow> t_reader (snd (attach_ch role ep ch)) = Some a"
  "t_writer ch = Some a \<Longrightarrow> t_writer (snd (attach_ch role ep ch)) = Some a"
  "t_err (snd (attach_ch role ep ch)) = t_err ch"
  by (auto simp: attach_ch_def split: role.splits)

lemma ch_close_frame:
  assumes "ch_close err ch = Some ch'"
  shows "t_reader ch' = t_reader ch" "t_writer ch' = t_writer ch"
    "t_closed ch \<Longrightarrow> ch' = ch" "t_closed ch'"
  using assms by (auto simp: ch_close_def split: if_splits option.splits)

lemma ch_close_err: "t_closed ch \<Longrightarrow> ch_close err ch = Some ch' \<Longrightarrow> t_err ch' = t_err ch"
  by (simp add: ch_close_def)

lemma tstep_stable:
  assumes "tinv s" "tguard e s" "tholds k s"
  shows "tholds k (tstep e s)"
proof -
  obtain r where s: "s = Some r" using assms(1) by (auto simp: tinv_def split: option.splits)
  have "tinv (tstep e s)" using assms by (simp add: tstep_tinv)
  then obtain r' where s': "tstep e s = Some r'" by (auto simp: tinv_def split: option.splits)
  have heap: "\<exists>ch'. tr_heap r' cid = Some ch' \<and>
      (\<forall>a. t_reader ch = Some a \<longrightarrow> t_reader ch' = Some a) \<and>
      (\<forall>a. t_writer ch = Some a \<longrightarrow> t_writer ch' = Some a) \<and>
      (t_closed ch \<longrightarrow> t_closed ch' \<and> t_err ch' = t_err ch)" if "tr_heap r cid = Some ch" for cid ch
    using assms(2) s s' that
    by (cases e) (auto simp: Create_def Let_def put_ch_def unlist_def attach_ch_frame
        split: option.splits dest: ch_close_frame(3) simp: ch_close_frame(1,2,4) ch_close_err)
  show ?thesis
  proof (cases k)
    case (Known cid)
    with assms(3) s obtain ch where "tr_heap r cid = Some ch" by auto
    with heap [of cid ch] Known s' show ?thesis by auto
  next
    case (HasReader cid ep)
    with assms(3) s obtain ch where "tr_heap r cid = Some ch" "t_reader ch = Some ep" by auto
    with heap [of cid ch] HasReader s' show ?thesis by auto
  next
    case (HasWriter cid ep)
    with assms(3) s obtain ch where "tr_heap r cid = Some ch" "t_writer ch = Some ep" by auto
    with heap [of cid ch] HasWriter s' show ?thesis by auto
  next
    case (ClosedWith cid err)
    with assms(3) s obtain ch where "tr_heap r cid = Some ch" "t_closed ch" "t_err ch = err" by auto
    with heap [of cid ch] ClosedWith s' show ?thesis by auto
  qed
qed

interpretation transfer_facts: stable_machine tinit tguard tstep tinv tholds
  by unfold_locales (rule tstep_stable)

section \<open>Properties\<close>

definition sample_meeting :: "tevent list" where
  "sample_meeting = [ECreate ''c'' 5, EAttach ''c'' Reader 1, EAttach ''c'' Reader 2, EAttach ''c'' Writer 3]"

lemma sample_met:
  obtains r ch t where "run tguard tstep sample_meeting (Some (NewRegistry 0)) = Some (Some r)"
    "tr_heap r ''c'' = Some ch" "t_ready ch" "t_reader ch = Some 1" "t_writer ch = Some 3"
    "run tguard tstep [EUnlist ''c'', EClose ''c'' None] (Some r) = Some t"
proof -
  have "case run tguard tstep sample_meeting (Some (NewRegistry 0)) of
      Some (Some r) \<Rightarrow>
        (case tr_heap r ''c'' of None \<Rightarrow> False
         | Some ch \<Rightarrow> t_ready ch \<and> t_reader ch = Some 1 \<and> t_writer ch = Some 3) \<and>
        \<not> Option.is_none (run tguard tstep [EUnlist ''c'', EClose ''c'' None] (Some r))
    | _ \<Rightarrow> False" by code_simp
  then show thesis
    by (auto split: option.splits simp del: run.simps simp: Option.is_none_def intro: that)
qed

text \<open>
  C12: However readers, writers, expiry and closing interleave, the rendezvous never closes a Go
  channel twice; a channel is ready exactly when a reader and a writer have attached, its \<open>done\<close>
  signal is given exactly when it is closed, and a closed channel is no longer in the registry.
\<close>

theorem transfer_channels_safe:
  assumes "run tguard tstep es (Some (NewRegistry ttl)) = Some t"
  shows "\<exists>r. t = Some r \<and> (\<forall>cid ch. tr_heap r cid = Some ch \<longrightarrow>
    t_ready ch = (t_reader ch \<noteq> None \<and> t_writer ch \<noteq> None) \<and> t_done ch = t_closed ch \<and>
    (t_closed ch \<longrightarrow> cid \<notin> tr_listed r))"
proof -
  have "tinit (Some (NewRegistry ttl))" by (auto simp: tinit_def)
  from transfers.reach_inv [OF this assms] obtain r where t: "t = Some r" and ok: "treg_ok r"
    by (auto simp: tinv_def split: option.splits)
  have "t_ready ch = (t_reader ch \<noteq> None \<and> t_writer ch \<noteq> None) \<and> t_done ch = t_closed ch \<and>
    (t_closed ch \<longrightarrow> cid \<notin> tr_listed r)" if "tr_heap r cid = Some ch" for cid ch
    using treg_ok_chD [OF ok that] by (simp add: ch_ok_def)
  with t show ?thesis by blast
qed

lemma transfer_channels_safe_witness:
  "\<exists>r ch. run tguard tstep sample_meeting (Some (NewRegistry 0)) = Some (Some r) \<and>
     tr_heap r ''c'' = Some ch \<and> t_ready ch"
proof -
  obtain r ch where r: "run tguard tstep sample_meeting (Some (NewRegistry 0)) = Some (Some r)"
    "tr_heap r ''c'' = Some ch" "t_reader ch = Some 1" "t_writer ch = Some 3" by (rule sample_met)
  from transfer_channels_safe [OF r(1)] r show ?thesis by auto
qed

text \<open>
  A role is taken once: from the moment a reader (or writer) is attached, that endpoint keeps the
  role in every later state and every other attempt at it fails.
\<close>

theorem role_taken_once:
  assumes "run tguard tstep es (Some (NewRegistry ttl)) = Some (Some r)"
    and "tr_heap r cid = Some ch" "run tguard tstep fs (Some r) = Some t"
  shows "\<exists>r' ch'. t = Some r' \<and> tr_heap r' cid = Some ch' \<and>
    (\<forall>a. t_reader ch = Some a \<longrightarrow> t_reader ch' = Some a \<and> (\<forall>b. \<exists>e. fst (attach_ch Reader b ch') = Inl e)) \<and>
    (\<forall>a. t_writer ch = Some a \<longrightarrow> t_writer ch' = Some a \<and> (\<forall>b. \<exists>e. fst (attach_ch Writer b ch') = Inl e))"
proof -
  have "tinit (Some (NewRegistry ttl))" by (auto simp: tinit_def)
  from transfers.reach_inv [OF this assms(1)] have inv: "tinv (Some r)" .
  from transfers.run_inv [OF inv assms(3)] obtain r' where t: "t = Some r'"
    by (auto simp: tinv_def split: option.splits)
  have rd: "\<exists>ch'. tr_heap r' cid = Some ch' \<and> t_reader ch' = Some a" if "t_reader ch = Some a" for a
    using transfer_facts.run_stable [OF inv _ assms(3), of "HasReader cid a"] assms(2) that t by simp
  have wr: "\<exists>ch'. tr_heap r' cid = Some ch' \<and> t_writer ch' = Some a" if "t_writer ch = Some a" for a
    using transfer_facts.run_stable [OF inv _ assms(3), of "HasWriter cid a"] assms(2) that t by simp
  have "\<exists>ch'. tr_heap r' cid = Some ch'"
    using transfer_facts.run_stable [OF inv _ assms(3), of "Known cid"] assms(2) t by simp
  then obtain ch' where ch': "tr_heap r' cid = Some ch'" by blast
  have "\<exists>e. fst (attach_ch Reader b ch') = Inl e" if "t_reader ch' = Some a" for a b
    using that by (simp add: attach_ch_def)
  moreover have "\<exists>e. fst (attach_ch Writer b ch') = Inl e" if "t_writer ch' = Some a" for a b
    using that by (simp add: attach_ch_def)
  ultimately show ?thesis using t ch' rd wr by auto
qed

lemma role_taken_once_witness:
  "\<exists>r r' ch'. run tguard tstep sample_meeting (Some (NewRegistry 0)) = Some (Some r) \<and>
     run tguard tstep [EUnlist ''c'', EClose ''c'' None] (Some r) = Some (Some r') \<and>
     tr_heap r' ''c'' = Some ch' \<and> t_reader ch' = Some 1"
proof -
  obtain r ch t where r: "run tguard tstep sample_meeting (Some (NewRegistry 0)) = Some (Some r)"
    "tr_heap r ''c'' = Some ch" "t_reader ch = Some 1"
    "run tguard tstep [EUnlist ''c'', EClose ''c'' None] (Some r) = Some t" by (rule sample_met)
  from role_taken_once [OF r(1,2,4)] r show ?thesis by auto
qed

lemma copy_loop_prefix: "copy_loop dst bs e acc = (sent, err) \<Longrightarrow> \<exists>k. sent = acc @ take k (concat bs)"
proof (induction bs arbitrary: acc)
  case (Cons b bs)
  obtain n ew where d: "dst b = (n, ew)" by (cases "dst b")
  show ?case
  proof (cases "ew = None \<and> n = length b")
    case True
    with Cons.prems d have "copy_loop dst bs e (acc @ b) = (sent, err)" by simp
    from Cons.IH [OF this] obtain k where "sent = acc @ b @ take k (concat bs)" by auto
    then have "sent = acc @ take (length b + k) (concat (b # bs))" by simp
    then show ?thesis by blast
  next
    case False
    with Cons.prems d have "sent = acc \<or> sent = acc @ take n b \<and> n \<le> length b"
      by (auto simp: Let_def split: if_splits option.splits)
    then have "sent = acc @ take 0 (concat (b # bs)) \<or> sent = acc @ take n (concat (b # bs))" by auto
    then show ?thesis by blast
  qed
qed (auto split: body_end.splits)

lemma copy_loop_ok:
  "copy_loop dst bs e acc = (sent, None) \<Longrightarrow> sent = acc @ concat bs \<and> e = BodyEOF"
proof (induction bs arbitrary: acc)
  case (Cons b bs)
  obtain n ew where d: "dst b = (n, ew)" by (cases "dst b")
  with Cons.prems have "copy_loop dst bs e (acc @ b) = (sent, None)"
    by (auto simp: Let_def split: if_splits option.splits)
  from Cons.IH [OF this] show ?case by simp
qed (auto split: body_end.splits)

lemma copy_loop_total:
  "(\<And>b. b \<in> set bs \<Longrightarrow> dst b = (length b, None)) \<Longrightarrow> copy_loop dst bs BodyEOF acc = (acc @ concat bs, None)"
  by (induction bs arbitrary: acc) auto

lemma Close_ok: "treg_ok r \<Longrightarrow> \<exists>r'. Close cid err r = Some r' \<and> lookup cid r' = None"
proof (cases "lookup cid r")
  case (Some ch)
  assume "treg_ok r"
  with Some have "ch_ok ch" by (auto simp: lookup_def treg_ok_def split: if_splits)
  with ch_close_ok [of ch err] Some show ?thesis
    by (auto simp: Close_def lookup_def put_ch_def unlist_def)
qed (simp add: Close_def)



end
