(* ===== verification/JobTypes.thy ===== *)
theory JobTypes
  imports Rendezvous "HOL-Library.List_Lexorder" "HOL-Library.Char_ord"
begin

text \<open>
  The data of \<^verbatim>\<open>server/internal/jobs/registry.go\<close>: jobs, worker activity, statistics, events,
  requests and views, the registry that holds them, and the pure helpers over them.
\<close>

section \<open>Statuses\<close>

definition StatusQueued :: string where "StatusQueued = ''queued''"
definition StatusClaimed :: string where "StatusClaimed = ''claimed''"
definition StatusAwaitingPayload :: string where "StatusAwaitingPayload = ''awaiting_payload''"
definition StatusRunning :: string where "StatusRunning = ''running''"
definition StatusAwaitingResult :: string where "StatusAwaitingResult = ''awaiting_result''"
definition StatusCompleted :: string where "StatusCompleted = ''completed''"
definition StatusFailed :: string where "StatusFailed = ''failed''"
definition StatusCanceled :: string where "StatusCanceled = ''canceled''"

lemmas status_defs = StatusQueued_def StatusClaimed_def StatusAwaitingPayload_def StatusRunning_def
  StatusAwaitingResult_def StatusCompleted_def StatusFailed_def StatusCanceled_def

definition workerActiveWindow :: duration where "workerActiveWindow = Minute"
definition workerRetention :: duration where "workerRetention = 10 * Minute"
definition maxStateJobs :: nat where "maxStateJobs = 12"

definition isTerminalStatus :: "string \<Rightarrow> bool" where
  "isTerminalStatus s \<longleftrightarrow> s = StatusCompleted \<or> s = StatusFailed \<or> s = StatusCanceled"

definition canRequestTransfer :: "string \<Rightarrow> bool" where
  "canRequestTransfer s \<longleftrightarrow>
     s = StatusClaimed \<or> s = StatusRunning \<or> s = StatusAwaitingPayload \<or> s = StatusAwaitingResult"

lemma terminal_statuses [simp]:
  "isTerminalStatus StatusCompleted" "isTerminalStatus StatusFailed" "isTerminalStatus StatusCanceled"
  "\<not> isTerminalStatus StatusQueued" "\<not> isTerminalStatus StatusClaimed"
  "\<not> isTerminalStatus StatusAwaitingPayload" "\<not> isTerminalStatus StatusRunning"
  "\<not> isTerminalStatus StatusAwaitingResult" "\<not> isTerminalStatus []"
  by (simp_all add: isTerminalStatus_def status_defs)

lemma terminal_not_transfer: "isTerminalStatus s \<Longrightarrow> \<not> canRequestTransfer s"
  by (auto simp: isTerminalStatus_def canRequestTransfer_def status_defs)

lemma queued_not_transfer [simp]: "\<not> canRequestTransfer StatusQueued"
  by (simp add: canRequestTransfer_def status_defs)

lemma status_neq [simp]:
  "StatusQueued \<noteq> StatusClaimed" "StatusQueued \<noteq> StatusAwaitingPayload"
  "StatusQueued \<noteq> StatusAwaitingResult" "StatusQueued \<noteq> StatusCanceled"
  "StatusQueued \<noteq> StatusCompleted" "StatusQueued \<noteq> StatusFailed" "StatusQueued \<noteq> StatusRunning"
  "StatusClaimed \<noteq> StatusQueued" "StatusAwaitingPayload \<noteq> StatusQueued"
  "StatusAwaitingResult \<noteq> StatusQueued" "StatusCanceled \<noteq> StatusQueued"
  "StatusCompleted \<noteq> StatusFailed" "StatusCompleted \<noteq> StatusCanceled" "StatusFailed \<noteq> StatusCanceled"
  "StatusFailed \<noteq> StatusCompleted" "StatusCanceled \<noteq> StatusCompleted" "StatusCanceled \<noteq> StatusFailed"
  "StatusAwaitingPayload \<noteq> StatusClaimed" "StatusAwaitingResult \<noteq> StatusClaimed"
  "StatusCanceled \<noteq> StatusClaimed"
  by (simp_all add: status_defs)

section \<open>Records\<close>

record job_error =
  je_code :: string
  je_message :: string

record transfer_info =
  ti_channel :: string
  ti_method :: string
  ti_url :: string
  ti_expires :: stamp
  ti_key :: string
  ti_properties :: anymap

type_synonym transfers = "(string \<rightharpoonup> transfer_info) option"

record job =
  j_id :: string
  j_type :: string
  j_status :: string
  j_metadata :: anymap
  j_worker :: string
  j_group :: string
  j_claimed_worker :: string
  j_claimed_group :: string
  j_progress :: anymap
  j_error :: "job_error option"
  j_payloads :: transfers
  j_results :: transfers
  j_created :: time
  j_claimed_at :: time
  j_updated :: time

record worker_activity =
  wa_key :: string
  wa_worker :: string
  wa_group :: string
  wa_seen :: time
  wa_claim :: time
  wa_mode :: string
  wa_job :: string
  wa_types :: "string list"
  wa_streams :: int

record job_stats =
  CompletedJobs :: uint64
  FailedJobs :: uint64
  CanceledJobs :: uint64
  QueueWaitTotal :: duration
  QueueWaitSamples :: uint64
  ServiceTotal :: duration
  ServiceSamples :: uint64
  EndToEndTotal :: duration
  EndToEndSamples :: uint64
  LastCompletedAt :: time
  LastFailedAt :: time
  LastCanceledAt :: time

record create_request =
  cr_type :: string
  cr_priority :: int
  cr_metadata :: anymap
  cr_worker :: string
  cr_group :: string

record claim_request =
  cl_types :: "string list"
  cl_wait :: int
  cl_worker :: string
  cl_group :: string

record status_request =
  sr_state :: string
  sr_progress :: anymap
  sr_error :: "job_error option"

record transfer_request =
  tq_key :: "string option"
  tq_properties :: anymap

record job_view =
  v_id :: string
  v_type :: string
  v_status :: string
  v_metadata :: anymap
  v_worker :: string
  v_group :: string
  v_claimed_worker :: string
  v_claimed_group :: string
  v_progress :: anymap
  v_error :: "job_error option"
  v_payloads :: transfers
  v_results :: transfers
  v_position :: nat
  v_created :: stamp
  v_updated :: stamp

record claim_view =
  cv_id :: string
  cv_type :: string
  cv_metadata :: anymap
  cv_worker :: string
  cv_group :: string
  cv_claimed_worker :: string
  cv_claimed_group :: string

text \<open>
  The dynamic types an event's \<^verbatim>\<open>Data\<close> has or is tested for: a view, a pointer to one, a
  decoded map, the pointer to a transfer and the map \<^verbatim>\<open>claimResponse\<close> builds.
\<close>

datatype event_data =
    DView job_view
  | DViewPtr "job_view option"
  | DMap "(string \<times> any) list"
  | DInfo transfer_info
  | DClaim "claim_view option"

record event =
  ev_type :: string
  ev_data :: event_data

section \<open>The registry\<close>

text \<open>
  \<open>chans\<close> holds the subscriber channels by their identity: the buffered events, oldest first, and
  whether the channel has been closed.  \<open>subs\<close> lists the channels of a job in the order a
  \<^verbatim>\<open>range\<close> loop visits them.  \<open>notify\<close> is the content of the channel of capacity 1.  A client
  timer is the instant it is due; \<open>None\<close> covers an absent and a nil entry.
\<close>

record sub_chan =
  sc_buf :: "event list"
  sc_closed :: bool

record registry =
  jobs :: "string \<rightharpoonup> job"
  queue :: "string list"
  notify :: bool
  subs :: "string \<rightharpoonup> nat list"
  chans :: "nat \<rightharpoonup> sub_chan"
  transfer_reg :: treg
  sseCloseDelay :: duration
  clientTTL :: duration
  clientTimers :: "string \<rightharpoonup> time"
  workers :: "string \<rightharpoonup> worker_activity"
  stats :: job_stats

definition zero_stats :: job_stats where
  "zero_stats =
     \<lparr>CompletedJobs = 0, FailedJobs = 0, CanceledJobs = 0, QueueWaitTotal = 0, QueueWaitSamples = 0,
      ServiceTotal = 0, ServiceSamples = 0, EndToEndTotal = 0, EndToEndSamples = 0,
      LastCompletedAt = 0, LastFailedAt = 0, LastCanceledAt = 0\<rparr>"

definition NewJobRegistry :: "treg \<Rightarrow> duration \<Rightarrow> duration \<Rightarrow> registry" where
  "NewJobRegistry tr delay ttl =
     \<lparr>jobs = Map.empty, queue = [], notify = False, subs = Map.empty, chans = Map.empty,
      transfer_reg = tr, sseCloseDelay = delay, clientTTL = ttl, clientTimers = Map.empty,
      workers = Map.empty, stats = zero_stats\<rparr>"

section \<open>Pure helpers\<close>

text \<open>\<open>map_put\<close> is \<^verbatim>\<open>dst[k] = v\<close> on a map kept in the order a \<^verbatim>\<open>range\<close> loop visits it.\<close>

fun map_put :: "'k \<Rightarrow> 'v \<Rightarrow> ('k \<times> 'v) list \<Rightarrow> ('k \<times> 'v) list" where
  "map_put k v [] = [(k, v)]"
| "map_put k v ((l, w) # ps) = (if l = k then (k, v) # ps else (l, w) # map_put k v ps)"

fun copy_entries :: "('k \<times> 'v) list \<Rightarrow> ('k \<times> 'v) list \<Rightarrow> ('k \<times> 'v) list" where
  "copy_entries dst [] = dst"
| "copy_entries dst ((k, v) # ps) = copy_entries (map_put k v dst) ps"

definition copyMap :: "anymap \<Rightarrow> anymap" where
  "copyMap src = (case src of None \<Rightarrow> None | Some ps \<Rightarrow> Some (copy_entries [] ps))"

definition copyError :: "job_error option \<Rightarrow> job_error option" where
  "copyError err = (case err of None \<Rightarrow> None | Some cp \<Rightarrow> Some cp)"

definition copyTransfer :: "transfer_info \<Rightarrow> transfer_info" where
  "copyTransfer info = info\<lparr>ti_properties := copyMap (ti_properties info)\<rparr>"

definition copyTransfers :: "transfers \<Rightarrow> transfers" where
  "copyTransfers src =
     (case src of None \<Rightarrow> None | Some m \<Rightarrow> Some (\<lambda>k. map_option copyTransfer (m k)))"

definition contains :: "string list \<Rightarrow> string \<Rightarrow> bool" where
  "contains xs v \<longleftrightarrow> list_ex (\<lambda>it. it = v) xs"

definition isCompatibleClaim :: "job option \<Rightarrow> string \<Rightarrow> string \<Rightarrow> bool" where
  "isCompatibleClaim jo workerID workerGroup =
     (case jo of
        None \<Rightarrow> False
      | Some job \<Rightarrow>
          if j_worker job \<noteq> [] \<and> j_worker job \<noteq> workerID then False
          else if j_group job \<noteq> [] \<and> j_group job \<noteq> workerGroup then False
          else True)"

definition parseListQuery :: "string list \<Rightarrow> string list" where
  "parseListQuery values =
     filter (\<lambda>part. part \<noteq> []) (concat (map (\<lambda>raw. map TrimSpace (split_on (CHR '','') raw)) values))"

definition workerKey :: "string \<Rightarrow> string \<Rightarrow> string" where
  "workerKey workerID workerGroup =
     (let w = TrimSpace workerID; g = TrimSpace workerGroup in
      if w = [] \<and> g = [] then [] else w @ ''::'' @ g)"

definition shouldCloseAfter :: "event \<Rightarrow> bool" where
  "shouldCloseAfter ev =
     (if ev_type ev \<noteq> ''status'' then False
      else case ev_data ev of
        DView v \<Rightarrow> isTerminalStatus (v_status v)
      | DViewPtr None \<Rightarrow> False
      | DViewPtr (Some v) \<Rightarrow> isTerminalStatus (v_status v)
      | DMap kvs \<Rightarrow>
          (case map_of kvs ''status'' of Some (AStr status) \<Rightarrow> isTerminalStatus status | _ \<Rightarrow> False)
      | DInfo _ \<Rightarrow> False
      | DClaim _ \<Rightarrow> False)"

definition viewLocked :: "job \<Rightarrow> job_view" where
  "viewLocked job =
     \<lparr>v_id = j_id job, v_type = j_type job, v_status = j_status job,
      v_metadata = copyMap (j_metadata job), v_worker = j_worker job, v_group = j_group job,
      v_claimed_worker = j_claimed_worker job, v_claimed_group = j_claimed_group job,
      v_progress = copyMap (j_progress job), v_error = copyError (j_error job),
      v_payloads = copyTransfers (j_payloads job), v_results = copyTransfers (j_results job),
      v_position = 0, v_created = rfc3339 (j_created job), v_updated = rfc3339 (j_updated job)\<rparr>"

definition claimResponse :: "job option \<Rightarrow> claim_view option" where
  "claimResponse jo = map_option (\<lambda>job.
     \<lparr>cv_id = j_id job, cv_type = j_type job, cv_metadata = copyMap (j_metadata job),
      cv_worker = j_worker job, cv_group = j_group job,
      cv_claimed_worker = j_claimed_worker job, cv_claimed_group = j_claimed_group job\<rparr>) jo"

definition averageDurationMS :: "duration \<Rightarrow> uint64 \<Rightarrow> int" where
  "averageDurationMS d n = (if n = 0 then 0 else quo (quo d 1000000) (sint n))"

definition inflightStart :: "job option \<Rightarrow> time" where
  "inflightStart jo =
     (case jo of
        None \<Rightarrow> 0
      | Some job \<Rightarrow>
          if \<not> is_zero (j_claimed_at job) then j_claimed_at job
          else if \<not> is_zero (j_updated job) then j_updated job
          else j_created job)"

definition ageSeconds :: "time \<Rightarrow> time \<Rightarrow> int" where
  "ageSeconds now ts = (if is_zero ts \<or> now < ts then 0 else quo (time_sub now ts) Second)"

text \<open>\<open>marshal\<close> is \<^verbatim>\<open>json.Marshal\<close>; the result is what the response writer is given.\<close>

definition writeEvent :: "(event_data \<Rightarrow> string option) \<Rightarrow> event \<Rightarrow> string" where
  "writeEvent marshal ev =
     (case marshal (ev_data ev) of
        None \<Rightarrow> []
      | Some payload \<Rightarrow>
          (if ev_type ev \<noteq> [] then ''event: '' @ ev_type ev @ [CHR 0x0A] else []) @
          ''data: '' @ payload @ [CHR 0x0A, CHR 0x0A])"

section \<open>Lemmas\<close>

lemma map_of_map_put: "map_of (map_put k v ps) = (map_of ps)(k \<mapsto> v)"
  by (induction k v ps rule: map_put.induct) auto

lemma map_of_copy_entries:
  "distinct (map fst ps) \<Longrightarrow> map_of (copy_entries dst ps) = map_of dst ++ map_of ps"
proof (induction dst ps rule: copy_entries.induct)
  case (2 dst k v ps)
  then have "k \<notin> dom (map_of ps)" by (simp add: dom_map_of_conv_image_fst)
  with 2 show ?case
    by (auto simp: map_of_map_put fun_eq_iff map_add_def split: option.splits)
qed simp

text \<open>A copy holds what the source holds; \<^verbatim>\<open>nil\<close> stays \<^verbatim>\<open>nil\<close>.\<close>

lemma copyMap_None [simp]: "copyMap m = None \<longleftrightarrow> m = None"
  by (simp add: copyMap_def split: option.splits)

lemma copyMap_same:
  "distinct (map fst ps) \<Longrightarrow> \<exists>qs. copyMap (Some ps) = Some qs \<and> map_of qs = map_of ps"
  by (simp add: copyMap_def map_of_copy_entries)

lemma copyError_id [simp]: "copyError e = e"
  by (simp add: copyError_def split: option.splits)

lemma contains_iff [simp]: "contains xs v \<longleftrightarrow> v \<in> set xs"
  by (auto simp: contains_def list_ex_iff)

lemma isCompatibleClaim_iff:
  "isCompatibleClaim (Some job) w g \<longleftrightarrow>
     (j_worker job = [] \<or> j_worker job = w) \<and> (j_group job = [] \<or> j_group job = g)"
  by (auto simp: isCompatibleClaim_def)

lemma view_status [simp]: "v_status (viewLocked job) = j_status job"
  "v_id (viewLocked job) = j_id job"
  by (simp_all add: viewLocked_def)

lemma ageSeconds_nonneg: "0 \<le> ageSeconds now ts"
  by (auto simp: ageSeconds_def Second_def intro!: quo_ge_0 time_sub_nonneg)

lemma parseListQuery_trimmed: "p \<in> set (parseListQuery vs) \<Longrightarrow> p \<noteq> []"
  by (simp add: parseListQuery_def)

lemma workerKey_empty: "workerKey w g = [] \<longleftrightarrow> TrimSpace w = [] \<and> TrimSpace g = []"
  by (simp add: workerKey_def Let_def)

end
