(* ===== verification/JobOps.thy ===== *)
theory JobOps
  imports JobTypes
begin

text \<open>
  The critical sections of \<^verbatim>\<open>server/internal/jobs/registry.go\<close>: everything a method does between
  taking and releasing \<^verbatim>\<open>r.mu\<close>.  The clock and fresh identifiers are arguments.  The handlers of
  \<open>JobHandlers\<close> are composed of them.
\<close>

section \<open>Status changes\<close>

definition recordTerminalLocked :: "job \<Rightarrow> string \<Rightarrow> time \<Rightarrow> job_stats \<Rightarrow> job_stats" where
  "recordTerminalLocked job status now st =
     (if \<not> isTerminalStatus status then st
      else
        let st = (if status = StatusCompleted then
                    st\<lparr>CompletedJobs := CompletedJobs st + 1, LastCompletedAt := now\<rparr>
                  else if status = StatusFailed then
                    st\<lparr>FailedJobs := FailedJobs st + 1, LastFailedAt := now\<rparr>
                  else
                    st\<lparr>CanceledJobs := CanceledJobs st + 1, LastCanceledAt := now\<rparr>);
            st = (if \<not> is_zero (j_created job) \<and> j_created job \<le> now then
                    st\<lparr>EndToEndTotal := wrap64 (EndToEndTotal st + time_sub now (j_created job)),
                       EndToEndSamples := EndToEndSamples st + 1\<rparr>
                  else st)
        in if \<not> is_zero (j_claimed_at job) \<and> j_claimed_at job \<le> now then
             st\<lparr>QueueWaitTotal :=
                  wrap64 (QueueWaitTotal st + time_sub (j_claimed_at job) (j_created job)),
                QueueWaitSamples := QueueWaitSamples st + 1,
                ServiceTotal := wrap64 (ServiceTotal st + time_sub now (j_claimed_at job)),
                ServiceSamples := ServiceSamples st + 1\<rparr>
           else if status = StatusCanceled \<and> \<not> is_zero (j_created job) \<and> j_created job \<le> now then
             st\<lparr>QueueWaitTotal := wrap64 (QueueWaitTotal st + time_sub now (j_created job)),
                QueueWaitSamples := QueueWaitSamples st + 1\<rparr>
           else st)"

definition set_status :: "string \<Rightarrow> time \<Rightarrow> job \<Rightarrow> job" where
  "set_status status now job =
     (if status = StatusClaimed \<and> is_zero (j_claimed_at job) then job\<lparr>j_claimed_at := now\<rparr> else job)
       \<lparr>j_status := status, j_updated := now\<rparr>"

text \<open>
  The job is written back under its key; the statistics see it with \<^verbatim>\<open>ClaimedAt\<close> already set and
  the old status.
\<close>

definition setJobStatusLocked :: "string \<Rightarrow> string \<Rightarrow> time \<Rightarrow> registry \<Rightarrow> registry" where
  "setJobStatusLocked jid status now r =
     (case jobs r jid of
        None \<Rightarrow> r
      | Some job \<Rightarrow>
          r\<lparr>jobs := (jobs r)(jid \<mapsto> set_status status now job),
            stats := (if \<not> isTerminalStatus (j_status job) \<and> isTerminalStatus status
                      then recordTerminalLocked (set_status status now job) status now (stats r)
                      else stats r)\<rparr>)"

definition update_job :: "string \<Rightarrow> (job \<Rightarrow> job) \<Rightarrow> registry \<Rightarrow> registry" where
  "update_job jid f r =
     (case jobs r jid of None \<Rightarrow> r | Some job \<Rightarrow> r\<lparr>jobs := (jobs r)(jid \<mapsto> f job)\<rparr>)"

definition removeFromQueue :: "string \<Rightarrow> registry \<Rightarrow> registry" where
  "removeFromQueue jid r = r\<lparr>queue := remove_first (\<lambda>i. i = jid) (queue r)\<rparr>"

section \<open>Subscriptions\<close>

text \<open>
  A send with a \<^verbatim>\<open>default\<close> branch: dropped when the buffer of 8 is full, a panic (\<open>None\<close>) on a
  closed channel.
\<close>

definition try_send :: "event \<Rightarrow> sub_chan \<Rightarrow> sub_chan option" where
  "try_send ev c =
     (if sc_closed c then None
      else if length (sc_buf c) < 8 then Some (c\<lparr>sc_buf := sc_buf c @ [ev]\<rparr>)
      else Some c)"

fun publish_loop :: "event \<Rightarrow> nat list \<Rightarrow> (nat \<rightharpoonup> sub_chan) \<Rightarrow> (nat \<rightharpoonup> sub_chan) option" where
  "publish_loop ev [] cs = Some cs"
| "publish_loop ev (h # hs) cs =
     (case cs h of
        None \<Rightarrow> None
      | Some c \<Rightarrow>
          (case try_send ev c of
             None \<Rightarrow> None
           | Some c' \<Rightarrow> publish_loop ev hs (cs(h \<mapsto> c'))))"

definition sub_list :: "string \<Rightarrow> registry \<Rightarrow> nat list" where
  "sub_list jid r = (case subs r jid of None \<Rightarrow> [] | Some hs \<Rightarrow> hs)"

definition publishLocked :: "string \<Rightarrow> event \<Rightarrow> registry \<Rightarrow> registry option" where
  "publishLocked jid ev r =
     map_option (\<lambda>cs. r\<lparr>chans := cs\<rparr>) (publish_loop ev (sub_list jid r) (chans r))"

definition publish :: "string \<Rightarrow> event \<Rightarrow> registry \<Rightarrow> registry option" where
  "publish jid ev r = publishLocked jid ev r"

text \<open>\<open>h\<close> is the identity of the channel \<^verbatim>\<open>make\<close> returns.\<close>

definition subscribe :: "string \<Rightarrow> nat \<Rightarrow> registry \<Rightarrow> registry" where
  "subscribe jid h r =
     r\<lparr>chans := (chans r)(h \<mapsto> \<lparr>sc_buf = [], sc_closed = False\<rparr>),
       subs := (subs r)(jid \<mapsto> sub_list jid r @ [h])\<rparr>"

definition unsubscribe :: "string \<Rightarrow> nat \<Rightarrow> registry \<Rightarrow> registry option" where
  "unsubscribe jid h r =
     (let r = (case subs r jid of
                 None \<Rightarrow> r
               | Some hs \<Rightarrow>
                   (let hs' = filter (\<lambda>i. i \<noteq> h) hs in
                    r\<lparr>subs := (subs r)(jid := (if hs' = [] then None else Some hs'))\<rparr>))
      in case chans r h of
           None \<Rightarrow> None
         | Some c \<Rightarrow>
             map_option (\<lambda>d. r\<lparr>chans := (chans r)(h \<mapsto> c\<lparr>sc_closed := d\<rparr>)\<rparr>)
               (close_signal (sc_closed c)))"

text \<open>\<open>ev := <-ch\<close>; \<open>None\<close> where the receive blocks.\<close>

definition recv_event :: "nat \<Rightarrow> registry \<Rightarrow> (event \<times> registry) option" where
  "recv_event h r =
     (case chans r h of
        None \<Rightarrow> None
      | Some c \<Rightarrow>
          (case sc_buf c of
             [] \<Rightarrow> None
           | ev # evs \<Rightarrow> Some (ev, r\<lparr>chans := (chans r)(h \<mapsto> c\<lparr>sc_buf := evs\<rparr>)\<rparr>)))"

definition signal :: "registry \<Rightarrow> registry" where
  "signal r = (if \<not> notify r then r\<lparr>notify := True\<rparr> else r)"

text \<open>\<open><-r.notify\<close>.\<close>

definition recv_notify :: "registry \<Rightarrow> registry option" where
  "recv_notify r = (if notify r then Some (r\<lparr>notify := False\<rparr>) else None)"

section \<open>Client timers\<close>

definition drop_timer :: "string \<Rightarrow> registry \<Rightarrow> registry" where
  "drop_timer jid r =
     (if clientTimers r jid \<noteq> None then r\<lparr>clientTimers := (clientTimers r)(jid := None)\<rparr> else r)"

definition onClientConnect :: "string \<Rightarrow> registry \<Rightarrow> registry" where
  "onClientConnect jid r = (if clientTTL r \<le> 0 then r else drop_timer jid r)"

definition clearClientTimer :: "string \<Rightarrow> registry \<Rightarrow> registry" where
  "clearClientTimer jid r = drop_timer jid r"

definition startClientTimerIfIdle :: "string \<Rightarrow> time \<Rightarrow> registry \<Rightarrow> registry" where
  "startClientTimerIfIdle jid now r =
     (if clientTTL r \<le> 0 then r
      else if 0 < length (sub_list jid r) then r
      else if clientTimers r jid \<noteq> None then r
      else r\<lparr>clientTimers := (clientTimers r)(jid \<mapsto> now + clientTTL r)\<rparr>)"

definition onClientDisconnect :: "string \<Rightarrow> time \<Rightarrow> registry \<Rightarrow> registry" where
  "onClientDisconnect jid now r = startClientTimerIfIdle jid now r"

text \<open>
  \<open>expireJobIfIdle\<close> up to the release of the lock, and the event it then publishes.
\<close>

definition expireJobIfIdle :: "string \<Rightarrow> time \<Rightarrow> registry \<Rightarrow> event option \<times> registry" where
  "expireJobIfIdle jid now r =
     (if 0 < length (sub_list jid r) then (None, r)
      else if clientTimers r jid = None then (None, r)
      else
        let r = r\<lparr>clientTimers := (clientTimers r)(jid := None)\<rparr> in
        case jobs r jid of
          None \<Rightarrow> (None, r)
        | Some job \<Rightarrow>
            if isTerminalStatus (j_status job) then (None, r)
            else
              let r = (if j_status job = StatusQueued then removeFromQueue jid r else r);
                  r = setJobStatusLocked jid StatusCanceled now r;
                  r = update_job jid (\<lambda>j. j\<lparr>j_error :=
                        Some \<lparr>je_code = ''client_inactive'', je_message = ''client inactive''\<rparr>\<rparr>) r
              in (map_option (\<lambda>j. \<lparr>ev_type = ''status'', ev_data = DView (viewLocked j)\<rparr>) (jobs r jid), r))"

section \<open>Workers\<close>

definition new_worker :: "string \<Rightarrow> string \<Rightarrow> string \<Rightarrow> worker_activity" where
  "new_worker key workerID workerGroup =
     \<lparr>wa_key = key, wa_worker = workerID, wa_group = workerGroup, wa_seen = 0, wa_claim = 0,
      wa_mode = [], wa_job = [], wa_types = [], wa_streams = 0\<rparr>"

definition ensureWorkerLocked :: "string \<Rightarrow> string \<Rightarrow> registry \<Rightarrow> worker_activity option \<times> registry" where
  "ensureWorkerLocked workerID workerGroup r =
     (let key = workerKey workerID workerGroup in
      if key = [] then (None, r)
      else case workers r key of
        Some w \<Rightarrow> (Some w, r)
      | None \<Rightarrow>
          (let w = new_worker key workerID workerGroup
           in (Some w, r\<lparr>workers := (workers r)(key \<mapsto> w)\<rparr>)))"

definition keep_worker :: "time \<Rightarrow> worker_activity \<Rightarrow> bool" where
  "keep_worker now w \<longleftrightarrow>
     0 < wa_streams w \<or> is_zero (wa_seen w) \<or> \<not> time_sub now (wa_seen w) > workerRetention"

definition pruneWorkersLocked :: "time \<Rightarrow> registry \<Rightarrow> registry" where
  "pruneWorkersLocked now r =
     r\<lparr>workers := (\<lambda>key. case workers r key of
                             None \<Rightarrow> None
                           | Some w \<Rightarrow> if keep_worker now w then Some w else None)\<rparr>"

definition put_worker :: "string \<Rightarrow> worker_activity \<Rightarrow> registry \<Rightarrow> registry" where
  "put_worker key w r = r\<lparr>workers := (workers r)(key \<mapsto> w)\<rparr>"

definition recordWorkerSeen ::
  "string \<Rightarrow> string \<Rightarrow> string \<Rightarrow> string list \<Rightarrow> string \<Rightarrow> time \<Rightarrow> registry \<Rightarrow> registry" where
  "recordWorkerSeen workerID workerGroup mode types jobID now r =
     (let key = workerKey workerID workerGroup in
      if key = [] then r
      else case ensureWorkerLocked workerID workerGroup (pruneWorkersLocked now r) of
        (None, r) \<Rightarrow> r
      | (Some w, r) \<Rightarrow>
          let w = w\<lparr>wa_seen := now\<rparr>;
              w = (if mode \<noteq> [] then w\<lparr>wa_mode := mode\<rparr> else w);
              w = (if types \<noteq> [] then w\<lparr>wa_types := types\<rparr> else w);
              w = (if jobID \<noteq> [] then w\<lparr>wa_claim := now, wa_job := jobID\<rparr> else w)
          in put_worker key w r)"

definition addWorkerStream :: "string \<Rightarrow> string \<Rightarrow> string list \<Rightarrow> time \<Rightarrow> registry \<Rightarrow> registry" where
  "addWorkerStream workerID workerGroup types now r =
     (let key = workerKey workerID workerGroup in
      if key = [] then r
      else case ensureWorkerLocked workerID workerGroup (pruneWorkersLocked now r) of
        (None, r) \<Rightarrow> r
      | (Some w, r) \<Rightarrow>
          let w = w\<lparr>wa_seen := now, wa_mode := ''stream''\<rparr>;
              w = (if types \<noteq> [] then w\<lparr>wa_types := types\<rparr> else w);
              w = w\<lparr>wa_streams := wa_streams w + 1\<rparr>
          in put_worker key w r)"

definition removeWorkerStream :: "string \<Rightarrow> string \<Rightarrow> time \<Rightarrow> registry \<Rightarrow> registry" where
  "removeWorkerStream workerID workerGroup now r =
     (let key = workerKey workerID workerGroup in
      if key = [] then r
      else
        let r = pruneWorkersLocked now r in
        case workers r key of
          None \<Rightarrow> r
        | Some w \<Rightarrow>
            if 0 < wa_streams w
            then put_worker key (w\<lparr>wa_streams := wa_streams w - 1, wa_seen := now\<rparr>) r
            else r)"

section \<open>Claims\<close>

definition claimable :: "string list \<Rightarrow> string \<Rightarrow> string \<Rightarrow> (string \<rightharpoonup> job) \<Rightarrow> string \<Rightarrow> bool" where
  "claimable types workerID workerGroup js jid =
     (case js jid of
        None \<Rightarrow> False
      | Some job \<Rightarrow>
          if 0 < length types \<and> \<not> contains types (j_type job) then False
          else isCompatibleClaim (Some job) workerID workerGroup)"

text \<open>\<open>find_claim\<close> is the \<^verbatim>\<open>range\<close> loop: the first claimable id, with the queue without it.\<close>

fun find_claim ::
  "string list \<Rightarrow> string \<Rightarrow> string \<Rightarrow> (string \<rightharpoonup> job) \<Rightarrow> string list \<Rightarrow> (string \<times> string list) option" where
  "find_claim types w g js [] = None"
| "find_claim types w g js (i # q) =
     (if claimable types w g js i then Some (i, q)
      else map_option (\<lambda>(j, q'). (j, i # q')) (find_claim types w g js q))"

text \<open>The claimed id and the registry; the outer \<open>None\<close> is a panic of the publication.\<close>

definition claimNext ::
  "string list \<Rightarrow> string \<Rightarrow> string \<Rightarrow> time \<Rightarrow> registry \<Rightarrow> (string option \<times> registry) option" where
  "claimNext types workerID workerGroup now r =
     (case find_claim types workerID workerGroup (jobs r) (queue r) of
        None \<Rightarrow> Some (None, r)
      | Some (jid, q) \<Rightarrow>
          let r = r\<lparr>queue := q\<rparr>;
              r = setJobStatusLocked jid StatusClaimed now r;
              r = update_job jid (\<lambda>j. j\<lparr>j_claimed_worker := workerID, j_claimed_group := workerGroup\<rparr>) r
          in case jobs r jid of
               None \<Rightarrow> None
             | Some job \<Rightarrow>
                 map_option (\<lambda>r'. (Some jid, r'))
                   (publishLocked (j_id job) \<lparr>ev_type = ''status'', ev_data = DView (viewLocked job)\<rparr> r))"

section \<open>Reading\<close>

definition queue_position :: "string \<Rightarrow> registry \<Rightarrow> nat" where
  "queue_position jid r = index1 (\<lambda>i. i = jid) (queue r)"

definition snapshot :: "string \<Rightarrow> registry \<Rightarrow> (job_view \<times> nat) option" where
  "snapshot jid r =
     (case jobs r jid of
        None \<Rightarrow> None
      | Some job \<Rightarrow>
          Some (viewLocked job, (if j_status job = StatusQueued then queue_position jid r else 0)))"

section \<open>Sections of the handlers\<close>

definition new_job :: "string \<Rightarrow> create_request \<Rightarrow> time \<Rightarrow> time \<Rightarrow> job" where
  "new_job jid body created updated =
     \<lparr>j_id = jid, j_type = cr_type body, j_status = StatusQueued, j_metadata = cr_metadata body,
      j_worker = TrimSpace (cr_worker body), j_group = TrimSpace (cr_group body),
      j_claimed_worker = [], j_claimed_group = [], j_progress = None, j_error = None,
      j_payloads = None, j_results = None, j_created = created, j_claimed_at = 0, j_updated = updated\<rparr>"

definition insert_job :: "job \<Rightarrow> registry \<Rightarrow> registry" where
  "insert_job job r = r\<lparr>jobs := (jobs r)(j_id job \<mapsto> job), queue := queue r @ [j_id job]\<rparr>"

definition cancel_section :: "string \<Rightarrow> time \<Rightarrow> registry \<Rightarrow> registry" where
  "cancel_section jid now r =
     (case jobs r jid of
        None \<Rightarrow> r
      | Some job \<Rightarrow>
          if isTerminalStatus (j_status job) then r
          else setJobStatusLocked jid StatusCanceled now
                 (if j_status job = StatusQueued then removeFromQueue jid r else r))"

definition put_transfer :: "string \<Rightarrow> transfer_info \<Rightarrow> transfers \<Rightarrow> transfers" where
  "put_transfer key info m = (case m of None \<Rightarrow> Some [key \<mapsto> info] | Some f \<Rightarrow> Some (f(key \<mapsto> info)))"

definition payload_commit :: "string \<Rightarrow> string \<Rightarrow> transfer_info \<Rightarrow> time \<Rightarrow> registry \<Rightarrow> registry" where
  "payload_commit jid key info now r =
     setJobStatusLocked jid StatusAwaitingPayload now
       (update_job jid (\<lambda>j. j\<lparr>j_payloads := put_transfer key info (j_payloads j)\<rparr>) r)"

definition result_commit :: "string \<Rightarrow> string \<Rightarrow> transfer_info \<Rightarrow> time \<Rightarrow> registry \<Rightarrow> registry" where
  "result_commit jid key info now r =
     setJobStatusLocked jid StatusAwaitingResult now
       (update_job jid (\<lambda>j. j\<lparr>j_results := put_transfer key info (j_results j)\<rparr>) r)"

text \<open>The second section of \<open>HandleStatusUpdate\<close>; \<open>None\<close> where it answers \<open>invalid_state\<close>.\<close>

definition status_commit :: "string \<Rightarrow> string \<Rightarrow> status_request \<Rightarrow> time \<Rightarrow> registry \<Rightarrow> registry option" where
  "status_commit jid state body now r =
     (case jobs r jid of
        None \<Rightarrow> None
      | Some job \<Rightarrow>
          if isTerminalStatus (j_status job) then None
          else Some
            (update_job jid (\<lambda>j. if sr_error body \<noteq> None then j\<lparr>j_error := sr_error body\<rparr> else j)
              (update_job jid (\<lambda>j. if sr_progress body \<noteq> None then j\<lparr>j_progress := sr_progress body\<rparr> else j)
                (setJobStatusLocked jid state now r))))"

end
