(* ===== verification/JobHandlers.thy ===== *)
theory JobHandlers
  imports JobOps
begin

text \<open>
  The HTTP handlers of \<^verbatim>\<open>server/internal/jobs/registry.go\<close>, each from its first line to its last.
  A handler holds \<^verbatim>\<open>r.mu\<close> only inside a critical section, so other requests run between two
  sections: \<open>env n\<close> is what they do to the registry at the handler's \<open>n\<close>-th unlocked point, and is
  arbitrary.  \<open>None\<close> is a panic, or a blocking step the schedule claims to have happened.
\<close>

type_synonym env = "nat \<Rightarrow> registry \<Rightarrow> registry"

definition quiet :: env where
  "quiet n r = r"

lemma quiet_apply [simp]: "quiet n r = r"
  by (simp add: quiet_def)

text \<open>The responses: a status code with the body's members.\<close>

datatype jresp =
    RError int string
  | RCreated string string
  | RView job_view
  | RStatus string
  | RNoContent
  | RClaim "claim_view option"
  | RTransfer string string string stamp anymap
  | RStreamed "event list"
  | RUnsupported
  | RNothing
  | RWaiting

section \<open>Client routes\<close>

definition job_status :: "string \<Rightarrow> registry \<Rightarrow> string" where
  "job_status jid r = (case jobs r jid of None \<Rightarrow> [] | Some job \<Rightarrow> j_status job)"

definition status_event :: "string \<Rightarrow> registry \<Rightarrow> event" where
  "status_event jid r =
     \<lparr>ev_type = ''status'',
      ev_data = (case jobs r jid of
                   None \<Rightarrow> DViewPtr None
                 | Some job \<Rightarrow> DView (viewLocked job))\<rparr>"

definition HandleCreateJob ::
  "create_request decoded \<Rightarrow> string \<Rightarrow> time \<Rightarrow> time \<Rightarrow> time \<Rightarrow> env \<Rightarrow> registry \<Rightarrow> (jresp \<times> registry) option" where
  "HandleCreateJob dec jid created updated now env r =
     (case dec of
        DecErr \<Rightarrow> Some (RError 400 ''invalid_request'', r)
      | DecEOF \<Rightarrow> Some (RError 400 ''invalid_request'', r)
      | Decoded body \<Rightarrow>
          if TrimSpace (cr_type body) = [] then Some (RError 400 ''missing_type'', r)
          else
            let r = insert_job (new_job jid body created updated) r;
                ev = status_event jid r
            in case publish jid ev (env 0 r) of
                 None \<Rightarrow> None
               | Some r \<Rightarrow>
                   let r = startClientTimerIfIdle jid now (env 1 r);
                       r = signal (env 2 r);
                       r = env 3 r
                   in Some (RCreated jid (job_status jid r), r))"

definition HandleGetJob :: "string \<Rightarrow> registry \<Rightarrow> jresp" where
  "HandleGetJob jid r =
     (case snapshot jid r of
        None \<Rightarrow> RError 404 ''not_found''
      | Some (view, pos) \<Rightarrow> RView (view\<lparr>v_position := pos\<rparr>))"

text \<open>
  The event loop of \<open>HandleJobEvents\<close>.  The schedule says, turn by turn, what the others do while
  it waits and which case of the \<^verbatim>\<open>select\<close> is taken; \<open>armed\<close> says whether \<^verbatim>\<open>closeTimer\<close> exists.
  The result is the list of events written, whether the loop returned, and the registry.
\<close>

datatype sel = CtxDone | CloseTimer | Recv

fun events_loop ::
  "nat \<Rightarrow> duration \<Rightarrow> bool \<Rightarrow> ((registry \<Rightarrow> registry) \<times> sel) list \<Rightarrow> registry
    \<Rightarrow> (event list \<times> bool \<times> registry) option" where
  "events_loop h delay armed [] r = Some ([], False, r)"
| "events_loop h delay armed ((others, s) # ss) r =
     (let r = others r in
      case s of
        CtxDone \<Rightarrow> Some ([], True, r)
      | CloseTimer \<Rightarrow> if armed then Some ([], True, r) else None
      | Recv \<Rightarrow>
          (case recv_event h r of
             None \<Rightarrow> None
           | Some (ev, r) \<Rightarrow>
               if 0 \<le> delay \<and> shouldCloseAfter ev
               then if delay = 0 then Some ([ev], True, r)
                    else map_option (\<lambda>(evs, b, r). (ev # evs, b, r)) (events_loop h delay True ss r)
               else map_option (\<lambda>(evs, b, r). (ev # evs, b, r)) (events_loop h delay armed ss r)))"

definition HandleJobEvents ::
  "string \<Rightarrow> bool \<Rightarrow> nat \<Rightarrow> ((registry \<Rightarrow> registry) \<times> sel) list \<Rightarrow> time \<Rightarrow> env \<Rightarrow> registry
    \<Rightarrow> (jresp \<times> registry) option" where
  "HandleJobEvents jid can_flush h schedule now env r =
     (case snapshot jid r of
        None \<Rightarrow> Some (RError 404 ''not_found'', r)
      | Some (view, _) \<Rightarrow>
          if \<not> can_flush then Some (RUnsupported, r)
          else
            let r = subscribe jid h (env 0 r);
                r = onClientConnect jid (env 1 r);
                first = \<lparr>ev_type = ''status'', ev_data = DView view\<rparr>
            in case events_loop h (sseCloseDelay r) False schedule r of
                 None \<Rightarrow> None
               | Some (evs, returned, r) \<Rightarrow>
                   if \<not> returned then Some (RWaiting, r)
                   else
                     (case unsubscribe jid h (env 2 r) of
                        None \<Rightarrow> None
                      | Some r \<Rightarrow>
                          Some (RStreamed (first # evs), onClientDisconnect jid now (env 3 r))))"

definition HandleCancelJob ::
  "string \<Rightarrow> time \<Rightarrow> env \<Rightarrow> registry \<Rightarrow> (jresp \<times> registry) option" where
  "HandleCancelJob jid now env r =
     (case jobs r jid of
        None \<Rightarrow> Some (RError 404 ''not_found'', r)
      | Some _ \<Rightarrow>
          let r = cancel_section jid now r;
              status = job_status jid r;
              ev = status_event jid r;
              r = clearClientTimer jid (env 0 r)
          in map_option (\<lambda>r. (RStatus status, r)) (publish jid ev (env 1 r)))"

section \<open>Worker routes\<close>

text \<open>
  One turn of the loop of \<open>HandleClaimJob\<close>: the clock at the attempt and at \<^verbatim>\<open>time.Until\<close>, what the
  others do before the attempt and while it waits, and what ends the wait.
\<close>

datatype wakeup = WokenNotify | WokenTimeout | WokenCancel

record claim_turn =
  ct_before :: "registry \<Rightarrow> registry"
  ct_claim_at :: time
  ct_seen_at :: time
  ct_until_at :: time
  ct_after :: "registry \<Rightarrow> registry"
  ct_wake :: wakeup

fun claim_loop ::
  "string list \<Rightarrow> string \<Rightarrow> string \<Rightarrow> duration \<Rightarrow> time \<Rightarrow> claim_turn list \<Rightarrow> registry
    \<Rightarrow> (jresp \<times> registry) option" where
  "claim_loop types w g wait deadline [] r = Some (RWaiting, r)"
| "claim_loop types w g wait deadline (t # ts) r =
     (case claimNext types w g (ct_claim_at t) (ct_before t r) of
        None \<Rightarrow> None
      | Some (Some jid, r) \<Rightarrow>
          let r = recordWorkerSeen w g ''poll'' types jid (ct_seen_at t) (ct_after t r)
          in Some (RClaim (claimResponse (jobs r jid)), r)
      | Some (None, r) \<Rightarrow>
          if wait \<le> 0 then Some (RNoContent, r)
          else if time_sub deadline (ct_until_at t) \<le> 0 then Some (RNoContent, r)
          else
            let r = ct_after t r in
            case ct_wake t of
              WokenTimeout \<Rightarrow> Some (RNoContent, r)
            | WokenCancel \<Rightarrow> Some (RNothing, r)
            | WokenNotify \<Rightarrow>
                (case recv_notify r of
                   None \<Rightarrow> None
                 | Some r \<Rightarrow> claim_loop types w g wait deadline ts r))"

definition zero_claim :: claim_request where
  "zero_claim = \<lparr>cl_types = [], cl_wait = 0, cl_worker = [], cl_group = []\<rparr>"

definition HandleClaimJob ::
  "claim_request decoded \<Rightarrow> time \<Rightarrow> time \<Rightarrow> claim_turn list \<Rightarrow> registry \<Rightarrow> (jresp \<times> registry) option" where
  "HandleClaimJob dec start seen turns r =
     (case dec of
        DecErr \<Rightarrow> Some (RError 400 ''invalid_request'', r)
      | _ \<Rightarrow>
          let body = (case dec of Decoded b \<Rightarrow> b | _ \<Rightarrow> zero_claim);
              wait = wrap64 (cl_wait body * Second);
              deadline = start + wait;
              w = TrimSpace (cl_worker body);
              g = TrimSpace (cl_group body);
              r = recordWorkerSeen w g ''poll'' (cl_types body) [] seen r
          in claim_loop (cl_types body) w g wait deadline turns r)"

text \<open>A turn of the loop of \<open>HandleClaimStream\<close>, and what it writes.\<close>

datatype stream_wake = StreamCancel | StreamNotify | StreamTick

record stream_turn =
  st_before :: "registry \<Rightarrow> registry"
  st_done :: bool
  st_claim_at :: time
  st_seen_at :: time
  st_after :: "registry \<Rightarrow> registry"
  st_wake :: stream_wake

datatype stream_out = OutEvent event | OutKeepAlive

fun stream_loop ::
  "string list \<Rightarrow> string \<Rightarrow> string \<Rightarrow> stream_turn list \<Rightarrow> registry
    \<Rightarrow> (stream_out list \<times> bool \<times> registry) option" where
  "stream_loop types w g [] r = Some ([], False, r)"
| "stream_loop types w g (t # ts) r =
     (if st_done t then Some ([], True, st_before t r)
      else case claimNext types w g (st_claim_at t) (st_before t r) of
        None \<Rightarrow> None
      | Some (Some jid, r) \<Rightarrow>
          let r = recordWorkerSeen w g ''stream'' types jid (st_seen_at t) (st_after t r);
              ev = \<lparr>ev_type = ''job'', ev_data = DClaim (claimResponse (jobs r jid))\<rparr>
          in map_option (\<lambda>(outs, b, r). (OutEvent ev # outs, b, r)) (stream_loop types w g ts r)
      | Some (None, r) \<Rightarrow>
          let r = st_after t r in
          case st_wake t of
            StreamCancel \<Rightarrow> Some ([], True, r)
          | StreamNotify \<Rightarrow>
              (case recv_notify r of
                 None \<Rightarrow> None
               | Some r \<Rightarrow>
                   stream_loop types w g ts (recordWorkerSeen w g ''stream'' types [] (st_seen_at t) r))
          | StreamTick \<Rightarrow>
              map_option (\<lambda>(outs, b, r). (OutKeepAlive # outs, b, r))
                (stream_loop types w g ts (recordWorkerSeen w g ''stream'' types [] (st_seen_at t) r)))"

definition HandleClaimStream ::
  "bool \<Rightarrow> string list \<Rightarrow> string \<Rightarrow> string \<Rightarrow> time \<Rightarrow> time \<Rightarrow> stream_turn list \<Rightarrow> registry
    \<Rightarrow> (stream_out list \<times> bool \<times> registry) option" where
  "HandleClaimStream can_flush q_types q_worker q_group opened_at ended_at turns r =
     (if \<not> can_flush then Some ([], True, r)
      else
        let types = parseListQuery q_types;
            w = TrimSpace q_worker;
            g = TrimSpace q_group;
            r = addWorkerStream w g types opened_at r
        in map_option
             (\<lambda>(outs, returned, r).
                (outs, returned, if returned then removeWorkerStream w g ended_at r else r))
             (stream_loop types w g turns r))"

definition zero_transfer :: transfer_request where
  "zero_transfer = \<lparr>tq_key = None, tq_properties = None\<rparr>"

definition transfer_url :: "string \<Rightarrow> string" where
  "transfer_url channelID = ''/api/transfer/'' @ channelID"

definition create_channel :: "string \<Rightarrow> time \<Rightarrow> registry \<Rightarrow> (string \<times> time) \<times> registry" where
  "create_channel cid now r =
     (let (ce, tr) = Create cid now (transfer_reg r) in (ce, r\<lparr>transfer_reg := tr\<rparr>))"

definition HandlePayloadRequest ::
  "string \<Rightarrow> transfer_request decoded \<Rightarrow> string \<Rightarrow> time \<Rightarrow> time \<Rightarrow> env \<Rightarrow> registry
    \<Rightarrow> (jresp \<times> registry) option" where
  "HandlePayloadRequest jid dec cid create_at now env r =
     (case jobs r jid of
        None \<Rightarrow> Some (RError 404 ''not_found'', r)
      | Some job \<Rightarrow>
          if \<not> canRequestTransfer (j_status job) then Some (RError 409 ''invalid_state'', r)
          else
            let r = env 0 r in
            case dec of
              DecErr \<Rightarrow> Some (RError 400 ''invalid_request'', r)
            | _ \<Rightarrow>
                let body = (case dec of Decoded b \<Rightarrow> b | _ \<Rightarrow> zero_transfer);
                    key = (case tq_key body of None \<Rightarrow> ''payload'' | Some k \<Rightarrow> TrimSpace k);
                    ((channelID, expires), r) = create_channel cid create_at r;
                    info = \<lparr>ti_channel = channelID, ti_method = ''POST'', ti_url = transfer_url channelID,
                            ti_expires = rfc3339 expires, ti_key = key,
                            ti_properties = copyMap (tq_properties body)\<rparr>;
                    r = payload_commit jid key info now (env 1 r);
                    ev = status_event jid r
                in case publish jid \<lparr>ev_type = ''payload'', ev_data = DInfo info\<rparr> (env 2 r) of
                     None \<Rightarrow> None
                   | Some r \<Rightarrow>
                       map_option
                         (\<lambda>r. (RTransfer key channelID (transfer_url channelID) (rfc3339 expires)
                                 (copyMap (tq_properties body)), r))
                         (publish jid ev (env 3 r)))"

definition HandleResultRequest ::
  "string \<Rightarrow> transfer_request decoded \<Rightarrow> string \<Rightarrow> time \<Rightarrow> time \<Rightarrow> env \<Rightarrow> registry
    \<Rightarrow> (jresp \<times> registry) option" where
  "HandleResultRequest jid dec cid create_at now env r =
     (case jobs r jid of
        None \<Rightarrow> Some (RError 404 ''not_found'', r)
      | Some job \<Rightarrow>
          if \<not> canRequestTransfer (j_status job) then Some (RError 409 ''invalid_state'', r)
          else
            let r = env 0 r in
            case dec of
              DecErr \<Rightarrow> Some (RError 400 ''invalid_request'', r)
            | _ \<Rightarrow>
                let body = (case dec of Decoded b \<Rightarrow> b | _ \<Rightarrow> zero_transfer);
                    key = (case tq_key body of None \<Rightarrow> ''result'' | Some k \<Rightarrow> TrimSpace k);
                    ((channelID, expires), r) = create_channel cid create_at r;
                    info = \<lparr>ti_channel = channelID, ti_method = ''GET'', ti_url = transfer_url channelID,
                            ti_expires = rfc3339 expires, ti_key = key,
                            ti_properties = copyMap (tq_properties body)\<rparr>;
                    r = result_commit jid key info now (env 1 r);
                    ev = status_event jid r
                in case publish jid \<lparr>ev_type = ''result'', ev_data = DInfo info\<rparr> (env 2 r) of
                     None \<Rightarrow> None
                   | Some r \<Rightarrow>
                       map_option
                         (\<lambda>r. (RTransfer key channelID (transfer_url channelID) (rfc3339 expires)
                                 (copyMap (tq_properties body)), r))
                         (publish jid ev (env 3 r)))"

definition HandleStatusUpdate ::
  "string \<Rightarrow> status_request decoded \<Rightarrow> time \<Rightarrow> env \<Rightarrow> registry \<Rightarrow> (jresp \<times> registry) option" where
  "HandleStatusUpdate jid dec now env r =
     (case jobs r jid of
        None \<Rightarrow> Some (RError 404 ''not_found'', r)
      | Some job \<Rightarrow>
          if isTerminalStatus (j_status job) then Some (RError 409 ''invalid_state'', r)
          else
            let r = env 0 r in
            case dec of
              DecErr \<Rightarrow> Some (RError 400 ''invalid_request'', r)
            | DecEOF \<Rightarrow> Some (RError 400 ''invalid_request'', r)
            | Decoded body \<Rightarrow>
                let state = TrimSpace (sr_state body) in
                if state = [] then Some (RError 400 ''missing_state'', r)
                else case status_commit jid state body now r of
                  None \<Rightarrow> Some (RError 409 ''invalid_state'', r)
                | Some r \<Rightarrow>
                    let ev = status_event jid r;
                        r = (if isTerminalStatus state then clearClientTimer jid (env 1 r) else r)
                    in map_option (\<lambda>r. let r = env 3 r in (RStatus (job_status jid r), r))
                         (publish jid ev (env 2 r)))"

text \<open>
  The callback of a client timer, with the publication that follows its section.
\<close>

definition client_timer_callback ::
  "string \<Rightarrow> time \<Rightarrow> env \<Rightarrow> registry \<Rightarrow> registry option" where
  "client_timer_callback jid now env r =
     (case expireJobIfIdle jid now r of
        (None, r) \<Rightarrow> Some r
      | (Some ev, r) \<Rightarrow> publish jid ev (env 0 r))"

end
