(* ===== verification/JobInv.thy ===== *)
theory JobInv
  imports JobHandlers
begin

text \<open>
  The job registry as a machine whose events are the critical sections of its methods, in any
  order.  \<open>jguard\<close> says when a section can run at all; \<open>calm_guard\<close> adds the discipline of a worker
  that only touches a job it holds and whose transfer requests are not overtaken between their
  two sections.  \<open>jobs_ok\<close> is the invariant of every run, \<open>calm_ok\<close> that of the disciplined ones.
\<close>

section \<open>The machine\<close>

datatype jevent =
    JCreate create_request string time time
  | JPublish string event
  | JTimerStart string time
  | JTimerDrop string
  | JSignal
  | JNotified
  | JSubscribe string nat
  | JUnsubscribe string nat
  | JRecv nat
  | JCancel string time
  | JExpire string time
  | JClaim "string list" string string time
  | JSeen string string string "string list" string time
  | JAddStream string string "string list" time
  | JRemoveStream string string time
  | JPrune time
  | JChannel string time
  | JPayload string string transfer_info time
  | JResult string string transfer_info time
  | JStatus string string status_request time

fun jguard1 :: "jevent \<Rightarrow> registry \<Rightarrow> bool" where
  "jguard1 (JCreate body jid t1 t2) r = (jobs r jid = None)"
| "jguard1 (JSubscribe jid h) r = (chans r h = None)"
| "jguard1 (JUnsubscribe jid h) r = (h \<in> set (sub_list jid r))"
| "jguard1 (JRecv h) r = (recv_event h r \<noteq> None)"
| "jguard1 JNotified r = notify r"
| "jguard1 (JPayload jid key info now) r = (jobs r jid \<noteq> None)"
| "jguard1 (JResult jid key info now) r = (jobs r jid \<noteq> None)"
| "jguard1 (JStatus jid state body now) r = (jobs r jid \<noteq> None \<and> state \<noteq> [])"
| "jguard1 (JCancel jid now) r = (jobs r jid \<noteq> None)"
| "jguard1 _ r = True"

fun jstep1 :: "jevent \<Rightarrow> registry \<Rightarrow> registry option" where
  "jstep1 (JCreate body jid t1 t2) r = Some (insert_job (new_job jid body t1 t2) r)"
| "jstep1 (JPublish jid ev) r = publish jid ev r"
| "jstep1 (JTimerStart jid now) r = Some (startClientTimerIfIdle jid now r)"
| "jstep1 (JTimerDrop jid) r = Some (drop_timer jid r)"
| "jstep1 JSignal r = Some (signal r)"
| "jstep1 JNotified r = recv_notify r"
| "jstep1 (JSubscribe jid h) r = Some (subscribe jid h r)"
| "jstep1 (JUnsubscribe jid h) r = unsubscribe jid h r"
| "jstep1 (JRecv h) r = map_option snd (recv_event h r)"
| "jstep1 (JCancel jid now) r = Some (cancel_section jid now r)"
| "jstep1 (JExpire jid now) r = Some (snd (expireJobIfIdle jid now r))"
| "jstep1 (JClaim types w g now) r = map_option snd (claimNext types w g now r)"
| "jstep1 (JSeen w g mode types jobID now) r = Some (recordWorkerSeen w g mode types jobID now r)"
| "jstep1 (JAddStream w g types now) r = Some (addWorkerStream w g types now r)"
| "jstep1 (JRemoveStream w g now) r = Some (removeWorkerStream w g now r)"
| "jstep1 (JPrune now) r = Some (pruneWorkersLocked now r)"
| "jstep1 (JChannel cid now) r = Some (snd (create_channel cid now r))"
| "jstep1 (JPayload jid key info now) r = Some (payload_commit jid key info now r)"
| "jstep1 (JResult jid key info now) r = Some (result_commit jid key info now r)"
| "jstep1 (JStatus jid state body now) r =
     Some (case status_commit jid state body now r of None \<Rightarrow> r | Some r' \<Rightarrow> r')"

text \<open>The state is \<open>None\<close> after a panic.\<close>

definition jguard :: "jevent \<Rightarrow> registry option \<Rightarrow> bool" where
  "jguard e s \<longleftrightarrow> (case s of None \<Rightarrow> False | Some r \<Rightarrow> jguard1 e r)"

definition jstep :: "jevent \<Rightarrow> registry option \<Rightarrow> registry option" where
  "jstep e s = Option.bind s (jstep1 e)"

fun calm_guard1 :: "jevent \<Rightarrow> registry \<Rightarrow> bool" where
  "calm_guard1 (JPayload jid key info now) r = canRequestTransfer (job_status jid r)"
| "calm_guard1 (JResult jid key info now) r = canRequestTransfer (job_status jid r)"
| "calm_guard1 (JStatus jid state body now) r =
     (job_status jid r \<noteq> StatusQueued \<and> state \<noteq> StatusQueued)"
| "calm_guard1 _ r = True"

definition calm_guard :: "jevent \<Rightarrow> registry option \<Rightarrow> bool" where
  "calm_guard e s \<longleftrightarrow> jguard e s \<and> (case s of None \<Rightarrow> False | Some r \<Rightarrow> calm_guard1 e r)"

section \<open>What the sections leave alone\<close>

lemma set_status_simps [simp]:
  "j_id (set_status s now j) = j_id j"
  "j_status (set_status s now j) = s"
  "j_updated (set_status s now j) = now"
  "j_type (set_status s now j) = j_type j"
  "j_created (set_status s now j) = j_created j"
  "j_worker (set_status s now j) = j_worker j"
  "j_group (set_status s now j) = j_group j"
  by (simp_all add: set_status_def)

lemma setJobStatusLocked_frame [simp]:
  "queue (setJobStatusLocked i s now r) = queue r"
  "subs (setJobStatusLocked i s now r) = subs r"
  "chans (setJobStatusLocked i s now r) = chans r"
  "notify (setJobStatusLocked i s now r) = notify r"
  "clientTimers (setJobStatusLocked i s now r) = clientTimers r"
  "clientTTL (setJobStatusLocked i s now r) = clientTTL r"
  "workers (setJobStatusLocked i s now r) = workers r"
  "transfer_reg (setJobStatusLocked i s now r) = transfer_reg r"
  by (simp_all add: setJobStatusLocked_def split: option.splits)

lemma update_job_frame [simp]:
  "queue (update_job i f r) = queue r"
  "subs (update_job i f r) = subs r"
  "chans (update_job i f r) = chans r"
  "notify (update_job i f r) = notify r"
  "clientTimers (update_job i f r) = clientTimers r"
  "clientTTL (update_job i f r) = clientTTL r"
  "workers (update_job i f r) = workers r"
  "transfer_reg (update_job i f r) = transfer_reg r"
  "stats (update_job i f r) = stats r"
  by (simp_all add: update_job_def split: option.splits)

lemma removeFromQueue_frame [simp]:
  "queue (removeFromQueue i r) = remove1 i (queue r)"
  "jobs (removeFromQueue i r) = jobs r"
  "subs (removeFromQueue i r) = subs r"
  "chans (removeFromQueue i r) = chans r"
  "notify (removeFromQueue i r) = notify r"
  "clientTimers (removeFromQueue i r) = clientTimers r"
  "clientTTL (removeFromQueue i r) = clientTTL r"
  "workers (removeFromQueue i r) = workers r"
  "stats (removeFromQueue i r) = stats r"
  "transfer_reg (removeFromQueue i r) = transfer_reg r"
  by (simp_all add: removeFromQueue_def)

lemma sub_list_cong: "subs r' = subs r \<Longrightarrow> sub_list i r' = sub_list i r"
  by (simp add: sub_list_def)

lemma sub_list_frame [simp]:
  "sub_list i (setJobStatusLocked k s now r) = sub_list i r"
  "sub_list i (update_job k f r) = sub_list i r"
  "sub_list i (removeFromQueue k r) = sub_list i r"
  by (simp_all add: sub_list_def)

lemma job_set_status:
  "jobs (setJobStatusLocked i s now r) =
     (case jobs r i of None \<Rightarrow> jobs r | Some j \<Rightarrow> (jobs r)(i \<mapsto> set_status s now j))"
  by (simp add: setJobStatusLocked_def split: option.splits)

lemma job_update:
  "jobs (update_job i f r) = (case jobs r i of None \<Rightarrow> jobs r | Some j \<Rightarrow> (jobs r)(i \<mapsto> f j))"
  by (simp add: update_job_def split: option.splits)

lemma publish_frame:
  assumes "publish i ev r = Some r'"
  shows "jobs r' = jobs r" "queue r' = queue r" "subs r' = subs r" "workers r' = workers r"
    "stats r' = stats r" "clientTimers r' = clientTimers r" "clientTTL r' = clientTTL r"
    "notify r' = notify r" "transfer_reg r' = transfer_reg r"
  using assms by (auto simp: publish_def publishLocked_def)

text \<open>
  The parts of the registry the queue, the subscriptions and the workers live in; a section that
  leaves a part as it is keeps the invariant about it.
\<close>

lemma worker_sections_frame [simp]:
  "jobs (recordWorkerSeen w g m ty j now r) = jobs r"
  "queue (recordWorkerSeen w g m ty j now r) = queue r"
  "subs (recordWorkerSeen w g m ty j now r) = subs r"
  "chans (recordWorkerSeen w g m ty j now r) = chans r"
  "stats (recordWorkerSeen w g m ty j now r) = stats r"
  "clientTimers (recordWorkerSeen w g m ty j now r) = clientTimers r"
  "clientTTL (recordWorkerSeen w g m ty j now r) = clientTTL r"
  "jobs (addWorkerStream w g ty now r) = jobs r"
  "queue (addWorkerStream w g ty now r) = queue r"
  "subs (addWorkerStream w g ty now r) = subs r"
  "chans (addWorkerStream w g ty now r) = chans r"
  "stats (addWorkerStream w g ty now r) = stats r"
  "clientTimers (addWorkerStream w g ty now r) = clientTimers r"
  "clientTTL (addWorkerStream w g ty now r) = clientTTL r"
  "jobs (removeWorkerStream w g now r) = jobs r"
  "queue (removeWorkerStream w g now r) = queue r"
  "subs (removeWorkerStream w g now r) = subs r"
  "chans (removeWorkerStream w g now r) = chans r"
  "stats (removeWorkerStream w g now r) = stats r"
  "clientTimers (removeWorkerStream w g now r) = clientTimers r"
  "clientTTL (removeWorkerStream w g now r) = clientTTL r"
  "jobs (pruneWorkersLocked now r) = jobs r"
  "queue (pruneWorkersLocked now r) = queue r"
  "subs (pruneWorkersLocked now r) = subs r"
  "chans (pruneWorkersLocked now r) = chans r"
  "stats (pruneWorkersLocked now r) = stats r"
  "clientTimers (pruneWorkersLocked now r) = clientTimers r"
  "clientTTL (pruneWorkersLocked now r) = clientTTL r"
  by (auto simp: recordWorkerSeen_def addWorkerStream_def removeWorkerStream_def ensureWorkerLocked_def
      pruneWorkersLocked_def put_worker_def Let_def split: option.splits prod.splits if_splits)

lemma small_sections_frame [simp]:
  "jobs (signal r) = jobs r" "queue (signal r) = queue r" "subs (signal r) = subs r"
  "chans (signal r) = chans r" "stats (signal r) = stats r" "workers (signal r) = workers r"
  "clientTimers (signal r) = clientTimers r" "clientTTL (signal r) = clientTTL r"
  "jobs (drop_timer i r) = jobs r" "queue (drop_timer i r) = queue r" "subs (drop_timer i r) = subs r"
  "chans (drop_timer i r) = chans r" "stats (drop_timer i r) = stats r"
  "workers (drop_timer i r) = workers r" "clientTTL (drop_timer i r) = clientTTL r"
  "jobs (startClientTimerIfIdle i now r) = jobs r" "queue (startClientTimerIfIdle i now r) = queue r"
  "subs (startClientTimerIfIdle i now r) = subs r" "chans (startClientTimerIfIdle i now r) = chans r"
  "stats (startClientTimerIfIdle i now r) = stats r"
  "workers (startClientTimerIfIdle i now r) = workers r"
  "clientTTL (startClientTimerIfIdle i now r) = clientTTL r"
  "jobs (snd (create_channel c now r)) = jobs r" "queue (snd (create_channel c now r)) = queue r"
  "subs (snd (create_channel c now r)) = subs r" "chans (snd (create_channel c now r)) = chans r"
  "stats (snd (create_channel c now r)) = stats r" "workers (snd (create_channel c now r)) = workers r"
  "clientTimers (snd (create_channel c now r)) = clientTimers r"
  "clientTTL (snd (create_channel c now r)) = clientTTL r"
  "jobs (subscribe i h r) = jobs r" "queue (subscribe i h r) = queue r"
  "stats (subscribe i h r) = stats r" "workers (subscribe i h r) = workers r"
  "clientTimers (subscribe i h r) = clientTimers r" "clientTTL (subscribe i h r) = clientTTL r"
  by (simp_all add: signal_def drop_timer_def startClientTimerIfIdle_def create_channel_def subscribe_def
      split: prod.splits)

lemma unsubscribe_frame:
  assumes "unsubscribe i h r = Some r'"
  shows "jobs r' = jobs r" "queue r' = queue r" "stats r' = stats r" "workers r' = workers r"
    "clientTimers r' = clientTimers r" "clientTTL r' = clientTTL r"
  using assms by (auto simp: unsubscribe_def Let_def split: option.splits)

lemma recv_event_frame:
  assumes "recv_event h r = Some (ev, r')"
  shows "jobs r' = jobs r" "queue r' = queue r" "subs r' = subs r" "stats r' = stats r"
    "workers r' = workers r" "clientTimers r' = clientTimers r" "clientTTL r' = clientTTL r"
  using assms by (auto simp: recv_event_def split: option.splits list.splits)

lemma recv_notify_frame:
  assumes "recv_notify r = Some r'"
  shows "jobs r' = jobs r" "queue r' = queue r" "subs r' = subs r" "chans r' = chans r"
    "stats r' = stats r" "workers r' = workers r" "clientTimers r' = clientTimers r"
    "clientTTL r' = clientTTL r"
  using assms by (auto simp: recv_notify_def split: if_splits)

lemma commit_frame [simp]:
  "queue (payload_commit i key info now r) = queue r" "subs (payload_commit i key info now r) = subs r"
  "chans (payload_commit i key info now r) = chans r" "workers (payload_commit i key info now r) = workers r"
  "clientTimers (payload_commit i key info now r) = clientTimers r"
  "clientTTL (payload_commit i key info now r) = clientTTL r"
  "queue (result_commit i key info now r) = queue r" "subs (result_commit i key info now r) = subs r"
  "chans (result_commit i key info now r) = chans r" "workers (result_commit i key info now r) = workers r"
  "clientTimers (result_commit i key info now r) = clientTimers r"
  "clientTTL (result_commit i key info now r) = clientTTL r"
  by (simp_all add: payload_commit_def result_commit_def)

lemma status_commit_frame:
  assumes "status_commit i st body now r = Some r'"
  shows "queue r' = queue r" "subs r' = subs r" "chans r' = chans r" "workers r' = workers r"
    "clientTimers r' = clientTimers r" "clientTTL r' = clientTTL r"
  using assms by (auto simp: status_commit_def split: option.splits if_splits)

lemma cancel_frame [simp]:
  "subs (cancel_section i now r) = subs r" "chans (cancel_section i now r) = chans r"
  "workers (cancel_section i now r) = workers r"
  "clientTimers (cancel_section i now r) = clientTimers r"
  "clientTTL (cancel_section i now r) = clientTTL r"
  by (auto simp: cancel_section_def split: option.splits)

lemma expire_frame [simp]:
  "subs (snd (expireJobIfIdle i now r)) = subs r" "chans (snd (expireJobIfIdle i now r)) = chans r"
  "workers (snd (expireJobIfIdle i now r)) = workers r"
  "clientTTL (snd (expireJobIfIdle i now r)) = clientTTL r"
  by (auto simp: expireJobIfIdle_def Let_def split: option.splits)

end
