(* ===== verification/JobSafety.thy ===== *)
theory JobSafety
  imports JobInv
begin

text \<open>
  The invariant of every run of the job registry, whatever the workers and clients send and
  however their requests interleave: no section panics, the queue lists existing jobs once each,
  subscriber channels are open and never over-full, worker stream counts stay non-negative.
\<close>

section \<open>The invariant\<close>

definition queue_ok :: "registry \<Rightarrow> bool" where
  "queue_ok r \<longleftrightarrow> distinct (queue r) \<and> set (queue r) \<subseteq> dom (jobs r) \<and>
     (\<forall>jid job. jobs r jid = Some job \<longrightarrow> j_id job = jid)"

definition subs_ok :: "registry \<Rightarrow> bool" where
  "subs_ok r \<longleftrightarrow>
     (\<forall>jid. distinct (sub_list jid r) \<and>
        (\<forall>h \<in> set (sub_list jid r). \<exists>c. chans r h = Some c \<and> \<not> sc_closed c)) \<and>
     (\<forall>jid k h. h \<in> set (sub_list jid r) \<longrightarrow> h \<in> set (sub_list k r) \<longrightarrow> jid = k)"

definition bufs_ok :: "registry \<Rightarrow> bool" where
  "bufs_ok r \<longleftrightarrow> (\<forall>h c. chans r h = Some c \<longrightarrow> length (sc_buf c) \<le> 8)"

definition workers_ok :: "registry \<Rightarrow> bool" where
  "workers_ok r \<longleftrightarrow>
     (\<forall>key w. workers r key = Some w \<longrightarrow> key \<noteq> [] \<and> wa_key w = key \<and> 0 \<le> wa_streams w)"

definition timers_ok :: "registry \<Rightarrow> bool" where
  "timers_ok r \<longleftrightarrow> (clientTTL r \<le> 0 \<longrightarrow> clientTimers r = Map.empty)"

definition jobs_ok :: "registry \<Rightarrow> bool" where
  "jobs_ok r \<longleftrightarrow> queue_ok r \<and> subs_ok r \<and> bufs_ok r \<and> workers_ok r \<and> timers_ok r"

definition jinit :: "registry option \<Rightarrow> bool" where
  "jinit s \<longleftrightarrow> (\<exists>tr delay ttl. s = Some (NewJobRegistry tr delay ttl))"

definition jinv :: "registry option \<Rightarrow> bool" where
  "jinv s \<longleftrightarrow> (case s of None \<Rightarrow> False | Some r \<Rightarrow> jobs_ok r)"

lemma NewJobRegistry_ok: "jobs_ok (NewJobRegistry tr delay ttl)"
  by (simp add: jobs_ok_def queue_ok_def subs_ok_def bufs_ok_def workers_ok_def timers_ok_def
      NewJobRegistry_def sub_list_def)

section \<open>Claims\<close>

lemma find_claim_Some:
  "find_claim types w g js q = Some (i, q') \<Longrightarrow>
   \<exists>pre post. q = pre @ i # post \<and> q' = pre @ post \<and> claimable types w g js i \<and>
     (\<forall>p \<in> set pre. \<not> claimable types w g js p)"
proof (induction q arbitrary: q')
  case (Cons j q)
  show ?case
  proof (cases "claimable types w g js j")
    case True
    with Cons.prems show ?thesis by (intro exI [of _ "[]"] exI [of _ q]) auto
  next
    case False
    with Cons.prems obtain p where p: "find_claim types w g js q = Some (i, p)" "q' = j # p"
      by auto
    from Cons.IH [OF p(1)] obtain pre post where
      "q = pre @ i # post \<and> p = pre @ post \<and> claimable types w g js i \<and>
       (\<forall>p \<in> set pre. \<not> claimable types w g js p)" by blast
    with False p(2) show ?thesis by (intro exI [of _ "j # pre"] exI [of _ post]) auto
  qed
qed simp

lemma find_claim_None: "find_claim types w g js q = None \<longleftrightarrow> (\<forall>i \<in> set q. \<not> claimable types w g js i)"
  by (induction q) auto

definition claimed_job :: "string \<Rightarrow> string \<Rightarrow> time \<Rightarrow> job \<Rightarrow> job" where
  "claimed_job w g now job =
     (set_status StatusClaimed now job)\<lparr>j_claimed_worker := w, j_claimed_group := g\<rparr>"

lemma claimed_job_simps [simp]:
  "j_id (claimed_job w g now job) = j_id job"
  "j_status (claimed_job w g now job) = StatusClaimed"
  "j_type (claimed_job w g now job) = j_type job"
  "j_claimed_worker (claimed_job w g now job) = w"
  "j_claimed_group (claimed_job w g now job) = g"
  by (simp_all add: claimed_job_def)

text \<open>A successful claim, spelled out.\<close>

lemma claimNext_Some:
  assumes "claimNext types w g now r = Some (Some i, r')"
  shows "\<exists>job pre post cs. jobs r i = Some job \<and> claimable types w g (jobs r) i \<and>
    queue r = pre @ i # post \<and> (\<forall>p \<in> set pre. \<not> claimable types w g (jobs r) p) \<and>
    publish_loop \<lparr>ev_type = ''status'', ev_data = DView (viewLocked (claimed_job w g now job))\<rparr>
      (sub_list (j_id job) r) (chans r) = Some cs \<and>
    r' = r\<lparr>queue := pre @ post, jobs := (jobs r)(i \<mapsto> claimed_job w g now job), chans := cs\<rparr>"
proof -
  from assms obtain q where q: "find_claim types w g (jobs r) (queue r) = Some (i, q)"
    by (auto simp: claimNext_def Let_def split: option.splits)
  from find_claim_Some [OF q] obtain pre post where pp: "queue r = pre @ i # post" "q = pre @ post"
    "claimable types w g (jobs r) i" "\<forall>p \<in> set pre. \<not> claimable types w g (jobs r) p" by blast
  from pp(3) obtain job where job: "jobs r i = Some job"
    by (auto simp: claimable_def split: option.splits)
  have "setJobStatusLocked i StatusClaimed now (r\<lparr>queue := q\<rparr>) =
      r\<lparr>queue := q, jobs := (jobs r)(i \<mapsto> set_status StatusClaimed now job)\<rparr>"
    by (simp add: setJobStatusLocked_def job)
  with assms q job pp show ?thesis
    by (auto simp: claimNext_def Let_def update_job_def claimed_job_def publishLocked_def sub_list_def)
qed

lemma claimNext_None:
  "claimNext types w g now r = Some (None, r') \<Longrightarrow>
   r' = r \<and> (\<forall>i \<in> set (queue r). \<not> claimable types w g (jobs r) i)"
  by (auto simp: claimNext_def Let_def find_claim_None split: option.splits)

section \<open>Publishing\<close>

lemma subs_ok_openD: "subs_ok r \<Longrightarrow> h \<in> set (sub_list i r) \<Longrightarrow> \<exists>c. chans r h = Some c \<and> \<not> sc_closed c"
  by (simp add: subs_ok_def)

lemma publish_loop_total:
  "(\<And>h. h \<in> set hs \<Longrightarrow> \<exists>c. cs h = Some c \<and> \<not> sc_closed c) \<Longrightarrow> \<exists>cs'. publish_loop ev hs cs = Some cs'"
proof (induction hs arbitrary: cs)
  case (Cons h hs)
  obtain c where c: "cs h = Some c" "\<not> sc_closed c" using Cons.prems by fastforce
  have "\<exists>c'. try_send ev c = Some c' \<and> \<not> sc_closed c'"
    using c(2) by (simp add: try_send_def)
  then obtain c' where c': "try_send ev c = Some c'" "\<not> sc_closed c'" by blast
  have "\<exists>cs'. publish_loop ev hs (cs(h \<mapsto> c')) = Some cs'"
    using Cons.prems c'(2) by (intro Cons.IH) auto
  with c(1) c'(1) show ?case by auto
qed simp

lemma publish_loop_chan:
  "publish_loop ev hs cs = Some cs' \<Longrightarrow> cs h = Some c \<Longrightarrow>
   \<exists>c'. cs' h = Some c' \<and> sc_closed c' = sc_closed c \<and> (length (sc_buf c) \<le> 8 \<longrightarrow> length (sc_buf c') \<le> 8)"
proof (induction hs arbitrary: cs c)
  case (Cons k hs)
  from Cons.prems(1) obtain d d' where d: "cs k = Some d" "try_send ev d = Some d'"
    and rest: "publish_loop ev hs (cs(k \<mapsto> d')) = Some cs'"
    by (auto split: option.splits)
  show ?case
  proof (cases "k = h")
    case True
    with d rest Cons.prems(2) Cons.IH [OF rest, of d'] show ?thesis
      by (fastforce simp: try_send_def split: if_splits)
  next
    case False
    with Cons.prems(2) Cons.IH [OF rest, of c] show ?thesis by simp
  qed
qed simp

lemma publish_loop_none: "publish_loop ev hs cs = Some cs' \<Longrightarrow> cs h = None \<Longrightarrow> cs' h = None"
proof (induction hs arbitrary: cs)
  case (Cons k hs)
  then obtain d d' where "cs k = Some d" and rest: "publish_loop ev hs (cs(k \<mapsto> d')) = Some cs'"
    by (auto split: option.splits)
  with Cons.prems(2) have "(cs(k \<mapsto> d')) h = None" by auto
  with Cons.IH [OF rest] show ?case by blast
qed simp

lemma publish_loop_back:
  assumes "publish_loop ev hs cs = Some cs'" "cs' h = Some c'"
  shows "\<exists>c. cs h = Some c \<and> sc_closed c' = sc_closed c \<and> (length (sc_buf c) \<le> 8 \<longrightarrow> length (sc_buf c') \<le> 8)"
proof (cases "cs h")
  case None
  with publish_loop_none [OF assms(1)] assms(2) show ?thesis by simp
next
  case (Some c)
  from publish_loop_chan [OF assms(1) Some] assms(2) Some show ?thesis by auto
qed

lemma publish_total: "subs_ok r \<Longrightarrow> \<exists>r'. publish i ev r = Some r'"
  using publish_loop_total [of "sub_list i r" "chans r" ev]
  by (auto simp: publish_def publishLocked_def subs_ok_def)

section \<open>Preservation\<close>

lemma subs_ok_cong: "subs_ok r \<Longrightarrow> subs r' = subs r \<Longrightarrow> chans r' = chans r \<Longrightarrow> subs_ok r'"
  by (simp add: subs_ok_def sub_list_def)

lemma bufs_ok_cong: "bufs_ok r \<Longrightarrow> chans r' = chans r \<Longrightarrow> bufs_ok r'"
  by (simp add: bufs_ok_def)

lemma subs_ok_publish:
  assumes ok: "subs_ok r" and p: "publish_loop ev hs (chans r) = Some cs"
    and s: "subs r' = subs r" and c: "chans r' = cs"
  shows "subs_ok r'"
proof -
  have "\<exists>c. chans r' h = Some c \<and> \<not> sc_closed c" if "h \<in> set (sub_list i r)" for i h
  proof -
    from subs_ok_openD [OF ok that] obtain d where "chans r h = Some d" "\<not> sc_closed d" by blast
    with publish_loop_chan [OF p this(1)] c show ?thesis by auto
  qed
  with ok s show ?thesis by (simp add: subs_ok_def sub_list_def)
qed

lemma bufs_ok_publish:
  "bufs_ok r \<Longrightarrow> publish_loop ev hs (chans r) = Some cs \<Longrightarrow> chans r' = cs \<Longrightarrow> bufs_ok r'"
  unfolding bufs_ok_def using publish_loop_back by metis

lemma queue_ok_jobs:
  assumes "queue_ok r" "queue r' = queue r \<or> queue r' = remove1 i (queue r)"
    and "dom (jobs r') = dom (jobs r)"
    and "\<And>k job. jobs r' k = Some job \<Longrightarrow> \<exists>old. jobs r k = Some old \<and> j_id job = j_id old"
  shows "queue_ok r'"
  using assms set_remove1_subset [of i "queue r"] unfolding queue_ok_def by fastforce

lemma queue_ok_cong: "queue_ok r \<Longrightarrow> queue r' = queue r \<Longrightarrow> jobs r' = jobs r \<Longrightarrow> queue_ok r'"
  by (simp add: queue_ok_def)

lemma queue_ok_insert: "queue_ok r \<Longrightarrow> jobs r jid = None \<Longrightarrow> queue_ok (insert_job (new_job jid b t u) r)"
  by (auto simp: queue_ok_def insert_job_def new_job_def)

lemma queue_ok_set_status: "queue_ok r \<Longrightarrow> queue_ok (setJobStatusLocked i s now r)"
  by (rule queue_ok_jobs [of r _ i]) (auto simp: job_set_status split: option.splits if_splits)

lemma queue_ok_update: "queue_ok r \<Longrightarrow> (\<And>j. j_id (f j) = j_id j) \<Longrightarrow> queue_ok (update_job i f r)"
  by (rule queue_ok_jobs [of r _ i]) (auto simp: job_update split: option.splits if_splits)

lemma queue_ok_remove: "queue_ok r \<Longrightarrow> queue_ok (removeFromQueue i r)"
  by (rule queue_ok_jobs [of r _ i]) auto

lemma queue_ok_timers [simp]: "queue_ok (r\<lparr>clientTimers := x\<rparr>) = queue_ok r"
  by (simp add: queue_ok_def)

lemmas queue_ok_intros = queue_ok_insert queue_ok_set_status queue_ok_update queue_ok_remove

lemma queue_ok_claim:
  assumes "queue_ok r" "claimNext types w g now r = Some (x, r')"
  shows "queue_ok r'"
proof (cases x)
  case None
  with assms claimNext_None show ?thesis by blast
next
  case (Some i)
  with assms(2) claimNext_Some [of types w g now r i r'] obtain job pre post cs where
    "jobs r i = Some job" "queue r = pre @ i # post"
    "r' = r\<lparr>queue := pre @ post, jobs := (jobs r)(i \<mapsto> claimed_job w g now job), chans := cs\<rparr>"
    by blast
  with assms(1) show ?thesis by (auto simp: queue_ok_def)
qed

lemma queue_ok_step: "queue_ok r \<Longrightarrow> jguard1 e r \<Longrightarrow> jstep1 e r = Some r' \<Longrightarrow> queue_ok r'"
proof (induction e r rule: jstep1.induct)
  case (2 jid ev r)
  then show ?case by (auto dest: publish_frame intro: queue_ok_cong)
next
  case (6 r)
  then show ?case by (auto dest: recv_notify_frame intro: queue_ok_cong)
next
  case (8 jid h r)
  then show ?case by (auto dest: unsubscribe_frame intro: queue_ok_cong)
next
  case (9 h r)
  then show ?case by (auto dest: recv_event_frame intro: queue_ok_cong)
next
  case (10 jid now r)
  then show ?case by (auto simp: cancel_section_def split: option.splits intro!: queue_ok_intros)
next
  case (11 jid now r)
  then show ?case
    by (auto simp: expireJobIfIdle_def Let_def split: option.splits intro!: queue_ok_intros)
next
  case (12 types w g now r)
  then show ?case by (auto dest: queue_ok_claim)
next
  case (18 jid key info now r)
  then show ?case by (auto simp: payload_commit_def intro!: queue_ok_intros)
next
  case (19 jid key info now r)
  then show ?case by (auto simp: result_commit_def intro!: queue_ok_intros)
next
  case (20 jid state body now r)
  then show ?case
    by (auto simp: status_commit_def split: option.splits if_splits intro!: queue_ok_intros)
qed (auto intro: queue_ok_cong intro!: queue_ok_insert)

lemma sub_list_subscribe:
  "sub_list k (subscribe jid h r) = (if k = jid then sub_list jid r @ [h] else sub_list k r)"
  by (simp add: sub_list_def subscribe_def)

lemma subs_ok_subscribe: "subs_ok r \<Longrightarrow> chans r h = None \<Longrightarrow> subs_ok (subscribe jid h r)"
proof -
  assume ok: "subs_ok r" and fresh: "chans r h = None"
  then have "h \<notin> set (sub_list k r)" for k by (fastforce simp: subs_ok_def)
  moreover have "chans (subscribe jid h r) = (chans r)(h \<mapsto> \<lparr>sc_buf = [], sc_closed = False\<rparr>)"
    by (simp add: subscribe_def)
  ultimately show ?thesis using ok by (auto simp: subs_ok_def sub_list_subscribe)
qed

lemma unsubscribe_Some:
  assumes "subs_ok r" "h \<in> set (sub_list jid r)"
  shows "\<exists>c r'. chans r h = Some c \<and> unsubscribe jid h r = Some r' \<and>
    chans r' = (chans r)(h \<mapsto> c\<lparr>sc_closed := True\<rparr>) \<and>
    (\<forall>k. sub_list k r' = (if k = jid then filter (\<lambda>i. i \<noteq> h) (sub_list jid r) else sub_list k r))"
proof -
  from subs_ok_openD [OF assms] obtain c where c: "chans r h = Some c" "\<not> sc_closed c" by blast
  from assms(2) obtain hs where hs: "subs r jid = Some hs"
    by (cases "subs r jid") (auto simp: sub_list_def)
  from c hs show ?thesis by (auto simp: unsubscribe_def close_signal_def sub_list_def Let_def)
qed

lemma subs_ok_unsubscribe:
  assumes "subs_ok r" "h \<in> set (sub_list jid r)" "unsubscribe jid h r = Some r'"
  shows "subs_ok r'"
proof -
  from unsubscribe_Some [OF assms(1,2)] assms(3) obtain c where
    "chans r' = (chans r)(h \<mapsto> c\<lparr>sc_closed := True\<rparr>)"
    and "\<And>k. sub_list k r' = (if k = jid then filter (\<lambda>i. i \<noteq> h) (sub_list jid r) else sub_list k r)"
    by auto
  with assms(1,2) show ?thesis by (auto simp: subs_ok_def)
qed

lemma subs_ok_recv: "subs_ok r \<Longrightarrow> recv_event h r = Some (ev, r') \<Longrightarrow> subs_ok r'"
  by (fastforce simp: subs_ok_def sub_list_def recv_event_def split: option.splits list.splits)

lemma claimNext_chans:
  assumes "claimNext types w g now r = Some (x, r')"
  shows "subs r' = subs r \<and> workers r' = workers r \<and> clientTimers r' = clientTimers r \<and>
    clientTTL r' = clientTTL r \<and>
    (\<exists>ev hs cs. publish_loop ev hs (chans r) = Some cs \<and> chans r' = cs)"
proof (cases x)
  case None
  with assms have "r' = r" by (auto dest: claimNext_None)
  moreover have "publish_loop undefined [] (chans r) = Some (chans r)" by simp
  ultimately show ?thesis by blast
next
  case (Some i)
  with assms claimNext_Some [of types w g now r i r'] show ?thesis by fastforce
qed

lemma subs_ok_step: "subs_ok r \<Longrightarrow> jguard1 e r \<Longrightarrow> jstep1 e r = Some r' \<Longrightarrow> subs_ok r'"
proof (induction e r rule: jstep1.induct)
  case (1 body jid t u r)
  then show ?case by (auto simp: insert_job_def intro: subs_ok_cong)
next
  case (2 jid ev r)
  then show ?case by (auto simp: publish_def publishLocked_def intro: subs_ok_publish)
next
  case (6 r)
  then show ?case by (auto dest: recv_notify_frame intro: subs_ok_cong)
next
  case (7 jid h r)
  then show ?case by (auto intro: subs_ok_subscribe)
next
  case (8 jid h r)
  then show ?case by (auto intro: subs_ok_unsubscribe)
next
  case (9 h r)
  then show ?case by (auto intro: subs_ok_recv)
next
  case (12 types w g now r)
  then obtain x where x: "claimNext types w g now r = Some (x, r')" by auto
  from claimNext_chans [OF x] obtain ev hs cs where
    "subs r' = subs r" "publish_loop ev hs (chans r) = Some cs" "chans r' = cs" by blast
  with "12.prems"(1) show ?case by (blast intro: subs_ok_publish)
next
  case (20 jid state body now r)
  then show ?case by (auto dest: status_commit_frame split: option.splits intro: subs_ok_cong)
qed (auto intro: subs_ok_cong)

lemma bufs_ok_step: "bufs_ok r \<Longrightarrow> jguard1 e r \<Longrightarrow> jstep1 e r = Some r' \<Longrightarrow> bufs_ok r'"
proof (induction e r rule: jstep1.induct)
  case (1 body jid t u r)
  then show ?case by (auto simp: insert_job_def intro: bufs_ok_cong)
next
  case (2 jid ev r)
  then show ?case by (auto simp: publish_def publishLocked_def intro: bufs_ok_publish)
next
  case (6 r)
  then show ?case by (auto dest: recv_notify_frame intro: bufs_ok_cong)
next
  case (7 jid h r)
  then show ?case by (auto simp: bufs_ok_def subscribe_def split: if_splits)
next
  case (8 jid h r)
  then show ?case by (auto simp: bufs_ok_def unsubscribe_def Let_def split: option.splits if_splits)
next
  case (9 h r)
  then show ?case by (fastforce simp: bufs_ok_def recv_event_def split: option.splits list.splits if_splits)
next
  case (12 types w g now r)
  then obtain x where x: "claimNext types w g now r = Some (x, r')" by auto
  from claimNext_chans [OF x] obtain ev hs cs where
    "publish_loop ev hs (chans r) = Some cs" "chans r' = cs" by blast
  with "12.prems"(1) show ?case by (rule bufs_ok_publish)
next
  case (20 jid state body now r)
  then show ?case by (auto dest: status_commit_frame split: option.splits intro: bufs_ok_cong)
qed (auto intro: bufs_ok_cong)

lemma workers_ok_cong: "workers_ok r \<Longrightarrow> workers r' = workers r \<Longrightarrow> workers_ok r'"
  by (simp add: workers_ok_def)

lemma workers_ok_prune: "workers_ok r \<Longrightarrow> workers_ok (pruneWorkersLocked now r)"
  by (auto simp: workers_ok_def pruneWorkersLocked_def split: option.splits if_splits)

lemma workers_ok_put:
  "workers_ok r \<Longrightarrow> key \<noteq> [] \<Longrightarrow> wa_key w = key \<Longrightarrow> 0 \<le> wa_streams w \<Longrightarrow> workers_ok (put_worker key w r)"
  by (auto simp: workers_ok_def put_worker_def)

lemma ensureWorker_ok:
  assumes "workers_ok r" "workerKey w g \<noteq> []" "ensureWorkerLocked w g r = (x, r')"
  shows "workers_ok r' \<and> (\<exists>a. x = Some a \<and> wa_key a = workerKey w g \<and> 0 \<le> wa_streams a)"
proof (cases "workers r (workerKey w g)")
  case None
  with assms have "x = Some (new_worker (workerKey w g) w g)"
    "r' = r\<lparr>workers := (workers r)(workerKey w g \<mapsto> new_worker (workerKey w g) w g)\<rparr>"
    by (auto simp: ensureWorkerLocked_def Let_def)
  with assms(1,2) show ?thesis by (simp add: workers_ok_def new_worker_def)
next
  case (Some a)
  with assms have "x = Some a" "r' = r" by (auto simp: ensureWorkerLocked_def Let_def)
  with assms(1) Some show ?thesis by (simp add: workers_ok_def)
qed

lemma workers_ok_seen: "workers_ok r \<Longrightarrow> workers_ok (recordWorkerSeen w g mode types jid now r)"
proof (cases "workerKey w g = []")
  case False
  assume ok: "workers_ok r"
  obtain x r' where e: "ensureWorkerLocked w g (pruneWorkersLocked now r) = (x, r')" by fastforce
  from ensureWorker_ok [OF workers_ok_prune [OF ok] False e] obtain a where
    "workers_ok r'" "x = Some a" "wa_key a = workerKey w g" "0 \<le> wa_streams a" by blast
  with False e show ?thesis by (auto simp: recordWorkerSeen_def Let_def intro!: workers_ok_put)
qed (simp add: recordWorkerSeen_def)

lemma workers_ok_add: "workers_ok r \<Longrightarrow> workers_ok (addWorkerStream w g types now r)"
proof (cases "workerKey w g = []")
  case False
  assume ok: "workers_ok r"
  obtain x r' where e: "ensureWorkerLocked w g (pruneWorkersLocked now r) = (x, r')" by fastforce
  from ensureWorker_ok [OF workers_ok_prune [OF ok] False e] obtain a where
    "workers_ok r'" "x = Some a" "wa_key a = workerKey w g" "0 \<le> wa_streams a" by blast
  with False e show ?thesis by (auto simp: addWorkerStream_def Let_def intro!: workers_ok_put)
qed (simp add: addWorkerStream_def)

lemma workers_ok_remove: "workers_ok r \<Longrightarrow> workers_ok (removeWorkerStream w g now r)"
proof -
  assume ok: "workers_ok r"
  have "wa_key a = k \<and> k \<noteq> [] \<and> 0 \<le> wa_streams a" if "workers (pruneWorkersLocked now r) k = Some a" for k a
    using workers_ok_prune [OF ok] that by (auto simp: workers_ok_def)
  with workers_ok_prune [OF ok] show ?thesis
    by (auto simp: removeWorkerStream_def Let_def ok split: option.splits intro!: workers_ok_put)
qed

lemma workers_ok_step: "workers_ok r \<Longrightarrow> jguard1 e r \<Longrightarrow> jstep1 e r = Some r' \<Longrightarrow> workers_ok r'"
proof (induction e r rule: jstep1.induct)
  case (1 body jid t u r)
  then show ?case by (auto simp: insert_job_def intro: workers_ok_cong)
next
  case (2 jid ev r)
  then show ?case by (auto dest: publish_frame intro: workers_ok_cong)
next
  case (6 r)
  then show ?case by (auto dest: recv_notify_frame intro: workers_ok_cong)
next
  case (8 jid h r)
  then show ?case by (auto dest: unsubscribe_frame intro: workers_ok_cong)
next
  case (9 h r)
  then show ?case by (auto dest: recv_event_frame intro: workers_ok_cong)
next
  case (12 types w g now r)
  then show ?case by (auto dest: claimNext_chans intro: workers_ok_cong)
next
  case (20 jid state body now r)
  then show ?case by (auto dest: status_commit_frame split: option.splits intro: workers_ok_cong)
qed (auto intro: workers_ok_cong workers_ok_seen workers_ok_add workers_ok_remove workers_ok_prune)

lemma timers_ok_cong:
  "timers_ok r \<Longrightarrow> clientTimers r' = clientTimers r \<Longrightarrow> clientTTL r' = clientTTL r \<Longrightarrow> timers_ok r'"
  by (simp add: timers_ok_def)

lemma timers_ok_step: "timers_ok r \<Longrightarrow> jguard1 e r \<Longrightarrow> jstep1 e r = Some r' \<Longrightarrow> timers_ok r'"
proof (induction e r rule: jstep1.induct)
  case (1 body jid t u r)
  then show ?case by (auto simp: insert_job_def intro: timers_ok_cong)
next
  case (2 jid ev r)
  then show ?case by (auto dest: publish_frame intro: timers_ok_cong)
next
  case (3 jid now r)
  then show ?case by (auto simp: timers_ok_def startClientTimerIfIdle_def split: if_splits)
next
  case (4 jid r)
  then show ?case by (auto simp: timers_ok_def drop_timer_def)
next
  case (6 r)
  then show ?case by (auto dest: recv_notify_frame intro: timers_ok_cong)
next
  case (8 jid h r)
  then show ?case by (auto dest: unsubscribe_frame intro: timers_ok_cong)
next
  case (9 h r)
  then show ?case by (auto dest: recv_event_frame intro: timers_ok_cong)
next
  case (11 jid now r)
  then show ?case by (auto simp: timers_ok_def expireJobIfIdle_def Let_def split: option.splits if_splits)
next
  case (12 types w g now r)
  then show ?case by (auto dest: claimNext_chans intro: timers_ok_cong)
next
  case (20 jid state body now r)
  then show ?case by (auto dest: status_commit_frame split: option.splits intro: timers_ok_cong)
qed (auto intro: timers_ok_cong)

lemma claimNext_total: "queue_ok r \<Longrightarrow> subs_ok r \<Longrightarrow> claimNext types w g now r \<noteq> None"
proof (cases "find_claim types w g (jobs r) (queue r)")
  case (Some iq)
  assume ok: "subs_ok r"
  obtain i q where iq: "iq = (i, q)" by (cases iq)
  with Some find_claim_Some [of types w g "jobs r" "queue r" i q]
  obtain job where job: "jobs r i = Some job" by (auto simp: claimable_def split: option.splits)
  have "\<exists>cs. publish_loop ev (sub_list k r) (chans r) = Some cs" for ev k
    using ok by (intro publish_loop_total) (auto simp: subs_ok_def)
  with Some iq job show ?thesis
    by (auto simp: claimNext_def Let_def update_job_def setJobStatusLocked_def publishLocked_def sub_list_def)
qed (simp add: claimNext_def)

text \<open>No critical section panics.\<close>

lemma jstep1_total: "jobs_ok r \<Longrightarrow> jguard1 e r \<Longrightarrow> jstep1 e r \<noteq> None"
proof (induction e r rule: jstep1.induct)
  case (2 jid ev r)
  then show ?case using publish_total [of r jid ev] by (auto simp: jobs_ok_def)
next
  case (8 jid h r)
  then show ?case using unsubscribe_Some [of r h jid] by (auto simp: jobs_ok_def)
next
  case (12 types w g now r)
  then show ?case using claimNext_total [of r types w g now] by (auto simp: jobs_ok_def)
qed (auto simp: recv_notify_def)

lemma jstep_inv: "jinv s \<Longrightarrow> jguard e s \<Longrightarrow> jinv (jstep e s)"
proof -
  assume i: "jinv s" and g: "jguard e s"
  then obtain r where r: "s = Some r" "jobs_ok r" "jguard1 e r"
    by (auto simp: jinv_def jguard_def split: option.splits)
  with jstep1_total obtain r' where r': "jstep1 e r = Some r'" by blast
  from r r' have "jobs_ok r'"
    unfolding jobs_ok_def
    by (blast intro: queue_ok_step subs_ok_step bufs_ok_step workers_ok_step timers_ok_step)
  with r r' show ?thesis by (simp add: jinv_def jstep_def)
qed

lemma jinit_inv: "jinit s \<Longrightarrow> jinv s"
  by (auto simp: jinit_def jinv_def NewJobRegistry_ok)

interpretation job_runs: guarded_machine jinit jguard jstep jinv
  by unfold_locales (rule jinit_inv, assumption, rule jstep_inv)

section \<open>A job that left the queue stays out\<close>

definition taken :: "string \<Rightarrow> registry option \<Rightarrow> bool" where
  "taken jid s \<longleftrightarrow> (case s of None \<Rightarrow> False | Some r \<Rightarrow> jobs r jid \<noteq> None \<and> jid \<notin> set (queue r))"

lemma dom_jobs_mono: "jguard1 e r \<Longrightarrow> jstep1 e r = Some r' \<Longrightarrow> jobs r i \<noteq> None \<Longrightarrow> jobs r' i \<noteq> None"
proof (induction e r rule: jstep1.induct)
  case (12 types w g now r)
  then obtain x where "claimNext types w g now r = Some (x, r')" by auto
  with "12.prems"(3) show ?case
    by (cases x) (auto dest: claimNext_None claimNext_Some)
qed (auto simp: insert_job_def new_job_def cancel_section_def expireJobIfIdle_def Let_def
    payload_commit_def result_commit_def status_commit_def job_set_status job_update
    split: option.splits if_splits dest: publish_frame recv_notify_frame unsubscribe_frame recv_event_frame)

lemma queue_step:
  "queue_ok r \<Longrightarrow> jguard1 e r \<Longrightarrow> jstep1 e r = Some r' \<Longrightarrow> jobs r i \<noteq> None \<Longrightarrow> i \<notin> set (queue r) \<Longrightarrow>
   i \<notin> set (queue r')"
proof (induction e r rule: jstep1.induct)
  case (12 types w g now r)
  then obtain x where "claimNext types w g now r = Some (x, r')" by auto
  with "12.prems"(5) show ?case
    by (cases x) (auto dest: claimNext_None claimNext_Some)
qed (auto simp: insert_job_def new_job_def cancel_section_def expireJobIfIdle_def Let_def
    status_commit_frame
    split: option.splits if_splits
    dest: publish_frame recv_notify_frame unsubscribe_frame recv_event_frame notin_set_remove1)

lemma taken_stable: "jinv s \<Longrightarrow> jguard e s \<Longrightarrow> taken i s \<Longrightarrow> taken i (jstep e s)"
proof -
  assume i: "jinv s" and g: "jguard e s" and t: "taken i s"
  then obtain r where r: "s = Some r" "jobs_ok r" "jguard1 e r" "jobs r i \<noteq> None" "i \<notin> set (queue r)"
    by (auto simp: jinv_def jguard_def taken_def split: option.splits)
  with jstep1_total obtain r' where r': "jstep1 e r = Some r'" by blast
  with r dom_jobs_mono [of e r r' i] queue_step [of r e r' i] show ?thesis
    by (simp add: taken_def jstep_def jobs_ok_def)
qed

interpretation job_facts: stable_machine jinit jguard jstep jinv taken
  by unfold_locales (rule taken_stable)

text \<open>The ids a run hands to workers, in order.\<close>

definition claimed_by :: "jevent \<Rightarrow> registry option \<Rightarrow> string list" where
  "claimed_by e s =
     (case (e, s) of
        (JClaim types w g now, Some r) \<Rightarrow>
          (case claimNext types w g now r of Some (Some i, _) \<Rightarrow> [i] | _ \<Rightarrow> [])
      | _ \<Rightarrow> [])"

fun claims :: "jevent list \<Rightarrow> registry option \<Rightarrow> string list" where
  "claims [] s = []"
| "claims (e # es) s = claimed_by e s @ claims es (jstep e s)"

lemma claimed_by_cases: "claimed_by e s = [] \<or> (\<exists>i. claimed_by e s = [i])"
  by (auto simp: claimed_by_def split: jevent.splits option.splits prod.splits)

lemma claimed_by_taken:
  assumes "jinv s" "claimed_by e s = [i]"
  shows "taken i (jstep e s) \<and> \<not> taken i s"
proof -
  from assms(2) obtain types w g now r r' where e: "e = JClaim types w g now" and s: "s = Some r"
    and c: "claimNext types w g now r = Some (Some i, r')"
    by (auto simp: claimed_by_def split: jevent.splits option.splits prod.splits)
  from claimNext_Some [OF c] obtain job pre post cs where f: "jobs r i = Some job"
    "queue r = pre @ i # post"
    "r' = r\<lparr>queue := pre @ post, jobs := (jobs r)(i \<mapsto> claimed_job w g now job), chans := cs\<rparr>" by blast
  from assms(1) s have "distinct (queue r)" by (simp add: jinv_def jobs_ok_def queue_ok_def)
  with e s c f show ?thesis by (simp add: taken_def jstep_def)
qed

lemma claims_fresh:
  "jinv s \<Longrightarrow> run jguard jstep es s = Some t \<Longrightarrow> taken i s \<Longrightarrow> i \<notin> set (claims es s)"
proof (induction es arbitrary: s)
  case (Cons e es)
  then have g: "jguard e s" and rest: "run jguard jstep es (jstep e s) = Some t" by (auto split: if_splits)
  have "i \<notin> set (claimed_by e s)"
    using claimed_by_cases [of e s] claimed_by_taken [OF Cons.prems(1), of e i] Cons.prems(3) by auto
  moreover have "i \<notin> set (claims es (jstep e s))"
    using Cons.IH [OF jstep_inv rest taken_stable] Cons.prems g by blast
  ultimately show ?case by simp
qed simp

lemma claims_distinct: "jinv s \<Longrightarrow> run jguard jstep es s = Some t \<Longrightarrow> distinct (claims es s)"
proof (induction es arbitrary: s)
  case (Cons e es)
  then have g: "jguard e s" and rest: "run jguard jstep es (jstep e s) = Some t" by (auto split: if_splits)
  have inv: "jinv (jstep e s)" using Cons.prems(1) g by (rule jstep_inv)
  have "distinct (claims es (jstep e s))" using Cons.IH [OF inv rest] .
  moreover have "i \<notin> set (claims es (jstep e s))" if "claimed_by e s = [i]" for i
    using claims_fresh [OF inv rest] claimed_by_taken [OF Cons.prems(1) that] by blast
  ultimately show ?case using claimed_by_cases [of e s] by auto
qed simp

end
