(* ===== verification/JobCalm.thy ===== *)
theory JobCalm
  imports JobSafety
begin

text \<open>
  The runs in which every worker keeps the discipline \<open>calm_guard\<close>: it reports only on jobs that
  have left the queue, never back to \<open>queued\<close>, and no transfer request is overtaken between its
  two sections.  In these a job is in the queue exactly while its status is \<open>queued\<close>, terminal
  statuses are final, and the statistics count the jobs that ended.  The last section shows that
  the discipline is needed: what the code does when it is broken.
\<close>

section \<open>The shape of a step\<close>

definition counters :: "registry \<Rightarrow> uint64 \<times> uint64 \<times> uint64" where
  "counters r = (CompletedJobs (stats r), FailedJobs (stats r), CanceledJobs (stats r))"

definition bump :: "string \<Rightarrow> uint64 \<times> uint64 \<times> uint64 \<Rightarrow> uint64 \<times> uint64 \<times> uint64" where
  "bump s c =
     (case c of (a, b, d) \<Rightarrow>
        if s = StatusCompleted then (a + 1, b, d)
        else if s = StatusFailed then (a, b + 1, d)
        else if s = StatusCanceled then (a, b, d + 1) else (a, b, d))"

definition stays :: "registry \<Rightarrow> registry \<Rightarrow> bool" where
  "stays r r' \<longleftrightarrow> (\<forall>i. job_status i r' = job_status i r) \<and> counters r' = counters r \<and>
     set (queue r') = set (queue r) \<and> dom (jobs r') = dom (jobs r)"

text \<open>One job, not in a terminal status, takes the status \<open>v\<close>; only a new one is queued.\<close>

definition moves :: "string \<Rightarrow> string \<Rightarrow> registry \<Rightarrow> registry \<Rightarrow> bool" where
  "moves k v r r' \<longleftrightarrow> \<not> isTerminalStatus (job_status k r) \<and> (v = StatusQueued \<longleftrightarrow> k \<notin> dom (jobs r)) \<and>
     (\<forall>i. job_status i r' = (if i = k then v else job_status i r)) \<and>
     counters r' = bump v (counters r) \<and>
     set (queue r') = (if v = StatusQueued then insert k (set (queue r)) else set (queue r) - {k}) \<and>
     dom (jobs r') = insert k (dom (jobs r))"

definition counts_ok :: "registry \<Rightarrow> bool" where
  "counts_ok r \<longleftrightarrow> counters r =
     (of_nat (card {i. job_status i r = StatusCompleted}),
      of_nat (card {i. job_status i r = StatusFailed}),
      of_nat (card {i. job_status i r = StatusCanceled}))"

definition calm_ok :: "registry \<Rightarrow> bool" where
  "calm_ok r \<longleftrightarrow> jobs_ok r \<and> (\<forall>i. i \<in> set (queue r) \<longleftrightarrow> job_status i r = StatusQueued) \<and>
     counts_ok r \<and> finite (dom (jobs r))"

lemma job_status_Some [simp]: "jobs r i = Some j \<Longrightarrow> job_status i r = j_status j"
  by (simp add: job_status_def)

lemma job_status_None [simp]: "jobs r i = None \<Longrightarrow> job_status i r = []"
  by (simp add: job_status_def)

lemma job_status_cong: "jobs r' = jobs r \<Longrightarrow> job_status i r' = job_status i r"
  by (simp add: job_status_def)

lemma StatusQueued_not_Nil [simp]: "StatusQueued \<noteq> []" "[] \<noteq> StatusQueued"
  by (auto simp: status_defs)

lemma job_status_set:
  "jobs r i = Some j \<Longrightarrow> job_status k (setJobStatusLocked i s now r) = (if k = i then s else job_status k r)"
  by (simp add: job_status_def job_set_status)

lemma job_status_update:
  "(\<And>j. j_status (f j) = j_status j) \<Longrightarrow> job_status k (update_job i f r) = job_status k r"
  by (simp add: job_status_def job_update split: option.splits)

lemma counters_update [simp]: "counters (update_job i f r) = counters r"
  by (simp add: counters_def)

lemma counters_remove [simp]: "counters (removeFromQueue i r) = counters r"
  by (simp add: counters_def)

lemma dom_jobs_set [simp]: "dom (jobs (setJobStatusLocked i s now r)) = dom (jobs r)"
  by (auto simp: job_set_status split: option.splits if_splits)

lemma dom_jobs_update [simp]: "dom (jobs (update_job i f r)) = dom (jobs r)"
  by (auto simp: job_update split: option.splits if_splits)

lemma recordTerminal_counts:
  "(CompletedJobs (recordTerminalLocked job s now st), FailedJobs (recordTerminalLocked job s now st),
    CanceledJobs (recordTerminalLocked job s now st)) =
   bump s (CompletedJobs st, FailedJobs st, CanceledJobs st)"
  by (auto simp: recordTerminalLocked_def bump_def Let_def isTerminalStatus_def)

lemma bump_nonterminal: "\<not> isTerminalStatus s \<Longrightarrow> bump s c = c"
  by (auto simp: bump_def isTerminalStatus_def split: prod.splits)

lemma counters_set:
  "jobs r i = Some j \<Longrightarrow> \<not> isTerminalStatus (j_status j) \<Longrightarrow>
   counters (setJobStatusLocked i s now r) = bump s (counters r)"
  using recordTerminal_counts [of "set_status s now j" s now "stats r"]
  by (auto simp: setJobStatusLocked_def counters_def bump_nonterminal)

lemma counters_cong: "stats r' = stats r \<Longrightarrow> counters r' = counters r"
  by (simp add: counters_def)

lemma staysI:
  "jobs r' = jobs r \<Longrightarrow> stats r' = stats r \<Longrightarrow> set (queue r') = set (queue r) \<Longrightarrow> stays r r'"
  by (simp add: stays_def counters_def job_status_def)

text \<open>The sections that set a status move their job, where it is not in a terminal one.\<close>

lemma moves_set:
  assumes "jobs r i = Some j" "\<not> isTerminalStatus (j_status j)" "s \<noteq> StatusQueued"
    and "set (queue r') = set (queue r) - {i}" "jobs r' = jobs (setJobStatusLocked i s now r)"
    and "stats r' = stats (setJobStatusLocked i s now r)"
  shows "moves i s r r'"
proof -
  have "job_status k r' = (if k = i then s else job_status k r)" for k
    using job_status_set [OF assms(1), of k s now] assms(5) by (simp add: job_status_def)
  moreover have "counters r' = bump s (counters r)"
    using counters_set [OF assms(1,2), of s now] assms(6) by (simp add: counters_def)
  moreover have "dom (jobs r') = insert i (dom (jobs r))"
    using assms(1,5) by (auto simp: job_set_status)
  ultimately show ?thesis using assms(1-4) by (simp add: moves_def domI)
qed

lemma moves_update_after:
  assumes "moves i s r r'" "\<And>j. j_status (f j) = j_status j"
  shows "moves i s r (update_job i f r')"
  using assms by (simp add: moves_def job_status_update)

lemma moves_update_before:
  assumes "moves i s (update_job i f r) r'" "\<And>j. j_status (f j) = j_status j"
  shows "moves i s r r'"
  using assms by (simp add: moves_def job_status_update)

lemma moves_from_queue: "moves i s (removeFromQueue i r) r' \<Longrightarrow> distinct (queue r) \<Longrightarrow> s \<noteq> StatusQueued \<Longrightarrow> moves i s r r'"
  by (auto simp: moves_def job_status_def)

lemma calm_not_queuedD: "calm_ok r \<Longrightarrow> job_status i r \<noteq> StatusQueued \<Longrightarrow> i \<notin> set (queue r)"
  by (simp add: calm_ok_def)

lemma transferable_exists: "canRequestTransfer (job_status i r) \<Longrightarrow> \<exists>j. jobs r i = Some j"
  by (cases "jobs r i") (auto simp: canRequestTransfer_def status_defs)

lemma move_commit:
  assumes "calm_ok r" "jobs r i = Some j" "\<not> isTerminalStatus (j_status j)" "j_status j \<noteq> StatusQueued"
    "s \<noteq> StatusQueued"
  shows "moves i s r (setJobStatusLocked i s now r)"
proof -
  have "i \<notin> set (queue r)" using calm_not_queuedD [OF assms(1), of i] assms(2,4) by simp
  with assms show ?thesis by (intro moves_set [of r i j]) auto
qed

lemma move_commit_status:
  assumes "calm_ok r" "jobs r i \<noteq> None" "\<not> isTerminalStatus (job_status i r)"
    "job_status i r \<noteq> StatusQueued" "s \<noteq> StatusQueued"
  shows "moves i s r (setJobStatusLocked i s now r)"
  using assms move_commit by auto

lemma calm_ok_update: "calm_ok r \<Longrightarrow> (\<And>j. j_status (f j) = j_status j \<and> j_id (f j) = j_id j) \<Longrightarrow> calm_ok (update_job i f r)"
  by (simp add: calm_ok_def jobs_ok_def queue_ok_update job_status_update counts_ok_def subs_ok_def
      bufs_ok_def workers_ok_def timers_ok_def)

lemma move_payload:
  assumes "calm_ok r" "canRequestTransfer (job_status i r)"
  shows "moves i StatusAwaitingPayload r (payload_commit i key info now r)"
    and "moves i StatusAwaitingResult r (result_commit i key info now r)"
proof -
  from transferable_exists [OF assms(2)] obtain j where j: "jobs r i = Some j" by blast
  with assms(2) have nt: "\<not> isTerminalStatus (j_status j)" "j_status j \<noteq> StatusQueued"
    using terminal_not_transfer by auto
  let ?p = "update_job i (\<lambda>j. j\<lparr>j_payloads := put_transfer key info (j_payloads j)\<rparr>) r"
  let ?q = "update_job i (\<lambda>j. j\<lparr>j_results := put_transfer key info (j_results j)\<rparr>) r"
  have "moves i StatusAwaitingPayload ?p (setJobStatusLocked i StatusAwaitingPayload now ?p)"
    using assms(1) j nt by (intro move_commit_status calm_ok_update) (auto simp: job_update job_status_update)
  then show "moves i StatusAwaitingPayload r (payload_commit i key info now r)"
    unfolding payload_commit_def by (rule moves_update_before) simp
  have "moves i StatusAwaitingResult ?q (setJobStatusLocked i StatusAwaitingResult now ?q)"
    using assms(1) j nt by (intro move_commit_status calm_ok_update) (auto simp: job_update job_status_update)
  then show "moves i StatusAwaitingResult r (result_commit i key info now r)"
    unfolding result_commit_def by (rule moves_update_before) simp
qed

lemma move_status:
  assumes "calm_ok r" "job_status i r \<noteq> StatusQueued" "s \<noteq> StatusQueued"
    "status_commit i s body now r = Some r'"
  shows "moves i s r r'"
proof -
  from assms(4) obtain j where j: "jobs r i = Some j" "\<not> isTerminalStatus (j_status j)"
    and r': "r' = update_job i (\<lambda>j. if sr_error body \<noteq> None then j\<lparr>j_error := sr_error body\<rparr> else j)
        (update_job i (\<lambda>j. if sr_progress body \<noteq> None then j\<lparr>j_progress := sr_progress body\<rparr> else j)
          (setJobStatusLocked i s now r))"
    by (auto simp: status_commit_def split: option.splits if_splits)
  have "moves i s r (setJobStatusLocked i s now r)"
    using assms j by (intro move_commit) auto
  then show ?thesis unfolding r' by (intro moves_update_after) simp_all
qed

lemma calm_distinct: "calm_ok r \<Longrightarrow> distinct (queue r)"
  by (simp add: calm_ok_def jobs_ok_def queue_ok_def)

lemma move_cancel:
  assumes "calm_ok r" "jobs r i = Some j" "\<not> isTerminalStatus (j_status j)"
  shows "moves i StatusCanceled r
     (setJobStatusLocked i StatusCanceled now (if j_status j = StatusQueued then removeFromQueue i r else r))"
proof (cases "j_status j = StatusQueued")
  case True
  have "moves i StatusCanceled (removeFromQueue i r)
      (setJobStatusLocked i StatusCanceled now (removeFromQueue i r))"
    using assms calm_distinct [OF assms(1)] by (intro moves_set [of _ i j]) auto
  with True calm_distinct [OF assms(1)] show ?thesis by (auto intro: moves_from_queue)
next
  case False
  with assms show ?thesis by (simp add: move_commit)
qed

lemma move_claim:
  assumes "calm_ok r" "claimNext types w g now r = Some (Some i, r')"
  shows "moves i StatusClaimed r r'"
proof -
  from claimNext_Some [OF assms(2)] obtain job pre post cs where f: "jobs r i = Some job"
    "queue r = pre @ i # post"
    "r' = r\<lparr>queue := pre @ post, jobs := (jobs r)(i \<mapsto> claimed_job w g now job), chans := cs\<rparr>" by blast
  from f(2) assms(1) have st: "job_status i r = StatusQueued" by (auto simp: calm_ok_def)
  from calm_distinct [OF assms(1)] f(2) have "set (pre @ post) = set (queue r) - {i}" by auto
  moreover have "bump StatusClaimed c = c" for c by (simp add: bump_nonterminal)
  ultimately show ?thesis using f st by (auto simp: moves_def job_status_def counters_def)
qed

lemma move_expire:
  assumes "calm_ok r"
  shows "stays r (snd (expireJobIfIdle i now r)) \<or> moves i StatusCanceled r (snd (expireJobIfIdle i now r))"
proof (cases "0 < length (sub_list i r) \<or> clientTimers r i = None")
  case True
  then show ?thesis by (auto simp: expireJobIfIdle_def stays_def)
next
  case idle: False
  let ?r = "r\<lparr>clientTimers := (clientTimers r)(i := None)\<rparr>"
  show ?thesis
  proof (cases "\<exists>j. jobs r i = Some j \<and> \<not> isTerminalStatus (j_status j)")
    case False
    with idle show ?thesis
      by (auto simp: expireJobIfIdle_def Let_def split: option.splits intro!: staysI)
  next
    case True
    then obtain j where j: "jobs r i = Some j" "\<not> isTerminalStatus (j_status j)" by blast
    have "calm_ok ?r"
      using assms by (auto simp: calm_ok_def jobs_ok_def queue_ok_def subs_ok_def sub_list_def bufs_ok_def
          workers_ok_def timers_ok_def counts_ok_def counters_def job_status_def)
    from move_cancel [OF this, of i j now] j have "moves i StatusCanceled ?r (setJobStatusLocked i StatusCanceled now
        (if j_status j = StatusQueued then removeFromQueue i ?r else ?r))" by simp
    then have "moves i StatusCanceled ?r (snd (expireJobIfIdle i now r))"
      using idle j by (auto simp: expireJobIfIdle_def Let_def intro!: moves_update_after)
    then show ?thesis by (simp add: moves_def job_status_def counters_def)
  qed
qed

lemma move_create:
  assumes "calm_ok r" "jobs r i = None"
  shows "moves i StatusQueued r (insert_job (new_job i b t u) r)"
  using assms bump_nonterminal [of StatusQueued]
  by (auto simp: moves_def insert_job_def new_job_def job_status_def counters_def)

theorem calm_step:
  assumes ok: "calm_ok r" and g: "jguard1 e r" and c: "calm_guard1 e r" and st: "jstep1 e r = Some r'"
  shows "stays r r' \<or> (\<exists>i s. moves i s r r')"
  using g c st ok
proof (induction e r rule: jstep1.induct)
  case (1 body jid t u r)
  then have "moves jid StatusQueued r r'" using move_create [of r jid body t u] by auto
  then show ?case by blast
next
  case (2 jid ev r)
  then show ?case by (auto dest: publish_frame intro!: staysI)
next
  case (6 r)
  then show ?case by (auto dest: recv_notify_frame intro!: staysI)
next
  case (8 jid h r)
  then show ?case by (auto dest: unsubscribe_frame intro!: staysI)
next
  case (9 h r)
  then show ?case by (auto dest: recv_event_frame intro!: staysI)
next
  case (10 jid now r)
  then obtain j where j: "jobs r jid = Some j" by auto
  show ?case
  proof (cases "isTerminalStatus (j_status j)")
    case True
    with j 10 show ?thesis by (auto simp: cancel_section_def intro!: staysI)
  next
    case False
    with move_cancel [OF "10.prems"(4) j False, of now] j 10 show ?thesis
      by (auto simp: cancel_section_def)
  qed
next
  case (11 jid now r)
  then show ?case using move_expire [of r jid now] by auto
next
  case (12 types w g now r)
  then obtain x where x: "claimNext types w g now r = Some (x, r')" by auto
  show ?case
  proof (cases x)
    case None
    with x claimNext_None [of types w g now r r'] show ?thesis by (auto intro!: staysI)
  next
    case (Some i)
    with x move_claim [OF "12.prems"(4), of types w g now i r'] show ?thesis by blast
  qed
next
  case (18 jid key info now r)
  then show ?case using move_payload(1) [of r jid key info now] by auto
next
  case (19 jid key info now r)
  then show ?case using move_payload(2) [of r jid key info now] by auto
next
  case (20 jid state body now r)
  show ?case
  proof (cases "status_commit jid state body now r")
    case None
    with 20 show ?thesis by (auto intro!: staysI)
  next
    case (Some r'')
    with move_status [OF "20.prems"(4) _ _ Some] 20 show ?thesis by auto
  qed
qed (auto intro!: staysI)

section \<open>Runs\<close>

lemma status_finite: "finite (dom (jobs r)) \<Longrightarrow> s \<noteq> [] \<Longrightarrow> finite {i. job_status i r = s}"
  by (rule finite_subset [of _ "dom (jobs r)"]) (auto simp: job_status_def split: option.splits)

lemma count_set:
  assumes "finite {i. f i = s}" "f k \<noteq> s" "\<And>i. g i = (if i = k then v else f i)"
  shows "card {i. g i = s} = card {i. f i = s} + (if v = s then 1 else 0)"
proof (cases "v = s")
  case True
  with assms(3) have "{i. g i = s} = insert k {i. f i = s}" by auto
  with True assms(1,2) show ?thesis by simp
next
  case False
  with assms(2,3) have "{i. g i = s} = {i. f i = s}" by auto
  with False show ?thesis by simp
qed

lemma terminal_not_Nil: "isTerminalStatus s \<Longrightarrow> s \<noteq> []"
  by (auto simp: isTerminalStatus_def status_defs)

lemma counts_ok_move:
  assumes "counts_ok r" "finite (dom (jobs r))" "moves k v r r'"
  shows "counts_ok r'"
proof -
  have c: "card {i. job_status i r' = s} = card {i. job_status i r = s} + (if v = s then 1 else 0)"
    if "isTerminalStatus s" for s
    using that assms(2,3) terminal_not_Nil [OF that]
    by (intro count_set [of _ s k]) (auto simp: moves_def intro: status_finite)
  from assms(3) have "counters r' = bump v (counters r)" by (simp add: moves_def)
  with assms(1) c [of StatusCompleted] c [of StatusFailed] c [of StatusCanceled] show ?thesis
    by (simp add: counts_ok_def bump_def)
qed

lemma calm_move:
  assumes "calm_ok r" "jobs_ok r'" "moves k v r r'"
  shows "calm_ok r'"
proof -
  have "counts_ok r'" using assms counts_ok_move by (auto simp: calm_ok_def)
  with assms show ?thesis by (auto simp: calm_ok_def moves_def)
qed

lemma calm_stay: "calm_ok r \<Longrightarrow> jobs_ok r' \<Longrightarrow> stays r r' \<Longrightarrow> calm_ok r'"
  by (simp add: calm_ok_def stays_def counts_ok_def)

definition calm_inv :: "registry option \<Rightarrow> bool" where
  "calm_inv s \<longleftrightarrow> (case s of None \<Rightarrow> False | Some r \<Rightarrow> calm_ok r)"

lemma NewJobRegistry_calm: "calm_ok (NewJobRegistry tr delay ttl)"
  using NewJobRegistry_ok
  by (simp add: calm_ok_def counts_ok_def counters_def NewJobRegistry_def job_status_def zero_stats_def
      status_defs)

lemma calm_inv_jinv: "calm_inv s \<Longrightarrow> jinv s"
  by (auto simp: calm_inv_def jinv_def calm_ok_def split: option.splits)

lemma calm_cases:
  assumes "calm_inv s" "calm_guard e s"
  shows "\<exists>r r'. s = Some r \<and> jstep e s = Some r' \<and> calm_ok r \<and> jobs_ok r' \<and>
    (stays r r' \<or> (\<exists>i v. moves i v r r'))"
proof -
  from assms obtain r where r: "s = Some r" "calm_ok r" "jguard1 e r" "calm_guard1 e r" and g: "jguard e s"
    by (auto simp: calm_inv_def calm_guard_def jguard_def split: option.splits)
  have "jinv (jstep e s)" using calm_inv_jinv [OF assms(1)] g by (rule jstep_inv)
  then obtain r' where r': "jstep e s = Some r'" "jobs_ok r'" by (auto simp: jinv_def split: option.splits)
  with r(1) have "jstep1 e r = Some r'" by (simp add: jstep_def)
  from calm_step [OF r(2-4) this] r r' show ?thesis by blast
qed

lemma calm_inv_step: "calm_inv s \<Longrightarrow> calm_guard e s \<Longrightarrow> calm_inv (jstep e s)"
  using calm_cases [of s e] by (auto simp: calm_inv_def intro: calm_stay calm_move)

lemma jinit_calm: "jinit s \<Longrightarrow> calm_inv s"
  by (auto simp: jinit_def calm_inv_def NewJobRegistry_calm)

definition ended :: "string \<times> string \<Rightarrow> registry option \<Rightarrow> bool" where
  "ended k s \<longleftrightarrow> (case s of None \<Rightarrow> False
     | Some r \<Rightarrow> isTerminalStatus (snd k) \<and> job_status (fst k) r = snd k)"

lemma moves_keeps_ended: "moves i v r r' \<Longrightarrow> isTerminalStatus (job_status k r) \<Longrightarrow> job_status k r' = job_status k r"
  by (auto simp: moves_def)

lemma ended_stable:
  assumes "calm_inv s" "calm_guard e s" "ended k s"
  shows "ended k (jstep e s)"
proof -
  from calm_cases [OF assms(1,2)] obtain r r' where r: "s = Some r" "jstep e s = Some r'"
    "stays r r' \<or> (\<exists>i v. moves i v r r')" by blast
  then have "job_status (fst k) r' = job_status (fst k) r"
    using assms(3) moves_keeps_ended by (auto simp: ended_def stays_def)
  with r assms(3) show ?thesis by (simp add: ended_def)
qed

interpretation calm_runs: stable_machine jinit calm_guard jstep calm_inv ended
proof unfold_locales
  show "calm_inv s" if "jinit s" for s using that by (rule jinit_calm)
  show "calm_inv (jstep e s)" if "calm_inv s" "calm_guard e s" for s e using that by (rule calm_inv_step)
  show "ended k (jstep e s)" if "calm_inv s" "calm_guard e s" "ended k s" for s e k
    using that by (rule ended_stable)
qed

section \<open>The line of queued jobs\<close>

text \<open>\<open>snapshot\<close> reports the position in the queue; creation joins it, claim and cancellation leave it.\<close>

interpretation job_line: waiting_line queue "\<lambda>_ _. True" j_id insert_job removeFromQueue queue_position
  by unfold_locales (simp_all add: insert_job_def queue_position_def)

lemma claim_leaves:
  assumes "distinct (queue r)" "claimNext types w g now r = Some (Some i, r')"
  shows "queue r' = queue (removeFromQueue i r)"
proof -
  from claimNext_Some [OF assms(2)] obtain job pre post cs where
    "queue r = pre @ i # post" "queue r' = pre @ post" by fastforce
  with assms(1) show ?thesis by (simp add: remove1_append)
qed

end
