(* ===== verification/JobState.thy ===== *)
theory JobState
  imports JobCalm
begin

text \<open>
  \<^verbatim>\<open>StateSnapshot\<close> of \<^verbatim>\<open>server/internal/jobs/registry.go\<close>: what the dashboard is told.  The order in
  which \<^verbatim>\<open>range\<close> visits the jobs is an argument; the worker keys are sorted, so the order of the
  worker map does not show.
\<close>

record worker_view =
  wv_key :: string
  wv_worker :: string
  wv_group :: string
  wv_seen :: stamp
  wv_claim :: stamp
  wv_mode :: string
  wv_job :: string
  wv_types :: "string list"
  wv_streams :: int
  wv_active :: bool

record jobs_summary =
  TotalJobs :: nat
  QueuedJobs :: nat
  ClaimedJobs :: nat
  RunningJobs :: nat
  AwaitingTransfers :: nat
  TerminalJobs :: nat
  ActiveWorkers :: nat
  RecentWorkers :: nat
  StreamingWorkers :: nat
  s_CompletedJobs :: uint64
  s_FailedJobs :: uint64
  s_CanceledJobs :: uint64
  OldestQueuedSeconds :: int
  OldestInflightSeconds :: int
  AvgQueueWaitMS :: int
  AvgServiceMS :: int
  AvgEndToEndMS :: int
  s_LastCompletedAt :: stamp
  s_LastFailedAt :: stamp
  s_LastCanceledAt :: stamp

record state_view =
  sv_summary :: jobs_summary
  sv_workers :: "worker_view list"
  sv_jobs :: "job_view list"

definition start_summary :: "job_stats \<Rightarrow> jobs_summary" where
  "start_summary st =
     \<lparr>TotalJobs = 0, QueuedJobs = 0, ClaimedJobs = 0, RunningJobs = 0, AwaitingTransfers = 0,
      TerminalJobs = 0, ActiveWorkers = 0, RecentWorkers = 0, StreamingWorkers = 0,
      s_CompletedJobs = CompletedJobs st, s_FailedJobs = FailedJobs st,
      s_CanceledJobs = CanceledJobs st, OldestQueuedSeconds = 0, OldestInflightSeconds = 0,
      AvgQueueWaitMS = averageDurationMS (QueueWaitTotal st) (QueueWaitSamples st),
      AvgServiceMS = averageDurationMS (ServiceTotal st) (ServiceSamples st),
      AvgEndToEndMS = averageDurationMS (EndToEndTotal st) (EndToEndSamples st),
      s_LastCompletedAt = formatOptionalTime_stamp (LastCompletedAt st),
      s_LastFailedAt = formatOptionalTime_stamp (LastFailedAt st),
      s_LastCanceledAt = formatOptionalTime_stamp (LastCanceledAt st)\<rparr>"

definition worker_is_active :: "time \<Rightarrow> worker_activity \<Rightarrow> bool" where
  "worker_is_active now w \<longleftrightarrow> time_sub now (wa_seen w) \<le> workerActiveWindow"

definition view_worker :: "time \<Rightarrow> worker_activity \<Rightarrow> worker_view" where
  "view_worker now w =
     \<lparr>wv_key = wa_key w, wv_worker = wa_worker w, wv_group = wa_group w, wv_seen = rfc3339 (wa_seen w),
      wv_claim = (if \<not> is_zero (wa_claim w) then rfc3339 (wa_claim w) else NoStamp),
      wv_mode = wa_mode w, wv_job = wa_job w, wv_types = wa_types w, wv_streams = wa_streams w,
      wv_active = worker_is_active now w\<rparr>"

fun count_workers :: "time \<Rightarrow> (string \<rightharpoonup> worker_activity) \<Rightarrow> string list \<Rightarrow> state_view \<Rightarrow> state_view" where
  "count_workers now ws [] sv = sv"
| "count_workers now ws (key # ks) sv =
     (case ws key of
        None \<Rightarrow> count_workers now ws ks sv
      | Some w \<Rightarrow>
          let s = sv_summary sv;
              s = (if worker_is_active now w then s\<lparr>ActiveWorkers := ActiveWorkers s + 1\<rparr> else s);
              s = s\<lparr>RecentWorkers := RecentWorkers s + 1\<rparr>;
              s = (if 0 < wa_streams w then s\<lparr>StreamingWorkers := StreamingWorkers s + 1\<rparr> else s)
          in count_workers now ws ks
               (sv\<lparr>sv_summary := s, sv_workers := sv_workers sv @ [view_worker now w]\<rparr>))"

definition oldest_inflight :: "time \<Rightarrow> job \<Rightarrow> jobs_summary \<Rightarrow> jobs_summary" where
  "oldest_inflight now job s =
     (let age = ageSeconds now (inflightStart (Some job)) in
      if OldestInflightSeconds s < age then s\<lparr>OldestInflightSeconds := age\<rparr> else s)"

definition count_status :: "time \<Rightarrow> job \<Rightarrow> jobs_summary \<Rightarrow> jobs_summary" where
  "count_status now job s =
     (let st = j_status job; s = s\<lparr>TotalJobs := TotalJobs s + 1\<rparr> in
      if st = StatusQueued then
        let s = s\<lparr>QueuedJobs := QueuedJobs s + 1\<rparr>;
            age = ageSeconds now (j_created job)
        in if OldestQueuedSeconds s < age then s\<lparr>OldestQueuedSeconds := age\<rparr> else s
      else if st = StatusClaimed then oldest_inflight now job (s\<lparr>ClaimedJobs := ClaimedJobs s + 1\<rparr>)
      else if st = StatusRunning then oldest_inflight now job (s\<lparr>RunningJobs := RunningJobs s + 1\<rparr>)
      else if st = StatusAwaitingPayload \<or> st = StatusAwaitingResult then
        oldest_inflight now job (s\<lparr>AwaitingTransfers := AwaitingTransfers s + 1\<rparr>)
      else if st = StatusCompleted \<or> st = StatusFailed \<or> st = StatusCanceled then
        s\<lparr>TerminalJobs := TerminalJobs s + 1\<rparr>
      else s)"

definition view_job :: "registry \<Rightarrow> string \<Rightarrow> job \<Rightarrow> job_view" where
  "view_job r jid job =
     (let view = viewLocked job in
      if j_status job = StatusQueued then view\<lparr>v_position := queue_position jid r\<rparr> else view)"

fun count_jobs :: "time \<Rightarrow> registry \<Rightarrow> string list \<Rightarrow> state_view \<Rightarrow> state_view" where
  "count_jobs now r [] sv = sv"
| "count_jobs now r (jid # ids) sv =
     (case jobs r jid of
        None \<Rightarrow> count_jobs now r ids sv
      | Some job \<Rightarrow>
          let sv = sv\<lparr>sv_summary := count_status now job (sv_summary sv)\<rparr>;
              sv = (if length (sv_jobs sv) < maxStateJobs
                    then sv\<lparr>sv_jobs := sv_jobs sv @ [view_job r jid job]\<rparr> else sv)
          in count_jobs now r ids sv)"

text \<open>
  \<^verbatim>\<open>sort.Slice\<close> by \<^verbatim>\<open>UpdatedAt.After\<close>: newest first.  It is not stable; every order it may return is
  the stable one of some visiting order \<open>ids\<close>.
\<close>

definition newest_first :: "registry \<Rightarrow> string list \<Rightarrow> string list" where
  "newest_first r ids =
     sort_key (\<lambda>i. - (case jobs r i of None \<Rightarrow> 0 | Some job \<Rightarrow> j_updated job)) ids"

definition StateSnapshot ::
  "time \<Rightarrow> string list \<Rightarrow> string list \<Rightarrow> registry \<Rightarrow> state_view \<times> registry" where
  "StateSnapshot now wkeys ids r =
     (let r = pruneWorkersLocked now r;
          sv = \<lparr>sv_summary = start_summary (stats r), sv_workers = [], sv_jobs = []\<rparr>;
          sv = count_workers now (workers r) (sort wkeys) sv
      in (count_jobs now r (newest_first r ids) sv, r))"

section \<open>Lemmas\<close>

text \<open>The fields of a summary the two loops write.\<close>

definition job_total :: "jobs_summary \<Rightarrow> nat" where
  "job_total s = QueuedJobs s + ClaimedJobs s + RunningJobs s + AwaitingTransfers s + TerminalJobs s"

lemma count_workers_jobs [simp]:
  "sv_jobs (count_workers now ws ks sv) = sv_jobs sv"
  "TotalJobs (sv_summary (count_workers now ws ks sv)) = TotalJobs (sv_summary sv)"
  "QueuedJobs (sv_summary (count_workers now ws ks sv)) = QueuedJobs (sv_summary sv)"
  "TerminalJobs (sv_summary (count_workers now ws ks sv)) = TerminalJobs (sv_summary sv)"
  "s_CompletedJobs (sv_summary (count_workers now ws ks sv)) = s_CompletedJobs (sv_summary sv)"
  "OldestQueuedSeconds (sv_summary (count_workers now ws ks sv)) = OldestQueuedSeconds (sv_summary sv)"
  by (induction ks arbitrary: sv) (auto simp: Let_def split: option.splits)

lemma count_workers_recent:
  "RecentWorkers (sv_summary (count_workers now ws ks sv)) =
     RecentWorkers (sv_summary sv) + length (List.map_filter ws ks)"
  by (induction ks arbitrary: sv) (auto simp: Let_def map_filter_Cons_cases List.map_filter_simps split: option.splits)

lemma count_workers_active:
  "ActiveWorkers (sv_summary (count_workers now ws ks sv)) =
     ActiveWorkers (sv_summary sv) + length (filter (worker_is_active now) (List.map_filter ws ks))"
  by (induction ks arbitrary: sv) (auto simp: Let_def map_filter_Cons_cases List.map_filter_simps split: option.splits)

lemma count_workers_views:
  "sv_workers (count_workers now ws ks sv) = sv_workers sv @ map (view_worker now) (List.map_filter ws ks)"
  by (induction ks arbitrary: sv) (auto simp: Let_def map_filter_Cons_cases List.map_filter_simps split: option.splits)

lemma oldest_inflight_frame [simp]:
  "TotalJobs (oldest_inflight now job s) = TotalJobs s"
  "QueuedJobs (oldest_inflight now job s) = QueuedJobs s"
  "TerminalJobs (oldest_inflight now job s) = TerminalJobs s"
  "OldestQueuedSeconds (oldest_inflight now job s) = OldestQueuedSeconds s"
  "job_total (oldest_inflight now job s) = job_total s"
  by (simp_all add: oldest_inflight_def Let_def job_total_def)

lemma count_status_total [simp]: "TotalJobs (count_status now job s) = TotalJobs s + 1"
  by (simp add: count_status_def Let_def)

lemma count_status_queued:
  "QueuedJobs (count_status now job s) = QueuedJobs s + (if j_status job = StatusQueued then 1 else 0)"
  by (simp add: count_status_def Let_def)

lemma count_status_terminal:
  "TerminalJobs (count_status now job s) =
     TerminalJobs s + (if isTerminalStatus (j_status job) then 1 else 0)"
  by (simp add: count_status_def Let_def isTerminalStatus_def status_defs)

lemma count_status_oldest:
  "OldestQueuedSeconds (count_status now job s) =
     (if j_status job = StatusQueued then max (OldestQueuedSeconds s) (ageSeconds now (j_created job))
      else OldestQueuedSeconds s)"
  by (simp add: count_status_def Let_def max_def)

lemma oldest_inflight_workers [simp]: "RecentWorkers (oldest_inflight now job s) = RecentWorkers s"
  by (simp add: oldest_inflight_def Let_def)

lemma count_status_workers [simp]: "RecentWorkers (count_status now job s) = RecentWorkers s"
  by (simp add: count_status_def Let_def)

lemma count_jobs_workers:
  "sv_workers (count_jobs now r ids sv) = sv_workers sv"
  "RecentWorkers (sv_summary (count_jobs now r ids sv)) = RecentWorkers (sv_summary sv)"
  by (induction ids arbitrary: sv) (auto simp: Let_def split: option.splits)

lemma count_jobs_length:
  "length (sv_jobs sv) \<le> maxStateJobs \<Longrightarrow> length (sv_jobs (count_jobs now r ids sv)) \<le> maxStateJobs"
  by (induction ids arbitrary: sv) (auto simp: Let_def split: option.splits)

lemma count_jobs_take:
  assumes "set ids \<subseteq> dom (jobs r)" "length (sv_jobs sv) \<le> maxStateJobs"
  shows "sv_jobs (count_jobs now r ids sv) =
    sv_jobs sv @ map (\<lambda>i. view_job r i (the (jobs r i))) (take (maxStateJobs - length (sv_jobs sv)) ids)"
  using assms
proof (induction ids arbitrary: sv)
  case (Cons i ids)
  then obtain job where "jobs r i = Some job" by auto
  show ?case
  proof (cases "maxStateJobs - length (sv_jobs sv)")
    case 0
    with Cons \<open>jobs r i = Some job\<close> show ?thesis by (auto simp: Let_def)
  next
    case (Suc n)
    then have "maxStateJobs - Suc (length (sv_jobs sv)) = n" "length (sv_jobs sv) < maxStateJobs" by auto
    with Suc Cons \<open>jobs r i = Some job\<close> show ?thesis by (auto simp: Let_def)
  qed
qed simp

lemma count_jobs_totals:
  assumes "set ids \<subseteq> dom (jobs r)"
  shows "TotalJobs (sv_summary (count_jobs now r ids sv)) = TotalJobs (sv_summary sv) + length ids"
    and "QueuedJobs (sv_summary (count_jobs now r ids sv)) =
      QueuedJobs (sv_summary sv) + length (filter (\<lambda>i. job_status i r = StatusQueued) ids)"
    and "TerminalJobs (sv_summary (count_jobs now r ids sv)) =
      TerminalJobs (sv_summary sv) + length (filter (\<lambda>i. isTerminalStatus (job_status i r)) ids)"
  using assms
  by (induction ids arbitrary: sv)
     (auto simp: Let_def count_status_queued count_status_terminal job_status_def split: option.splits)

lemma count_jobs_oldest:
  "set ids \<subseteq> dom (jobs r) \<Longrightarrow>
   \<forall>i \<in> set ids. \<forall>job. jobs r i = Some job \<longrightarrow> j_status job = StatusQueued \<longrightarrow>
     ageSeconds now (j_created job) \<le> OldestQueuedSeconds (sv_summary (count_jobs now r ids sv))"
  "OldestQueuedSeconds (sv_summary sv) \<le> OldestQueuedSeconds (sv_summary (count_jobs now r ids sv))"
proof -
  show mono: "OldestQueuedSeconds (sv_summary sv) \<le> OldestQueuedSeconds (sv_summary (count_jobs now r ids sv))"
    for ids sv
  proof (induction ids arbitrary: sv)
    case (Cons i ids)
    show ?case
    proof (cases "jobs r i")
      case (Some job)
      have "OldestQueuedSeconds (sv_summary sv) \<le> OldestQueuedSeconds (count_status now job (sv_summary sv))"
        by (simp add: count_status_oldest)
      with Cons.IH [of "(if length (sv_jobs sv) < maxStateJobs
          then sv\<lparr>sv_summary := count_status now job (sv_summary sv), sv_jobs := sv_jobs sv @ [view_job r i job]\<rparr>
          else sv\<lparr>sv_summary := count_status now job (sv_summary sv)\<rparr>)"] Some
      show ?thesis by (auto simp: Let_def split: if_splits)
    qed (use Cons.IH in auto)
  qed simp
  show "set ids \<subseteq> dom (jobs r) \<Longrightarrow>
   \<forall>i \<in> set ids. \<forall>job. jobs r i = Some job \<longrightarrow> j_status job = StatusQueued \<longrightarrow>
     ageSeconds now (j_created job) \<le> OldestQueuedSeconds (sv_summary (count_jobs now r ids sv))"
  proof (induction ids arbitrary: sv)
    case (Cons i ids)
    then obtain job where job: "jobs r i = Some job" by auto
    define sv' where "sv' = (if length (sv_jobs sv) < maxStateJobs
          then sv\<lparr>sv_summary := count_status now job (sv_summary sv), sv_jobs := sv_jobs sv @ [view_job r i job]\<rparr>
          else sv\<lparr>sv_summary := count_status now job (sv_summary sv)\<rparr>)"
    have eq: "count_jobs now r (i # ids) sv = count_jobs now r ids sv'"
      by (simp add: job Let_def sv'_def)
    have "ageSeconds now (j_created job) \<le> OldestQueuedSeconds (sv_summary sv')"
      if "j_status job = StatusQueued"
      using that by (simp add: sv'_def count_status_oldest)
    with mono [of sv' ids] have "ageSeconds now (j_created job) \<le>
        OldestQueuedSeconds (sv_summary (count_jobs now r ids sv'))" if "j_status job = StatusQueued"
      using that by force
    with Cons job show ?case unfolding eq by auto
  qed simp
qed

lemma set_newest_first [simp]: "set (newest_first r ids) = set ids"
  by (simp add: newest_first_def)

lemma length_newest_first [simp]: "length (newest_first r ids) = length ids"
  by (simp add: newest_first_def)

lemma distinct_newest_first [simp]: "distinct (newest_first r ids) = distinct ids"
  by (simp add: newest_first_def)

lemma newest_first_sorted:
  assumes "i < k" "k < length ids" "jobs r (newest_first r ids ! i) = Some a"
    "jobs r (newest_first r ids ! k) = Some b"
  shows "j_updated b \<le> j_updated a"
proof -
  let ?f = "\<lambda>i. - (case jobs r i of None \<Rightarrow> 0 | Some job \<Rightarrow> j_updated job)"
  have "sorted (map ?f (newest_first r ids))" by (simp add: newest_first_def)
  from sorted_nth_mono [OF this, of i k] assms show ?thesis by simp
qed

end
