(* ===== verification/JobProperties.thy ===== *)
theory JobProperties
  imports JobState
begin

text \<open>
  What the job registry guarantees and where it does not: the properties of
  \<^verbatim>\<open>server/internal/jobs/registry.go\<close>, each with a concrete run or input it applies to.
\<close>

section \<open>A sample registry\<close>

definition sample_reg :: registry where
  "sample_reg = NewJobRegistry (NewRegistry 0) 0 Minute"

definition sample_request :: "string \<Rightarrow> create_request" where
  "sample_request ty = \<lparr>cr_type = ty, cr_priority = 0, cr_metadata = None, cr_worker = [], cr_group = []\<rparr>"

text \<open>Two clients create jobs, one watches its job, a worker claims twice and completes the first.\<close>

definition sample_run :: "jevent list" where
  "sample_run =
     [JCreate (sample_request ''asr'') ''j1'' 1 1, JSignal, JSubscribe ''j1'' 0,
      JCreate (sample_request ''llm'') ''j2'' 2 2, JSignal,
      JAddStream ''w'' ''g'' [''asr''] 3, JNotified,
      JClaim [''asr''] ''w'' ''g'' 4, JClaim [] ''w'' ''g'' 5, JRecv 0,
      JStatus ''j1'' ''completed'' \<lparr>sr_state = ''completed'', sr_progress = None, sr_error = None\<rparr> 6]"

lemma sample_run_calm: "run calm_guard jstep sample_run (Some sample_reg) \<noteq> None"
proof -
  have "\<not> Option.is_none (run calm_guard jstep sample_run (Some sample_reg))" by code_simp
  then show ?thesis by (simp add: Option.is_none_def)
qed

lemma calm_run_run: "run calm_guard jstep es s = Some t \<Longrightarrow> run jguard jstep es s = Some t"
  by (induction es arbitrary: s) (auto simp: calm_guard_def split: if_splits)

lemma sample_reg_init: "jinit (Some sample_reg)"
  by (auto simp: jinit_def sample_reg_def)

section \<open>Every run\<close>

text \<open>
  C2: However client and worker requests interleave, no critical section of the job registry panics
  (no publication meets a closed channel, no channel is closed twice); the queue lists existing
  jobs, each once; every subscriber's channel is open and holds at most 8 events; no worker's
  stream count is negative.
\<close>

theorem job_registry_safe:
  assumes "run jguard jstep es (Some (NewJobRegistry tr delay ttl)) = Some t"
  shows "\<exists>r. t = Some r \<and> distinct (queue r) \<and> set (queue r) \<subseteq> dom (jobs r) \<and>
    (\<forall>jid h. h \<in> set (sub_list jid r) \<longrightarrow>
       (\<exists>c. chans r h = Some c \<and> \<not> sc_closed c \<and> length (sc_buf c) \<le> 8)) \<and>
    (\<forall>key w. workers r key = Some w \<longrightarrow> wa_key w = key \<and> 0 \<le> wa_streams w)"
proof -
  have "jinit (Some (NewJobRegistry tr delay ttl))" by (auto simp: jinit_def)
  from job_runs.reach_inv [OF this assms] obtain r where t: "t = Some r" and ok: "jobs_ok r"
    by (auto simp: jinv_def split: option.splits)
  have "\<exists>c. chans r h = Some c \<and> \<not> sc_closed c \<and> length (sc_buf c) \<le> 8"
    if "h \<in> set (sub_list jid r)" for jid h
    using ok subs_ok_openD [of r h jid] that by (auto simp: jobs_ok_def bufs_ok_def)
  with t ok show ?thesis by (simp add: jobs_ok_def queue_ok_def workers_ok_def)
qed

lemma job_registry_safe_witness:
  "\<exists>r. run jguard jstep sample_run (Some sample_reg) = Some (Some r) \<and> distinct (queue r)"
proof -
  obtain t where t: "run calm_guard jstep sample_run (Some sample_reg) = Some t"
    using sample_run_calm by blast
  from calm_run_run [OF this] have "run jguard jstep sample_run (Some sample_reg) = Some t" .
  with job_registry_safe [of sample_run "NewRegistry 0" 0 Minute t] show ?thesis
    by (auto simp: sample_reg_def)
qed

text \<open>
  C1: No job is ever handed to two workers: in every run, whatever the interleaving and whatever
  states the workers report, the ids returned by successful claims are distinct.
\<close>

theorem job_claimed_once:
  assumes "run jguard jstep es (Some (NewJobRegistry tr delay ttl)) = Some t"
  shows "distinct (claims es (Some (NewJobRegistry tr delay ttl)))"
  using claims_distinct [OF _ assms] jinit_inv by (auto simp: jinit_def)

lemma job_claimed_once_witness:
  "claims sample_run (Some sample_reg) = [''j1'', ''j2''] \<and> distinct (claims sample_run (Some sample_reg))"
proof -
  obtain t where t: "run calm_guard jstep sample_run (Some sample_reg) = Some t"
    using sample_run_calm by blast
  have "claims sample_run (Some sample_reg) = [''j1'', ''j2'']" by code_simp
  with calm_run_run [OF t] job_claimed_once [of sample_run "NewRegistry 0" 0 Minute t] show ?thesis
    by (auto simp: sample_reg_def)
qed

text \<open>
  C5: A claim takes the oldest queued job the worker may have: it matches the requested types and the
  job's worker and group constraints, every job queued before it does not, the others keep their
  order, and the job records the claiming worker.
\<close>

theorem claim_takes_oldest_compatible:
  assumes "claimNext types w g now r = Some (Some i, r')"
  shows "\<exists>job pre post. jobs r i = Some job \<and> queue r = pre @ i # post \<and> queue r' = pre @ post \<and>
    (types = [] \<or> j_type job \<in> set types) \<and>
    (j_worker job = [] \<or> j_worker job = w) \<and> (j_group job = [] \<or> j_group job = g) \<and>
    (\<forall>p \<in> set pre. \<not> claimable types w g (jobs r) p) \<and>
    jobs r' = (jobs r)(i \<mapsto> claimed_job w g now job)"
proof -
  from claimNext_Some [OF assms] obtain job pre post cs where f: "jobs r i = Some job"
    "claimable types w g (jobs r) i" "queue r = pre @ i # post"
    "\<forall>p \<in> set pre. \<not> claimable types w g (jobs r) p"
    "r' = r\<lparr>queue := pre @ post, jobs := (jobs r)(i \<mapsto> claimed_job w g now job), chans := cs\<rparr>" by blast
  from f(1,2) have "(types = [] \<or> j_type job \<in> set types) \<and>
    (j_worker job = [] \<or> j_worker job = w) \<and> (j_group job = [] \<or> j_group job = g)"
    by (auto simp: claimable_def isCompatibleClaim_iff split: if_splits)
  with f show ?thesis by auto
qed

definition sample_two :: registry where
  "sample_two = insert_job (new_job ''j2'' (sample_request ''llm'') 2 2)
     (insert_job (new_job ''j1'' (sample_request ''asr'') 1 1) sample_reg)"

lemma claim_takes_oldest_compatible_witness:
  "\<exists>job pre post. jobs sample_two ''j2'' = Some job \<and> queue sample_two = pre @ ''j2'' # post \<and>
     (\<forall>p \<in> set pre. \<not> claimable [''llm''] ''w'' ''g'' (jobs sample_two) p)"
proof -
  have "claimNext [''llm''] ''w'' ''g'' 5 sample_two = Some (Some ''j2'',
      snd (the (claimNext [''llm''] ''w'' ''g'' 5 sample_two)))"
    by (simp add: sample_two_def sample_reg_def insert_job_def new_job_def sample_request_def
        NewJobRegistry_def claimNext_def claimable_def isCompatibleClaim_def setJobStatusLocked_def
        update_job_def publishLocked_def sub_list_def status_defs isTerminalStatus_def)
  from claim_takes_oldest_compatible [OF this] show ?thesis by blast
qed

section \<open>Disciplined runs\<close>

text \<open>
  C4: In a run whose workers report only on jobs that have left the queue and whose transfer requests
  are not overtaken, a job is in the queue exactly while its status is \<open>queued\<close>, and the counters of
  completed, failed and cancelled jobs are the numbers of jobs in those statuses (modulo
  \<open>2^64\<close>).
\<close>

theorem disciplined_run_consistent:
  assumes "run calm_guard jstep es (Some (NewJobRegistry tr delay ttl)) = Some t"
  shows "\<exists>r. t = Some r \<and> (\<forall>i. i \<in> set (queue r) \<longleftrightarrow> job_status i r = StatusQueued) \<and>
    CompletedJobs (stats r) = of_nat (card {i. job_status i r = StatusCompleted}) \<and>
    FailedJobs (stats r) = of_nat (card {i. job_status i r = StatusFailed}) \<and>
    CanceledJobs (stats r) = of_nat (card {i. job_status i r = StatusCanceled})"
proof -
  have "jinit (Some (NewJobRegistry tr delay ttl))" by (auto simp: jinit_def)
  from calm_runs.reach_inv [OF this assms] show ?thesis
    by (auto simp: calm_inv_def calm_ok_def counts_ok_def counters_def split: option.splits)
qed

lemma disciplined_run_consistent_witness:
  "\<exists>r. run calm_guard jstep sample_run (Some sample_reg) = Some (Some r) \<and>
     CompletedJobs (stats r) = of_nat (card {i. job_status i r = StatusCompleted})"
proof -
  obtain t where t: "run calm_guard jstep sample_run (Some sample_reg) = Some t"
    using sample_run_calm by blast
  with disciplined_run_consistent [of sample_run "NewRegistry 0" 0 Minute t] show ?thesis
    by (auto simp: sample_reg_def)
qed

text \<open>
  In such a run a job that has completed, failed or been cancelled stays so, with the same
  status, whatever happens later.
\<close>

theorem terminal_is_final:
  assumes "run calm_guard jstep es (Some (NewJobRegistry tr delay ttl)) = Some (Some r)"
    and "isTerminalStatus (job_status i r)" and "run calm_guard jstep fs (Some r) = Some t"
  shows "\<exists>r'. t = Some r' \<and> job_status i r' = job_status i r"
proof -
  have "jinit (Some (NewJobRegistry tr delay ttl))" by (auto simp: jinit_def)
  from calm_runs.reach_inv [OF this assms(1)] have inv: "calm_inv (Some r)" .
  have "ended (i, job_status i r) (Some r)" using assms(2) by (simp add: ended_def)
  from calm_runs.run_stable [OF inv this assms(3)] show ?thesis
    by (auto simp: ended_def split: option.splits)
qed

definition late_run :: "jevent list" where
  "late_run =
     [JCancel ''j1'' 7, JPublish ''j1'' \<lparr>ev_type = ''status'', ev_data = DViewPtr None\<rparr>,
      JStatus ''j1'' ''failed'' \<lparr>sr_state = ''failed'', sr_progress = None, sr_error = None\<rparr> 8,
      JExpire ''j1'' 9]"

lemma late_run_exists:
  "\<exists>r t. run calm_guard jstep sample_run (Some (NewJobRegistry (NewRegistry 0) 0 Minute)) = Some (Some r) \<and>
     isTerminalStatus (job_status ''j1'' r) \<and> run calm_guard jstep late_run (Some r) = Some t"
proof -
  have "case run calm_guard jstep sample_run (Some sample_reg) of
      Some (Some r) \<Rightarrow> isTerminalStatus (job_status ''j1'' r) \<and>
        \<not> Option.is_none (run calm_guard jstep late_run (Some r))
    | _ \<Rightarrow> False" by code_simp
  then show ?thesis by (auto simp: sample_reg_def Option.is_none_def split: option.splits)
qed

lemma terminal_is_final_witness:
  "\<exists>r r'. run calm_guard jstep sample_run (Some sample_reg) = Some (Some r) \<and>
     run calm_guard jstep late_run (Some r) = Some (Some r') \<and>
     job_status ''j1'' r' = job_status ''j1'' r"
proof -
  from late_run_exists obtain r t where r: "isTerminalStatus (job_status ''j1'' r)"
    "run calm_guard jstep sample_run (Some (NewJobRegistry (NewRegistry 0) 0 Minute)) = Some (Some r)"
    "run calm_guard jstep late_run (Some r) = Some t" by blast
  from terminal_is_final [OF r(2,1,3)] r show ?thesis by (auto simp: sample_reg_def)
qed

end
