(* ===== verification/JobRequests.thy ===== *)
theory JobRequests
  imports JobProperties
begin

text \<open>
  What single requests to the job registry do: cancellation, status and transfer requests, the
  expiry of an abandoned job, the event stream, polling for a claim, the snapshot for the dashboard,
  and the position a queued job reports.
\<close>

section \<open>Lemmas\<close>

lemma publish_ok:
  assumes "subs_ok r"
  shows "\<exists>r'. publish i ev r = Some r' \<and> subs_ok r' \<and> jobs r' = jobs r \<and> queue r' = queue r \<and>
    stats r' = stats r \<and> clientTimers r' = clientTimers r \<and> subs r' = subs r"
proof -
  from publish_total [OF assms] obtain r' where r': "publish i ev r = Some r'" by blast
  moreover have "subs_ok r'"
    using assms r' by (auto simp: publish_def publishLocked_def intro: subs_ok_publish)
  ultimately show ?thesis using publish_frame [OF r'] by auto
qed

lemma subs_ok_frame [simp]:
  "subs_ok (cancel_section i now r) = subs_ok r"
  "subs_ok (payload_commit i key info now r) = subs_ok r"
  "subs_ok (result_commit i key info now r) = subs_ok r"
  "subs_ok (clearClientTimer i r) = subs_ok r"
  "subs_ok (snd (create_channel c now r)) = subs_ok r"
  by (simp_all add: subs_ok_def sub_list_def clearClientTimer_def)

lemma cancel_status:
  "jobs r i = Some j \<Longrightarrow> job_status i (cancel_section i now r) =
     (if isTerminalStatus (j_status j) then j_status j else StatusCanceled)"
  by (simp add: cancel_section_def job_status_set)

lemma cancel_terminal: "jobs r i = Some j \<Longrightarrow> isTerminalStatus (job_status i (cancel_section i now r))"
  by (simp add: cancel_status)

lemma cancel_exists: "jobs r i = Some j \<Longrightarrow> \<exists>j'. jobs (cancel_section i now r) i = Some j'"
  by (simp add: cancel_section_def job_set_status)

lemma cancel_dequeues:
  "jobs r i = Some j \<Longrightarrow> distinct (queue r) \<Longrightarrow> (i \<in> set (queue r) \<longrightarrow> j_status j = StatusQueued) \<Longrightarrow>
   i \<notin> set (queue (cancel_section i now r))"
  by (auto simp: cancel_section_def)

lemma cancel_noop: "isTerminalStatus (job_status i r) \<Longrightarrow> cancel_section i now r = r"
  by (auto simp: cancel_section_def job_status_def split: option.splits)

lemma payload_commit_status:
  "jobs r i = Some j \<Longrightarrow> job_status i (payload_commit i key info now r) = StatusAwaitingPayload"
  by (simp add: payload_commit_def job_status_def job_set_status job_update)

lemma create_channel_snd: "create_channel cid now r = (fst (create_channel cid now r), snd (create_channel cid now r))"
  by simp

section \<open>Transfer requests\<close>

text \<open>
  C6: A payload request checks the job's status, releases the lock to read the request body and
  commits without checking again.  If the client cancels in between, the cancelled job goes back to
  \<open>awaiting_payload\<close>: the request is answered with a transfer, and the final status is undone.
\<close>

theorem payload_request_revives_cancelled:
  assumes "jobs r jid = Some job" "canRequestTransfer (j_status job)" "subs_ok r" "dec \<noteq> DecErr"
  shows "\<exists>key url exp props r'.
    HandlePayloadRequest jid dec cid create_at now (quiet(1 := cancel_section jid t)) r
      = Some (RTransfer key cid url exp props, r') \<and>
    job_status jid (cancel_section jid t r) = StatusCanceled \<and>
    job_status jid r' = StatusAwaitingPayload"
proof -
  obtain body where body: "body = (case dec of Decoded b \<Rightarrow> b | _ \<Rightarrow> zero_transfer)" by blast
  obtain r1 expires where c: "create_channel cid create_at r = ((cid, expires), r1)"
    by (auto simp: create_channel_def Create_def Let_def)
  have r1: "jobs r1 = jobs r" "subs r1 = subs r" "chans r1 = chans r"
    using c by (auto simp: create_channel_def Let_def split: prod.splits)
  have r1j: "jobs r1 jid = Some job" using r1 assms(1) by simp
  have r1s: "subs_ok r1" using assms(3) r1 by (simp add: subs_ok_def sub_list_def)
  define key where "key = (case tq_key body of None \<Rightarrow> ''payload'' | Some k \<Rightarrow> TrimSpace k)"
  define info where "info = \<lparr>ti_channel = cid, ti_method = ''POST'', ti_url = transfer_url cid,
      ti_expires = rfc3339 expires, ti_key = key, ti_properties = copyMap (tq_properties body)\<rparr>"
  define r2 where "r2 = payload_commit jid key info now (cancel_section jid t r1)"
  from cancel_exists [OF r1j] obtain j' where "jobs (cancel_section jid t r1) jid = Some j'" by blast
  then have st: "job_status jid r2 = StatusAwaitingPayload" unfolding r2_def by (rule payload_commit_status)
  have "subs_ok r2" using r1s by (simp add: r2_def)
  from publish_ok [OF this] obtain r3 where
    r3: "publish jid \<lparr>ev_type = ''payload'', ev_data = DInfo info\<rparr> r2 = Some r3" "subs_ok r3" "jobs r3 = jobs r2"
    by blast
  from publish_ok [OF r3(2)] obtain r4 where
    r4: "publish jid (status_event jid r2) r3 = Some r4" "jobs r4 = jobs r3" by blast
  have "HandlePayloadRequest jid dec cid create_at now (quiet(1 := cancel_section jid t)) r =
    Some (RTransfer key cid (transfer_url cid) (rfc3339 expires) (copyMap (tq_properties body)), r4)"
    using assms(1,2,4) c r3(1) r4(1)
    by (cases dec) (simp_all add: HandlePayloadRequest_def Let_def body key_def info_def r2_def)
  moreover have "job_status jid (cancel_section jid t r) = StatusCanceled"
    using cancel_status [OF assms(1), of t] assms(2) terminal_not_transfer by auto
  moreover have "job_status jid r4 = StatusAwaitingPayload"
    using st r3(3) r4(2) by (simp add: job_status_def)
  ultimately show ?thesis by blast
qed

definition sample_claimed :: registry where
  "sample_claimed = snd (the (claimNext [] ''w'' ''g'' 5 sample_two))"

lemma sample_claimed_eq:
  "sample_claimed = sample_two\<lparr>queue := [''j2''],
     jobs := (jobs sample_two)(''j1'' \<mapsto> claimed_job ''w'' ''g'' 5 (new_job ''j1'' (sample_request ''asr'') 1 1))\<rparr>"
  by (simp add: sample_claimed_def sample_two_def sample_reg_def insert_job_def new_job_def sample_request_def
        NewJobRegistry_def claimNext_def claimable_def isCompatibleClaim_def setJobStatusLocked_def
        update_job_def publishLocked_def sub_list_def claimed_job_def isTerminalStatus_def status_defs fun_eq_iff)

lemma sample_claimed_subs: "subs_ok sample_claimed"
  by (simp add: sample_claimed_eq sample_two_def sample_reg_def insert_job_def NewJobRegistry_def
      subs_ok_def sub_list_def)

lemma payload_request_revives_cancelled_witness:
  "\<exists>resp r'. HandlePayloadRequest ''j1'' DecEOF ''ch'' 6 7 (quiet(1 := cancel_section ''j1'' 6)) sample_claimed
      = Some (resp, r') \<and> job_status ''j1'' r' = StatusAwaitingPayload"
proof -
  have "jobs sample_claimed ''j1'' = Some (claimed_job ''w'' ''g'' 5 (new_job ''j1'' (sample_request ''asr'') 1 1))"
    by (simp add: sample_claimed_eq)
  from payload_request_revives_cancelled [OF this _ sample_claimed_subs, of DecEOF "''ch''" 6 7 6]
  show ?thesis by (auto simp: canRequestTransfer_def)
qed

section \<open>Status reports\<close>

text \<open>
  A status report checks the status again in its second section: if the job is in a terminal
  status by then, the report is refused and changes nothing, whatever the other requests did while
  the body was read.
\<close>

theorem status_update_respects_terminal:
  assumes "jobs r jid \<noteq> None" "isTerminalStatus (job_status jid (env 0 r))"
  shows "\<exists>code err r'. HandleStatusUpdate jid dec now env r = Some (RError code err, r') \<and>
    (r' = r \<or> r' = env 0 r)"
proof -
  from assms(1) obtain job where job: "jobs r jid = Some job" by blast
  show ?thesis
  proof (cases "isTerminalStatus (j_status job)")
    case True
    with job show ?thesis by (simp add: HandleStatusUpdate_def)
  next
    case False
    from assms(2) obtain j where "jobs (env 0 r) jid = Some j" "isTerminalStatus (j_status j)"
      by (cases "jobs (env 0 r) jid") (auto simp: job_status_def)
    then have "status_commit jid st body now (env 0 r) = None" for st body
      by (simp add: status_commit_def)
    with job False show ?thesis by (auto simp: HandleStatusUpdate_def Let_def split: decoded.splits)
  qed
qed

lemma status_update_respects_terminal_witness:
  "\<exists>code err r'. HandleStatusUpdate ''j1''
      (Decoded \<lparr>sr_state = ''completed'', sr_progress = None, sr_error = None\<rparr>) 9
      (\<lambda>_. cancel_section ''j1'' 8) sample_claimed = Some (RError code err, r') \<and>
      job_status ''j1'' (cancel_section ''j1'' 8 sample_claimed) = StatusCanceled"
proof -
  have "jobs sample_claimed ''j1'' \<noteq> None"
    and c: "job_status ''j1'' (cancel_section ''j1'' 8 sample_claimed) = StatusCanceled"
    by (simp_all add: sample_claimed_eq cancel_status)
  with status_update_respects_terminal [of sample_claimed "''j1''" "\<lambda>_. cancel_section ''j1'' 8"
      "Decoded \<lparr>sr_state = ''completed'', sr_progress = None, sr_error = None\<rparr>" 9]
  show ?thesis by auto
qed

text \<open>
  A worker may report on a job nobody has claimed.  The report \<open>completed\<close> on a queued job leaves
  it in the queue: it is answered \<open>200\<close>, counted as completed, and a later claim hands the finished
  job to a worker, which takes it out of its terminal status.
\<close>

theorem completed_job_can_be_claimed:
  assumes "jobs r jid = Some job" "queue r = jid # q" "j_status job = StatusQueued" "j_worker job = []"
    "j_group job = []" "subs_ok r" "j_id job = jid"
  shows "\<exists>r1 r2. HandleStatusUpdate jid
      (Decoded \<lparr>sr_state = ''completed'', sr_progress = None, sr_error = None\<rparr>) now quiet r
      = Some (RStatus StatusCompleted, r1) \<and>
    CompletedJobs (stats r1) = CompletedJobs (stats r) + 1 \<and> queue r1 = queue r \<and>
    claimNext [] w g later r1 = Some (Some jid, r2) \<and> job_status jid r2 = StatusClaimed"
proof -
  define body where "body = \<lparr>sr_state = ''completed'', sr_progress = None, sr_error = None\<rparr>"
  have trim: "TrimSpace ''completed'' = StatusCompleted"
    by (simp add: TrimSpace_def trim_with.simps byte_def StatusCompleted_def)
  define r0 where "r0 = setJobStatusLocked jid StatusCompleted now r"
  have j0: "jobs r0 jid = Some (set_status StatusCompleted now job)"
    using assms(1) by (simp add: r0_def job_set_status)
  have sc: "status_commit jid StatusCompleted body now r = Some r0"
    using assms(1,3) j0 by (simp add: status_commit_def body_def update_job_def r0_def fun_upd_idem)
  have s0: "subs_ok r0" using assms(6) by (simp add: r0_def subs_ok_def)
  define r0' where "r0' = clearClientTimer jid r0"
  from publish_ok [of r0' jid "status_event jid r0"] s0 obtain r1 where
    r1: "publish jid (status_event jid r0) r0' = Some r1" "subs_ok r1" "jobs r1 = jobs r0'"
      "queue r1 = queue r0'" "stats r1 = stats r0'" by (auto simp: r0'_def)
  have f: "jobs r0' = jobs r0" "queue r0' = queue r0" "stats r0' = stats r0"
    by (simp_all add: r0'_def clearClientTimer_def)
  have j1: "jobs r1 jid = Some (set_status StatusCompleted now job)" using r1(3) f(1) j0 by simp
  have h: "HandleStatusUpdate jid (Decoded body) now quiet r = Some (RStatus StatusCompleted, r1)"
    using assms(1,3) sc r1(1) j1 trim
    by (simp add: HandleStatusUpdate_def Let_def body_def r0'_def job_status_def)
       (simp add: StatusCompleted_def)
  have "counters r0 = bump StatusCompleted (counters r)"
    unfolding r0_def using assms(1,3) by (intro counters_set [of _ _ job]) auto
  then have cnt: "CompletedJobs (stats r1) = CompletedJobs (stats r) + 1"
    using r1(5) f(3) by (simp add: counters_def bump_def)
  have q1: "queue r1 = jid # q" using r1(4) f(2) assms(2) by (simp add: r0_def)
  have fc: "find_claim [] w g (jobs r1) (queue r1) = Some (jid, q)"
    using q1 j1 assms(4,5) by (simp add: claimable_def isCompatibleClaim_iff)
  have "claimNext [] w g later r1 \<noteq> None"
    using publish_loop_total [of "sub_list jid r1" "chans r1"] subs_ok_openD [OF r1(2)] fc j1 assms(7)
    by (force simp: claimNext_def Let_def setJobStatusLocked_def update_job_def publishLocked_def sub_list_def)
  then obtain x r2 where c: "claimNext [] w g later r1 = Some (x, r2)" by auto
  have x: "x = Some jid"
    using c fc by (auto simp: claimNext_def Let_def split: option.splits)
  from c x claimNext_Some [of "[]" w g later r1 jid r2] obtain job' where
    "jobs r2 jid = Some (claimed_job w g later job')" by auto
  with h cnt q1 c x assms(2) show ?thesis unfolding body_def by auto
qed

lemma completed_job_can_be_claimed_witness:
  "\<exists>r1 r2. HandleStatusUpdate ''j1''
      (Decoded \<lparr>sr_state = ''completed'', sr_progress = None, sr_error = None\<rparr>) 4 quiet sample_two
      = Some (RStatus StatusCompleted, r1) \<and>
    claimNext [] ''w'' ''g'' 5 r1 = Some (Some ''j1'', r2) \<and> job_status ''j1'' r2 = StatusClaimed"
proof -
  have "subs_ok sample_two"
    by (simp add: sample_two_def sample_reg_def insert_job_def NewJobRegistry_def subs_ok_def sub_list_def)
  moreover have "jobs sample_two ''j1'' = Some (new_job ''j1'' (sample_request ''asr'') 1 1)"
    "queue sample_two = ''j1'' # [''j2'']"
    by (simp_all add: sample_two_def sample_reg_def insert_job_def new_job_def NewJobRegistry_def)
  moreover have "j_status (new_job ''j1'' (sample_request ''asr'') 1 1) = StatusQueued"
    "j_worker (new_job ''j1'' (sample_request ''asr'') 1 1) = []"
    "j_group (new_job ''j1'' (sample_request ''asr'') 1 1) = []"
    "j_id (new_job ''j1'' (sample_request ''asr'') 1 1) = ''j1''"
    by (simp_all add: new_job_def sample_request_def)
  ultimately show ?thesis
    using completed_job_can_be_claimed [of sample_two "''j1''" _ "[''j2'']" 4 "''w''" "''g''" 5] by blast
qed

end
