(* ===== verification/JobClients.thy ===== *)
theory JobClients
  imports JobRequests
begin

text \<open>
  What clients and polling workers observe: cancellation, the expiry of an abandoned job, the event
  stream, claims that wait, the position in the queue and the dashboard's snapshot.
\<close>

section \<open>Cancellation and expiry\<close>

lemma cancel_calm_dequeued:
  "calm_ok r \<Longrightarrow> jobs r i = Some j \<Longrightarrow> i \<notin> set (queue (cancel_section i now r))"
  using cancel_dequeues [of r i j now] by (auto simp: calm_ok_def jobs_ok_def queue_ok_def)

lemma cancel_handler:
  assumes "subs_ok r" "jobs r i = Some j"
  shows "\<exists>r'. HandleCancelJob i now quiet r = Some (RStatus (job_status i (cancel_section i now r)), r') \<and>
    jobs r' = jobs (cancel_section i now r) \<and> queue r' = queue (cancel_section i now r) \<and>
    stats r' = stats (cancel_section i now r) \<and> clientTimers r' i = None \<and> subs_ok r'"
proof -
  let ?c = "cancel_section i now r"
  have "subs_ok (clearClientTimer i ?c)" using assms(1) by simp
  from publish_ok [OF this, of i "status_event i ?c"] obtain r' where
    p: "publish i (status_event i ?c) (clearClientTimer i ?c) = Some r'" "subs_ok r'"
      "jobs r' = jobs (clearClientTimer i ?c)" "queue r' = queue (clearClientTimer i ?c)"
      "stats r' = stats (clearClientTimer i ?c)" "clientTimers r' = clientTimers (clearClientTimer i ?c)"
    by blast
  moreover have "clientTimers (clearClientTimer i ?c) i = None"
    by (simp add: clearClientTimer_def drop_timer_def)
  ultimately show ?thesis
    using assms(2) by (auto simp: HandleCancelJob_def Let_def clearClientTimer_def)
qed


lemma sample_two_calm: "calm_ok sample_two"
proof -
  have "calm_ok sample_reg" by (simp add: sample_reg_def NewJobRegistry_calm)
  have inv: "calm_inv (Some sample_reg)"
    using \<open>calm_ok sample_reg\<close> by (simp add: calm_inv_def)
  have "run calm_guard jstep [JCreate (sample_request ''asr'') ''j1'' 1 1, JCreate (sample_request ''llm'') ''j2'' 2 2]
      (Some sample_reg) = Some (Some sample_two)"
    by (simp add: calm_guard_def jguard_def jstep_def sample_two_def sample_reg_def insert_job_def
        new_job_def NewJobRegistry_def)
  from calm_runs.run_inv [OF inv this] show ?thesis by (simp add: calm_inv_def)
qed

lemma sample_two_jobs:
  "jobs sample_two ''j1'' = Some (new_job ''j1'' (sample_request ''asr'') 1 1)"
  "jobs sample_two ''j2'' = Some (new_job ''j2'' (sample_request ''llm'') 2 2)"
  "queue sample_two = [''j1'', ''j2'']"
  by (simp_all add: sample_two_def sample_reg_def insert_job_def new_job_def NewJobRegistry_def)


text \<open>
  The inactivity timer cancels a job only when its client is gone: if the callback changes a
  job's status, the job had no subscriber, its timer was still listed and it had not ended; it is then
  cancelled with the error \<open>client_inactive\<close>.  No other job is touched.
\<close>

theorem expiry_only_abandoned:
  assumes "expireJobIfIdle jid now r = (ev, r')"
  shows "(\<forall>k. k \<noteq> jid \<longrightarrow> jobs r' k = jobs r k) \<and>
    (job_status jid r' = job_status jid r \<or>
     (sub_list jid r = [] \<and> clientTimers r jid \<noteq> None \<and> \<not> isTerminalStatus (job_status jid r) \<and>
      (\<exists>j. jobs r' jid = Some j \<and> j_status j = StatusCanceled \<and>
         j_error j = Some \<lparr>je_code = ''client_inactive'', je_message = ''client inactive''\<rparr> \<and>
         ev = Some \<lparr>ev_type = ''status'', ev_data = DView (viewLocked j)\<rparr>)))"
proof (cases "0 < length (sub_list jid r) \<or> clientTimers r jid = None")
  case True
  then have "expireJobIfIdle jid now r = (None, r)" by (auto simp: expireJobIfIdle_def)
  with assms show ?thesis by simp
next
  case idle: False
  show ?thesis
  proof (cases "\<exists>j. jobs r jid = Some j \<and> \<not> isTerminalStatus (j_status j)")
    case False
    with idle have "jobs (snd (expireJobIfIdle jid now r)) = jobs r"
      by (auto simp: expireJobIfIdle_def Let_def split: option.splits)
    with assms show ?thesis by (simp add: job_status_def)
  next
    case True
    then obtain j where j: "jobs r jid = Some j" "\<not> isTerminalStatus (j_status j)" by blast
    let ?j = "(set_status StatusCanceled now j)\<lparr>j_error :=
       Some \<lparr>je_code = ''client_inactive'', je_message = ''client inactive''\<rparr>\<rparr>"
    have "jobs r' = (jobs r)(jid \<mapsto> ?j)"
      "ev = Some \<lparr>ev_type = ''status'', ev_data = DView (viewLocked ?j)\<rparr>"
      using assms idle j
      by (auto simp: expireJobIfIdle_def Let_def job_update job_set_status)
    with idle j show ?thesis by auto
  qed
qed

lemma expiry_only_abandoned_witness:
  "job_status ''j1'' (snd (expireJobIfIdle ''j1'' 9 (startClientTimerIfIdle ''j1'' 2 sample_two))) = StatusCanceled \<and>
   jobs (snd (expireJobIfIdle ''j1'' 9 (startClientTimerIfIdle ''j1'' 2 sample_two))) ''j2'' = jobs sample_two ''j2''"
proof -
  let ?r = "startClientTimerIfIdle ''j1'' 2 sample_two"
  have "job_status ''j1'' (snd (expireJobIfIdle ''j1'' 9 ?r)) = StatusCanceled"
    by code_simp
  with expiry_only_abandoned [of "''j1''" 9 ?r "fst (expireJobIfIdle ''j1'' 9 ?r)" "snd (expireJobIfIdle ''j1'' 9 ?r)"]
  show ?thesis by simp
qed

section \<open>The event stream\<close>

lemma events_loop_Recv:
  assumes "events_loop h delay armed ((others, Recv) # ss) r = Some (evs, b, r')"
  obtains ev r1 where "recv_event h (others r) = Some (ev, r1)"
    "0 \<le> delay \<and> shouldCloseAfter ev \<and> delay = 0 \<and> evs = [ev] \<and> b \<and> r' = r1 \<or>
     (\<exists>rest. evs = ev # rest \<and>
       ((0 < delay \<and> shouldCloseAfter ev \<and> events_loop h delay True ss r1 = Some (rest, b, r')) \<or>
        (\<not> (0 \<le> delay \<and> shouldCloseAfter ev) \<and> events_loop h delay armed ss r1 = Some (rest, b, r'))))"
proof -
  from assms obtain ev r1 where e: "recv_event h (others r) = Some (ev, r1)"
    by (cases "recv_event h (others r)") auto
  with assms show thesis
    by (intro that [OF e]) (auto split: if_splits)
qed

lemma events_loop_closes:
  "events_loop h delay armed schedule r = Some (evs, b, r') \<Longrightarrow>
   (b \<and> CtxDone \<notin> snd ` set schedule \<and> \<not> armed \<longrightarrow> 0 \<le> delay \<and> (\<exists>ev \<in> set evs. shouldCloseAfter ev)) \<and>
   (delay = 0 \<longrightarrow> (\<forall>ev \<in> set (butlast evs). \<not> shouldCloseAfter ev))"
proof (induction schedule arbitrary: armed r evs)
  case (Cons x ss)
  obtain others s where x: "x = (others, s)" by (cases x)
  show ?case
  proof (cases s)
    case Recv
    with Cons.prems x have "events_loop h delay armed ((others, Recv) # ss) r = Some (evs, b, r')" by simp
    then obtain ev r1 where
      c: "0 \<le> delay \<and> shouldCloseAfter ev \<and> delay = 0 \<and> evs = [ev] \<and> b \<and> r' = r1 \<or>
       (\<exists>rest. evs = ev # rest \<and>
       ((0 < delay \<and> shouldCloseAfter ev \<and> events_loop h delay True ss r1 = Some (rest, b, r')) \<or>
        (\<not> (0 \<le> delay \<and> shouldCloseAfter ev) \<and> events_loop h delay armed ss r1 = Some (rest, b, r'))))"
      by (rule events_loop_Recv)
    then consider "evs = [ev]" "delay = 0" "shouldCloseAfter ev"
      | rest where "evs = ev # rest" "0 < delay" "shouldCloseAfter ev"
      | rest where "evs = ev # rest" "\<not> (0 \<le> delay \<and> shouldCloseAfter ev)"
          "events_loop h delay armed ss r1 = Some (rest, b, r')"
      by blast
    then show ?thesis
    proof cases
      case 3
      from Cons.IH [OF 3(3)] 3(1,2) x Recv show ?thesis by auto
    qed auto
  qed (use Cons.prems x in \<open>auto split: if_splits\<close>)
qed simp


definition sample_watched :: registry where
  "sample_watched = the (publish ''j1'' (status_event ''j1'' (cancel_section ''j1'' 4 sample_two))
     (cancel_section ''j1'' 4 (subscribe ''j1'' 0 sample_two)))"


section \<open>Claims that wait\<close>

lemma claimNext_served:
  assumes "queue_ok r" "subs_ok r" "i \<in> set (queue r)" "claimable types w g (jobs r) i"
  shows "\<exists>j r'. claimNext types w g now r = Some (Some j, r')"
proof -
  obtain x r' where c: "claimNext types w g now r = Some (x, r')"
    using claimNext_total [OF assms(1,2), of types w g now] by auto
  with claimNext_None [of types w g now r r'] assms(3,4) show ?thesis by (cases x) auto
qed

text \<open>
  A poll never waits while there is a job for the worker: if a queued job is compatible when the
  poll looks, it is answered with a claim in that turn.  If there is none and the poll asked for no
  wait, it is answered \<open>204\<close> in that turn.
\<close>

theorem poll_answered_at_once:
  assumes "rq = ct_before t (recordWorkerSeen (TrimSpace (cl_worker body)) (TrimSpace (cl_group body))
      ''poll'' (cl_types body) [] seen r)"
    and "queue_ok rq" "subs_ok rq"
  shows "if \<exists>i \<in> set (queue rq). claimable (cl_types body) (TrimSpace (cl_worker body))
      (TrimSpace (cl_group body)) (jobs rq) i
    then \<exists>v r'. HandleClaimJob (Decoded body) start seen (t # ts) r = Some (RClaim v, r')
    else cl_wait body \<le> 0 \<longrightarrow> - 9223372036 \<le> cl_wait body \<longrightarrow>
      HandleClaimJob (Decoded body) start seen (t # ts) r = Some (RNoContent, rq)"
proof (cases "\<exists>i \<in> set (queue rq). claimable (cl_types body) (TrimSpace (cl_worker body))
      (TrimSpace (cl_group body)) (jobs rq) i")
  let ?w = "TrimSpace (cl_worker body)" and ?g = "TrimSpace (cl_group body)"
  case True
  then have "\<exists>i \<in> set (queue rq). claimable (cl_types body) ?w ?g (jobs rq) i" by simp
  with claimNext_served [OF assms(2,3)] obtain j r'
    where "claimNext (cl_types body) ?w ?g (ct_claim_at t) rq = Some (Some j, r')" by blast
  with assms(1) have "\<exists>v r'. HandleClaimJob (Decoded body) start seen (t # ts) r = Some (RClaim v, r')"
    by (simp add: HandleClaimJob_def Let_def)
  with True show ?thesis by simp
next
  let ?w = "TrimSpace (cl_worker body)" and ?g = "TrimSpace (cl_group body)"
  case False
  then have "claimNext (cl_types body) ?w ?g (ct_claim_at t) rq = Some (None, rq)"
    using find_claim_None [of "cl_types body" ?w ?g "jobs rq" "queue rq"] by (simp add: claimNext_def)
  moreover have "wrap64 (cl_wait body * Second) \<le> 0"
    if "cl_wait body \<le> 0" "- 9223372036 \<le> cl_wait body"
    using that by (simp add: Second_def wrap64_id)
  ultimately show ?thesis
    using False assms(1) by (simp add: HandleClaimJob_def Let_def)
qed

definition sample_turn :: claim_turn where
  "sample_turn = \<lparr>ct_before = (\<lambda>r. r), ct_claim_at = 5, ct_seen_at = 5, ct_until_at = 5,
     ct_after = (\<lambda>r. r), ct_wake = WokenTimeout\<rparr>"

definition sample_poll :: "int \<Rightarrow> string list \<Rightarrow> claim_request" where
  "sample_poll n types = \<lparr>cl_types = types, cl_wait = n, cl_worker = ''w'', cl_group = []\<rparr>"

lemma poll_answered_at_once_witness:
  "(\<exists>v r'. HandleClaimJob (Decoded (sample_poll 30 [])) 4 4 [sample_turn] sample_two = Some (RClaim v, r')) \<and>
   HandleClaimJob (Decoded (sample_poll 0 [''tts''])) 4 4 [sample_turn] sample_two =
     Some (RNoContent, recordWorkerSeen (TrimSpace ''w'') [] ''poll'' [''tts''] [] 4 sample_two)"
proof -
  let ?r = "\<lambda>ty. recordWorkerSeen (TrimSpace ''w'') [] ''poll'' ty [] 4 sample_two"
  have ok: "queue_ok (?r ty)" "subs_ok (?r ty)" for ty
    using sample_two_calm by (auto simp: calm_ok_def jobs_ok_def intro: queue_ok_cong subs_ok_cong)
  have a: "\<exists>i \<in> set (queue (?r [])). claimable [] (TrimSpace ''w'') [] (jobs (?r [])) i"
    by (intro bexI [of _ "''j1''"])
       (simp_all add: sample_two_jobs claimable_def isCompatibleClaim_iff new_job_def sample_request_def)
  have b: "\<not> (\<exists>i \<in> set (queue (?r [''tts''])). claimable [''tts''] (TrimSpace ''w'') [] (jobs (?r [''tts''])) i)"
    by (simp add: sample_two_jobs claimable_def isCompatibleClaim_iff new_job_def sample_request_def)
  from poll_answered_at_once [of "?r []" sample_turn "sample_poll 30 []" 4 sample_two 4 "[]"] ok a
  have "\<exists>v r'. HandleClaimJob (Decoded (sample_poll 30 [])) 4 4 [sample_turn] sample_two = Some (RClaim v, r')"
    by (simp add: sample_turn_def sample_poll_def)
  moreover from poll_answered_at_once [of "?r [''tts'']" sample_turn "sample_poll 0 [''tts'']" 4 sample_two 4 "[]"] ok b
  have "HandleClaimJob (Decoded (sample_poll 0 [''tts''])) 4 4 [sample_turn] sample_two = Some (RNoContent, ?r [''tts''])"
    by (simp add: sample_turn_def sample_poll_def)
  ultimately show ?thesis by blast
qed

text \<open>
  C9: The wait a poll asks for is multiplied by a second in 64 bits.  A poll that asks for at least
  9223372037 seconds (up to twice that) gets a negative wait and is answered \<open>204\<close> at once, where a
  smaller number waits.
\<close>

theorem huge_wait_not_waited:
  assumes "9223372037 \<le> cl_wait body" "cl_wait body \<le> 18446744073"
    and "rq = ct_before t (recordWorkerSeen (TrimSpace (cl_worker body)) (TrimSpace (cl_group body))
      ''poll'' (cl_types body) [] seen r)"
    and "\<forall>i \<in> set (queue rq). \<not> claimable (cl_types body) (TrimSpace (cl_worker body))
      (TrimSpace (cl_group body)) (jobs rq) i"
  shows "HandleClaimJob (Decoded body) start seen (t # ts) r = Some (RNoContent, rq)"
proof -
  have "wrap64 (cl_wait body * Second) \<le> 0"
    using assms(1,2) wrap64_over [of "cl_wait body * Second"] by (simp add: Second_def)
  moreover have "claimNext (cl_types body) (TrimSpace (cl_worker body)) (TrimSpace (cl_group body))
      (ct_claim_at t) rq = Some (None, rq)"
    using assms(4) find_claim_None [of "cl_types body" "TrimSpace (cl_worker body)"
      "TrimSpace (cl_group body)" "jobs rq" "queue rq"] by (simp add: claimNext_def)
  ultimately show ?thesis using assms(3) by (simp add: HandleClaimJob_def Let_def)
qed

lemma huge_wait_not_waited_witness:
  "HandleClaimJob (Decoded (sample_poll 9223372037 [])) 4 4 [sample_turn] sample_reg =
     Some (RNoContent, recordWorkerSeen (TrimSpace ''w'') [] ''poll'' [] [] 4 sample_reg)"
  using huge_wait_not_waited [of "sample_poll 9223372037 []"
      "recordWorkerSeen (TrimSpace ''w'') [] ''poll'' [] [] 4 sample_reg" sample_turn 4 sample_reg 4 "[]"]
  by (simp add: sample_poll_def sample_turn_def sample_reg_def NewJobRegistry_def)

lemma claimNext_notify: "claimNext types w g now r = Some (x, r') \<Longrightarrow> notify r' = notify r"
proof (cases x)
  case (Some i)
  assume "claimNext types w g now r = Some (x, r')"
  with Some claimNext_Some [of types w g now r i r'] show ?thesis by fastforce
qed (auto dest: claimNext_None)

text \<open>
  C10: The wake-up channel holds one token, and a claim does not pass it on.  When two jobs are
  created before the first waiting poll wakes, the poll that takes the token takes one job, and a
  second waiting poll is not woken although the other job is in the queue for it.
\<close>

theorem second_waiter_not_woken:
  assumes "recv_notify (signal (signal r)) = Some ra" "claimNext types w g now ra = Some (Some i, rb)"
    and "j \<in> set (queue ra)" "j \<noteq> i" "claimable types' w' g' (jobs ra) j"
  shows "recv_notify rb = None \<and> j \<in> set (queue rb) \<and> claimable types' w' g' (jobs rb) j"
proof -
  from assms(1) have "\<not> notify ra" by (auto simp: recv_notify_def split: if_splits)
  with claimNext_notify [OF assms(2)] have "recv_notify rb = None" by (simp add: recv_notify_def)
  moreover from claimNext_Some [OF assms(2)] obtain job pre post cs where
    "queue ra = pre @ i # post" "rb = ra\<lparr>queue := pre @ post,
       jobs := (jobs ra)(i \<mapsto> claimed_job w g now job), chans := cs\<rparr>" by blast
  ultimately show ?thesis using assms(3-5) by (auto simp: claimable_def)
qed

lemma second_waiter_not_woken_witness:
  "\<exists>ra rb. recv_notify (signal (signal sample_two)) = Some ra \<and>
     claimNext [] ''w'' ''g'' 5 ra = Some (Some ''j1'', rb) \<and>
     recv_notify rb = None \<and> ''j2'' \<in> set (queue rb)"
proof -
  obtain ra where ra: "recv_notify (signal (signal sample_two)) = Some ra" "jobs ra = jobs sample_two"
    "queue ra = queue sample_two" "subs ra = subs sample_two"
  proof -
    have "notify (signal (signal sample_two))" by (simp add: signal_def)
    then show thesis
      by (intro that [of "(signal (signal sample_two))\<lparr>notify := False\<rparr>"])
         (simp_all add: recv_notify_def signal_def)
  qed
  have fc: "find_claim [] ''w'' ''g'' (jobs ra) (queue ra) = Some (''j1'', [''j2''])"
    by (simp add: ra sample_two_jobs claimable_def isCompatibleClaim_iff new_job_def sample_request_def)
  have "sub_list k ra = []" for k
    using ra(4) by (simp add: sub_list_def sample_two_def sample_reg_def insert_job_def NewJobRegistry_def)
  then obtain x rb where rb: "claimNext [] ''w'' ''g'' 5 ra = Some (x, rb)"
    using fc ra sample_two_jobs
    by (auto simp: claimNext_def Let_def setJobStatusLocked_def update_job_def publishLocked_def sub_list_def)
  moreover from rb fc have "x = Some ''j1''" by (auto simp: claimNext_def Let_def split: option.splits)
  moreover have "claimable [] ''v'' [] (jobs ra) ''j2''"
    by (simp add: ra sample_two_jobs claimable_def isCompatibleClaim_iff new_job_def sample_request_def)
  ultimately show ?thesis
    using second_waiter_not_woken [OF ra(1), of "[]" "''w''" "''g''" 5 "''j1''" rb "''j2''" "[]" "''v''" "[]"]
      ra sample_two_jobs by auto
qed

section \<open>Positions and the snapshot\<close>

lemma get_queued:
  "jobs r i = Some j \<Longrightarrow> j_status j = StatusQueued \<Longrightarrow>
   HandleGetJob i r = RView ((viewLocked j)\<lparr>v_position := queue_position i r\<rparr>)"
  by (simp add: HandleGetJob_def snapshot_def)

text \<open>
  A queued job is told its place in the line.  When another queued job is claimed, the place of
  a job behind it improves by exactly one, that of a job before it does not change.
\<close>

theorem claim_moves_line_up:
  assumes "calm_ok r" "claimNext types w g now r = Some (Some i, r')" "k \<in> set (queue r)" "k \<noteq> i"
  shows "\<exists>v v'. HandleGetJob k r = RView v \<and> HandleGetJob k r' = RView v' \<and>
    v_position v = queue_position k r \<and> 0 < v_position v' \<and>
    v_position v' = (if queue_position i r < queue_position k r then v_position v - 1 else v_position v)"
proof -
  from claimNext_Some [OF assms(2)] obtain job pre post cs where f: "queue r = pre @ i # post"
    "r' = r\<lparr>queue := pre @ post, jobs := (jobs r)(i \<mapsto> claimed_job w g now job), chans := cs\<rparr>" by blast
  from assms(1,3) have "job_status k r = StatusQueued" by (simp add: calm_ok_def)
  then obtain j where j: "jobs r k = Some j" "j_status j = StatusQueued"
    by (cases "jobs r k") auto
  with f(2) assms(4) have j': "jobs r' k = Some j" by simp
  have d: "distinct (queue r)" using assms(1) by (rule calm_distinct)
  have i: "i \<in> set (queue r)" using f(1) by simp
  have eq: "queue_position k r' = queue_position k (removeFromQueue i r)"
    using claim_leaves [OF d assms(2)] by (simp add: queue_position_def)
  have "k \<in> set (queue r')" using f assms(3,4) by auto
  then have "0 < queue_position k r'" by (simp add: queue_position_def)
  with job_line.pos_leave [OF d assms(3) i assms(4)] eq get_queued [OF j] get_queued [OF j' j(2)]
  show ?thesis by simp
qed

lemma claim_moves_line_up_witness:
  "\<exists>r' v'. claimNext [] ''w'' ''g'' 5 sample_two = Some (Some ''j1'', r') \<and>
     HandleGetJob ''j2'' r' = RView v' \<and> v_position v' = 1"
proof -
  have "find_claim [] ''w'' ''g'' (jobs sample_two) (queue sample_two) = Some (''j1'', [''j2''])"
    by (simp add: sample_two_jobs claimable_def isCompatibleClaim_iff new_job_def sample_request_def)
  moreover obtain x r' where c: "claimNext [] ''w'' ''g'' 5 sample_two = Some (x, r')"
    using claimNext_total [of sample_two "[]" "''w''" "''g''" 5] sample_two_calm
    by (auto simp: calm_ok_def jobs_ok_def)
  ultimately have "x = Some ''j1''" by (auto simp: claimNext_def Let_def split: option.splits)
  with c claim_moves_line_up [OF sample_two_calm, of "[]" "''w''" "''g''" 5 "''j1''" r' "''j2''"]
  show ?thesis by (auto simp: sample_two_jobs queue_position_def)
qed

lemma card_filter_dom:
  assumes "range_order ids m" "\<And>i. P i \<Longrightarrow> i \<in> dom m"
  shows "length (filter P ids) = card {i. P i}"
proof -
  have "set (filter P ids) = {i. P i}" using assms by (auto simp: range_order_def)
  with assms(1) show ?thesis by (metis distinct_card distinct_filter range_order_def)
qed

lemma job_status_dom: "job_status i r \<noteq> [] \<Longrightarrow> i \<in> dom (jobs r)"
  by (auto simp: job_status_def split: option.splits)

lemma newest_filter: "length (filter P (newest_first r ids)) = length (filter P ids)"
  by (simp add: newest_first_def filter_sort)

text \<open>
  The dashboard's snapshot counts every job once: its totals are the numbers of all, of queued
  and of ended jobs; it lists at most 12 jobs, as many as there are, and the jobs it lists are at
  least as recently updated as those it leaves out.  Every worker kept is listed.
\<close>

theorem snapshot_counts:
  assumes "StateSnapshot now wkeys ids r = (sv, r')" "range_order ids (jobs r)"
    "range_order wkeys (workers r')"
  shows "TotalJobs (sv_summary sv) = card (dom (jobs r)) \<and>
    QueuedJobs (sv_summary sv) = card {i. job_status i r = StatusQueued} \<and>
    TerminalJobs (sv_summary sv) = card {i. isTerminalStatus (job_status i r)} \<and>
    length (sv_jobs sv) = min 12 (card (dom (jobs r))) \<and>
    (\<forall>i k a b. i < k \<longrightarrow> k < length ids \<longrightarrow> jobs r (newest_first r ids ! i) = Some a \<longrightarrow>
      jobs r (newest_first r ids ! k) = Some b \<longrightarrow> j_updated b \<le> j_updated a) \<and>
    sv_jobs sv = map (\<lambda>i. view_job r' i (the (jobs r i))) (take 12 (newest_first r ids)) \<and>
    length (sv_workers sv) = card (dom (workers r')) \<and> RecentWorkers (sv_summary sv) = card (dom (workers r'))"
proof -
  define r1 where "r1 = pruneWorkersLocked now r"
  define sv0 where "sv0 = \<lparr>sv_summary = start_summary (stats r1), sv_workers = [], sv_jobs = []\<rparr>"
  define sv1 where "sv1 = count_workers now (workers r1) (sort wkeys) sv0"
  have r': "r' = r1" and sv: "sv = count_jobs now r1 (newest_first r1 ids) sv1"
    using assms(1) by (auto simp: StateSnapshot_def Let_def r1_def sv0_def sv1_def)
  have j: "jobs r1 = jobs r" by (simp add: r1_def)
  have st: "job_status i r1 = job_status i r" for i using j by (simp add: job_status_def)
  have nf: "newest_first r1 ids = newest_first r ids" by (simp add: newest_first_def j)
  have sub: "set (newest_first r ids) \<subseteq> dom (jobs r1)" using assms(2) by (simp add: range_order_def j)
  have len: "length ids = card (dom (jobs r))" using assms(2) by (metis distinct_card range_order_def)
  have z: "TotalJobs (sv_summary sv1) = 0" "QueuedJobs (sv_summary sv1) = 0" "TerminalJobs (sv_summary sv1) = 0"
    "sv_jobs sv1 = []" by (simp_all add: sv1_def sv0_def start_summary_def)
  have tot: "TotalJobs (sv_summary sv) = card (dom (jobs r))"
    using count_jobs_totals(1) [OF sub] z(1) len by (simp add: sv nf)
  have qd: "QueuedJobs (sv_summary sv) = card {i. job_status i r = StatusQueued}"
    using count_jobs_totals(2) [OF sub, of now sv1] z(2) card_filter_dom [OF assms(2), of "\<lambda>i. job_status i r = StatusQueued"]
      job_status_dom [of _ r] by (simp add: sv nf st newest_filter)
  have tm: "TerminalJobs (sv_summary sv) = card {i. isTerminalStatus (job_status i r)}"
    using count_jobs_totals(3) [OF sub, of now sv1] z(3)
      card_filter_dom [OF assms(2), of "\<lambda>i. isTerminalStatus (job_status i r)"] job_status_dom [of _ r]
      terminal_not_Nil by (simp add: sv nf st newest_filter)
  have views: "sv_jobs sv = map (\<lambda>i. view_job r' i (the (jobs r i))) (take 12 (newest_first r ids))"
    using count_jobs_take [OF sub, of sv1 now] z(4) by (simp add: sv nf r' j maxStateJobs_def)
  have wk: "length (List.map_filter (workers r1) (sort wkeys)) = card (dom (workers r'))"
  proof -
    have "range_order (sort wkeys) (workers r1)" using assms(3) by (simp add: range_order_def r')
    from length_range_values [OF this] have "length (List.map_filter (workers r1) (sort wkeys)) = length wkeys"
      by (simp add: range_values_def)
    with assms(3) show ?thesis by (metis distinct_card range_order_def)
  qed
  have ws: "sv_workers sv = sv_workers sv1" "RecentWorkers (sv_summary sv) = RecentWorkers (sv_summary sv1)"
    unfolding sv by (rule count_jobs_workers)+
  have "length (sv_workers sv) = card (dom (workers r'))" "RecentWorkers (sv_summary sv) = card (dom (workers r'))"
    using wk by (simp_all add: ws sv1_def count_workers_views count_workers_recent sv0_def start_summary_def)
  moreover have "\<forall>i k a b. i < k \<longrightarrow> k < length ids \<longrightarrow> jobs r (newest_first r ids ! i) = Some a \<longrightarrow>
      jobs r (newest_first r ids ! k) = Some b \<longrightarrow> j_updated b \<le> j_updated a"
    using newest_first_sorted by blast
  moreover have "length (sv_jobs sv) = min 12 (card (dom (jobs r)))" using views len by simp
  ultimately show ?thesis using tot qd tm views by blast
qed

lemma snapshot_counts_witness:
  "\<exists>sv r'. StateSnapshot 5 [] [''j1'', ''j2''] sample_two = (sv, r') \<and> QueuedJobs (sv_summary sv) = 2 \<and>
     length (sv_jobs sv) = 2"
proof -
  obtain sv r' where s: "StateSnapshot 5 [] [''j1'', ''j2''] sample_two = (sv, r')" by fastforce
  then have r': "r' = pruneWorkersLocked 5 sample_two" by (simp add: StateSnapshot_def Let_def)
  have dom: "dom (jobs sample_two) = {''j1'', ''j2''}"
    by (auto simp: sample_two_def sample_reg_def insert_job_def new_job_def NewJobRegistry_def split: if_splits)
  have "range_order [''j1'', ''j2''] (jobs sample_two)" by (simp add: range_order_def dom)
  moreover have "range_order [] (workers r')"
    by (simp add: r' range_order_def pruneWorkersLocked_def sample_two_def sample_reg_def insert_job_def
        NewJobRegistry_def)
  moreover have "{i. job_status i sample_two = StatusQueued} = {''j1'', ''j2''}"
    using dom by (auto simp: sample_two_def sample_reg_def insert_job_def new_job_def NewJobRegistry_def
        job_status_def status_defs split: if_splits)
  ultimately show ?thesis using snapshot_counts [OF s] s dom by simp
qed

end
