(* ===== verification/Tunnel.thy ===== *)
theory Tunnel
  imports Channels Access HttpWriter
begin

text \<open>
  The tunnel of \<^verbatim>\<open>sdk/base/tunnel/registry.go\<close>: relays that connect with a websocket, and HTTP requests
  that are sent through one of them as sessions.  The protocol spoken over the tunnel is an adapter.
\<close>

section \<open>State\<close>

record session_info =
  si_method :: string
  si_start :: time

text \<open>\<open>tr_out\<close> are the messages written to the connection, \<open>tr_open\<close> says that it is open.\<close>

record trelay =
  tr_id :: string
  tr_name :: string
  tr_out :: "string list"
  tr_open :: bool
  tr_pending :: "string \<rightharpoonup> nat"
  tr_inflight :: int
  tr_seen :: time
  tr_sessions :: "string \<rightharpoonup> session_info"
  tr_methods :: "string \<rightharpoonup> int"

record tunnel_config =
  tc_heartbeat :: duration
  tc_dead :: duration
  tc_max :: int

record tunnel =
  tn_heap :: "nat \<rightharpoonup> trelay"
  tn_relays :: "string \<rightharpoonup> nat"
  tn_chans :: "string chans"
  tn_cfg :: tunnel_config

definition NewTunnel :: "tunnel_config \<Rightarrow> tunnel" where
  "NewTunnel cfg =
     (let cfg = (if tc_heartbeat cfg = 0 then cfg\<lparr>tc_heartbeat := 15 * Second\<rparr> else cfg);
          cfg = (if tc_dead cfg = 0 then cfg\<lparr>tc_dead := 45 * Second\<rparr> else cfg)
      in \<lparr>tn_heap = Map.empty, tn_relays = Map.empty, tn_chans = Map.empty, tn_cfg = cfg\<rparr>)"

definition on_relay :: "nat \<Rightarrow> (trelay \<Rightarrow> trelay) \<Rightarrow> tunnel \<Rightarrow> tunnel" where
  "on_relay p f t = (case tn_heap t p of None \<Rightarrow> t | Some r \<Rightarrow> t\<lparr>tn_heap := (tn_heap t)(p \<mapsto> f r)\<rparr>)"

text \<open>A write to the connection; \<open>ok\<close> says whether it succeeded.\<close>

definition conn_write :: "bool \<Rightarrow> string \<Rightarrow> trelay \<Rightarrow> trelay" where
  "conn_write ok b r = (if ok then r\<lparr>tr_out := tr_out r @ [b]\<rparr> else r)"

section \<open>Connecting\<close>

definition relay_has_role :: "string \<Rightarrow> string list \<Rightarrow> bool" where
  "relay_has_role header allowed =
     (if header = [] \<or> length allowed = 0 then False
      else any_item (allowed_set allowed) (split_on (CHR '','') header))"

definition relay_bearer :: "string \<Rightarrow> string \<Rightarrow> bool" where
  "relay_bearer authHeader expected =
     (if expected = [] then False
      else
        let ah = TrimSpace authHeader in
        if ah = [] then False
        else if HasPrefix (ToLower ah) ''bearer '' then TrimSpace (drop 7 ah) = expected
        else False)"

definition new_relay :: "string \<Rightarrow> string \<Rightarrow> time \<Rightarrow> trelay" where
  "new_relay i name now =
     \<lparr>tr_id = i, tr_name = name, tr_out = [], tr_open = True, tr_pending = Map.empty, tr_inflight = 0, tr_seen = now,
      tr_sessions = Map.empty, tr_methods = Map.empty\<rparr>"

text \<open>The critical section; \<open>False\<close> is an id in use.\<close>

definition add_relay :: "nat \<Rightarrow> string \<Rightarrow> string \<Rightarrow> time \<Rightarrow> tunnel \<Rightarrow> bool \<times> tunnel" where
  "add_relay p i name now t =
     (if tn_relays t i \<noteq> None then (False, t)
      else (True, t\<lparr>tn_heap := (tn_heap t)(p \<mapsto> new_relay i name now), tn_relays := (tn_relays t)(i \<mapsto> p)\<rparr>))"

text \<open>\<open>onClose\<close>, which the read loop calls once when it ends.\<close>

definition drop_relay :: "string \<Rightarrow> tunnel \<Rightarrow> tunnel" where
  "drop_relay i t = t\<lparr>tn_relays := (tn_relays t)(i := None)\<rparr>"

record dial =
  dl_draining :: bool
  dl_accept :: bool
  dl_first :: "string option"
  dl_roles :: string
  dl_auth :: string
  dl_uuid :: string
  dl_now :: time

datatype dial_answer = Draining | NotUpgraded | Refused string | Connected string

definition TunnelConnect ::
  "string \<Rightarrow> (string \<Rightarrow> (string \<times> string) option) \<Rightarrow> string list \<Rightarrow> dial \<Rightarrow> nat \<Rightarrow> tunnel \<Rightarrow> dial_answer \<times> tunnel" where
  "TunnelConnect expectKey decode allowedRoles d p t =
     (if dl_draining d then (Draining, t)
      else if \<not> dl_accept d then (NotUpgraded, t)
      else
        case dl_first d of
          None \<Rightarrow> (Refused ''expected register'', t)
        | Some data \<Rightarrow>
            (case decode data of
               None \<Rightarrow> (Refused ''invalid register'', t)
             | Some (i, name) \<Rightarrow>
                 let authorized = (expectKey = [] \<or> relay_has_role (dl_roles d) allowedRoles \<or> relay_bearer (dl_auth d) expectKey)
                 in if \<not> authorized then (Refused ''unauthorized'', t)
                    else
                      let i = (if i = [] then dl_uuid d else i);
                          (new, t) = add_relay p i name (dl_now d) t
                      in if \<not> new then (Refused ''id in use'', t) else (Connected i, t)))"

text \<open>One tick of the heartbeat; \<open>False\<close> ends the loop.  \<open>b\<close> is the encoded ping.\<close>

definition heartbeat_tick :: "string \<Rightarrow> nat \<Rightarrow> time \<Rightarrow> bool \<Rightarrow> tunnel \<Rightarrow> bool \<times> tunnel" where
  "heartbeat_tick b p now ok t =
     (case tn_heap t p of
        None \<Rightarrow> (False, t)
      | Some r \<Rightarrow>
          if time_sub now (tr_seen r) > tc_dead (tn_cfg t)
          then (False, on_relay p (\<lambda>r. r\<lparr>tr_open := False\<rparr>) t)
          else (True, on_relay p (conn_write ok b) t))"

fun heartbeatLoop :: "string \<Rightarrow> nat \<Rightarrow> ((tunnel \<Rightarrow> tunnel) \<times> time \<times> bool) list \<Rightarrow> tunnel \<Rightarrow> bool \<times> tunnel" where
  "heartbeatLoop b p [] t = (True, t)"
| "heartbeatLoop b p ((before, now, ok) # ticks) t =
     (let (alive, t) = heartbeat_tick b p now ok (before t)
      in if alive then heartbeatLoop b p ticks t else (False, t))"

section \<open>Sessions\<close>

definition relay_Register :: "nat \<Rightarrow> string \<Rightarrow> nat \<Rightarrow> tunnel \<Rightarrow> tunnel" where
  "relay_Register p sid h t =
     on_relay p (\<lambda>r. r\<lparr>tr_pending := (tr_pending r)(sid \<mapsto> h)\<rparr>) (t\<lparr>tn_chans := (tn_chans t)(h \<mapsto> new_chan 4)\<rparr>)"

definition Unregister :: "nat \<Rightarrow> string \<Rightarrow> tunnel \<Rightarrow> tunnel" where
  "Unregister p sid t = on_relay p (\<lambda>r. r\<lparr>tr_pending := (tr_pending r)(sid := None)\<rparr>) t"

definition add_method :: "string \<Rightarrow> int \<Rightarrow> (string \<rightharpoonup> int) \<Rightarrow> (string \<rightharpoonup> int)" where
  "add_method label n m = m(label \<mapsto> (case m label of None \<Rightarrow> n | Some k \<Rightarrow> k + n))"

definition at_limit :: "tunnel \<Rightarrow> trelay \<Rightarrow> bool" where
  "at_limit t r \<longleftrightarrow> 0 < tc_max (tn_cfg t) \<and> tc_max (tn_cfg t) \<le> tr_inflight r"

text \<open>The section that admits a call; \<open>None\<close> is the limit exceeded.\<close>

definition begin_call :: "nat \<Rightarrow> string \<Rightarrow> string \<Rightarrow> time \<Rightarrow> tunnel \<Rightarrow> tunnel option" where
  "begin_call p label sid now t =
     (case tn_heap t p of
        None \<Rightarrow> None
      | Some r \<Rightarrow>
          if at_limit t r then None
          else Some (on_relay p (\<lambda>r. r\<lparr>tr_inflight := tr_inflight r + 1, tr_methods := add_method label 1 (tr_methods r),
                       tr_sessions := (tr_sessions r)(sid \<mapsto> \<lparr>si_method = label, si_start = now\<rparr>)\<rparr>) t))"

definition end_call :: "nat \<Rightarrow> string \<Rightarrow> string \<Rightarrow> tunnel \<Rightarrow> tunnel" where
  "end_call p label sid t =
     on_relay p (\<lambda>r. r\<lparr>tr_inflight := tr_inflight r - 1, tr_methods := add_method label (- 1) (tr_methods r),
       tr_sessions := (tr_sessions r)(sid := None)\<rparr>) t"

section \<open>Snapshot\<close>

record client_view =
  cv_id :: string
  cv_name :: string
  cv_status :: string
  cv_inflight :: int
  cv_methods :: "string \<rightharpoonup> int"

record session_view =
  sv_id :: string
  sv_client :: string
  sv_method :: string
  sv_start :: time
  sv_ms :: "64 word"

text \<open>\<open>order\<close> and \<open>sorder i\<close> are the orders in which the maps are visited.\<close>

definition view_relay :: "string \<Rightarrow> trelay \<Rightarrow> client_view" where
  "view_relay i r =
     \<lparr>cv_id = i, cv_name = tr_name r, cv_status = (if 0 < tr_inflight r then ''active'' else ''idle''),
      cv_inflight = tr_inflight r, cv_methods = tr_methods r\<rparr>"

definition view_session :: "string \<Rightarrow> time \<Rightarrow> string \<Rightarrow> session_info \<Rightarrow> session_view" where
  "view_session i now sid s =
     \<lparr>sv_id = sid, sv_client = i, sv_method = si_method s, sv_start = si_start s,
      sv_ms = word_of_int (quo (time_sub now (si_start s)) 1000000)\<rparr>"

definition TunnelSnapshot ::
  "string list \<Rightarrow> (string \<Rightarrow> string list) \<Rightarrow> time \<Rightarrow> tunnel \<Rightarrow> client_view list \<times> session_view list" where
  "TunnelSnapshot order sorder now t =
     (let rs = List.map_filter (\<lambda>i. case tn_relays t i of None \<Rightarrow> None
                 | Some p \<Rightarrow> (case tn_heap t p of None \<Rightarrow> None | Some r \<Rightarrow> Some (i, r))) order
      in (map (\<lambda>(i, r). view_relay i r) rs,
          concat (map (\<lambda>(i, r). List.map_filter (\<lambda>sid. map_option (view_session i now sid) (tr_sessions r sid)) (sorder i)) rs)))"

section \<open>The HTTP side\<close>

text \<open>
  The interface \<^verbatim>\<open>tunnel.Adapter\<close>.  The operations that write take the result of the write.  The waits
  take the message received, or \<open>None\<close> when the context ended first; an error is its code and status.
\<close>

record adapter =
  ad_validate :: "string \<Rightarrow> (any \<times> int \<times> string) + (string \<times> any \<times> string)"
  ad_error :: "any \<Rightarrow> int \<Rightarrow> string \<Rightarrow> string \<Rightarrow> string \<Rightarrow> writer \<Rightarrow> writer"
  ad_empty :: "any \<Rightarrow> writer \<Rightarrow> writer"
  ad_open :: "bool \<Rightarrow> string \<Rightarrow> string \<Rightarrow> string \<Rightarrow> string \<Rightarrow> trelay \<Rightarrow> (string \<times> int) option \<times> trelay"
  ad_send :: "bool \<Rightarrow> string \<Rightarrow> string \<Rightarrow> trelay \<Rightarrow> bool \<times> trelay"
  ad_wait_open :: "string option \<Rightarrow> (string \<times> int) option"
  ad_wait_response :: "int \<Rightarrow> string option \<Rightarrow> (string \<times> int) + string"
  ad_close :: "bool \<Rightarrow> string \<Rightarrow> string \<Rightarrow> trelay \<Rightarrow> trelay"

text \<open>A wait: what happens meanwhile, and whether the context ends it.\<close>

record wait =
  wa_between :: "tunnel \<Rightarrow> tunnel"
  wa_done :: bool

record call =
  cl_draining :: bool
  cl_client :: string
  cl_body :: "string option"
  cl_auth :: string
  cl_req :: string
  cl_sid :: string
  cl_chan :: nat
  cl_now :: time
  cl_before :: "tunnel \<Rightarrow> tunnel"
  cl_registering :: "tunnel \<Rightarrow> tunnel"
  cl_opened :: bool
  cl_open :: wait
  cl_sent :: bool
  cl_resp :: wait
  cl_closed :: bool

definition bearer_token :: "string \<Rightarrow> string" where
  "bearer_token h =
     (if h \<noteq> [] then if HasPrefix (ToLower h) ''bearer '' then TrimSpace (drop 7 h) else [] else [])"

definition wait_message :: "nat \<Rightarrow> wait \<Rightarrow> tunnel \<Rightarrow> (string option \<times> tunnel) outcome" where
  "wait_message h w t =
     (let t = wa_between w t in
      if wa_done w then Done (None, t)
      else bind_outcome (recv_chan (Some h) (tn_chans t)) (\<lambda>(m, cs). Done (m, t\<lparr>tn_chans := cs\<rparr>)))"

definition use_relay :: "nat \<Rightarrow> (trelay \<Rightarrow> 'a \<times> trelay) \<Rightarrow> tunnel \<Rightarrow> ('a \<times> tunnel) outcome" where
  "use_relay p f t =
     (case tn_heap t p of
        None \<Rightarrow> Panics
      | Some r \<Rightarrow> let (x, r) = f r in Done (x, t\<lparr>tn_heap := (tn_heap t)(p \<mapsto> r)\<rparr>))"

definition relay_call :: "adapter \<Rightarrow> int \<Rightarrow> call \<Rightarrow> nat \<Rightarrow> any \<Rightarrow> string \<Rightarrow> string \<Rightarrow> tunnel \<Rightarrow> (writer \<times> tunnel) outcome" where
  "relay_call ad maxResp c p i label payload t =
     (let sid = cl_sid c; req = cl_req c; auth = bearer_token (cl_auth c); w = new_writer in
      bind_outcome (use_relay p (ad_open ad (cl_opened c) sid req label auth) t) (\<lambda>(e, t).
        case e of
          Some (code, st) \<Rightarrow> Done (ad_error ad i st code ''open failed'' req w, t)
        | None \<Rightarrow>
            bind_outcome (wait_message (cl_chan c) (cl_open c) t) (\<lambda>(m, t).
              case ad_wait_open ad m of
                Some (code, st) \<Rightarrow> Done (ad_error ad i st code ''open failed'' req w, t)
              | None \<Rightarrow>
                  bind_outcome (use_relay p (ad_send ad (cl_sent c) sid payload) t) (\<lambda>(sent, t).
                    if \<not> sent then
                      Done (ad_error ad i 503 ''PROVIDER_UNAVAILABLE'' ''relay write failed'' req w,
                            on_relay p (ad_close ad (cl_closed c) sid ''relay_write_failed'') t)
                    else
                      bind_outcome (wait_message (cl_chan c) (cl_resp c) t) (\<lambda>(m, t).
                        case ad_wait_response ad maxResp m of
                          Inl (code, st) \<Rightarrow>
                            Done (ad_error ad i st code ''timeout waiting for response'' req w,
                                  on_relay p (ad_close ad (cl_closed c) sid ''timeout'') t)
                        | Inr body \<Rightarrow>
                            Done (if body = [] then ad_empty ad i w else json_answer 200 body w,
                                  on_relay p (ad_close ad (cl_closed c) sid ''done'') t))))))"

text \<open>The whole handler; the deferred calls run when \<open>relay_call\<close> is done.\<close>

definition TunnelHTTPHandler :: "adapter \<Rightarrow> int \<Rightarrow> call \<Rightarrow> tunnel \<Rightarrow> (writer \<times> tunnel) outcome" where
  "TunnelHTTPHandler ad maxResp c t =
     (let req = cl_req c; w = new_writer in
      if cl_draining c then Done (HttpError ''draining'' 503 w, t)
      else
        case tn_relays t (cl_client c) of
          None \<Rightarrow> Done (ad_error ad ANull 503 ''PROVIDER_UNAVAILABLE'' ''relay offline'' req w, t)
        | Some p \<Rightarrow>
            let t = cl_before c t in
            (case cl_body c of
               None \<Rightarrow> Done (HttpError ''bad request'' 400 w, t)
             | Some body \<Rightarrow>
                 (case ad_validate ad body of
                    Inl (i, st, code) \<Rightarrow> Done (ad_error ad i st code ''invalid request'' req w, t)
                  | Inr (label, i, payload) \<Rightarrow>
                      (case begin_call p label (cl_sid c) (cl_now c) t of
                         None \<Rightarrow> Done (ad_error ad i 429 ''LIMIT_EXCEEDED'' ''too many concurrent calls'' req w, t)
                       | Some t \<Rightarrow>
                           let t = relay_Register p (cl_sid c) (cl_chan c) (cl_registering c t) in
                           bind_outcome (relay_call ad maxResp c p i label payload t)
                             (\<lambda>(w, t). Done (w, end_call p label (cl_sid c) (Unregister p (cl_sid c) t)))))))"

end
