(* ===== verification/TunnelSafety.thy ===== *)
theory TunnelSafety
  imports Tunnel
begin

text \<open>
  The tunnel under any interleaving of connections, sessions and frames: the counts a relay keeps are
  its open sessions, the limit holds, and an id stays with the connection that has it.
\<close>

section \<open>The machine\<close>

text \<open>
  One event per critical section.  \<open>TnOffer\<close> is the send of the read loop to the channel of a session,
  \<open>TnTake\<close> the receive of a waiting handler.  Addresses, channels and session ids are fresh.
\<close>

datatype tunnel_event =
    TnConnect nat string string time
  | TnGone string
  | TnBegin nat string string time
  | TnRegister nat string nat
  | TnOffer nat string
  | TnTake nat
  | TnUnregister nat string
  | TnEnd nat string string

definition session_of :: "nat \<Rightarrow> string \<Rightarrow> tunnel \<Rightarrow> session_info option" where
  "session_of p sid t = (case tn_heap t p of None \<Rightarrow> None | Some r \<Rightarrow> tr_sessions r sid)"

definition pending_of :: "nat \<Rightarrow> string \<Rightarrow> tunnel \<Rightarrow> nat option" where
  "pending_of p sid t = (case tn_heap t p of None \<Rightarrow> None | Some r \<Rightarrow> tr_pending r sid)"

fun tunnel_guard :: "tunnel_event \<Rightarrow> tunnel \<Rightarrow> bool" where
  "tunnel_guard (TnConnect p i name now) t \<longleftrightarrow> tn_heap t p = None"
| "tunnel_guard (TnGone i) t \<longleftrightarrow> tn_relays t i \<noteq> None"
| "tunnel_guard (TnBegin p label sid now) t \<longleftrightarrow> begin_call p label sid now t \<noteq> None \<and> session_of p sid t = None"
| "tunnel_guard (TnRegister p sid h) t \<longleftrightarrow>
     session_of p sid t \<noteq> None \<and> pending_of p sid t = None \<and> tn_chans t h = None"
| "tunnel_guard (TnOffer h d) t \<longleftrightarrow> tn_chans t h \<noteq> None"
| "tunnel_guard (TnTake h) t \<longleftrightarrow> tn_chans t h \<noteq> None"
| "tunnel_guard (TnUnregister p sid) t \<longleftrightarrow> pending_of p sid t \<noteq> None"
| "tunnel_guard (TnEnd p label sid) t \<longleftrightarrow>
     (\<exists>now. session_of p sid t = Some \<lparr>si_method = label, si_start = now\<rparr>) \<and> pending_of p sid t = None"

fun tunnel_step :: "tunnel_event \<Rightarrow> tunnel \<Rightarrow> tunnel" where
  "tunnel_step (TnConnect p i name now) t = snd (add_relay p i name now t)"
| "tunnel_step (TnGone i) t = drop_relay i t"
| "tunnel_step (TnBegin p label sid now) t = (case begin_call p label sid now t of None \<Rightarrow> t | Some t \<Rightarrow> t)"
| "tunnel_step (TnRegister p sid h) t = relay_Register p sid h t"
| "tunnel_step (TnOffer h d) t =
     (case offer_chan (Some h) d (tn_chans t) of Done (_, cs) \<Rightarrow> t\<lparr>tn_chans := cs\<rparr> | _ \<Rightarrow> t)"
| "tunnel_step (TnTake h) t =
     (case recv_chan (Some h) (tn_chans t) of Done (_, cs) \<Rightarrow> t\<lparr>tn_chans := cs\<rparr> | _ \<Rightarrow> t)"
| "tunnel_step (TnUnregister p sid) t = Unregister p sid t"
| "tunnel_step (TnEnd p label sid) t = end_call p label sid t"

section \<open>The invariant\<close>

definition calls_of :: "string \<Rightarrow> (string \<rightharpoonup> session_info) \<Rightarrow> string set" where
  "calls_of label ss = {sid. \<exists>s. ss sid = Some s \<and> si_method s = label}"

definition relay_ok :: "int \<Rightarrow> trelay \<Rightarrow> bool" where
  "relay_ok limit r \<longleftrightarrow>
     finite (dom (tr_sessions r)) \<and> tr_inflight r = int (card (dom (tr_sessions r))) \<and>
     (\<forall>label. (case tr_methods r label of None \<Rightarrow> 0 | Some n \<Rightarrow> n) = int (card (calls_of label (tr_sessions r)))) \<and>
     dom (tr_pending r) \<subseteq> dom (tr_sessions r) \<and> (0 < limit \<longrightarrow> tr_inflight r \<le> limit)"

definition tunnel_ok :: "tunnel \<Rightarrow> bool" where
  "tunnel_ok t \<longleftrightarrow>
     (\<forall>p r. tn_heap t p = Some r \<longrightarrow> relay_ok (tc_max (tn_cfg t)) r) \<and>
     (\<forall>i p. tn_relays t i = Some p \<longrightarrow> (\<exists>r. tn_heap t p = Some r \<and> tr_id r = i))"

lemma on_relay_frame [simp]:
  "tn_relays (on_relay p f t) = tn_relays t" "tn_cfg (on_relay p f t) = tn_cfg t" "tn_chans (on_relay p f t) = tn_chans t"
  "tn_heap (on_relay p f t) q = (if q = p then map_option f (tn_heap t p) else tn_heap t q)"
  by (simp_all add: on_relay_def split: option.split)

lemma tunnel_ok_on_relay:
  assumes "tunnel_ok t" "\<And>r. tn_heap t p = Some r \<Longrightarrow> relay_ok (tc_max (tn_cfg t)) (f r) \<and> tr_id (f r) = tr_id r"
  shows "tunnel_ok (on_relay p f t)"
proof -
  have "\<exists>r. tn_heap (on_relay p f t) q = Some r \<and> tr_id r = i" if "tn_relays t i = Some q" for i q
  proof -
    from assms(1) that obtain r where "tn_heap t q = Some r" "tr_id r = i" unfolding tunnel_ok_def by blast
    then show ?thesis using assms(2) by auto
  qed
  with assms show ?thesis unfolding tunnel_ok_def by (auto split: if_splits)
qed

lemma finite_calls: "finite (dom ss) \<Longrightarrow> finite (calls_of label ss)"
  by (rule finite_subset [of _ "dom ss"]) (auto simp: calls_of_def)

lemma calls_begin:
  "ss sid = None \<Longrightarrow> calls_of l (ss(sid \<mapsto> \<lparr>si_method = label, si_start = now\<rparr>)) =
     (if l = label then insert sid (calls_of l ss) else calls_of l ss)"
  by (auto simp: calls_of_def)

lemma calls_end:
  "ss sid = Some \<lparr>si_method = label, si_start = now\<rparr> \<Longrightarrow>
   calls_of l (ss(sid := None)) = (if l = label then calls_of l ss - {sid} else calls_of l ss)"
  by (auto simp: calls_of_def)

lemma begin_relay_ok:
  assumes "relay_ok limit r" "tr_sessions r sid = None" "\<not> (0 < limit \<and> limit \<le> tr_inflight r)"
  shows "relay_ok limit (r\<lparr>tr_inflight := tr_inflight r + 1, tr_methods := add_method label 1 (tr_methods r),
    tr_sessions := (tr_sessions r)(sid \<mapsto> \<lparr>si_method = label, si_start = now\<rparr>)\<rparr>)"
proof -
  have f: "finite (calls_of l (tr_sessions r))" for l using assms(1) by (simp add: relay_ok_def finite_calls)
  have n: "sid \<notin> calls_of l (tr_sessions r)" "sid \<notin> dom (tr_sessions r)" for l using assms(2) by (auto simp: calls_of_def)
  have "(case add_method label 1 (tr_methods r) l of None \<Rightarrow> 0 | Some n \<Rightarrow> n) =
      int (card (calls_of l ((tr_sessions r)(sid \<mapsto> \<lparr>si_method = label, si_start = now\<rparr>))))" for l
  proof -
    have "(case tr_methods r l of None \<Rightarrow> 0 | Some n \<Rightarrow> n) = int (card (calls_of l (tr_sessions r)))"
      using assms(1) by (simp add: relay_ok_def)
    then show ?thesis using f n by (auto simp: calls_begin [where ss = "tr_sessions r", OF assms(2)] add_method_def split: option.splits)
  qed
  with assms n show ?thesis by (auto simp: relay_ok_def)
qed

lemma register_relay_ok:
  "relay_ok limit r \<Longrightarrow> tr_sessions r sid = Some s \<Longrightarrow> relay_ok limit (r\<lparr>tr_pending := (tr_pending r)(sid \<mapsto> h)\<rparr>)"
  by (auto simp: relay_ok_def)

lemma end_relay_ok:
  assumes "relay_ok limit r" "tr_sessions r sid = Some \<lparr>si_method = label, si_start = now\<rparr>" "tr_pending r sid = None"
  shows "relay_ok limit (r\<lparr>tr_inflight := tr_inflight r - 1, tr_methods := add_method label (- 1) (tr_methods r),
    tr_sessions := (tr_sessions r)(sid := None)\<rparr>)"
proof -
  have fd: "finite (dom (tr_sessions r))" using assms(1) by (simp add: relay_ok_def)
  have f: "finite (calls_of l (tr_sessions r))" for l using fd by (rule finite_calls)
  have n: "sid \<in> calls_of label (tr_sessions r)" "sid \<in> dom (tr_sessions r)" using assms(2) by (auto simp: calls_of_def)
  have pos: "0 < card (calls_of label (tr_sessions r))" "0 < card (dom (tr_sessions r))"
    using f fd n by (auto simp: card_gt_0_iff)
  have "(case add_method label (- 1) (tr_methods r) l of None \<Rightarrow> 0 | Some n \<Rightarrow> n) =
      int (card (calls_of l ((tr_sessions r)(sid := None))))" for l
  proof -
    have "(case tr_methods r l of None \<Rightarrow> 0 | Some n \<Rightarrow> n) = int (card (calls_of l (tr_sessions r)))"
      using assms(1) by (simp add: relay_ok_def)
    then show ?thesis using n pos
      by (auto simp: calls_end [where ss = "tr_sessions r", OF assms(2)] add_method_def card_Diff_singleton of_nat_diff split: option.splits)
  qed
  moreover have "dom (tr_pending r) \<subseteq> dom ((tr_sessions r)(sid := None))"
    using assms(1,3) by (auto simp: relay_ok_def)
  moreover have "tr_inflight r - 1 = int (card (dom (tr_sessions r) - {sid}))"
    using assms(1) n pos by (simp add: relay_ok_def card_Diff_singleton of_nat_diff)
  moreover have "0 < limit \<longrightarrow> tr_inflight r - 1 \<le> limit" using assms(1) by (auto simp: relay_ok_def)
  ultimately show ?thesis using assms(1) fd by (simp add: relay_ok_def)
qed

lemma unregister_relay_ok: "relay_ok limit r \<Longrightarrow> relay_ok limit (r\<lparr>tr_pending := (tr_pending r)(sid := None)\<rparr>)"
  by (auto simp: relay_ok_def)

lemma tunnel_step_ok:
  assumes "tunnel_ok t" "tunnel_guard e t"
  shows "tunnel_ok (tunnel_step e t)"
proof (cases e)
  case (TnConnect p i name now)
  with assms show ?thesis
    by (fastforce simp: tunnel_ok_def add_relay_def new_relay_def relay_ok_def calls_of_def)
next
  case (TnGone i)
  with assms show ?thesis by (auto simp: tunnel_ok_def drop_relay_def)
next
  case (TnBegin p label sid now)
  with assms(2) obtain r where r: "tn_heap t p = Some r" "\<not> at_limit t r" "tr_sessions r sid = None"
    by (auto simp: begin_call_def session_of_def split: option.splits if_splits)
  with assms(1) have ok: "relay_ok (tc_max (tn_cfg t)) r" by (simp add: tunnel_ok_def)
  have "tunnel_ok (on_relay p (\<lambda>r. r\<lparr>tr_inflight := tr_inflight r + 1, tr_methods := add_method label 1 (tr_methods r),
      tr_sessions := (tr_sessions r)(sid \<mapsto> \<lparr>si_method = label, si_start = now\<rparr>)\<rparr>) t)"
    by (rule tunnel_ok_on_relay [OF assms(1)]) (use r begin_relay_ok [OF ok r(3)] in \<open>auto simp: at_limit_def\<close>)
  with r TnBegin show ?thesis by (simp add: begin_call_def)
next
  case (TnRegister p sid h)
  have t: "tunnel_ok (t\<lparr>tn_chans := cs\<rparr>)" for cs using assms(1) by (simp add: tunnel_ok_def)
  have "tunnel_ok (relay_Register p sid h t)" unfolding relay_Register_def
    by (rule tunnel_ok_on_relay [OF t])
       (use assms TnRegister in \<open>auto simp: tunnel_ok_def session_of_def intro: register_relay_ok\<close>)
  with TnRegister show ?thesis by simp
next
  case (TnOffer h d)
  with assms(1) show ?thesis by (simp add: tunnel_ok_def split: outcome.split prod.split)
next
  case (TnTake h)
  with assms(1) show ?thesis by (simp add: tunnel_ok_def split: outcome.split prod.split)
next
  case (TnUnregister p sid)
  have "tunnel_ok (Unregister p sid t)" unfolding Unregister_def
    by (rule tunnel_ok_on_relay [OF assms(1)]) (use assms(1) in \<open>auto simp: tunnel_ok_def intro: unregister_relay_ok\<close>)
  with TnUnregister show ?thesis by simp
next
  case (TnEnd p label sid)
  have "tunnel_ok (end_call p label sid t)" unfolding end_call_def
  proof (rule tunnel_ok_on_relay [OF assms(1)])
    fix r
    assume r: "tn_heap t p = Some r"
    with assms(2) TnEnd obtain now where "tr_sessions r sid = Some \<lparr>si_method = label, si_start = now\<rparr>" "tr_pending r sid = None"
      by (auto simp: session_of_def pending_of_def)
    from end_relay_ok [OF _ this] assms(1) r
    show "relay_ok (tc_max (tn_cfg t)) (r\<lparr>tr_inflight := tr_inflight r - 1, tr_methods := add_method label (- 1) (tr_methods r),
        tr_sessions := (tr_sessions r)(sid := None)\<rparr>) \<and>
      tr_id (r\<lparr>tr_inflight := tr_inflight r - 1, tr_methods := add_method label (- 1) (tr_methods r),
        tr_sessions := (tr_sessions r)(sid := None)\<rparr>) = tr_id r"
      by (simp add: tunnel_ok_def)
  qed
  with TnEnd show ?thesis by simp
qed

interpretation tunnel_runs: guarded_machine "\<lambda>t. \<exists>cfg. t = NewTunnel cfg" tunnel_guard tunnel_step tunnel_ok
  by unfold_locales (auto simp: NewTunnel_def Let_def tunnel_step_ok, auto simp: tunnel_ok_def)

lemma step_keeps_relay:
  "tn_relays t i = Some p \<Longrightarrow> e \<noteq> TnGone i \<Longrightarrow> tn_relays (tunnel_step e t) i = Some p"
  by (cases e) (auto simp: add_relay_def drop_relay_def begin_call_def relay_Register_def Unregister_def end_call_def
      split: option.splits outcome.splits)

lemma run_keeps_relay:
  "run tunnel_guard tunnel_step es t = Some t' \<Longrightarrow> tn_relays t i = Some p \<Longrightarrow> TnGone i \<notin> set es \<Longrightarrow>
   tn_relays t' i = Some p"
proof (induction es arbitrary: t)
  case (Cons e es)
  from Cons.prems(3) have e: "e \<noteq> TnGone i" "TnGone i \<notin> set es" by auto
  from Cons.prems(1) have r: "run tunnel_guard tunnel_step es (tunnel_step e t) = Some t'"
    by (simp del: tunnel_step.simps tunnel_guard.simps split: if_splits)
  from Cons.IH [OF r step_keeps_relay [OF Cons.prems(2) e(1)] e(2)] show ?case .
qed simp

lemma step_limit: "tn_cfg (tunnel_step e t) = tn_cfg t"
  by (cases e) (auto simp: add_relay_def drop_relay_def begin_call_def relay_Register_def Unregister_def end_call_def
      split: option.splits outcome.splits)

lemma run_limit: "run tunnel_guard tunnel_step es t = Some t' \<Longrightarrow> tn_cfg t' = tn_cfg t"
  by (induction es arbitrary: t) (auto simp: step_limit simp del: tunnel_step.simps tunnel_guard.simps split: if_splits)

lemma distinct_map_filter_fst:
  "distinct xs \<Longrightarrow> (\<And>i y. f i = Some y \<Longrightarrow> fst y = i) \<Longrightarrow> distinct (map fst (List.map_filter f xs))"
proof (induction xs)
  case (Cons x xs)
  have "x \<notin> fst ` set (List.map_filter f xs)"
    using Cons.prems by (fastforce simp: set_map_filter_iff)
  with Cons show ?case by (simp add: map_filter_Cons_cases split: option.split)
qed (simp add: List.map_filter_def)

lemma sessions_listed:
  assumes "range_order sids ss"
  shows "length (List.map_filter (\<lambda>sid. map_option (view_session i now sid) (ss sid)) sids) = card (dom ss)"
proof -
  have all: "\<forall>sid \<in> set sids. ss sid \<noteq> None" and d: "distinct sids" "set sids = dom ss"
    using assms by (auto simp: range_order_def)
  from all have "length (List.map_filter (\<lambda>sid. map_option (view_session i now sid) (ss sid)) sids) = length sids"
    by (induction sids) (auto simp: List.map_filter_def)
  with d show ?thesis by (metis distinct_card)
qed

lemma views_of_client:
  "x \<in> set (List.map_filter (\<lambda>sid. map_option (view_session i now sid) (ss sid)) sids) \<Longrightarrow> sv_client x = i"
  by (auto simp: set_map_filter_iff view_session_def)

lemma filter_client_views:
  "filter (\<lambda>x. sv_client x = i) (List.map_filter (\<lambda>sid. map_option (view_session j now sid) (ss sid)) sids) =
     (if i = j then List.map_filter (\<lambda>sid. map_option (view_session j now sid) (ss sid)) sids else [])"
  by (cases "i = j") (auto simp: filter_empty_conv filter_id_conv dest: views_of_client)

lemma views_filter:
  "distinct (map fst rs) \<Longrightarrow> (i, r) \<in> set rs \<Longrightarrow>
   filter (\<lambda>x. sv_client x = i) (concat (map (\<lambda>(i, r). List.map_filter
      (\<lambda>sid. map_option (view_session i now sid) (tr_sessions r sid)) (sorder i)) rs)) =
   List.map_filter (\<lambda>sid. map_option (view_session i now sid) (tr_sessions r sid)) (sorder i)"
proof (induction rs)
  case (Cons x rs)
  obtain j q where x: "x = (j, q)" by (cases x)
  show ?case
  proof (cases "j = i")
    case True
    with Cons.prems x have "q = r" by (auto simp: image_iff)
    moreover have "filter (\<lambda>x. sv_client x = i) (concat (map (\<lambda>(i, r). List.map_filter
        (\<lambda>sid. map_option (view_session i now sid) (tr_sessions r sid)) (sorder i)) rs)) = []"
    proof -
      have "j \<notin> fst ` set rs" using Cons.prems(1) x by simp
      with True have "fst y \<noteq> i" if "y \<in> set rs" for y using that by auto
      then show ?thesis unfolding filter_empty_conv by (fastforce dest: views_of_client)
    qed
    ultimately show ?thesis using x True by (simp add: filter_client_views)
  next
    case False
    with Cons show ?thesis using x by (auto simp: filter_client_views)
  qed
qed simp

section \<open>Properties\<close>

text \<open>
  C21: whatever relays connect and leave and calls begin, wait and end, the state page shows for every
  relay exactly as many calls in flight as it lists sessions of it, never more than the limit, and the
  count of each method is the number of its open sessions.
\<close>

theorem tunnel_accounting:
  assumes "run tunnel_guard tunnel_step es (NewTunnel cfg) = Some t"
    and "range_order order (tn_relays t)"
    and "\<And>i p r. tn_relays t i = Some p \<Longrightarrow> tn_heap t p = Some r \<Longrightarrow> range_order (sorder i) (tr_sessions r)"
    and "c \<in> set (fst (TunnelSnapshot order sorder now t))"
  shows "cv_inflight c = int (length (filter (\<lambda>s. sv_client s = cv_id c) (snd (TunnelSnapshot order sorder now t)))) \<and>
    (0 < tc_max cfg \<longrightarrow> cv_inflight c \<le> tc_max cfg) \<and>
    (\<exists>p r. tn_relays t (cv_id c) = Some p \<and> tn_heap t p = Some r \<and>
      (\<forall>m n. cv_methods c m = Some n \<longrightarrow> n = int (card (calls_of m (tr_sessions r)))))"
proof -
  define rs where "rs = List.map_filter (\<lambda>i. case tn_relays t i of None \<Rightarrow> None
     | Some p \<Rightarrow> (case tn_heap t p of None \<Rightarrow> None | Some r \<Rightarrow> Some (i, r))) order"
  have in_rs: "(i, r) \<in> set rs \<longleftrightarrow> i \<in> set order \<and> (\<exists>p. tn_relays t i = Some p \<and> tn_heap t p = Some r)" for i r
    by (auto simp: rs_def set_map_filter_iff split: option.splits)
  have d: "distinct (map fst rs)" unfolding rs_def
    by (rule distinct_map_filter_fst) (use assms(2) in \<open>auto simp: range_order_def split: option.splits\<close>)
  from assms(4) obtain i r where c: "(i, r) \<in> set rs" "c = view_relay i r"
    by (auto simp: TunnelSnapshot_def Let_def rs_def [symmetric])
  then obtain p where p: "tn_relays t i = Some p" "tn_heap t p = Some r" using in_rs by auto
  have "tunnel_ok t" by (rule tunnel_runs.reach_inv [OF _ assms(1)]) blast
  with p have ok: "relay_ok (tc_max (tn_cfg t)) r" by (auto simp: tunnel_ok_def)
  have lim: "tc_max (tn_cfg t) = tc_max cfg" using run_limit [OF assms(1)] by (simp add: NewTunnel_def Let_def)
  have "filter (\<lambda>s. sv_client s = i) (snd (TunnelSnapshot order sorder now t)) =
      List.map_filter (\<lambda>sid. map_option (view_session i now sid) (tr_sessions r sid)) (sorder i)"
    using views_filter [OF d c(1)] by (simp add: TunnelSnapshot_def Let_def rs_def [symmetric])
  with sessions_listed [OF assms(3) [OF p]] ok lim c(2) p show ?thesis
    by (auto simp: view_relay_def relay_ok_def split: option.splits)
qed

definition tunnel_example :: tunnel where
  "tunnel_example =
     \<lparr>tn_heap = [0 \<mapsto> \<lparr>tr_id = ''a'', tr_name = ''n'', tr_out = [], tr_open = True, tr_pending = [''s'' \<mapsto> 1], tr_inflight = 1,
        tr_seen = 0, tr_sessions = [''s'' \<mapsto> \<lparr>si_method = ''m'', si_start = 0\<rparr>], tr_methods = [''m'' \<mapsto> 1]\<rparr>],
      tn_relays = [''a'' \<mapsto> 0], tn_chans = [1 \<mapsto> new_chan 4],
      tn_cfg = \<lparr>tc_heartbeat = 15 * Second, tc_dead = 45 * Second, tc_max = 2\<rparr>\<rparr>"

lemma tunnel_example_run:
  "run tunnel_guard tunnel_step [TnConnect 0 ''a'' ''n'' 0, TnBegin 0 ''m'' ''s'' 0, TnRegister 0 ''s'' 1]
     (NewTunnel \<lparr>tc_heartbeat = 0, tc_dead = 0, tc_max = 2\<rparr>) = Some tunnel_example"
  by (simp add: NewTunnel_def add_relay_def new_relay_def begin_call_def at_limit_def on_relay_def session_of_def
      pending_of_def relay_Register_def add_method_def tunnel_example_def Let_def)

theorem tunnel_accounting_witness:
  "\<exists>c. c \<in> set (fst (TunnelSnapshot [''a''] (\<lambda>_. [''s'']) 5 tunnel_example)) \<and> cv_inflight c = 1 \<and>
     1 = int (length (filter (\<lambda>s. sv_client s = ''a'') (snd (TunnelSnapshot [''a''] (\<lambda>_. [''s'']) 5 tunnel_example))))"
proof -
  let ?c = "view_relay ''a'' (the (tn_heap tunnel_example 0))"
  have c: "?c \<in> set (fst (TunnelSnapshot [''a''] (\<lambda>_. [''s'']) 5 tunnel_example))"
    by (simp add: TunnelSnapshot_def tunnel_example_def List.map_filter_def)
  have v: "cv_inflight ?c = 1" "cv_id ?c = ''a''" by (simp_all add: view_relay_def tunnel_example_def)
  have "range_order [''a''] (tn_relays tunnel_example)" by (simp add: range_order_def tunnel_example_def)
  moreover have "range_order [''s''] (tr_sessions r)" if "tn_relays tunnel_example i = Some p" "tn_heap tunnel_example p = Some r" for i p r
    using that by (auto simp: range_order_def tunnel_example_def split: if_splits)
  ultimately show ?thesis using tunnel_accounting [OF tunnel_example_run _ _ c] c v by auto
qed

text \<open>
  An id stays with the connection that has it until that connection ends: whatever else happens,
  a second connection under the same id is refused and a call for the id reaches the first.
\<close>

theorem tunnel_id_exclusive:
  assumes "run tunnel_guard tunnel_step es t = Some t'" "tn_relays t i = Some p" "TnGone i \<notin> set es"
  shows "tn_relays t' i = Some p \<and>
    (\<forall>d name q. dl_first d \<noteq> None \<and> decode (the (dl_first d)) = Some (i, name) \<and> i \<noteq> [] \<longrightarrow>
       (\<forall>j. fst (TunnelConnect key decode roles d q t') \<noteq> Connected j) \<and> snd (TunnelConnect key decode roles d q t') = t')"
proof -
  have k: "tn_relays t' i = Some p" by (rule run_keeps_relay [OF assms])
  moreover have "(\<forall>j. fst (TunnelConnect key decode roles d q t') \<noteq> Connected j) \<and>
      snd (TunnelConnect key decode roles d q t') = t'"
    if "dl_first d \<noteq> None" "decode (the (dl_first d)) = Some (i, name)" "i \<noteq> []" for d name q
    using that k by (auto simp: TunnelConnect_def add_relay_def Let_def split: option.splits)
  ultimately show ?thesis by blast
qed

theorem tunnel_id_exclusive_witness:
  "tn_relays (tunnel_step (TnBegin 0 ''m'' ''s2'' 0) tunnel_example) ''a'' = Some 0"
proof -
  have "run tunnel_guard tunnel_step [TnBegin 0 ''m'' ''s2'' 0] tunnel_example =
      Some (tunnel_step (TnBegin 0 ''m'' ''s2'' 0) tunnel_example)"
    by (simp add: begin_call_def at_limit_def session_of_def tunnel_example_def)
  from tunnel_id_exclusive [OF this, where decode = "\<lambda>_. None" and key = "[]" and roles = "[]"]
  show ?thesis by (simp add: tunnel_example_def)
qed

end
