(* ===== verification/McpServer.thy ===== *)
theory McpServer
  imports TunnelSafety
begin

text \<open>
  MCP over the tunnel, the server's side: the read loop of a relay and the adapter of
  \<^verbatim>\<open>modules/mcp/ext/adapters/mcp_tunnel.go\<close>, with \<^verbatim>\<open>modules/mcp/common\<close>.
\<close>

section \<open>Frames\<close>

record mcp_frame =
  fr_t :: string
  fr_sid :: string
  fr_req :: string
  fr_hint :: string
  fr_payload :: string
  fr_code :: string
  fr_msg :: string
  fr_auth :: string

definition new_frame :: "string \<Rightarrow> string \<Rightarrow> mcp_frame" where
  "new_frame t sid =
     \<lparr>fr_t = t, fr_sid = sid, fr_req = [], fr_hint = [], fr_payload = [], fr_code = [], fr_msg = [], fr_auth = []\<rparr>"

text \<open>
  \<^verbatim>\<open>encoding/json\<close> is a parameter: the decoding of a frame and its encoding, which fails when the
  payload, a \<^verbatim>\<open>json.RawMessage\<close>, is not JSON; the compaction of a raw value; the register frame (its
  id, name and key); the JSON-RPC envelope (version, id, method); and the encoding of a value.
\<close>

record codec =
  co_frame :: "string \<Rightarrow> mcp_frame option"
  co_encode :: "mcp_frame \<Rightarrow> string option"
  co_compact :: "string \<Rightarrow> string option"
  co_register :: "string \<Rightarrow> (string \<times> string \<times> string) option"
  co_envelope :: "string \<Rightarrow> (string \<times> any \<times> string) option"
  co_json :: "any \<Rightarrow> string"

text \<open>The bytes of a frame where the error of the encoder is dropped.\<close>

definition marshalled :: "codec \<Rightarrow> mcp_frame \<Rightarrow> string" where
  "marshalled co f = (case co_encode co f of None \<Rightarrow> [] | Some b \<Rightarrow> b)"

definition MCPRegisterDecoder :: "codec \<Rightarrow> string \<Rightarrow> (string \<times> string) option" where
  "MCPRegisterDecoder co first = (case co_register co first of None \<Rightarrow> None | Some (i, name, key) \<Rightarrow> Some (i, name))"

section \<open>The read loop\<close>

record relay_read =
  rd_before :: "tunnel \<Rightarrow> tunnel"
  rd_data :: "string option"
  rd_now :: time
  rd_between :: "tunnel \<Rightarrow> tunnel"

text \<open>
  Routing one message: \<^verbatim>\<open>LastSeen\<close>, the lookup of the session's channel, and a send that does not
  wait; \<open>between\<close> comes between lookup and send.
\<close>

definition route_frame :: "codec \<Rightarrow> nat \<Rightarrow> string \<Rightarrow> time \<Rightarrow> (tunnel \<Rightarrow> tunnel) \<Rightarrow> tunnel \<Rightarrow> tunnel outcome" where
  "route_frame co p data now between t =
     (let t = on_relay p (\<lambda>r. r\<lparr>tr_seen := now\<rparr>) t in
      case co_frame co data of
        None \<Rightarrow> Done t
      | Some f \<Rightarrow>
          if fr_t f = ''pong'' then Done t
          else if fr_sid f \<noteq> [] then
            (case pending_of p (fr_sid f) t of
               None \<Rightarrow> Done (between t)
             | Some h \<Rightarrow>
                 let t = between t in
                 bind_outcome (offer_chan (Some h) data (tn_chans t)) (\<lambda>(_, cs). Done (t\<lparr>tn_chans := cs\<rparr>)))
          else Done t)"

fun read_loop :: "codec \<Rightarrow> nat \<Rightarrow> string \<Rightarrow> relay_read list \<Rightarrow> tunnel \<Rightarrow> (bool \<times> tunnel) outcome" where
  "read_loop co p i [] t = Done (True, t)"
| "read_loop co p i (r # rs) t =
     (let t = rd_before r t in
      case rd_data r of
        None \<Rightarrow> Done (False, drop_relay i t)
      | Some data \<Rightarrow> bind_outcome (route_frame co p data (rd_now r) (rd_between r) t) (read_loop co p i rs))"

text \<open>\<open>ok\<close> is the result of writing the acknowledgement.\<close>

definition MCPReadLoop :: "codec \<Rightarrow> nat \<Rightarrow> bool \<Rightarrow> relay_read list \<Rightarrow> tunnel \<Rightarrow> (bool \<times> tunnel) outcome" where
  "MCPReadLoop co p ok rs t =
     (case tn_heap t p of
        None \<Rightarrow> Panics
      | Some r \<Rightarrow>
          read_loop co p (tr_id r) rs (on_relay p (conn_write ok (co_json co (AObj [(''id'', AStr (tr_id r))]))) t))"

section \<open>The adapter\<close>

definition ErrUnauthorized :: string where "ErrUnauthorized = ''MCP_UNAUTHORIZED''"
definition ErrProviderUnavailable :: string where "ErrProviderUnavailable = ''MCP_PROVIDER_UNAVAILABLE''"
definition ErrTimeout :: string where "ErrTimeout = ''MCP_TIMEOUT''"
definition ErrLimitExceeded :: string where "ErrLimitExceeded = ''MCP_LIMIT_EXCEEDED''"
definition ErrUpstreamError :: string where "ErrUpstreamError = ''MCP_UPSTREAM_ERROR''"
definition ErrSchema :: string where "ErrSchema = ''MCP_SCHEMA_ERROR''"

definition ValidateEnvelope :: "codec \<Rightarrow> string \<Rightarrow> (any \<times> string) option" where
  "ValidateEnvelope co body =
     (case co_envelope co body of
        None \<Rightarrow> None
      | Some (ver, i, method) \<Rightarrow> if ver \<noteq> ''2.0'' \<or> i = ANull \<or> method = [] then None else Some (i, method))"

definition mcp_validate :: "codec \<Rightarrow> string \<Rightarrow> (any \<times> int \<times> string) + (string \<times> any \<times> string)" where
  "mcp_validate co body =
     (case ValidateEnvelope co body of
        None \<Rightarrow> Inl (ANull, 200, ErrSchema)
      | Some (i, method) \<Rightarrow> Inr (method, i, body))"

definition mcp_error :: "codec \<Rightarrow> any \<Rightarrow> int \<Rightarrow> string \<Rightarrow> string \<Rightarrow> string \<Rightarrow> writer \<Rightarrow> writer" where
  "mcp_error co i st code msg req w =
     json_answer (if st = 0 then 502 else st)
       (co_json co (AObj [(''error'', AObj [(''code'', ANum (- 32000)), (''data'', AObj [(''mcp'', AStr code), (''req_id'', AStr req)]),
                                            (''message'', AStr msg)]),
                          (''id'', i), (''jsonrpc'', AStr ''2.0'')])) w"

definition mcp_empty :: "codec \<Rightarrow> any \<Rightarrow> writer \<Rightarrow> writer" where
  "mcp_empty co i w = json_answer 200 (co_json co (AObj [(''id'', i), (''jsonrpc'', AStr ''2.0''), (''result'', AObj [])])) w"

definition mcp_open :: "codec \<Rightarrow> bool \<Rightarrow> string \<Rightarrow> string \<Rightarrow> string \<Rightarrow> string \<Rightarrow> trelay \<Rightarrow> (string \<times> int) option \<times> trelay" where
  "mcp_open co ok sid req label auth r =
     (let f = (new_frame ''open'' sid)\<lparr>fr_req := req, fr_hint := label, fr_auth := auth\<rparr> in
      (if ok then None else Some (ErrProviderUnavailable, 503), conn_write ok (marshalled co f) r))"

definition mcp_send :: "codec \<Rightarrow> bool \<Rightarrow> string \<Rightarrow> string \<Rightarrow> trelay \<Rightarrow> bool \<times> trelay" where
  "mcp_send co ok sid payload r = (ok, conn_write ok (marshalled co ((new_frame ''rpc'' sid)\<lparr>fr_payload := payload\<rparr>)) r)"

definition mcp_wait_open :: "codec \<Rightarrow> string option \<Rightarrow> (string \<times> int) option" where
  "mcp_wait_open co m =
     (case m of
        None \<Rightarrow> Some (ErrTimeout, 504)
      | Some data \<Rightarrow>
          (case co_frame co data of
             None \<Rightarrow> Some (ErrProviderUnavailable, 503)
           | Some f \<Rightarrow>
               if fr_t f \<noteq> ''open.ok'' then
                 if fr_code f = ErrUnauthorized then Some (fr_code f, 401) else Some (ErrProviderUnavailable, 503)
               else None))"

definition mcp_wait_response :: "codec \<Rightarrow> int \<Rightarrow> string option \<Rightarrow> (string \<times> int) + string" where
  "mcp_wait_response co maxResp m =
     (case m of
        None \<Rightarrow> Inl (ErrTimeout, 504)
      | Some data \<Rightarrow>
          (case co_frame co data of
             None \<Rightarrow> Inl (ErrProviderUnavailable, 503)
           | Some f \<Rightarrow>
               if maxResp < int (length (fr_payload f)) then Inl (ErrLimitExceeded, 200) else Inr (fr_payload f)))"

definition mcp_close :: "codec \<Rightarrow> bool \<Rightarrow> string \<Rightarrow> string \<Rightarrow> trelay \<Rightarrow> trelay" where
  "mcp_close co ok sid reason r = conn_write ok (marshalled co ((new_frame ''close'' sid)\<lparr>fr_msg := reason\<rparr>)) r"

definition mcp_adapter :: "codec \<Rightarrow> adapter" where
  "mcp_adapter co =
     \<lparr>ad_validate = mcp_validate co, ad_error = mcp_error co, ad_empty = mcp_empty co, ad_open = mcp_open co,
      ad_send = mcp_send co, ad_wait_open = mcp_wait_open co, ad_wait_response = mcp_wait_response co,
      ad_close = mcp_close co\<rparr>"

text \<open>The view handed to the state page, \<^verbatim>\<open>adapters/tunnelstate.go\<close>.\<close>

record mcp_client =
  ms_id :: string
  ms_name :: string
  ms_status :: string
  ms_inflight :: int
  ms_functions :: "string \<rightharpoonup> int"

record mcp_session =
  mx_id :: string
  mx_client :: string
  mx_method :: string
  mx_start :: time
  mx_ms :: "64 word"

definition TunnelStateToMCP :: "client_view list \<times> session_view list \<Rightarrow> mcp_client list \<times> mcp_session list" where
  "TunnelStateToMCP st =
     (map (\<lambda>c. \<lparr>ms_id = cv_id c, ms_name = cv_name c, ms_status = cv_status c, ms_inflight = cv_inflight c,
               ms_functions = cv_methods c\<rparr>) (fst st),
      map (\<lambda>s. \<lparr>mx_id = sv_id s, mx_client = sv_client s, mx_method = sv_method s, mx_start = sv_start s,
               mx_ms = sv_ms s\<rparr>) (snd st))"

section \<open>The contract of an adapter\<close>

text \<open>What a relay keeps account of; an adapter only writes to the connection.\<close>

definition account :: "trelay \<Rightarrow> int \<times> (string \<rightharpoonup> session_info) \<times> (string \<rightharpoonup> nat) \<times> (string \<rightharpoonup> int)" where
  "account r = (tr_inflight r, tr_sessions r, tr_pending r, tr_methods r)"

definition same_account :: "nat \<Rightarrow> tunnel \<Rightarrow> tunnel \<Rightarrow> bool" where
  "same_account p t t' \<longleftrightarrow> map_option account (tn_heap t' p) = map_option account (tn_heap t p)"

definition count_of :: "string \<Rightarrow> trelay \<Rightarrow> int" where
  "count_of m r = (case tr_methods r m of None \<Rightarrow> 0 | Some n \<Rightarrow> n)"

locale tunnel_adapter =
  fixes ad :: adapter
  assumes open_account: "account (snd (ad_open ad ok sid req label auth r)) = account r"
    and send_account: "account (snd (ad_send ad ok sid payload r)) = account r"
    and close_account: "account (ad_close ad ok sid reason r) = account r"
begin

lemma same_trans: "same_account p t1 t2 \<Longrightarrow> same_account p t2 t3 \<Longrightarrow> same_account p t1 t3"
  by (simp add: same_account_def)

lemma use_same:
  "use_relay p f t = Done (x, t') \<Longrightarrow> (\<And>r. account (snd (f r)) = account r) \<Longrightarrow> same_account p t t'"
  by (auto simp: use_relay_def same_account_def Let_def split: option.splits prod.splits)
     (metis snd_conv)

lemma wait_same:
  "wait_message h w t = Done (m, t') \<Longrightarrow> same_account p t (wa_between w t) \<Longrightarrow> same_account p t t'"
  by (auto simp: wait_message_def same_account_def Let_def split: if_splits)

lemma close_same: "same_account p t (on_relay p (ad_close ad ok sid reason) t)"
  by (simp add: same_account_def option.map_comp comp_def close_account)

lemma relay_call_same:
  assumes "relay_call ad maxResp c p i label payload t = Done (w, t')"
    and "\<And>t. same_account p t (wa_between (cl_open c) t)" "\<And>t. same_account p t (wa_between (cl_resp c) t)"
  shows "same_account p t t'"
proof -
  from assms(1) obtain e t1 where o: "use_relay p (ad_open ad (cl_opened c) (cl_sid c) (cl_req c) label (bearer_token (cl_auth c))) t =
      Done (e, t1)"
    by (auto simp: relay_call_def Let_def)
  note s1 = use_same [OF o open_account]
  show ?thesis
  proof (cases e)
    case (Some x)
    with assms(1) o s1 show ?thesis by (cases x) (auto simp: relay_call_def Let_def)
  next
    case None
    with assms(1) o obtain m t2 where m: "wait_message (cl_chan c) (cl_open c) t1 = Done (m, t2)"
      by (auto simp: relay_call_def Let_def)
    note s2 = same_trans [OF s1 wait_same [OF m assms(2)]]
    show ?thesis
    proof (cases "ad_wait_open ad m")
      case (Some x)
      with assms(1) o None m s2 show ?thesis by (cases x) (auto simp: relay_call_def Let_def)
    next
      case opened: None
      with assms(1) o None m obtain sent t3 where s: "use_relay p (ad_send ad (cl_sent c) (cl_sid c) payload) t2 = Done (sent, t3)"
        by (auto simp: relay_call_def Let_def)
      note s3 = same_trans [OF s2 use_same [OF s send_account]]
      show ?thesis
      proof (cases sent)
        case False
        with assms(1) o None m opened s s3 show ?thesis
          by (auto simp: relay_call_def Let_def intro: same_trans close_same)
      next
        case True
        with assms(1) o None m opened s obtain m' t4 where m': "wait_message (cl_chan c) (cl_resp c) t3 = Done (m', t4)"
          by (auto simp: relay_call_def Let_def)
        note s4 = same_trans [OF s3 wait_same [OF m' assms(3)]]
        from assms(1) o None m opened s True m' have "\<exists>reason. t' = on_relay p (ad_close ad (cl_closed c) (cl_sid c) reason) t4"
          by (cases "ad_wait_response ad maxResp m'") (auto simp: relay_call_def Let_def)
        with same_trans [OF s4 close_same] show ?thesis by blast
      qed
    qed
  qed
qed

lemma account_count: "account r = account r' \<Longrightarrow> count_of m r = count_of m r'"
  by (simp add: account_def count_of_def)

lemma handler_clean:
  assumes "TunnelHTTPHandler ad maxResp c t = Done (w, t')" "tn_relays t (cl_client c) = Some p" "tn_heap t p = Some r"
    and "tr_sessions r (cl_sid c) = None" "tr_pending r (cl_sid c) = None"
    and "\<And>t. same_account p t (cl_before c t)" "\<And>t. same_account p t (cl_registering c t)"
    and "\<And>t. same_account p t (wa_between (cl_open c) t)" "\<And>t. same_account p t (wa_between (cl_resp c) t)"
  shows "\<exists>r'. tn_heap t' p = Some r' \<and> tr_inflight r' = tr_inflight r \<and> tr_sessions r' = tr_sessions r \<and>
    tr_pending r' = tr_pending r \<and> (\<forall>m. count_of m r' = count_of m r)"
proof -
  obtain r0 where r0: "tn_heap (cl_before c t) p = Some r0" "account r0 = account r"
    using assms(6) [of t] assms(3) by (auto simp: same_account_def)
  consider (early) "t' = t \<or> t' = cl_before c t"
    | (call) label i payload t1 t2 where "begin_call p label (cl_sid c) (cl_now c) (cl_before c t) = Some t1"
        "relay_call ad maxResp c p i label payload (relay_Register p (cl_sid c) (cl_chan c) (cl_registering c t1)) = Done (w, t2)"
        "t' = end_call p label (cl_sid c) (Unregister p (cl_sid c) t2)"
    using assms(1,2)
    by (auto simp: TunnelHTTPHandler_def Let_def split: if_splits option.splits sum.splits prod.splits)
  then show ?thesis
  proof cases
    case early
    with assms(3) r0 show ?thesis
      using account_count [OF r0(2)] by (auto simp: account_def)
  next
    case call
    let ?sid = "cl_sid c"
    from call(1) r0 have h1: "tn_heap t1 p = Some (r0\<lparr>tr_inflight := tr_inflight r0 + 1,
        tr_methods := add_method label 1 (tr_methods r0),
        tr_sessions := (tr_sessions r0)(?sid \<mapsto> \<lparr>si_method = label, si_start = cl_now c\<rparr>)\<rparr>)"
      by (auto simp: begin_call_def split: if_splits)
    obtain r1 where r1: "tn_heap (cl_registering c t1) p = Some r1"
        "account r1 = (tr_inflight r0 + 1, (tr_sessions r0)(?sid \<mapsto> \<lparr>si_method = label, si_start = cl_now c\<rparr>),
           tr_pending r0, add_method label 1 (tr_methods r0))"
      using assms(7) [of t1] h1 by (auto simp: same_account_def account_def)
    from relay_call_same [OF call(2) assms(8,9)] obtain r2 where r2: "tn_heap t2 p = Some r2"
        "account r2 = (tr_inflight r0 + 1, (tr_sessions r0)(?sid \<mapsto> \<lparr>si_method = label, si_start = cl_now c\<rparr>),
           (tr_pending r0)(?sid \<mapsto> cl_chan c), add_method label 1 (tr_methods r0))"
      using r1 by (auto simp: same_account_def relay_Register_def account_def)
    have "tn_heap t' p = Some (r2\<lparr>tr_pending := (tr_pending r2)(?sid := None), tr_inflight := tr_inflight r2 - 1,
        tr_methods := add_method label (- 1) (tr_methods r2), tr_sessions := (tr_sessions r2)(?sid := None)\<rparr>)"
      using call(3) r2(1) by (simp add: end_call_def Unregister_def)
    moreover have "tr_sessions r0 ?sid = None" "tr_pending r0 ?sid = None" using r0(2) assms(4,5) by (auto simp: account_def)
    ultimately show ?thesis using r0(2) r2(2)
      by (auto simp: account_def count_of_def add_method_def fun_upd_idem split: option.splits)
  qed
qed

end

lemma conn_write_account [simp]: "account (conn_write ok b r) = account r"
  by (simp add: conn_write_def account_def)

interpretation mcp: tunnel_adapter "mcp_adapter co"
  by unfold_locales (simp_all add: mcp_adapter_def mcp_open_def mcp_send_def mcp_close_def Let_def)

end
