(* ===== verification/McpAgent.thy ===== *)
theory McpAgent
  imports McpServer
begin

text \<open>
  MCP over the tunnel, the agent's side: \<^verbatim>\<open>modules/mcp/agent/internal/mcp/relay.go\<close>, which takes the
  server's frames, calls the MCP provider by HTTP and sends the answers back.
\<close>

section \<open>Event streams\<close>

text \<open>
  The lines \<^verbatim>\<open>bufio.Scanner\<close> yields, without the line feed and one carriage return before it.  A line
  that does not fit into its buffer ends the scan with an error.
\<close>

definition line_feed :: char where "line_feed = CHR 0x0A"
definition carriage_return :: char where "carriage_return = CHR 0x0D"
definition max_line :: nat where "max_line = 4194304"

definition drop_cr :: "string \<Rightarrow> string" where
  "drop_cr l = (if l \<noteq> [] \<and> last l = carriage_return then butlast l else l)"

function scan_lines :: "string \<Rightarrow> string list" where
  "scan_lines s =
     (if s = [] then []
      else
        let l = takeWhile (\<lambda>c. c \<noteq> line_feed) s in l # scan_lines (drop (Suc (length l)) s))"
  by pat_completeness auto
termination by (relation "measure length") auto

declare scan_lines.simps [simp del]

definition isSSEBody :: "string \<Rightarrow> string \<Rightarrow> bool" where
  "isSSEBody contentType body =
     (if Contains (ToLower contentType) ''text/event-stream'' then True
      else HasPrefix (TrimSpace body) ''event:'')"

fun sse_data :: "string list \<Rightarrow> string \<Rightarrow> string + string" where
  "sse_data [] data = (if data = [] then Inl ''no sse data found'' else Inr data)"
| "sse_data (l # ls) data =
     (if max_line \<le> length l then Inl ''bufio.Scanner: token too long''
      else
        let line = drop_cr l in
        if line = [] then if data \<noteq> [] then Inr data else sse_data ls data
        else if HasPrefix line '':'' then sse_data ls data
        else if HasPrefix line ''event:'' then
          if TrimSpace (drop 6 line) = ''close'' then if data = [] then Inl ''no sse data found'' else Inr data
          else sse_data ls data
        else if HasPrefix line ''data:'' then
          let payload = TrimSpace (drop 5 line) in
          sse_data ls ((if data \<noteq> [] then data @ [line_feed] else data) @ payload)
        else sse_data ls data)"

definition extractFirstSSEData :: "string \<Rightarrow> string + string" where
  "extractFirstSSEData body = sse_data (scan_lines body) []"

section \<open>The provider\<close>

text \<open>
  One HTTP exchange, given whether streaming is allowed: it fails with an error, or brings the status,
  the content type and the body (\<open>None\<close> when reading it fails).
\<close>

datatype exchange = DoFails | Answer int string "string option"

definition provider_error :: "codec \<Rightarrow> any \<Rightarrow> (string \<times> any) list \<Rightarrow> string" where
  "provider_error co i data =
     co_json co (AObj [(''error'', AObj [(''code'', ANum (- 32000)), (''data'', AObj data), (''message'', AStr ''Provider error'')]),
                       (''id'', i), (''jsonrpc'', AStr ''2.0'')])"

text \<open>
  The result (\<open>None\<close> is an error), and whether streaming was turned off.  \<open>n\<close> attempts are left, and
  \<open>allow n\<close> is the streaming preference at the time of the next: the calls and the monitor share it.
\<close>

fun callProvider ::
  "codec \<Rightarrow> any \<Rightarrow> (nat \<Rightarrow> bool) \<Rightarrow> (bool \<Rightarrow> nat \<Rightarrow> exchange) \<Rightarrow> nat \<Rightarrow> string option \<times> bool" where
  "callProvider co i allow http 0 = (None, False)"
| "callProvider co i allow http (Suc n) =
     (case http (allow n) n of
        DoFails \<Rightarrow> (None, False)
      | Answer st ct b \<Rightarrow>
          (case b of
             None \<Rightarrow> (None, False)
           | Some body \<Rightarrow>
               if st = 406 \<and> allow n then (fst (callProvider co i allow http n), True)
               else
                 let payload = (if isSSEBody ct body then
                                  (case extractFirstSSEData body of Inr d \<Rightarrow> d | Inl e \<Rightarrow> body)
                                else body)
                 in if st \<noteq> 200 then
                      (Some (provider_error co i
                         ((if body \<noteq> [] then [(''body'', AStr body)] else []) @
                          [(''mcp'', AStr ErrUpstreamError), (''status'', ANum (of_int st))])), False)
                    else (Some payload, False)))"

section \<open>The relay client\<close>

text \<open>
  A call is spawned by its frame, registered under its session with a context of its own, and over when
  it has answered or its context has ended.  \<open>cx\<close> says that the context has been cancelled.
\<close>

datatype rpc_phase = Spawned | Running bool | Over

record rpc_call =
  rc_frame :: mcp_frame
  rc_phase :: rpc_phase

record mcp_agent =
  ma_token :: string
  ma_out :: "string list"
  ma_calls :: "rpc_call list"
  ma_cancels :: "string \<rightharpoonup> nat"
  ma_pref :: bool

definition NewRelayClient :: "string \<Rightarrow> bool \<Rightarrow> mcp_agent" where
  "NewRelayClient token pref =
     \<lparr>ma_token = token, ma_out = [], ma_calls = [], ma_cancels = Map.empty, ma_pref = pref\<rparr>"

text \<open>A frame that cannot be encoded is not sent, and nobody is told.\<close>

definition agent_send :: "codec \<Rightarrow> mcp_frame \<Rightarrow> mcp_agent \<Rightarrow> mcp_agent" where
  "agent_send co f a = (case co_encode co f of None \<Rightarrow> a | Some b \<Rightarrow> a\<lparr>ma_out := ma_out a @ [b]\<rparr>)"

definition set_call :: "nat \<Rightarrow> rpc_phase \<Rightarrow> mcp_agent \<Rightarrow> mcp_agent" where
  "set_call k ph a = a\<lparr>ma_calls := (ma_calls a)[k := (ma_calls a ! k)\<lparr>rc_phase := ph\<rparr>]\<rparr>"

definition cancel_call :: "nat \<Rightarrow> mcp_agent \<Rightarrow> mcp_agent" where
  "cancel_call k a =
     (if k < length (ma_calls a) then
        (case rc_phase (ma_calls a ! k) of Running _ \<Rightarrow> set_call k (Running True) a | _ \<Rightarrow> a)
      else a)"

text \<open>What the loop of \<^verbatim>\<open>Run\<close> does with a frame.\<close>

definition take_frame :: "codec \<Rightarrow> mcp_frame \<Rightarrow> mcp_agent \<Rightarrow> mcp_agent" where
  "take_frame co f a =
     (if fr_t f = ''open'' then
        if ma_token a \<noteq> [] \<and> fr_auth f \<noteq> ma_token a
        then agent_send co ((new_frame ''open.fail'' (fr_sid f))\<lparr>fr_code := ErrUnauthorized, fr_msg := ''unauthorized''\<rparr>) a
        else agent_send co (new_frame ''open.ok'' (fr_sid f)) a
      else if fr_t f = ''rpc'' then a\<lparr>ma_calls := ma_calls a @ [\<lparr>rc_frame = f, rc_phase = Spawned\<rparr>]\<rparr>
      else if fr_t f = ''close'' then
        (case ma_cancels a (fr_sid f) of
           None \<Rightarrow> a
         | Some k \<Rightarrow> (cancel_call k a)\<lparr>ma_cancels := (ma_cancels a)(fr_sid f := None)\<rparr>)
      else if fr_t f = ''ping'' then agent_send co (new_frame ''pong'' []) a
      else a)"

text \<open>One turn of that loop with the message it has read.\<close>

definition hear :: "codec \<Rightarrow> string \<Rightarrow> mcp_agent \<Rightarrow> mcp_agent" where
  "hear co data a = (case co_frame co data of None \<Rightarrow> a | Some f \<Rightarrow> take_frame co f a)"

text \<open>\<open>rpc_env\<close> decodes the payload of a call: its id and its method.\<close>

definition start_call :: "(string \<Rightarrow> (any \<times> string) option) \<Rightarrow> nat \<Rightarrow> mcp_agent \<Rightarrow> mcp_agent" where
  "start_call rpc_env k a =
     (case rpc_env (fr_payload (rc_frame (ma_calls a ! k))) of
        None \<Rightarrow> set_call k Over a
      | Some _ \<Rightarrow>
          (set_call k (Running False) a)\<lparr>ma_cancels := (ma_cancels a)(fr_sid (rc_frame (ma_calls a ! k)) \<mapsto> k)\<rparr>)"

text \<open>The end of a call with what \<open>callProvider\<close> returned.\<close>

definition finish_rpc :: "codec \<Rightarrow> string option \<Rightarrow> bool \<Rightarrow> nat \<Rightarrow> mcp_agent \<Rightarrow> mcp_agent" where
  "finish_rpc co res off k a =
     (let sid = fr_sid (rc_frame (ma_calls a ! k));
          a = (if off then a\<lparr>ma_pref := False\<rparr> else a);
          a = (if rc_phase (ma_calls a ! k) = Running True then a
               else
                 let resp = (case res of Some b \<Rightarrow> b | None \<Rightarrow> provider_error co ANull [(''mcp'', AStr ErrUpstreamError)])
                 in agent_send co ((new_frame ''close'' sid)\<lparr>fr_msg := ''done''\<rparr>)
                      (agent_send co ((new_frame ''rpc'' sid)\<lparr>fr_payload := resp\<rparr>) a))
      in (set_call k Over a)\<lparr>ma_cancels := (ma_cancels a)(sid := None)\<rparr>)"

section \<open>The machine\<close>

text \<open>\<open>AgExpire\<close> is the end of a call's context by its timeout.\<close>

datatype agent_event =
    AgRead string
  | AgStart nat
  | AgReturn nat "string option" bool
  | AgExpire nat

definition in_phase :: "nat \<Rightarrow> (rpc_phase \<Rightarrow> bool) \<Rightarrow> mcp_agent \<Rightarrow> bool" where
  "in_phase k P a \<longleftrightarrow> k < length (ma_calls a) \<and> P (rc_phase (ma_calls a ! k))"

fun mcp_guard :: "agent_event \<Rightarrow> mcp_agent \<Rightarrow> bool" where
  "mcp_guard (AgRead data) a \<longleftrightarrow> True"
| "mcp_guard (AgStart k) a \<longleftrightarrow> in_phase k (\<lambda>ph. ph = Spawned) a"
| "mcp_guard (AgReturn k res off) a \<longleftrightarrow> in_phase k (\<lambda>ph. ph = Running False \<or> ph = Running True) a"
| "mcp_guard (AgExpire k) a \<longleftrightarrow> in_phase k (\<lambda>ph. ph = Running False \<or> ph = Running True) a"

fun mcp_step :: "codec \<Rightarrow> (string \<Rightarrow> (any \<times> string) option) \<Rightarrow> agent_event \<Rightarrow> mcp_agent \<Rightarrow> mcp_agent" where
  "mcp_step co env (AgRead data) a = hear co data a"
| "mcp_step co env (AgStart k) a = start_call env k a"
| "mcp_step co env (AgReturn k res off) a = finish_rpc co res off k a"
| "mcp_step co env (AgExpire k) a = cancel_call k a"

section \<open>Lemmas\<close>

lemma scan_line: "line_feed \<notin> set l \<Longrightarrow> scan_lines (l @ line_feed # s) = l # scan_lines s"
proof -
  assume l: "line_feed \<notin> set l"
  have "takeWhile (\<lambda>c. c \<noteq> line_feed) (l @ line_feed # s) = l"
    using l by (subst takeWhile_append2) auto
  then show ?thesis by (subst scan_lines.simps) (simp add: Let_def)
qed

text \<open>A value as an event stream writes it: a line \<^verbatim>\<open>data:\<close> for each of its lines, and an empty line.\<close>

definition sse_event :: "string list \<Rightarrow> string" where
  "sse_event ls = concat (map (\<lambda>l. ''data: '' @ l @ [line_feed]) ls) @ [line_feed]"

definition plain_line :: "string \<Rightarrow> bool" where
  "plain_line l \<longleftrightarrow> l \<noteq> [] \<and> line_feed \<notin> set l \<and> TrimSpace l = l \<and> TrimSpace (CHR '' '' # l) = l \<and>
     last l \<noteq> carriage_return \<and> length l + 6 < max_line"

lemma data_line:
  assumes "plain_line l"
  shows "sse_data ((''data: '' @ l) # ls) data = sse_data ls ((if data \<noteq> [] then data @ [line_feed] else data) @ l)"
proof -
  have "drop_cr (''data: '' @ l) = ''data: '' @ l" using assms by (simp add: drop_cr_def plain_line_def)
  moreover have "\<not> max_line \<le> length (''data: '' @ l)" using assms by (simp add: plain_line_def)
  ultimately show ?thesis using assms
    by (simp add: HasPrefix_def plain_line_def Let_def)
qed

lemma sse_event_scan:
  "\<forall>l \<in> set ls. plain_line l \<Longrightarrow> scan_lines (sse_event ls @ rest) = map (\<lambda>l. ''data: '' @ l) ls @ [] # scan_lines rest"
proof (induction ls)
  case Nil
  show ?case using scan_line [of "[]" rest] by (simp add: sse_event_def)
next
  case (Cons l ls)
  have l: "line_feed \<notin> set (''data: '' @ l)" using Cons.prems by (auto simp: plain_line_def line_feed_def)
  have "sse_event (l # ls) @ rest = (''data: '' @ l) @ line_feed # (sse_event ls @ rest)" by (simp add: sse_event_def)
  then have "scan_lines (sse_event (l # ls) @ rest) = (''data: '' @ l) # scan_lines (sse_event ls @ rest)"
    by (simp only: scan_line [OF l])
  with Cons show ?case by simp
qed

lemma data_lines:
  "\<forall>l \<in> set ls. plain_line l \<Longrightarrow> data \<noteq> [] \<Longrightarrow>
   sse_data (map (\<lambda>l. ''data: '' @ l) ls @ [] # rest) data = Inr (data @ concat (map (\<lambda>l. line_feed # l) ls))"
proof (induction ls arbitrary: data)
  case Nil
  then show ?case by (simp add: drop_cr_def max_line_def)
next
  case (Cons l ls)
  then have "sse_data (map (\<lambda>l. ''data: '' @ l) ls @ [] # rest) (data @ [line_feed] @ l) =
      Inr ((data @ [line_feed] @ l) @ concat (map (\<lambda>l. line_feed # l) ls))" by simp
  with Cons.prems data_line [of l] show ?case by simp
qed

lemma join_lines: "join_on c (l # ls) = l @ concat (map (\<lambda>l. c # l) ls)"
  by (induction ls arbitrary: l) simp_all

section \<open>The first event of a stream\<close>



end
