(* ===== verification/McpCall.thy ===== *)
theory McpCall
  imports McpAgent
begin

text \<open>
  A call from the HTTP request on the server to the provider behind the agent and back: the two sides of
  the tunnel put together.
\<close>

section \<open>The agent's turn\<close>

text \<open>
  What the agent does with one message when nothing else is going on: a call it starts runs to its end.
  \<open>http\<close> is the provider, given the payload; alone, a call tries a second time only after it has turned
  streaming off itself.
\<close>

definition alone :: "bool \<Rightarrow> nat \<Rightarrow> bool" where
  "alone pref n \<longleftrightarrow> n = 1 \<and> pref"

definition attend ::
  "codec \<Rightarrow> (string \<Rightarrow> (any \<times> string) option) \<Rightarrow> (string \<Rightarrow> bool \<Rightarrow> nat \<Rightarrow> exchange) \<Rightarrow> string \<Rightarrow> mcp_agent \<Rightarrow> mcp_agent" where
  "attend co env http m a =
     (let k = length (ma_calls a); a = hear co m a in
      if length (ma_calls a) = k then a
      else
        let payload = fr_payload (rc_frame (ma_calls a ! k)); a = start_call env k a in
        case env payload of
          None \<Rightarrow> a
        | Some (i, method) \<Rightarrow>
            let (res, off) = callProvider co i (alone (ma_pref a)) (http payload) 2 in finish_rpc co res off k a)"

text \<open>The read loop of the relay takes messages that have arrived.\<close>

definition deliver :: "codec \<Rightarrow> nat \<Rightarrow> string \<Rightarrow> time \<Rightarrow> string list \<Rightarrow> tunnel \<Rightarrow> tunnel" where
  "deliver co p i now ms t =
     (case read_loop co p i
        (map (\<lambda>m. \<lparr>rd_before = \<lambda>t. t, rd_data = Some m, rd_now = now, rd_between = \<lambda>t. t\<rparr>) ms) t of
        Done (_, t) \<Rightarrow> t
      | _ \<Rightarrow> t)"

section \<open>The codec\<close>

text \<open>
  What the code relies on in \<^verbatim>\<open>encoding/json\<close>: a frame fails to encode only when its payload is not JSON,
  it decodes to itself with the payload compacted, and what decodes as an envelope is JSON.
\<close>

definition compacted :: "codec \<Rightarrow> string \<Rightarrow> string" where
  "compacted co p = (if p = [] then [] else case co_compact co p of None \<Rightarrow> [] | Some q \<Rightarrow> q)"

definition codec_ok :: "codec \<Rightarrow> bool" where
  "codec_ok co \<longleftrightarrow>
     (\<forall>f. co_encode co f = None \<longleftrightarrow> fr_payload f \<noteq> [] \<and> co_compact co (fr_payload f) = None) \<and>
     (\<forall>f b. co_encode co f = Some b \<longrightarrow> co_frame co b = Some (f\<lparr>fr_payload := compacted co (fr_payload f)\<rparr>)) \<and>
     (\<forall>p. co_envelope co p \<noteq> None \<longrightarrow> p \<noteq> [] \<and> co_compact co p \<noteq> None)"

lemma encode_plain: "codec_ok co \<Longrightarrow> fr_payload f = [] \<Longrightarrow> \<exists>b. co_encode co f = Some b \<and> co_frame co b = Some f"
proof -
  assume c: "codec_ok co" and f: "fr_payload f = []"
  then obtain b where b: "co_encode co f = Some b" unfolding codec_ok_def by (metis option.exhaust)
  moreover have "f\<lparr>fr_payload := []\<rparr> = f" using f by (cases f) simp
  ultimately show ?thesis using c f by (auto simp: codec_ok_def compacted_def)
qed

lemma encode_payload:
  "codec_ok co \<Longrightarrow> co_compact co (fr_payload f) = Some q \<Longrightarrow> fr_payload f \<noteq> [] \<Longrightarrow>
   \<exists>b. co_encode co f = Some b \<and> co_frame co b = Some (f\<lparr>fr_payload := q\<rparr>)"
proof -
  assume c: "codec_ok co" and f: "co_compact co (fr_payload f) = Some q" "fr_payload f \<noteq> []"
  then obtain b where b: "co_encode co f = Some b" unfolding codec_ok_def by (metis option.distinct(1) option.exhaust)
  with c f show ?thesis by (auto simp: codec_ok_def compacted_def)
qed

lemma frame_fields [simp]:
  "fr_t (new_frame t sid) = t" "fr_sid (new_frame t sid) = sid" "fr_payload (new_frame t sid) = []" "fr_auth (new_frame t sid) = []"
  "fr_code (new_frame t sid) = []"
  by (simp_all add: new_frame_def)

section \<open>The agent's answers\<close>

lemma hear_open:
  assumes "codec_ok co" "co_frame co m = Some f" "fr_t f = ''open''" "ma_token a = [] \<or> fr_auth f = ma_token a"
  shows "\<exists>b. attend co env http m a = a\<lparr>ma_out := ma_out a @ [b]\<rparr> \<and> co_frame co b = Some (new_frame ''open.ok'' (fr_sid f))"
proof -
  obtain b where "co_encode co (new_frame ''open.ok'' (fr_sid f)) = Some b" "co_frame co b = Some (new_frame ''open.ok'' (fr_sid f))"
    using encode_plain [OF assms(1), of "new_frame ''open.ok'' (fr_sid f)"] by auto
  with assms(2-4) show ?thesis by (auto simp: attend_def hear_def take_frame_def agent_send_def Let_def)
qed

text \<open>What goes back for a result of \<open>callProvider\<close>: the answer when it can be encoded, and the close.\<close>

definition provider_reply :: "codec \<Rightarrow> string option \<Rightarrow> string" where
  "provider_reply co res = (case res of Some b \<Rightarrow> b | None \<Rightarrow> provider_error co ANull [(''mcp'', AStr ErrUpstreamError)])"

definition reply_frames :: "codec \<Rightarrow> string \<Rightarrow> string \<Rightarrow> mcp_frame list" where
  "reply_frames co sid reply =
     (if reply = [] then [new_frame ''rpc'' sid]
      else case co_compact co reply of None \<Rightarrow> [] | Some q \<Rightarrow> [(new_frame ''rpc'' sid)\<lparr>fr_payload := q\<rparr>]) @
     [(new_frame ''close'' sid)\<lparr>fr_msg := ''done''\<rparr>]"

lemma agent_sends:
  assumes "codec_ok co"
  shows "\<exists>bs. agent_send co ((new_frame ''rpc'' sid)\<lparr>fr_payload := reply\<rparr>) a = a\<lparr>ma_out := ma_out a @ bs\<rparr> \<and>
    map (co_frame co) bs =
      map Some (if reply = [] then [new_frame ''rpc'' sid]
        else case co_compact co reply of None \<Rightarrow> [] | Some q \<Rightarrow> [(new_frame ''rpc'' sid)\<lparr>fr_payload := q\<rparr>])"
proof -
  let ?f = "(new_frame ''rpc'' sid)\<lparr>fr_payload := reply\<rparr>"
  consider (empty) "reply = []" | (bad) "reply \<noteq> []" "co_compact co reply = None"
    | (good) q where "reply \<noteq> []" "co_compact co reply = Some q" by (cases "co_compact co reply") auto
  then show ?thesis
  proof cases
    case empty
    obtain b where b: "co_encode co ?f = Some b" "co_frame co b = Some ?f"
      using encode_plain [OF assms, of ?f] empty by auto
    have "?f = new_frame ''rpc'' sid" using empty by (simp add: new_frame_def)
    with b empty show ?thesis by (intro exI [of _ "[b]"]) (simp add: agent_send_def)
  next
    case bad
    with assms have "co_encode co ?f = None" by (simp add: codec_ok_def)
    with bad show ?thesis by (intro exI [of _ "[]"]) (simp add: agent_send_def)
  next
    case good
    obtain b where "co_encode co ?f = Some b" "co_frame co b = Some (?f\<lparr>fr_payload := q\<rparr>)"
      using encode_payload [OF assms, of ?f q] good by auto
    with good show ?thesis by (intro exI [of _ "[b]"]) (simp add: agent_send_def)
  qed
qed

lemma hear_rpc:
  assumes co: "codec_ok co" and m: "co_frame co m = Some f" "fr_t f = ''rpc''" "env (fr_payload f) = Some (i, method)"
    and res: "fst (callProvider co i (alone (ma_pref a)) (http (fr_payload f)) 2) = res"
  shows "\<exists>bs. ma_out (attend co env http m a) = ma_out a @ bs \<and>
    map (co_frame co) bs = map Some (reply_frames co (fr_sid f) (provider_reply co res))"
proof -
  obtain off where cp: "callProvider co i (alone (ma_pref a)) (http (fr_payload f)) 2 = (res, off)" using res by (metis surjective_pairing)
  let ?sid = "fr_sid f"
  let ?a = "hear co m a"
  have h: "?a = a\<lparr>ma_calls := ma_calls a @ [\<lparr>rc_frame = f, rc_phase = Spawned\<rparr>]\<rparr>"
    using m by (simp add: hear_def take_frame_def)
  define a1 where "a1 = (if off then (start_call env (length (ma_calls a)) ?a)\<lparr>ma_pref := False\<rparr> else start_call env (length (ma_calls a)) ?a)"
  have a1: "ma_out a1 = ma_out a" "ma_calls a1 ! length (ma_calls a) = \<lparr>rc_frame = f, rc_phase = Running False\<rparr>"
    "ma_calls (start_call env (length (ma_calls a)) (hear co m a)) ! length (ma_calls a) = \<lparr>rc_frame = f, rc_phase = Running False\<rparr>"
    using m(3) by (simp_all add: a1_def h start_call_def set_call_def)
  obtain bs where bs: "agent_send co ((new_frame ''rpc'' ?sid)\<lparr>fr_payload := provider_reply co res\<rparr>) a1 = a1\<lparr>ma_out := ma_out a1 @ bs\<rparr>"
     "map (co_frame co) bs = map Some (if provider_reply co res = [] then [new_frame ''rpc'' ?sid]
        else case co_compact co (provider_reply co res) of None \<Rightarrow> [] | Some q \<Rightarrow> [(new_frame ''rpc'' ?sid)\<lparr>fr_payload := q\<rparr>])"
    using agent_sends [OF co] by blast
  obtain b where b: "co_encode co ((new_frame ''close'' ?sid)\<lparr>fr_msg := ''done''\<rparr>) = Some b"
      "co_frame co b = Some ((new_frame ''close'' ?sid)\<lparr>fr_msg := ''done''\<rparr>)"
    using encode_plain [OF co, of "(new_frame ''close'' ?sid)\<lparr>fr_msg := ''done''\<rparr>"] by auto
  have "attend co env http m a = finish_rpc co res off (length (ma_calls a)) (start_call env (length (ma_calls a)) ?a)"
    using m(3) cp by (simp add: attend_def h Let_def start_call_def set_call_def)
  also have "ma_out \<dots> = ma_out a @ bs @ [b]"
    using a1 bs(1) b(1) by (simp add: finish_rpc_def Let_def a1_def [symmetric] provider_reply_def [symmetric]
      set_call_def agent_send_def [of co "(new_frame ''close'' ?sid)\<lparr>fr_msg := ''done''\<rparr>"])
  finally show ?thesis using bs(2) b(2) by (intro exI [of _ "bs @ [b]"]) (simp add: reply_frames_def)
qed

section \<open>The server's side\<close>

text \<open>The state of a session on its relay: what the connection carries, and what waits in the channel.\<close>

definition session_at :: "nat \<Rightarrow> string \<Rightarrow> nat \<Rightarrow> string list \<Rightarrow> string list \<Rightarrow> tunnel \<Rightarrow> bool" where
  "session_at p sid h out buf t \<longleftrightarrow>
     (\<exists>r. tn_heap t p = Some r \<and> tr_out r = out \<and> tr_pending r sid = Some h) \<and>
     tn_chans t h = Some \<lparr>gc_buf = buf, gc_cap = 4, gc_closed = False\<rparr>"

lemma session_at_write:
  "session_at p sid h out buf t \<Longrightarrow>
   \<exists>t'. use_relay p (\<lambda>r. (x, conn_write True b r)) t = Done (x, t') \<and> session_at p sid h (out @ [b]) buf t'"
  by (auto simp: session_at_def use_relay_def conn_write_def)

lemma session_at_take:
  "session_at p sid h out (m # buf) (wa_between w t) \<Longrightarrow> \<not> wa_done w \<Longrightarrow>
   \<exists>t'. wait_message h w t = Done (Some m, t') \<and> session_at p sid h out buf t'"
  by (auto simp: session_at_def wait_message_def recv_chan_def Let_def)

lemma deliver_frames:
  assumes "map (co_frame co) ms = map Some fs" "\<forall>f \<in> set fs. fr_t f \<noteq> ''pong'' \<and> fr_sid f = sid" "sid \<noteq> []"
    and "session_at p sid h out buf t" "length buf + length ms \<le> 4"
  shows "session_at p sid h out (buf @ ms) (deliver co p i now ms t)"
proof -
  have "\<exists>t'. read_loop co p i (map (\<lambda>m. \<lparr>rd_before = \<lambda>t. t, rd_data = Some m, rd_now = now, rd_between = \<lambda>t. t\<rparr>) ms) t =
      Done (True, t') \<and> session_at p sid h out (buf @ ms) t'"
    using assms(1,2,4,5)
  proof (induction ms arbitrary: fs buf t)
    case (Cons m ms)
    then obtain f fs' where f: "fs = f # fs'" "co_frame co m = Some f" "map (co_frame co) ms = map Some fs'" by auto
    have "\<exists>t'. route_frame co p m now (\<lambda>t. t) t = Done t' \<and> session_at p sid h out (buf @ [m]) t'"
      using Cons.prems f assms(3)
      by (auto simp: route_frame_def session_at_def pending_of_def Let_def on_relay_def offer_chan_def send_chan_def)
    then obtain t' where t': "route_frame co p m now (\<lambda>t. t) t = Done t'" "session_at p sid h out (buf @ [m]) t'" by blast
    with Cons.IH [OF f(3) _ t'(2)] Cons.prems f show ?case by auto
  qed simp
  then show ?thesis by (auto simp: deliver_def)
qed

section \<open>The whole call\<close>

definition open_frame :: "call \<Rightarrow> string \<Rightarrow> mcp_frame" where
  "open_frame c label =
     (new_frame ''open'' (cl_sid c))\<lparr>fr_req := cl_req c, fr_hint := label, fr_auth := bearer_token (cl_auth c)\<rparr>"

definition rpc_frame :: "call \<Rightarrow> string \<Rightarrow> mcp_frame" where
  "rpc_frame c payload = (new_frame ''rpc'' (cl_sid c))\<lparr>fr_payload := payload\<rparr>"

text \<open>What the client gets for a reply of the agent.\<close>

definition mcp_result :: "codec \<Rightarrow> int \<Rightarrow> any \<Rightarrow> string \<Rightarrow> string \<Rightarrow> writer" where
  "mcp_result co maxResp i req reply =
     (if maxResp < int (length reply)
      then mcp_error co i 200 ErrLimitExceeded ''timeout waiting for response'' req new_writer
      else if reply = [] then mcp_empty co i new_writer
      else json_answer 200 reply new_writer)"

lemma reply_first:
  "\<exists>f fs. reply_frames co sid reply = f # fs \<and> length fs \<le> 1 \<and> fr_payload f = compacted co reply \<and>
     (\<forall>f \<in> set (reply_frames co sid reply). fr_t f \<noteq> ''pong'' \<and> fr_sid f = sid)"
  by (auto simp: reply_frames_def compacted_def split: option.split)

lemma relay_call_answers:
  assumes co: "codec_ok co" and c: "cl_opened c" "cl_sent c" "cl_closed c" "\<not> wa_done (cl_open c)" "\<not> wa_done (cl_resp c)"
      "cl_sid c \<noteq> []"
    and t: "session_at p (cl_sid c) (cl_chan c) out [] t"
    and opened: "\<And>t. session_at p (cl_sid c) (cl_chan c) (out @ [marshalled co (open_frame c label)]) [] t \<Longrightarrow>
      session_at p (cl_sid c) (cl_chan c) (out @ [marshalled co (open_frame c label)]) [b1] (wa_between (cl_open c) t)"
    and b1: "co_frame co b1 = Some (new_frame ''open.ok'' (cl_sid c))"
    and answered: "\<And>t. session_at p (cl_sid c) (cl_chan c) (out @ [marshalled co (open_frame c label), marshalled co (rpc_frame c payload)]) [] t \<Longrightarrow>
      session_at p (cl_sid c) (cl_chan c) (out @ [marshalled co (open_frame c label), marshalled co (rpc_frame c payload)]) (b2 # bs)
        (wa_between (cl_resp c) t)"
    and b2: "co_frame co b2 = Some f" "fr_payload f = reply"
  shows "\<exists>t'. relay_call (mcp_adapter co) maxResp c p i label payload t = Done (mcp_result co maxResp i (cl_req c) reply, t') \<and>
    (\<exists>r. tn_heap t' p = Some r \<and> (\<exists>last. tr_out r = out @ [marshalled co (open_frame c label), marshalled co (rpc_frame c payload), last]))"
proof -
  let ?m1 = "marshalled co (open_frame c label)" and ?m2 = "marshalled co (rpc_frame c payload)"
  let ?at = "session_at p (cl_sid c) (cl_chan c)"
  obtain t1 where t1: "use_relay p (mcp_open co True (cl_sid c) (cl_req c) label (bearer_token (cl_auth c))) t = Done (None, t1)"
      "?at (out @ [?m1]) [] t1"
    using session_at_write [OF t, of None ?m1] by (auto simp: mcp_open_def [abs_def] open_frame_def Let_def)
  obtain t2 where t2: "wait_message (cl_chan c) (cl_open c) t1 = Done (Some b1, t2)" "?at (out @ [?m1]) [] t2"
    using session_at_take [OF opened [OF t1(2)] c(4)] by blast
  obtain t3 where t3: "use_relay p (mcp_send co True (cl_sid c) payload) t2 = Done (True, t3)" "?at (out @ [?m1, ?m2]) [] t3"
    using session_at_write [OF t2(2), of True ?m2] by (auto simp: mcp_send_def [abs_def] rpc_frame_def)
  obtain t4 where t4: "wait_message (cl_chan c) (cl_resp c) t3 = Done (Some b2, t4)" "?at (out @ [?m1, ?m2]) bs t4"
    using session_at_take [OF answered [OF t3(2)] c(5)] by blast
  from t4(2) obtain r where r: "tn_heap t4 p = Some r" "tr_out r = out @ [?m1, ?m2]" by (auto simp: session_at_def)
  have w: "mcp_wait_open co (Some b1) = None" using b1 by (simp add: mcp_wait_open_def)
  show ?thesis
    using c t1 t2 t3 t4 r w b2
    by (auto simp: relay_call_def mcp_adapter_def mcp_wait_response_def mcp_result_def mcp_close_def conn_write_def Let_def)
qed

lemma encode_open: "codec_ok co \<Longrightarrow> co_frame co (marshalled co (open_frame c label)) = Some (open_frame c label)"
  using encode_plain [of co "open_frame c label"] by (auto simp: marshalled_def open_frame_def)

lemma encode_rpc:
  "codec_ok co \<Longrightarrow> ValidateEnvelope co body = Some x \<Longrightarrow>
   co_frame co (marshalled co (rpc_frame c body)) = Some (rpc_frame c (compacted co body))"
  using encode_payload [of co "rpc_frame c body"]
  by (fastforce simp: marshalled_def rpc_frame_def compacted_def codec_ok_def ValidateEnvelope_def split: option.splits)

section \<open>Property\<close>


section \<open>A codec\<close>

text \<open>A codec that satisfies \<open>codec_ok\<close>: fields with their length in front, and JSON is what starts with a brace.\<close>

definition enc_field :: "string \<Rightarrow> string" where
  "enc_field s = replicate (length s) CHR ''x'' @ CHR ''|'' # s"

definition dec_field :: "string \<Rightarrow> string \<times> string" where
  "dec_field s = (let n = length (takeWhile (\<lambda>c. c = CHR ''x'') s); r = drop (Suc n) s in (take n r, drop n r))"

fun dec_fields :: "nat \<Rightarrow> string \<Rightarrow> string list" where
  "dec_fields 0 s = []"
| "dec_fields (Suc n) s = (let (x, s) = dec_field s in x # dec_fields n s)"

definition sample_compact :: "string \<Rightarrow> string option" where
  "sample_compact p = (if p \<noteq> [] \<and> hd p = CHR ''{'' then Some p else None)"

definition sample_codec :: codec where
  "sample_codec =
     \<lparr>co_frame = \<lambda>s. (case dec_fields 8 s of
          [t, sid, req, hint, payload, code, msg, auth] \<Rightarrow>
            Some \<lparr>fr_t = t, fr_sid = sid, fr_req = req, fr_hint = hint, fr_payload = payload, fr_code = code, fr_msg = msg, fr_auth = auth\<rparr>
        | _ \<Rightarrow> None),
      co_encode = \<lambda>f. (if fr_payload f \<noteq> [] \<and> sample_compact (fr_payload f) = None then None
        else Some (concat (map enc_field [fr_t f, fr_sid f, fr_req f, fr_hint f, fr_payload f, fr_code f, fr_msg f, fr_auth f]))),
      co_compact = sample_compact,
      co_register = \<lambda>s. None,
      co_envelope = \<lambda>p. (if sample_compact p = None then None else Some (''2.0'', ANum 1, ''m'')),
      co_json = \<lambda>v. ''{}''\<rparr>"

lemma takeWhile_replicate_Cons: "c \<noteq> d \<Longrightarrow> takeWhile (\<lambda>x. x = c) (replicate n c @ d # s) = replicate n c"
  by (induction n) auto

lemma dec_enc_field [simp]: "dec_field (enc_field s @ r) = (s, r)"
  by (simp add: dec_field_def enc_field_def takeWhile_replicate_Cons Let_def)

lemma dec_enc_fields: "dec_fields (length xs) (concat (map enc_field xs) @ r) = xs"
  by (induction xs) simp_all

lemma sample_codec_ok: "codec_ok sample_codec"
proof -
  have "co_frame sample_codec b = Some (f\<lparr>fr_payload := compacted sample_codec (fr_payload f)\<rparr>)"
    if "co_encode sample_codec f = Some b" for f b
  proof -
    have p: "compacted sample_codec (fr_payload f) = fr_payload f"
      using that by (auto simp: sample_codec_def compacted_def sample_compact_def split: if_splits)
    have b: "b = concat (map enc_field [fr_t f, fr_sid f, fr_req f, fr_hint f, fr_payload f, fr_code f, fr_msg f, fr_auth f]) @ []"
      using that by (auto simp: sample_codec_def split: if_splits)
    have l: "length [fr_t f, fr_sid f, fr_req f, fr_hint f, fr_payload f, fr_code f, fr_msg f, fr_auth f] = 8" by simp
    have d: "dec_fields 8 b = [fr_t f, fr_sid f, fr_req f, fr_hint f, fr_payload f, fr_code f, fr_msg f, fr_auth f]"
      unfolding b by (subst l [symmetric]) (rule dec_enc_fields)
    then show ?thesis unfolding p by (simp add: sample_codec_def)
  qed
  then show ?thesis
    unfolding codec_ok_def by (auto simp: sample_codec_def sample_compact_def split: if_splits)
qed

definition sample_call :: "(tunnel \<Rightarrow> tunnel) \<Rightarrow> (tunnel \<Rightarrow> tunnel) \<Rightarrow> call" where
  "sample_call w1 w2 =
     \<lparr>cl_draining = False, cl_client = ''a'', cl_body = Some ''{}'', cl_auth = [], cl_req = ''r'', cl_sid = ''s2'', cl_chan = 2,
      cl_now = 0, cl_before = \<lambda>t. t, cl_registering = \<lambda>t. t, cl_opened = True, cl_open = \<lparr>wa_between = w1, wa_done = False\<rparr>,
      cl_sent = True, cl_resp = \<lparr>wa_between = w2, wa_done = False\<rparr>, cl_closed = True\<rparr>"

definition sample_http :: "string \<Rightarrow> bool \<Rightarrow> nat \<Rightarrow> exchange" where
  "sample_http p st n = Answer 200 [] (Some ''{1}'')"

definition sample_env :: "string \<Rightarrow> (any \<times> string) option" where
  "sample_env p = Some (ANum 1, ''m'')"

definition sample_agent :: "nat \<Rightarrow> mcp_agent" where
  "sample_agent n =
     (let c = sample_call (\<lambda>t. t) (\<lambda>t. t); a = NewRelayClient [] True;
          a1 = attend sample_codec sample_env sample_http (marshalled sample_codec (open_frame c ''m'')) a
      in if n = 0 then a else if n = 1 then a1
         else attend sample_codec sample_env sample_http (marshalled sample_codec (rpc_frame c ''{}'')) a1)"

definition sample_answered :: call where
  "sample_answered =
     sample_call
       (deliver sample_codec 0 ''a'' 1 (drop (length (ma_out (sample_agent 0))) (ma_out (sample_agent 1))))
       (deliver sample_codec 0 ''a'' 2 (drop (length (ma_out (sample_agent 1))) (ma_out (sample_agent 2))))"

lemma sample_frames: "open_frame sample_answered l = open_frame (sample_call (\<lambda>t. t) (\<lambda>t. t)) l"
  "rpc_frame sample_answered l = rpc_frame (sample_call (\<lambda>t. t) (\<lambda>t. t)) l"
  by (simp_all add: open_frame_def rpc_frame_def sample_answered_def sample_call_def)

lemma sample_no_sse: "isSSEBody [] ''{1}'' = False"
proof -
  have "TrimSpace ''{1}'' = ''{1}''" by (simp add: TrimSpace_def trim_with.simps byte_def)
  then show ?thesis by (simp add: isSSEBody_def HasPrefix_def ToLower_def)
qed

lemma sample_pref: "ma_pref (sample_agent 0) = True"
  by (simp add: sample_agent_def NewRelayClient_def Let_def)

lemma sample_provider: "callProvider sample_codec (ANum 1) (alone (ma_pref (sample_agent 0))) (sample_http p) 2 = (Some ''{1}'', False)"
  unfolding numeral_2_eq_2 by (simp add: sample_http_def sample_no_sse alone_def sample_pref Let_def)


text \<open>
  A call through the tunnel leaves nothing behind on any of its paths, from a refused envelope to
  an answer, a timeout or a failed write: when the handler returns, the calls in flight, the sessions,
  the pending channels and the counts of the methods are what they were before.
\<close>

theorem mcp_call_cleans_up:
  assumes "TunnelHTTPHandler (mcp_adapter co) maxResp c t = Done (w, t')" "tn_relays t (cl_client c) = Some p"
    and "tn_heap t p = Some r" "tr_sessions r (cl_sid c) = None" "tr_pending r (cl_sid c) = None"
    and "\<And>t. same_account p t (cl_before c t)" "\<And>t. same_account p t (cl_registering c t)"
    and "\<And>t. same_account p t (wa_between (cl_open c) t)" "\<And>t. same_account p t (wa_between (cl_resp c) t)"
  shows "\<exists>r'. tn_heap t' p = Some r' \<and> tr_inflight r' = tr_inflight r \<and> tr_sessions r' = tr_sessions r \<and>
    tr_pending r' = tr_pending r \<and> (\<forall>m. count_of m r' = count_of m r)"
  by (rule mcp.handler_clean [OF assms])

theorem mcp_call_cleans_up_witness:
  "\<exists>w t'. TunnelHTTPHandler (mcp_adapter sample_codec) 10
      ((sample_call (\<lambda>t. t) (\<lambda>t. t))\<lparr>cl_open := \<lparr>wa_between = \<lambda>t. t, wa_done = True\<rparr>\<rparr>) tunnel_example = Done (w, t') \<and>
     map_option tr_sessions (tn_heap t' 0) = map_option tr_sessions (tn_heap tunnel_example 0)"
proof -
  let ?c = "(sample_call (\<lambda>t. t) (\<lambda>t. t))\<lparr>cl_open := \<lparr>wa_between = \<lambda>t. t, wa_done = True\<rparr>\<rparr>"
  have "\<exists>w t'. TunnelHTTPHandler (mcp_adapter sample_codec) 10 ?c tunnel_example = Done (w, t')"
    by (simp add: TunnelHTTPHandler_def sample_call_def tunnel_example_def mcp_adapter_def mcp_validate_def ValidateEnvelope_def
        sample_codec_def sample_compact_def begin_call_def at_limit_def relay_call_def use_relay_def mcp_open_def wait_message_def
        mcp_wait_open_def relay_Register_def on_relay_def Let_def)
  then obtain w t' where h: "TunnelHTTPHandler (mcp_adapter sample_codec) 10 ?c tunnel_example = Done (w, t')" by blast
  have r: "tn_heap tunnel_example 0 = Some (the (tn_heap tunnel_example 0))" by (simp add: tunnel_example_def)
  have "\<exists>r'. tn_heap t' 0 = Some r' \<and> tr_inflight r' = tr_inflight (the (tn_heap tunnel_example 0)) \<and>
      tr_sessions r' = tr_sessions (the (tn_heap tunnel_example 0)) \<and>
      tr_pending r' = tr_pending (the (tn_heap tunnel_example 0)) \<and>
      (\<forall>m. count_of m r' = count_of m (the (tn_heap tunnel_example 0)))"
    by (rule mcp_call_cleans_up [OF h _ r]) (simp_all add: sample_call_def tunnel_example_def same_account_def)
  then have "map_option tr_sessions (tn_heap t' 0) = map_option tr_sessions (tn_heap tunnel_example 0)" by (subst r) auto
  with h show ?thesis by blast
qed

end
