(* ===== verification/AgentState.thy ===== *)
theory AgentState
  imports WorkerSocket
begin

text \<open>
  The state of a worker's agent: \<^verbatim>\<open>sdk/base/agent/workerproxy/state.go\<close> with its \<^verbatim>\<open>config.go\<close>, and the drain
  flag of \<^verbatim>\<open>sdk/base/agent/drain/state.go\<close>.
\<close>

section \<open>State\<close>

text \<open>A nil map or slice and an empty one are not told apart: every reader takes them alike.\<close>

type_synonym settings = "string \<rightharpoonup> string"

record proxy_state =
  ps_state :: string
  ps_server :: bool
  ps_backend :: bool
  ps_jobs :: int
  ps_max :: int
  ps_error :: string
  ps_beat :: time
  ps_id :: string
  ps_name :: string
  ps_version :: string
  ps_config :: settings
  ps_labels :: "string list"

record version_info =
  vi_version :: string
  vi_sha :: string
  vi_date :: string

text \<open>
  What goes over the connection to the server.  \<open>AgentBeat\<close> is a heartbeat with its time, and
  \<open>Relayed\<close> a message of a proxied request.
\<close>

record agent_update =
  au_status :: string
  au_max :: int
  au_models :: "string list"
  au_config :: settings

record agent_register =
  ar_id :: string
  ar_name :: string
  ar_models :: "string list"
  ar_max :: int
  ar_version :: version_info
  ar_config :: settings

datatype agent_msg = Joining agent_register | Updating agent_update | AgentBeat time | Relayed wire

text \<open>
  A connection to the server: \<open>ac_live\<close> while its context has not ended, \<open>ac_queue\<close> the channel
  \<^verbatim>\<open>sendCh\<close>, \<open>ac_written\<close> what has been written, \<open>ac_reading\<close> while the read loop runs, \<open>ac_refusing\<close> what
  that loop itself has still to send, \<open>ac_cancels\<close> the calls under way by their id.
\<close>

record agent_conn =
  ac_live :: bool
  ac_queue :: "agent_msg list"
  ac_written :: "agent_msg list"
  ac_reading :: bool
  ac_refusing :: "wire list"
  ac_cancels :: "string \<rightharpoonup> nat"

text \<open>
  A request being proxied: \<open>ag_done\<close> says that its context was cancelled; while it is \<open>Proxying\<close> there are
  messages left to send and an error to remember at the end.
\<close>

datatype call_phase = Accepted | Proxying "wire list" "string option" | Closed

record agent_call =
  ag_id :: string
  ag_conn :: nat
  ag_done :: bool
  ag_phase :: call_phase

text \<open>
  The process.  \<open>pa_draining\<close> is the flag of package \<^verbatim>\<open>drain\<close>; the copy of it that \<^verbatim>\<open>workerproxy\<close> keeps is
  only written.  \<open>pa_hook\<close> says that \<^verbatim>\<open>Run\<close> has registered its callback, \<open>pa_check\<close> is the connection
  whose \<^verbatim>\<open>checkDrain\<close> is registered, \<open>pa_updates\<close> the channel of status updates, \<open>pa_ended\<close> the end of the
  agent's context.
\<close>

record proxy_agent =
  pa_state :: proxy_state
  pa_build :: version_info
  pa_draining :: bool
  pa_hook :: bool
  pa_check :: "nat option"
  pa_updates :: "agent_update list"
  pa_conns :: "agent_conn list"
  pa_calls :: "agent_call list"
  pa_ended :: bool

text \<open>The configuration; \<open>pc_dynamic\<close> is what \<^verbatim>\<open>AgentConfigFunc\<close> returns, empty when there is none.\<close>

record proxy_config =
  pc_server :: string
  pc_key :: string
  pc_base :: string
  pc_api_key :: string
  pc_probe :: bool
  pc_interval :: duration
  pc_max :: int
  pc_id :: string
  pc_name :: string
  pc_config :: settings
  pc_dynamic :: settings
  pc_drain :: duration
  pc_timeout :: duration
  pc_reconnect :: bool

record probe_result =
  pr_ready :: bool
  pr_models :: "string list"
  pr_max :: int
  pr_config :: settings

definition dev_build :: version_info where
  "dev_build = \<lparr>vi_version = ''dev'', vi_sha = ''unknown'', vi_date = ''unknown''\<rparr>"

definition initial_agent :: proxy_agent where
  "initial_agent =
     \<lparr>pa_state = \<lparr>ps_state = ''disconnected'', ps_server = False, ps_backend = False, ps_jobs = 0, ps_max = 0, ps_error = [],
        ps_beat = 0, ps_id = [], ps_name = [], ps_version = [], ps_config = Map.empty, ps_labels = []\<rparr>,
      pa_build = dev_build, pa_draining = False, pa_hook = False, pa_check = None, pa_updates = [], pa_conns = [],
      pa_calls = [], pa_ended = False\<rparr>"

section \<open>Operations\<close>

definition on_state :: "(proxy_state \<Rightarrow> proxy_state) \<Rightarrow> proxy_agent \<Rightarrow> proxy_agent" where
  "on_state f a = a\<lparr>pa_state := f (pa_state a)\<rparr>"

definition SetBuildInfo :: "string \<Rightarrow> string \<Rightarrow> string \<Rightarrow> proxy_agent \<Rightarrow> proxy_agent" where
  "SetBuildInfo v sha date a =
     on_state (\<lambda>s. s\<lparr>ps_version := v\<rparr>) (a\<lparr>pa_build := \<lparr>vi_version = v, vi_sha = sha, vi_date = date\<rparr>\<rparr>)"

definition SetAgentConfig :: "settings \<Rightarrow> proxy_agent \<Rightarrow> proxy_agent" where
  "SetAgentConfig cfg = on_state (\<lambda>s. s\<lparr>ps_config := cfg\<rparr>)"

text \<open>\<open>keys\<close> are the keys of the map in the order they are visited.\<close>

fun merge_config :: "string list \<Rightarrow> settings \<Rightarrow> settings \<Rightarrow> bool \<times> settings" where
  "merge_config [] cfg m = (False, m)"
| "merge_config (k # ks) cfg m =
     (if m k \<noteq> cfg k then (True, snd (merge_config ks cfg (m(k := cfg k)))) else merge_config ks cfg m)"

definition MergeAgentConfig :: "string list \<Rightarrow> settings \<Rightarrow> proxy_agent \<Rightarrow> bool \<times> proxy_agent" where
  "MergeAgentConfig keys cfg a =
     (let (changed, m) = merge_config keys cfg (ps_config (pa_state a)) in (changed, on_state (\<lambda>s. s\<lparr>ps_config := m\<rparr>) a))"

definition SetWorkerInfo :: "string \<Rightarrow> string \<Rightarrow> int \<Rightarrow> proxy_agent \<Rightarrow> proxy_agent" where
  "SetWorkerInfo i name maxConc = on_state (\<lambda>s. s\<lparr>ps_id := i, ps_name := name, ps_max := maxConc\<rparr>)"

definition SetLabels :: "string list \<Rightarrow> proxy_agent \<Rightarrow> proxy_agent" where
  "SetLabels ls = on_state (\<lambda>s. s\<lparr>ps_labels := ls\<rparr>)"

definition proxy_SetState :: "string \<Rightarrow> proxy_agent \<Rightarrow> proxy_agent" where
  "proxy_SetState st = on_state (\<lambda>s. s\<lparr>ps_state := st\<rparr>)"

definition SetConnectedToServer :: "bool \<Rightarrow> proxy_agent \<Rightarrow> proxy_agent" where
  "SetConnectedToServer v = on_state (\<lambda>s. s\<lparr>ps_server := v\<rparr>)"

definition SetConnectedToBackend :: "bool \<Rightarrow> proxy_agent \<Rightarrow> proxy_agent" where
  "SetConnectedToBackend v = on_state (\<lambda>s. s\<lparr>ps_backend := v\<rparr>)"

definition SetLastError :: "string \<Rightarrow> proxy_agent \<Rightarrow> proxy_agent" where
  "SetLastError e = on_state (\<lambda>s. s\<lparr>ps_error := e\<rparr>)"

definition SetLastHeartbeat :: "time \<Rightarrow> proxy_agent \<Rightarrow> proxy_agent" where
  "SetLastHeartbeat t = on_state (\<lambda>s. s\<lparr>ps_beat := t\<rparr>)"

definition IncJobs :: "proxy_agent \<Rightarrow> proxy_agent" where
  "IncJobs a =
     on_state (\<lambda>s. let s = s\<lparr>ps_jobs := ps_jobs s + 1\<rparr> in
       if ps_server s \<and> \<not> pa_draining a then s\<lparr>ps_state := ''connected_busy''\<rparr> else s) a"

definition DecJobs :: "proxy_agent \<Rightarrow> proxy_agent" where
  "DecJobs a =
     on_state (\<lambda>s. let s = (if 0 < ps_jobs s then s\<lparr>ps_jobs := ps_jobs s - 1\<rparr> else s) in
       if ps_jobs s = 0 \<and> ps_server s \<and> \<not> pa_draining a then s\<lparr>ps_state := ''connected_idle''\<rparr> else s) a"

section \<open>Draining\<close>

text \<open>
  \<open>checkDrain\<close> is the closure of the connection \<open>k\<close>: without a job left a draining agent ends.
\<close>

definition end_conn :: "nat \<Rightarrow> proxy_agent \<Rightarrow> proxy_agent" where
  "end_conn k a = a\<lparr>pa_conns := (pa_conns a)[k := (pa_conns a ! k)\<lparr>ac_live := False\<rparr>]\<rparr>"

definition live :: "nat \<Rightarrow> proxy_agent \<Rightarrow> bool" where
  "live k a \<longleftrightarrow> k < length (pa_conns a) \<and> ac_live (pa_conns a ! k) \<and> \<not> pa_ended a"

definition checkDrain :: "nat \<Rightarrow> proxy_agent \<Rightarrow> proxy_agent" where
  "checkDrain k a =
     (if \<not> live k a then a
      else if pa_draining a \<and> ps_jobs (pa_state a) = 0 then
        (end_conn k (proxy_SetState ''terminating'' a))\<lparr>pa_ended := True\<rparr>
      else a)"

definition setDrainCheck :: "nat option \<Rightarrow> proxy_agent \<Rightarrow> proxy_agent" where
  "setDrainCheck k a = a\<lparr>pa_check := k\<rparr>"

definition triggerDrainCheck :: "proxy_agent \<Rightarrow> proxy_agent" where
  "triggerDrainCheck a = (case pa_check a of None \<Rightarrow> a | Some k \<Rightarrow> checkDrain k a)"

text \<open>A status update that finds the channel full is dropped.\<close>

definition sendStatusUpdate :: "agent_update \<Rightarrow> proxy_agent \<Rightarrow> proxy_agent" where
  "sendStatusUpdate su a = (if length (pa_updates a) < 16 then a\<lparr>pa_updates := pa_updates a @ [su]\<rparr> else a)"

text \<open>The callback \<^verbatim>\<open>Run\<close> registers with package \<^verbatim>\<open>drain\<close>.\<close>

definition on_drain :: "proxy_config \<Rightarrow> proxy_agent \<Rightarrow> proxy_agent" where
  "on_drain cfg a =
     (if pa_draining a then
        triggerDrainCheck
          (sendStatusUpdate \<lparr>au_status = ''draining'', au_max = 0, au_models = [], au_config = Map.empty\<rparr>
            (SetWorkerInfo (pc_id cfg) (pc_name cfg) 0 (proxy_SetState ''draining'' a)))
      else
        let s = pa_state a;
            newStatus = (if ps_server s then if 0 < ps_jobs s then ''connected_busy'' else ''connected_idle'' else ''disconnected'')
        in sendStatusUpdate \<lparr>au_status = ''idle'', au_max = ps_max s, au_models = [], au_config = Map.empty\<rparr>
             (proxy_SetState newStatus a))"

definition OnCheck :: "proxy_agent \<Rightarrow> proxy_agent" where
  "OnCheck a = a\<lparr>pa_hook := True\<rparr>"

definition drain_trigger :: "proxy_config \<Rightarrow> proxy_agent \<Rightarrow> proxy_agent" where
  "drain_trigger cfg a = (if pa_hook a then on_drain cfg a else a)"

definition drain_Start :: "proxy_config \<Rightarrow> proxy_agent \<Rightarrow> proxy_agent" where
  "drain_Start cfg a = drain_trigger cfg (a\<lparr>pa_draining := True\<rparr>)"

definition drain_Stop :: "proxy_config \<Rightarrow> proxy_agent \<Rightarrow> proxy_agent" where
  "drain_Stop cfg a = drain_trigger cfg (a\<lparr>pa_draining := False\<rparr>)"

definition StartDrain :: "proxy_config \<Rightarrow> proxy_agent \<Rightarrow> proxy_agent" where
  "StartDrain cfg a = triggerDrainCheck (drain_Start cfg (proxy_SetState ''draining'' a))"

definition StopDrain :: "proxy_config \<Rightarrow> proxy_agent \<Rightarrow> proxy_agent" where
  "StopDrain cfg a =
     (let s = pa_state a;
          st = (if ps_server s then if 0 < ps_jobs s then ''connected_busy'' else ''connected_idle'' else ''disconnected'')
      in drain_Stop cfg (proxy_SetState st a))"

end
