(* ===== verification/AgentProxy.thy ===== *)
theory AgentProxy
  imports AgentState HttpWriter
begin

text \<open>
  A request proxied by the agent to its backend, \<^verbatim>\<open>sdk/base/agent/workerproxy/http_proxy.go\<close>.
\<close>

section \<open>The request to the backend\<close>

fun forward_all :: "header \<Rightarrow> header \<Rightarrow> header" where
  "forward_all [] h = h"
| "forward_all ((k, v) # hs) h =
     (if EqualFold k ''Authorization'' then forward_all hs h else forward_all hs (set_header k v h))"

definition backend_header :: "proxy_config \<Rightarrow> header \<Rightarrow> header" where
  "backend_header cfg hs =
     (let h = forward_all hs [];
          h = (if pc_api_key cfg \<noteq> [] then set_header ''Authorization'' (''Bearer '' @ pc_api_key cfg) h else h)
      in set_header ''Connection'' ''close'' h)"

section \<open>The answer\<close>

text \<open>
  What becomes of the request: it cannot be made, there is no answer, or there is a status with headers
  and a body read in parts, up to its end or to an error.
\<close>

datatype upstream = NoRequest string | NoAnswer string | Answers int "(string \<times> string list) list" "string list" "string option"

fun join_values :: "string list \<Rightarrow> string" where
  "join_values [] = []"
| "join_values [v] = v"
| "join_values (v # vs) = v @ '', '' @ join_values vs"

definition upstream_error :: "string \<Rightarrow> proxy_error" where
  "upstream_error e = \<lparr>pe_code = ''upstream_error'', pe_message = e\<rparr>"

definition error_messages :: "string \<Rightarrow> string \<Rightarrow> wire list" where
  "error_messages i e =
     [HTTPProxyResponseHeaders i 502 [(''Content-Type'', ''application/json'')],
      HTTPProxyResponseChunk i (''{\"error\":\"'' @ e @ ''\"}''),
      HTTPProxyResponseEnd i (Some (upstream_error e))]"

fun body_messages :: "string \<Rightarrow> string list \<Rightarrow> string option \<Rightarrow> wire list" where
  "body_messages i [] e = [HTTPProxyResponseEnd i (map_option upstream_error e)]"
| "body_messages i (d # ds) e =
     (if d \<noteq> [] then HTTPProxyResponseChunk i d # body_messages i ds e else body_messages i ds e)"

definition proxy_messages :: "string \<Rightarrow> upstream \<Rightarrow> wire list" where
  "proxy_messages i u =
     (case u of
        NoRequest e \<Rightarrow> error_messages i e
      | NoAnswer e \<Rightarrow> error_messages i e
      | Answers st hs ds e \<Rightarrow>
          HTTPProxyResponseHeaders i st (map (\<lambda>(k, vs). (k, join_values vs)) hs) # body_messages i ds e)"

definition proxy_failure :: "upstream \<Rightarrow> string option" where
  "proxy_failure u = (case u of NoRequest e \<Rightarrow> Some e | NoAnswer e \<Rightarrow> Some e | _ \<Rightarrow> None)"

section \<open>Steps\<close>

definition on_conn :: "nat \<Rightarrow> (agent_conn \<Rightarrow> agent_conn) \<Rightarrow> proxy_agent \<Rightarrow> proxy_agent" where
  "on_conn k f a = a\<lparr>pa_conns := (pa_conns a)[k := f (pa_conns a ! k)]\<rparr>"

definition on_call :: "nat \<Rightarrow> (agent_call \<Rightarrow> agent_call) \<Rightarrow> proxy_agent \<Rightarrow> proxy_agent" where
  "on_call n f a = a\<lparr>pa_calls := (pa_calls a)[n := f (pa_calls a ! n)]\<rparr>"

text \<open>\<^verbatim>\<open>agent.Send\<close> with a context: \<open>None\<close> is a send that waits, a context that is done sends nothing.\<close>

definition Send :: "bool \<Rightarrow> nat \<Rightarrow> agent_msg \<Rightarrow> proxy_agent \<Rightarrow> proxy_agent option" where
  "Send dn k m a =
     (if dn then Some a
      else if length (ac_queue (pa_conns a ! k)) < 16 then Some (on_conn k (\<lambda>c. c\<lparr>ac_queue := ac_queue c @ [m]\<rparr>) a)
      else None)"

text \<open>The start of \<open>handleHTTPProxy\<close>; \<open>u\<close> is what will become of the request.\<close>

definition begin_proxy :: "nat \<Rightarrow> upstream \<Rightarrow> proxy_agent \<Rightarrow> proxy_agent" where
  "begin_proxy n u a =
     (let c = pa_calls a ! n in
      on_call n (\<lambda>c. c\<lparr>ag_phase := Proxying (proxy_messages (ag_id c) u) (proxy_failure u)\<rparr>)
        (IncJobs (on_conn (ag_conn c) (\<lambda>k. k\<lparr>ac_cancels := (ac_cancels k)(ag_id c \<mapsto> n)\<rparr>) a)))"

definition call_done :: "agent_call \<Rightarrow> proxy_agent \<Rightarrow> bool" where
  "call_done c a \<longleftrightarrow> ag_done c \<or> \<not> live (ag_conn c) a"

definition send_next :: "nat \<Rightarrow> proxy_agent \<Rightarrow> proxy_agent option" where
  "send_next n a =
     (let c = pa_calls a ! n in
      case ag_phase c of
        Proxying (m # ms) e \<Rightarrow>
          map_option (on_call n (\<lambda>c. c\<lparr>ag_phase := Proxying ms e\<rparr>)) (Send (call_done c a) (ag_conn c) (Relayed m) a)
      | _ \<Rightarrow> None)"

text \<open>The end: the deferred clean-up with \<open>onDone\<close>, the check of the connection.\<close>

definition end_proxy :: "nat \<Rightarrow> proxy_agent \<Rightarrow> proxy_agent" where
  "end_proxy n a =
     (let c = pa_calls a ! n;
          a = (case ag_phase c of Proxying _ (Some e) \<Rightarrow> SetLastError e a | _ \<Rightarrow> a);
          a = on_call n (\<lambda>c. c\<lparr>ag_done := True, ag_phase := Closed\<rparr>) a;
          a = on_conn (ag_conn c) (\<lambda>k. k\<lparr>ac_cancels := (ac_cancels k)(ag_id c := None)\<rparr>) a
      in checkDrain (ag_conn c) (DecJobs a))"

end
