(* ===== verification/AgentRun.thy ===== *)
theory AgentRun
  imports AgentProxy
begin

text \<open>
  The agent's life: probes of the backend, connections to the server and the read loop,
  \<^verbatim>\<open>sdk/base/agent/workerproxy/run.go\<close>, and the retries of \<^verbatim>\<open>sdk/base/agent/reconnect.go\<close> with
  \<^verbatim>\<open>core/reconnect/reconnect.go\<close>.
\<close>

section \<open>Retries\<close>

definition Schedule :: "duration list" where
  "Schedule = replicate 3 Second @ replicate 3 (5 * Second) @ replicate 3 (15 * Second)"

definition Delay :: "nat \<Rightarrow> duration" where
  "Delay attempt = (if attempt < length Schedule then Schedule ! attempt else 30 * Second)"

text \<open>
  Each attempt with its error, and whether the context ends during the wait after it.  The result is
  the delays waited for, and what is returned: \<open>None\<close> while it has not returned.
\<close>

datatype attempt_end = Returned "string option" | ContextDone

fun RunWithReconnect :: "bool \<Rightarrow> nat \<Rightarrow> (string option \<times> bool) list \<Rightarrow> duration list \<times> attempt_end option" where
  "RunWithReconnect shouldReconnect attempt [] = ([], None)"
| "RunWithReconnect shouldReconnect attempt ((err, dn) # rs) =
     (if err = None \<or> \<not> shouldReconnect then ([], Some (Returned err))
      else if dn then ([Delay attempt], Some ContextDone)
      else let (ds, r) = RunWithReconnect shouldReconnect (Suc attempt) rs in (Delay attempt # ds, r))"

section \<open>The configuration sent to the server\<close>

definition currentAgentConfig :: "proxy_config \<Rightarrow> proxy_agent \<Rightarrow> settings" where
  "currentAgentConfig cfg a = (pc_config cfg ++ ps_config (pa_state a)) ++ pc_dynamic cfg"

section \<open>Probing\<close>

text \<open>\<open>keys\<close> are the keys of the configuration the probe returned, in the order they are visited.\<close>

definition probe_failed :: "proxy_config \<Rightarrow> string option \<Rightarrow> proxy_agent \<Rightarrow> proxy_agent" where
  "probe_failed cfg err a =
     (let a = proxy_SetState ''not_ready'' (SetLabels [] (SetWorkerInfo (pc_id cfg) (pc_name cfg) 0 (SetConnectedToBackend False a)));
          a = (case err of None \<Rightarrow> a | Some e \<Rightarrow> SetLastError e a)
      in sendStatusUpdate \<lparr>au_status = ''not_ready'', au_max = 0, au_models = [], au_config = Map.empty\<rparr> a)"

definition probe_ready :: "proxy_config \<Rightarrow> string list \<Rightarrow> probe_result \<Rightarrow> proxy_agent \<Rightarrow> proxy_agent" where
  "probe_ready cfg keys res a =
     (let (agentConfigChanged, a) = MergeAgentConfig keys (pr_config res) a;
          prevConnected = ps_backend (pa_state a);
          prevModels = ps_labels (pa_state a);
          prevMaxC = ps_max (pa_state a);
          a = SetConnectedToBackend True a;
          maxc = (if 0 < pr_max res then pr_max res else pc_max cfg);
          a = SetWorkerInfo (pc_id cfg) (pc_name cfg) maxc a;
          a = SetLabels (pr_models res) a;
          a = (if ps_server (pa_state a) \<and> \<not> pa_draining a \<and> ps_jobs (pa_state a) = 0 then proxy_SetState ''connected_idle'' a else a);
          a = SetLastError [] a;
          changed = (\<not> prevConnected \<or> ps_labels (pa_state a) \<noteq> prevModels \<or> prevMaxC \<noteq> maxc \<or> agentConfigChanged)
      in if changed
         then sendStatusUpdate \<lparr>au_status = ''idle'', au_max = ps_max (pa_state a), au_models = ps_labels (pa_state a),
                au_config = pr_config res\<rparr> a
         else a)"

text \<open>The probe returns a result or an error; the result of the function is whether it failed.\<close>

definition probeBackend :: "proxy_config \<Rightarrow> string list \<Rightarrow> string + probe_result \<Rightarrow> proxy_agent \<Rightarrow> bool \<times> proxy_agent" where
  "probeBackend cfg keys res a =
     (if \<not> pc_probe cfg then (False, a)
      else
        case res of
          Inl e \<Rightarrow> (True, probe_failed cfg (Some e) a)
        | Inr r \<Rightarrow> if \<not> pr_ready r then (True, probe_failed cfg None a) else (False, probe_ready cfg keys r a))"

text \<open>The monitor, with what happens before each probe and whether the context ends in the wait after it.\<close>

fun monitorBackend ::
  "proxy_config \<Rightarrow> duration \<Rightarrow> nat \<Rightarrow> ((proxy_agent \<Rightarrow> proxy_agent) \<times> string list \<times> (string + probe_result) \<times> bool) list \<Rightarrow>
   proxy_agent \<Rightarrow> duration list \<times> proxy_agent" where
  "monitorBackend cfg interval attempt [] a = ([], a)"
| "monitorBackend cfg interval attempt ((before, keys, res, dn) # ps) a =
     (let (failed, a) = probeBackend cfg keys res (before a) in
      if failed \<and> \<not> pc_reconnect cfg then ([], a)
      else
        let d = (if failed then Delay attempt else interval) in
        if dn then ([d], a)
        else
          let (ds, a) = monitorBackend cfg interval (if failed then Suc attempt else 0) ps a in (d # ds, a))"

definition probe_interval :: "proxy_config \<Rightarrow> duration" where
  "probe_interval cfg = (if pc_interval cfg \<le> 0 then 20 * Second else pc_interval cfg)"

section \<open>Starting\<close>

text \<open>\<open>Run\<close> up to its first attempt to connect; \<open>now\<close> is the time as it would become the id.\<close>

definition with_id :: "string \<Rightarrow> proxy_config \<Rightarrow> proxy_config" where
  "with_id now cfg = (if pc_id cfg = [] then cfg\<lparr>pc_id := now\<rparr> else cfg)"

definition start_agent :: "proxy_config \<Rightarrow> string list \<Rightarrow> string + probe_result \<Rightarrow> proxy_agent \<Rightarrow> proxy_agent" where
  "start_agent cfg keys res a =
     (let a = SetConnectedToServer False (proxy_SetState ''not_ready'' (SetWorkerInfo (pc_id cfg) (pc_name cfg) 0 a));
          a = SetAgentConfig (currentAgentConfig cfg a) a;
          a = OnCheck (SetConnectedToBackend False a)
      in if pc_probe cfg then snd (probeBackend cfg keys res a)
         else SetLastError [] (SetLabels [] (SetWorkerInfo (pc_id cfg) (pc_name cfg) (pc_max cfg) (SetConnectedToBackend True a))))"

section \<open>A connection\<close>

datatype dial_result = DialFails string | Dialed bool string

definition register_message :: "proxy_config \<Rightarrow> proxy_agent \<Rightarrow> agent_register" where
  "register_message cfg a =
     \<lparr>ar_id = pc_id cfg, ar_name = pc_name cfg, ar_models = ps_labels (pa_state a), ar_max = ps_max (pa_state a),
      ar_version = pa_build a, ar_config = currentAgentConfig cfg a\<rparr>"

text \<open>
  An attempt to connect up to the read loop: a dial that fails with an error, or one that is up, where
  the registration is written or fails with an error.  The result is the error.
\<close>

definition end_attempt :: "string \<Rightarrow> proxy_agent \<Rightarrow> proxy_agent" where
  "end_attempt e a = proxy_SetState ''error'' (SetLastError e a)"

definition connect :: "proxy_config \<Rightarrow> dial_result \<Rightarrow> proxy_agent \<Rightarrow> string option \<times> proxy_agent" where
  "connect cfg d a =
     (let a = SetConnectedToServer False (proxy_SetState ''connecting'' a) in
      case d of
        DialFails e \<Rightarrow> (Some e, end_attempt e a)
      | Dialed written e \<Rightarrow>
          let a = SetLastError [] (proxy_SetState ''connected_idle'' (SetConnectedToServer True a));
              m = register_message cfg a
          in if \<not> written then (Some e, end_attempt e a)
             else
               let k = length (pa_conns a);
                   c = \<lparr>ac_live = True, ac_queue = [], ac_written = [Joining m], ac_reading = True, ac_refusing = [],
                        ac_cancels = Map.empty\<rparr>
               in (None, checkDrain k (setDrainCheck (Some k) (a\<lparr>pa_conns := pa_conns a @ [c]\<rparr>))))"

text \<open>A status update on its way: the baseline configuration and the models are filled in.\<close>

definition fill_update :: "proxy_config \<Rightarrow> proxy_agent \<Rightarrow> agent_update \<Rightarrow> agent_update" where
  "fill_update cfg a su =
     su\<lparr>au_config := currentAgentConfig cfg a ++ au_config su,
        au_models := (if au_models su = [] then ps_labels (pa_state a) else au_models su)\<rparr>"

definition pump_update :: "proxy_config \<Rightarrow> nat \<Rightarrow> proxy_agent \<Rightarrow> proxy_agent option" where
  "pump_update cfg k a =
     (case pa_updates a of
        [] \<Rightarrow> None
      | su # us \<Rightarrow> Send (\<not> live k a) k (Updating (fill_update cfg a su)) (a\<lparr>pa_updates := us\<rparr>))"

definition beat :: "nat \<Rightarrow> time \<Rightarrow> proxy_agent \<Rightarrow> proxy_agent option" where
  "beat k t a = map_option (SetLastHeartbeat t) (Send (\<not> live k a) k (AgentBeat t) a)"

definition write_next :: "nat \<Rightarrow> bool \<Rightarrow> proxy_agent \<Rightarrow> proxy_agent" where
  "write_next k ok a =
     (case ac_queue (pa_conns a ! k) of
        [] \<Rightarrow> a
      | m # ms \<Rightarrow>
          if ok then on_conn k (\<lambda>c. c\<lparr>ac_queue := ms, ac_written := ac_written c @ [m]\<rparr>) a
          else end_conn k (on_conn k (\<lambda>c. c\<lparr>ac_queue := ms\<rparr>) a))"

section \<open>The read loop\<close>

definition refusal :: "string \<Rightarrow> wire list" where
  "refusal i =
     [HTTPProxyResponseHeaders i 503 [(''Content-Type'', ''application/json'')],
      HTTPProxyResponseEnd i (Some \<lparr>pe_code = ''worker_draining'', pe_message = ''worker is draining''\<rparr>)]"

definition take_request :: "nat \<Rightarrow> string \<Rightarrow> proxy_agent \<Rightarrow> proxy_agent" where
  "take_request k i a =
     (if pa_draining a then on_conn k (\<lambda>c. c\<lparr>ac_refusing := refusal i\<rparr>) a
      else a\<lparr>pa_calls := pa_calls a @ [\<lparr>ag_id = i, ag_conn = k, ag_done = False, ag_phase = Accepted\<rparr>]\<rparr>)"

definition take_cancel :: "nat \<Rightarrow> string \<Rightarrow> proxy_agent \<Rightarrow> proxy_agent" where
  "take_cancel k i a =
     (case ac_cancels (pa_conns a ! k) i of
        None \<Rightarrow> a
      | Some n \<Rightarrow> on_conn k (\<lambda>c. c\<lparr>ac_cancels := (ac_cancels c)(i := None)\<rparr>) (on_call n (\<lambda>c. c\<lparr>ag_done := True\<rparr>) a))"

definition refuse_next :: "nat \<Rightarrow> proxy_agent \<Rightarrow> proxy_agent option" where
  "refuse_next k a =
     (case ac_refusing (pa_conns a ! k) of
        [] \<Rightarrow> None
      | m # ms \<Rightarrow> map_option (on_conn k (\<lambda>c. c\<lparr>ac_refusing := ms\<rparr>)) (Send (\<not> live k a) k (Relayed m) a))"

text \<open>
  A failed read ends \<^verbatim>\<open>connectAndServe\<close>; without an error to retry, or when retrying is off, it ends
  \<open>Run\<close> with it.  The context of the connection is not cancelled here: its goroutines live on until a
  write fails.
\<close>

definition read_fails :: "proxy_config \<Rightarrow> nat \<Rightarrow> string \<Rightarrow> proxy_agent \<Rightarrow> proxy_agent" where
  "read_fails cfg k e a =
     (let a = SetConnectedToServer False a;
          quit = (pa_draining a \<or> \<not> pc_reconnect cfg);
          a = (if pa_draining a then a else end_attempt e a);
          a = setDrainCheck None (on_conn k (\<lambda>c. c\<lparr>ac_reading := False\<rparr>) a)
      in if quit then a\<lparr>pa_ended := True\<rparr> else a)"

section \<open>The machine\<close>

datatype agent_step =
    AsProbe "string list" "string + probe_result"
  | AsConnect dial_result
  | AsRequest nat string
  | AsRefuse nat
  | AsCancel nat string
  | AsReadFails nat string
  | AsBegin nat upstream
  | AsSend nat
  | AsEnd nat
  | AsPump nat
  | AsBeat nat time
  | AsWrite nat bool
  | AsDrain
  | AsUndrain

definition reading :: "nat \<Rightarrow> proxy_agent \<Rightarrow> bool" where
  "reading k a \<longleftrightarrow> k < length (pa_conns a) \<and> ac_reading (pa_conns a ! k)"

fun agent_guard :: "proxy_config \<Rightarrow> agent_step \<Rightarrow> proxy_agent \<Rightarrow> bool" where
  "agent_guard cfg (AsProbe keys res) a \<longleftrightarrow> pc_probe cfg \<and> \<not> pa_ended a"
| "agent_guard cfg (AsConnect d) a \<longleftrightarrow> \<not> pa_ended a \<and> (\<forall>c \<in> set (pa_conns a). \<not> ac_reading c)"
| "agent_guard cfg (AsRequest k i) a \<longleftrightarrow> reading k a \<and> live k a \<and> ac_refusing (pa_conns a ! k) = []"
| "agent_guard cfg (AsRefuse k) a \<longleftrightarrow> reading k a \<and> refuse_next k a \<noteq> None"
| "agent_guard cfg (AsCancel k i) a \<longleftrightarrow> reading k a \<and> live k a \<and> ac_refusing (pa_conns a ! k) = []"
| "agent_guard cfg (AsReadFails k e) a \<longleftrightarrow> reading k a \<and> ac_refusing (pa_conns a ! k) = []"
| "agent_guard cfg (AsBegin n u) a \<longleftrightarrow> n < length (pa_calls a) \<and> ag_phase (pa_calls a ! n) = Accepted"
| "agent_guard cfg (AsSend n) a \<longleftrightarrow> n < length (pa_calls a) \<and> send_next n a \<noteq> None"
| "agent_guard cfg (AsEnd n) a \<longleftrightarrow> n < length (pa_calls a) \<and> (\<exists>e. ag_phase (pa_calls a ! n) = Proxying [] e)"
| "agent_guard cfg (AsPump k) a \<longleftrightarrow> live k a \<and> pump_update cfg k a \<noteq> None"
| "agent_guard cfg (AsBeat k t) a \<longleftrightarrow> live k a \<and> beat k t a \<noteq> None"
| "agent_guard cfg (AsWrite k ok) a \<longleftrightarrow> live k a \<and> ac_queue (pa_conns a ! k) \<noteq> []"
| "agent_guard cfg AsDrain a \<longleftrightarrow> True"
| "agent_guard cfg AsUndrain a \<longleftrightarrow> True"

fun agent_do :: "proxy_config \<Rightarrow> agent_step \<Rightarrow> proxy_agent \<Rightarrow> proxy_agent" where
  "agent_do cfg (AsProbe keys res) a = snd (probeBackend cfg keys res a)"
| "agent_do cfg (AsConnect d) a =
     (let (e, a) = connect cfg d a in if e \<noteq> None \<and> \<not> pc_reconnect cfg then a\<lparr>pa_ended := True\<rparr> else a)"
| "agent_do cfg (AsRequest k i) a = take_request k i a"
| "agent_do cfg (AsRefuse k) a = (case refuse_next k a of None \<Rightarrow> a | Some a \<Rightarrow> a)"
| "agent_do cfg (AsCancel k i) a = take_cancel k i a"
| "agent_do cfg (AsReadFails k e) a = read_fails cfg k e a"
| "agent_do cfg (AsBegin n u) a = begin_proxy n u a"
| "agent_do cfg (AsSend n) a = (case send_next n a of None \<Rightarrow> a | Some a \<Rightarrow> a)"
| "agent_do cfg (AsEnd n) a = end_proxy n a"
| "agent_do cfg (AsPump k) a = (case pump_update cfg k a of None \<Rightarrow> a | Some a \<Rightarrow> a)"
| "agent_do cfg (AsBeat k t) a = (case beat k t a of None \<Rightarrow> a | Some a \<Rightarrow> a)"
| "agent_do cfg (AsWrite k ok) a = write_next k ok a"
| "agent_do cfg AsDrain a = drain_Start cfg a"
| "agent_do cfg AsUndrain a = drain_Stop cfg a"

end
