(* ===== verification/McpRun.thy ===== *)
theory McpRun
  imports McpAgent AgentRun
begin

text \<open>
  The probing of the MCP provider, \<^verbatim>\<open>modules/mcp/agent/internal/mcp/run.go\<close>, which decides with the calls
  whether the provider is asked for event streams.
\<close>

text \<open>
  One probe: the request fails with an error, or it is answered with a status, its text, and the body or
  the error of reading it.
\<close>

datatype probe_exchange = ProbeFails string | ProbeAnswer int string "string + string"

definition ProbeProvider :: "(bool \<Rightarrow> probe_exchange) \<Rightarrow> bool \<Rightarrow> string option" where
  "ProbeProvider http allowStreaming =
     (case http allowStreaming of
        ProbeFails e \<Rightarrow> Some e
      | ProbeAnswer code st (Inl e) \<Rightarrow> Some e
      | ProbeAnswer code st (Inr body) \<Rightarrow>
          if 400 \<le> code then
            let msg = TrimSpace body in Some (''status '' @ st @ (if msg \<noteq> [] then '': '' @ msg else []))
          else None)"

definition isNotAcceptable :: "string option \<Rightarrow> bool" where
  "isNotAcceptable err =
     (case err of None \<Rightarrow> False | Some e \<Rightarrow> Contains e ''406'' \<or> Contains (ToLower e) ''not acceptable'')"

text \<open>
  The loop, with the provider at each probe, what the calls do to the preference before it, and whether
  the context ends in the wait after it.  The result is the delays and the preference.
\<close>

fun monitorProvider ::
  "bool \<Rightarrow> nat \<Rightarrow> bool \<Rightarrow> ((bool \<Rightarrow> bool) \<times> (bool \<Rightarrow> probe_exchange) \<times> bool) list \<Rightarrow> bool \<Rightarrow> duration list \<times> bool" where
  "monitorProvider shouldReconnect attempt streaming [] pref = ([], pref)"
| "monitorProvider shouldReconnect attempt streaming ((before, http, dn) # ps) pref =
     (let pref = before pref; err = ProbeProvider http streaming in
      if err \<noteq> None then
        if isNotAcceptable err \<and> streaming then monitorProvider shouldReconnect 0 False ps False
        else if \<not> shouldReconnect then ([], pref)
        else if dn then ([Delay attempt], pref)
        else
          let (ds, p) = monitorProvider shouldReconnect (Suc attempt) streaming ps pref in (Delay attempt # ds, p)
      else
        let pref = streaming in
        if dn then ([20 * Second], pref)
        else let (ds, p) = monitorProvider shouldReconnect 0 streaming ps pref in (20 * Second # ds, p))"

end
