(* ===== verification/AgentSafety.thy ===== *)
theory AgentSafety
  imports AgentRun
begin

text \<open>
  What holds of an agent under every interleaving of its goroutines: the count of jobs, the drain, and
  the capacity it advertises.
\<close>

section \<open>The invariant\<close>

definition proxying :: "agent_call \<Rightarrow> bool" where
  "proxying c \<longleftrightarrow> (\<exists>ms e. ag_phase c = Proxying ms e)"

text \<open>An entry of the table of calls under way refers to its call.\<close>

definition entry_ok :: "agent_call list \<Rightarrow> nat \<Rightarrow> string \<Rightarrow> nat \<Rightarrow> bool" where
  "entry_ok cs k i n \<longleftrightarrow> n < length cs \<and> proxying (cs ! n) \<and> ag_conn (cs ! n) = k \<and> ag_id (cs ! n) = i"

definition agent_ok :: "proxy_agent \<Rightarrow> bool" where
  "agent_ok a \<longleftrightarrow>
     ps_jobs (pa_state a) = int (length (filter proxying (pa_calls a))) \<and>
     (\<forall>n < length (pa_calls a). ag_conn (pa_calls a ! n) < length (pa_conns a)) \<and>
     (\<forall>k. pa_check a = Some k \<longrightarrow> k < length (pa_conns a)) \<and>
     (\<forall>k < length (pa_conns a). \<forall>i n. ac_cancels (pa_conns a ! k) i = Some n \<longrightarrow> entry_ok (pa_calls a) k i n)"

lemma entry_append: "entry_ok cs k i n \<Longrightarrow> entry_ok (cs @ [c]) k i n"
  by (simp add: entry_ok_def nth_append)

lemma entry_update:
  "entry_ok cs k i m \<Longrightarrow> n = m \<longrightarrow> proxying y \<and> ag_conn y = ag_conn (cs ! n) \<and> ag_id y = ag_id (cs ! n) \<Longrightarrow>
   entry_ok (cs[n := y]) k i m"
  by (cases "n = m") (auto simp: entry_ok_def nth_list_update)

text \<open>What the operations leave alone.\<close>

named_theorems agent_defs

lemmas state_ops [agent_defs] = on_state_def SetWorkerInfo_def SetLabels_def proxy_SetState_def SetConnectedToServer_def
  SetConnectedToBackend_def SetLastError_def SetLastHeartbeat_def SetAgentConfig_def MergeAgentConfig_def OnCheck_def
  setDrainCheck_def sendStatusUpdate_def

lemma agent_ok_cong:
  "agent_ok a \<Longrightarrow> ps_jobs (pa_state a') = ps_jobs (pa_state a) \<Longrightarrow> pa_calls a' = pa_calls a \<Longrightarrow> pa_conns a' = pa_conns a \<Longrightarrow>
   pa_check a' = pa_check a \<or> pa_check a' = None \<Longrightarrow> agent_ok a'"
  by (auto simp: agent_ok_def)

lemma ok_end_conn: "agent_ok a \<Longrightarrow> agent_ok (end_conn k a)"
  by (cases "k < length (pa_conns a)") (auto simp: agent_ok_def end_conn_def nth_list_update)

lemma ok_ended: "agent_ok (a\<lparr>pa_ended := b\<rparr>) = agent_ok a" "agent_ok (a\<lparr>pa_draining := b\<rparr>) = agent_ok a"
  "agent_ok (a\<lparr>pa_updates := us\<rparr>) = agent_ok a"
  by (simp_all add: agent_ok_def)

lemma ok_state: "ps_jobs (f (pa_state a)) = ps_jobs (pa_state a) \<Longrightarrow> agent_ok (on_state f a) = agent_ok a"
  by (simp add: agent_ok_def on_state_def)

lemma ok_ops [simp]:
  "agent_ok (SetWorkerInfo i m c a) = agent_ok a" "agent_ok (SetLabels ls a) = agent_ok a" "agent_ok (proxy_SetState st a) = agent_ok a"
  "agent_ok (SetConnectedToServer v a) = agent_ok a" "agent_ok (SetConnectedToBackend v a) = agent_ok a"
  "agent_ok (SetLastError e a) = agent_ok a" "agent_ok (SetLastHeartbeat t a) = agent_ok a" "agent_ok (SetAgentConfig cfg a) = agent_ok a"
  "agent_ok (OnCheck a) = agent_ok a" "agent_ok (sendStatusUpdate su a) = agent_ok a"
  by (simp_all add: agent_ok_def agent_defs)

lemma ok_checkDrain: "agent_ok a \<Longrightarrow> agent_ok (checkDrain k a)"
  by (simp add: checkDrain_def ok_ended ok_end_conn)

lemma ok_trigger: "agent_ok a \<Longrightarrow> agent_ok (drain_trigger cfg a)"
  by (auto simp: drain_trigger_def on_drain_def triggerDrainCheck_def Let_def intro!: ok_checkDrain split: option.split)

lemma ok_on_conn:
  "agent_ok a \<Longrightarrow> (\<And>i n. ac_cancels (f (pa_conns a ! k)) i = Some n \<Longrightarrow> ac_cancels (pa_conns a ! k) i = Some n) \<Longrightarrow> agent_ok (on_conn k f a)"
  by (cases "k < length (pa_conns a)") (auto simp: agent_ok_def on_conn_def nth_list_update)

lemma ok_Send: "agent_ok a \<Longrightarrow> Send dn k m a = Some a' \<Longrightarrow> agent_ok a'"
  by (auto simp: Send_def intro!: ok_on_conn split: if_splits)

lemma ok_pump: "agent_ok a \<Longrightarrow> pump_update cfg k a = Some b \<Longrightarrow> agent_ok b"
  using ok_Send [of "a\<lparr>pa_updates := tl (pa_updates a)\<rparr>"] by (auto simp: pump_update_def ok_ended split: list.splits)

lemma ok_merge: "agent_ok (snd (MergeAgentConfig ks cfg a)) = agent_ok a"
  by (simp add: MergeAgentConfig_def ok_state Let_def split: prod.split)

lemma ok_failed: "agent_ok a \<Longrightarrow> agent_ok (probe_failed cfg e a)"
  by (cases e) (simp_all add: probe_failed_def Let_def)

lemma ok_ready: "agent_ok a \<Longrightarrow> agent_ok (probe_ready cfg keys r a)"
proof -
  assume "agent_ok a"
  moreover obtain ch b where b: "MergeAgentConfig keys (pr_config r) a = (ch, b)" by fastforce
  ultimately have "agent_ok b" using ok_merge [of keys "pr_config r" a] by simp
  then show ?thesis unfolding probe_ready_def b Let_def prod.case by simp
qed

lemma ok_probe: "agent_ok a \<Longrightarrow> agent_ok (snd (probeBackend cfg keys res a))"
  by (cases res) (simp_all add: probeBackend_def ok_failed ok_ready)

text \<open>A call whose phase changes but that proxies as before.\<close>

lemma filter_update:
  "n < length xs \<Longrightarrow> P (xs ! n) = P y \<Longrightarrow> length (filter P (xs[n := y])) = length (filter P xs)"
  by (induction xs arbitrary: n) (auto split: nat.split simp: nth_Cons')

lemma filter_start:
  "n < length xs \<Longrightarrow> \<not> P (xs ! n) \<Longrightarrow> P y \<Longrightarrow> length (filter P (xs[n := y])) = Suc (length (filter P xs))"
proof (induction xs arbitrary: n)
  case (Cons x xs)
  then show ?case by (cases n) auto
qed simp

lemma filter_stop:
  "n < length xs \<Longrightarrow> P (xs ! n) \<Longrightarrow> \<not> P y \<Longrightarrow> Suc (length (filter P (xs[n := y]))) = length (filter P xs)"
proof (induction xs arbitrary: n)
  case (Cons x xs)
  then show ?case by (cases n) auto
qed simp

lemma conn_update:
  "\<forall>n < length cs. ag_conn (cs ! n) < b \<Longrightarrow> n < length cs \<Longrightarrow> ag_conn y = ag_conn (cs ! n) \<Longrightarrow>
   \<forall>m < length (cs[n := y]). ag_conn (cs[n := y] ! m) < b"
  by (simp add: nth_list_update)

lemma ok_on_call:
  assumes "agent_ok a" "n < length (pa_calls a)" "proxying (f (pa_calls a ! n)) = proxying (pa_calls a ! n)"
    "ag_conn (f (pa_calls a ! n)) = ag_conn (pa_calls a ! n)" "ag_id (f (pa_calls a ! n)) = ag_id (pa_calls a ! n)"
  shows "agent_ok (on_call n f a)"
proof -
  let ?cs = "(pa_calls a)[n := f (pa_calls a ! n)]"
  have "length (filter proxying ?cs) = length (filter proxying (pa_calls a))"
    by (rule filter_update) (use assms in auto)
  moreover have "entry_ok ?cs k i m" if "entry_ok (pa_calls a) k i m" for k i m
    by (rule entry_update [OF that]) (use that assms in \<open>auto simp: entry_ok_def\<close>)
  moreover have "\<forall>m < length ?cs. ag_conn (?cs ! m) < length (pa_conns a)"
    by (rule conn_update) (use assms in \<open>auto simp: agent_ok_def\<close>)
  ultimately show ?thesis using assms(1) by (simp add: agent_ok_def on_call_def)
qed

lemma ok_begin:
  assumes "agent_ok a" "n < length (pa_calls a)" "ag_phase (pa_calls a ! n) = Accepted"
  shows "agent_ok (begin_proxy n u a)"
proof -
  let ?c = "pa_calls a ! n"
  let ?y = "?c\<lparr>ag_phase := Proxying (proxy_messages (ag_id ?c) u) (proxy_failure u)\<rparr>"
  let ?cs = "(pa_calls a)[n := ?y]"
  have c: "ag_conn ?c < length (pa_conns a)" "\<not> proxying ?c" "proxying ?y" using assms by (auto simp: agent_ok_def proxying_def)
  have l: "length (filter proxying ?cs) = Suc (length (filter proxying (pa_calls a)))"
    by (rule filter_start) (use assms(2) c in auto)
  have s: "\<forall>m < length ?cs. ag_conn (?cs ! m) < length (pa_conns a)"
    by (rule conn_update) (use assms in \<open>auto simp: agent_ok_def\<close>)
  have old: "entry_ok ?cs k i m" if "entry_ok (pa_calls a) k i m" for k i m
    by (rule entry_update [OF that]) (use that c in \<open>auto simp: entry_ok_def\<close>)
  have new: "entry_ok ?cs (ag_conn ?c) (ag_id ?c) n" using assms(2) c(3) by (simp add: entry_ok_def)
  show ?thesis using assms(1) c(1) l s old new
    by (simp add: begin_proxy_def agent_ok_def on_call_def on_conn_def IncJobs_def on_state_def Let_def nth_list_update)
qed

lemma ok_end:
  assumes "agent_ok a" "n < length (pa_calls a)" "proxying (pa_calls a ! n)"
  shows "agent_ok (end_proxy n a)"
proof -
  let ?c = "pa_calls a ! n"
  let ?y = "?c\<lparr>ag_done := True, ag_phase := Closed\<rparr>"
  let ?cs = "(pa_calls a)[n := ?y]"
  have l: "Suc (length (filter proxying ?cs)) = length (filter proxying (pa_calls a))"
    by (rule filter_stop) (use assms in \<open>auto simp: proxying_def\<close>)
  have s: "\<forall>m < length ?cs. ag_conn (?cs ! m) < length (pa_conns a)"
    by (rule conn_update) (use assms in \<open>auto simp: agent_ok_def\<close>)
  define b where "b = (case ag_phase ?c of Proxying _ (Some e) \<Rightarrow> SetLastError e a | _ \<Rightarrow> a)"
  have b: "agent_ok b" "pa_calls b = pa_calls a" "pa_conns b = pa_conns a" "pa_check b = pa_check a"
    using assms(1) by (auto simp: b_def SetLastError_def on_state_def agent_ok_def split: call_phase.splits option.splits)
  have e: "entry_ok ?cs k i m" if "entry_ok (pa_calls a) k i m" "(k, i) \<noteq> (ag_conn ?c, ag_id ?c)" for k i m
    by (rule entry_update [OF that(1)]) (use that in \<open>auto simp: entry_ok_def\<close>)
  have k: "ag_conn ?c < length (pa_conns a)" using assms(1,2) by (simp add: agent_ok_def)
  have en: "entry_ok (pa_calls a) k i m" if "k < length (pa_conns a)" "ac_cancels (pa_conns a ! k) i = Some m" for k i m
    using that assms(1) by (simp add: agent_ok_def)
  have "agent_ok (DecJobs (on_conn (ag_conn ?c) (\<lambda>k. k\<lparr>ac_cancels := (ac_cancels k)(ag_id ?c := None)\<rparr>)
      (on_call n (\<lambda>c. c\<lparr>ag_done := True, ag_phase := Closed\<rparr>) b)))"
    using b(1) l s k
    by (auto simp: agent_ok_def b(2-) on_call_def on_conn_def DecJobs_def on_state_def Let_def nth_list_update
        intro!: e en split: if_splits)
  then show ?thesis unfolding end_proxy_def Let_def b_def by (rule ok_checkDrain)
qed

lemma ok_connect: "agent_ok a \<Longrightarrow> agent_ok (snd (connect cfg d a))"
proof -
  assume a: "agent_ok a"
  define b where "b = SetLastError [] (proxy_SetState ''connected_idle'' (SetConnectedToServer True
    (SetConnectedToServer False (proxy_SetState ''connecting'' a))))"
  have b: "agent_ok b" using a by (simp add: b_def)
  have "agent_ok (setDrainCheck (Some (length (pa_conns b))) (b\<lparr>pa_conns := pa_conns b @ [c]\<rparr>))"
    if "ac_cancels c = Map.empty" for c
    using b that by (auto simp: agent_ok_def setDrainCheck_def nth_append less_Suc_eq)
  from ok_checkDrain [OF this] a show ?thesis
    by (auto simp: connect_def end_attempt_def Let_def b_def split: dial_result.split)
qed

lemma agent_do_ok:
  assumes "agent_ok a" "agent_guard cfg e a"
  shows "agent_ok (agent_do cfg e a)"
proof (cases e)
  case (AsProbe keys res)
  with assms show ?thesis by (simp add: ok_probe)
next
  case (AsConnect d)
  with ok_connect [OF assms(1), of cfg d] show ?thesis by (auto simp: ok_ended Let_def split: prod.splits)
next
  case (AsRequest k i)
  with assms show ?thesis
    by (auto simp: take_request_def reading_def intro!: ok_on_conn)
       (auto simp: agent_ok_def proxying_def nth_append entry_append)
next
  case (AsRefuse k)
  with assms show ?thesis
    by (auto simp: refuse_next_def intro!: ok_on_conn intro: ok_Send split: list.splits)
next
  case (AsCancel k i)
  show ?thesis
  proof (cases "ac_cancels (pa_conns a ! k) i")
    case (Some n)
    with assms AsCancel have n: "n < length (pa_calls a)" by (auto simp: agent_ok_def entry_ok_def reading_def)
    have "agent_ok (on_call n (\<lambda>c. c\<lparr>ag_done := True\<rparr>) a)"
      by (rule ok_on_call [OF assms(1) n]) (simp_all add: proxying_def)
    then have "agent_ok (on_conn k (\<lambda>c. c\<lparr>ac_cancels := (ac_cancels c)(i := None)\<rparr>) (on_call n (\<lambda>c. c\<lparr>ag_done := True\<rparr>) a))"
      by (rule ok_on_conn) (simp split: if_splits)
    with AsCancel Some show ?thesis by (simp add: take_cancel_def)
  qed (use assms AsCancel in \<open>simp add: take_cancel_def\<close>)
next
  case (AsReadFails k err)
  define b where "b = (if pa_draining a then SetConnectedToServer False a else end_attempt err (SetConnectedToServer False a))"
  have "agent_ok b" using assms(1) by (simp add: b_def end_attempt_def)
  then have "agent_ok (on_conn k (\<lambda>c. c\<lparr>ac_reading := False\<rparr>) b)" by (rule ok_on_conn) simp
  then have "agent_ok (setDrainCheck None (on_conn k (\<lambda>c. c\<lparr>ac_reading := False\<rparr>) b))"
    by (simp add: agent_ok_def setDrainCheck_def)
  moreover have "pa_draining (SetConnectedToServer False a) = pa_draining a" by (simp add: SetConnectedToServer_def on_state_def)
  ultimately show ?thesis using AsReadFails
    by (cases "pa_draining a") (simp_all add: read_fails_def ok_ended Let_def b_def)
next
  case (AsBegin n u)
  with assms show ?thesis by (simp add: ok_begin)
next
  case (AsSend n)
  let ?c = "pa_calls a ! n"
  from assms(2) AsSend obtain m ms er b where m: "n < length (pa_calls a)" "ag_phase ?c = Proxying (m # ms) er"
      "Send (call_done ?c a) (ag_conn ?c) (Relayed m) a = Some b" "agent_do cfg e a = on_call n (\<lambda>c. c\<lparr>ag_phase := Proxying ms er\<rparr>) b"
    by (auto simp: send_next_def Let_def split: call_phase.splits list.splits)
  have "pa_calls b = pa_calls a" using m(3) by (auto simp: Send_def on_conn_def split: if_splits)
  with m show ?thesis using ok_on_call [OF ok_Send [OF assms(1) m(3)], of n] by (simp add: proxying_def)
next
  case (AsEnd n)
  with assms show ?thesis by (auto simp: proxying_def intro!: ok_end)
next
  case (AsPump k)
  with assms show ?thesis by (auto intro: ok_pump)
next
  case (AsBeat k t)
  with assms show ?thesis by (auto simp: beat_def intro: ok_Send)
next
  case (AsWrite k ok)
  with assms show ?thesis by (auto simp: write_next_def intro!: ok_on_conn ok_end_conn split: list.split)
next
  case AsDrain
  with assms show ?thesis by (simp add: drain_Start_def ok_trigger ok_ended)
next
  case AsUndrain
  with assms show ?thesis by (simp add: drain_Stop_def ok_trigger ok_ended)
qed

lemma start_ok: "agent_ok (start_agent cfg keys res (SetBuildInfo v sha date initial_agent))"
proof -
  have "agent_ok (SetBuildInfo v sha date initial_agent)" by (simp add: agent_ok_def SetBuildInfo_def initial_agent_def on_state_def)
  then show ?thesis by (simp add: start_agent_def ok_probe Let_def)
qed

definition started :: "proxy_config \<Rightarrow> proxy_agent \<Rightarrow> bool" where
  "started cfg a \<longleftrightarrow> (\<exists>keys res v sha date. a = start_agent cfg keys res (SetBuildInfo v sha date initial_agent))"

interpretation agent_runs: guarded_machine "started cfg" "agent_guard cfg" "agent_do cfg" agent_ok
  by unfold_locales (auto simp: started_def start_ok agent_do_ok)

section \<open>Ending\<close>

text \<open>Only the checks of the drain, a failed read and a failed attempt end an agent.\<close>

lemma ended_ops [simp]:
  "pa_ended (SetWorkerInfo i m c a) = pa_ended a" "pa_ended (SetLabels ls a) = pa_ended a" "pa_ended (proxy_SetState st a) = pa_ended a"
  "pa_ended (SetConnectedToServer v a) = pa_ended a" "pa_ended (SetConnectedToBackend v a) = pa_ended a"
  "pa_ended (SetLastError e a) = pa_ended a" "pa_ended (SetLastHeartbeat t a) = pa_ended a" "pa_ended (sendStatusUpdate su a) = pa_ended a"
  "pa_ended (on_conn k f a) = pa_ended a" "pa_ended (on_call n g a) = pa_ended a" "pa_ended (end_conn k a) = pa_ended a"
  "pa_ended (IncJobs a) = pa_ended a" "pa_ended (DecJobs a) = pa_ended a" "pa_ended (setDrainCheck q a) = pa_ended a"
  by (simp_all add: agent_defs on_conn_def on_call_def end_conn_def IncJobs_def DecJobs_def)

lemma draining_ops [simp]:
  "pa_draining (SetWorkerInfo i m c a) = pa_draining a" "pa_draining (proxy_SetState st a) = pa_draining a"
  "pa_draining (SetConnectedToServer v a) = pa_draining a" "pa_draining (sendStatusUpdate su a) = pa_draining a"
  "pa_draining (on_conn k f a) = pa_draining a" "pa_draining (on_call n g a) = pa_draining a" "pa_draining (end_conn k a) = pa_draining a"
  "pa_draining (DecJobs a) = pa_draining a" "pa_draining (setDrainCheck q a) = pa_draining a" "pa_draining (SetLastError e a) = pa_draining a"
  by (simp_all add: agent_defs on_conn_def on_call_def end_conn_def DecJobs_def)

lemma ended_Send: "Send dn k m a = Some b \<Longrightarrow> pa_ended b = pa_ended a"
  by (auto simp: Send_def split: if_splits)

lemma ended_check:
  "pa_ended (checkDrain k a) \<Longrightarrow> \<not> pa_ended a \<Longrightarrow>
   pa_draining (checkDrain k a) \<and> ps_jobs (pa_state (checkDrain k a)) = 0"
  by (auto simp: checkDrain_def end_conn_def proxy_SetState_def on_state_def split: if_splits)

lemma ended_trigger:
  "pa_ended (drain_trigger cfg a) \<Longrightarrow> \<not> pa_ended a \<Longrightarrow>
   pa_draining (drain_trigger cfg a) \<and> ps_jobs (pa_state (drain_trigger cfg a)) = 0"
  by (auto simp: drain_trigger_def on_drain_def triggerDrainCheck_def Let_def dest!: ended_check split: if_splits option.splits)

lemma ended_probe: "pa_ended (snd (probeBackend cfg keys res a)) = pa_ended a"
proof -
  have "pa_ended (probe_failed cfg e a) = pa_ended a" for e by (cases e) (simp_all add: probe_failed_def Let_def)
  moreover have "pa_ended (probe_ready cfg keys r a) = pa_ended a" for r
  proof -
    obtain ch b where b: "MergeAgentConfig keys (pr_config r) a = (ch, b)" by fastforce
    then have "pa_ended b = pa_ended a" by (auto simp: MergeAgentConfig_def on_state_def Let_def split: prod.splits)
    then show ?thesis unfolding probe_ready_def b Let_def prod.case by simp
  qed
  ultimately show ?thesis by (cases res) (simp_all add: probeBackend_def)
qed

lemma ends_idle:
  assumes "\<not> pa_ended a" "pa_ended (agent_do cfg e a)" "pc_reconnect cfg" "\<And>k x. e \<noteq> AsReadFails k x"
  shows "pa_draining (agent_do cfg e a) \<and> ps_jobs (pa_state (agent_do cfg e a)) = 0"
proof (cases e)
  case (AsConnect d)
  with assms show ?thesis
    by (auto simp: connect_def end_attempt_def Let_def dest!: ended_check split: dial_result.splits if_splits)
next
  case (AsEnd n)
  with assms show ?thesis
    by (auto simp: end_proxy_def Let_def dest!: ended_check split: call_phase.splits option.splits)
qed (use assms in \<open>auto simp: ended_probe take_request_def refuse_next_def take_cancel_def begin_proxy_def send_next_def
      pump_update_def beat_def write_next_def drain_Start_def drain_Stop_def Let_def
      dest: ended_Send ended_trigger split: if_splits list.splits option.splits call_phase.splits\<close>)

section \<open>Properties\<close>


definition sample_config :: proxy_config where
  "sample_config =
     \<lparr>pc_server = ''s'', pc_key = [], pc_base = ''b'', pc_api_key = ''k'', pc_probe = False, pc_interval = 0, pc_max = 2, pc_id = ''w'',
      pc_name = ''n'', pc_config = Map.empty, pc_dynamic = Map.empty, pc_drain = 0, pc_timeout = 0, pc_reconnect = True\<rparr>"

definition sample_start :: proxy_agent where
  "sample_start = start_agent sample_config [] (Inl []) (SetBuildInfo [] [] [] initial_agent)"

definition sample_connected :: proxy_agent where
  "sample_connected = agent_do sample_config (AsConnect (Dialed True [])) sample_start"

lemmas agent_steps = start_agent_def SetBuildInfo_def initial_agent_def sample_config_def connect_def checkDrain_def live_def
  drain_Start_def drain_Stop_def drain_trigger_def on_drain_def triggerDrainCheck_def end_conn_def Let_def

lemma sample_run: "run (agent_guard sample_config) (agent_do sample_config) [AsConnect (Dialed True [])] sample_start = Some sample_connected"
  by (simp add: sample_connected_def sample_start_def agent_defs agent_steps)


section \<open>The capacity after a drain\<close>

text \<open>
  An agent without a probe: nothing but its start and the drain sets the capacity.
\<close>

definition no_capacity :: "proxy_agent \<Rightarrow> bool" where
  "no_capacity a \<longleftrightarrow> ps_max (pa_state a) = 0 \<and> pa_hook a \<and> (\<forall>su \<in> set (pa_updates a). au_max su = 0)"

lemma max_ops [simp]:
  "ps_max (pa_state (SetLabels ls a)) = ps_max (pa_state a)" "ps_max (pa_state (proxy_SetState st a)) = ps_max (pa_state a)"
  "ps_max (pa_state (SetConnectedToServer v a)) = ps_max (pa_state a)" "ps_max (pa_state (SetConnectedToBackend v a)) = ps_max (pa_state a)"
  "ps_max (pa_state (SetLastError e a)) = ps_max (pa_state a)" "ps_max (pa_state (SetLastHeartbeat t a)) = ps_max (pa_state a)"
  "ps_max (pa_state (sendStatusUpdate su a)) = ps_max (pa_state a)" "ps_max (pa_state (on_conn k f a)) = ps_max (pa_state a)"
  "ps_max (pa_state (on_call n g a)) = ps_max (pa_state a)" "ps_max (pa_state (end_conn k a)) = ps_max (pa_state a)"
  "ps_max (pa_state (IncJobs a)) = ps_max (pa_state a)" "ps_max (pa_state (DecJobs a)) = ps_max (pa_state a)"
  "ps_max (pa_state (setDrainCheck q a)) = ps_max (pa_state a)" "ps_max (pa_state (checkDrain k a)) = ps_max (pa_state a)"
  by (simp_all add: agent_defs on_conn_def on_call_def end_conn_def IncJobs_def DecJobs_def checkDrain_def Let_def)

lemma hook_ops [simp]:
  "pa_hook (SetWorkerInfo i m c a) = pa_hook a" "pa_hook (proxy_SetState st a) = pa_hook a" "pa_hook (SetConnectedToServer v a) = pa_hook a"
  "pa_hook (SetLastError e a) = pa_hook a" "pa_hook (SetLastHeartbeat t a) = pa_hook a" "pa_hook (sendStatusUpdate su a) = pa_hook a"
  "pa_hook (on_conn k f a) = pa_hook a" "pa_hook (on_call n g a) = pa_hook a" "pa_hook (end_conn k a) = pa_hook a"
  "pa_hook (IncJobs a) = pa_hook a" "pa_hook (DecJobs a) = pa_hook a" "pa_hook (setDrainCheck q a) = pa_hook a"
  "pa_hook (checkDrain k a) = pa_hook a"
  by (simp_all add: agent_defs on_conn_def on_call_def end_conn_def IncJobs_def DecJobs_def checkDrain_def)

lemma updates_ops [simp]:
  "pa_updates (SetWorkerInfo i m c a) = pa_updates a" "pa_updates (proxy_SetState st a) = pa_updates a"
  "pa_updates (SetConnectedToServer v a) = pa_updates a"
  "pa_updates (SetLastError e a) = pa_updates a" "pa_updates (SetLastHeartbeat t a) = pa_updates a"
  "pa_updates (on_conn k f a) = pa_updates a" "pa_updates (on_call n g a) = pa_updates a" "pa_updates (end_conn k a) = pa_updates a"
  "pa_updates (IncJobs a) = pa_updates a" "pa_updates (DecJobs a) = pa_updates a" "pa_updates (setDrainCheck q a) = pa_updates a"
  "pa_updates (checkDrain k a) = pa_updates a"
  by (simp_all add: agent_defs on_conn_def on_call_def end_conn_def IncJobs_def DecJobs_def checkDrain_def)

lemma Send_frame:
  "Send dn k m a = Some b \<Longrightarrow> ps_max (pa_state b) = ps_max (pa_state a) \<and> pa_hook b = pa_hook a \<and> pa_updates b = pa_updates a"
  by (auto simp: Send_def split: if_splits)

lemma set_updates: "su \<in> set (pa_updates (sendStatusUpdate x a)) \<Longrightarrow> su = x \<or> su \<in> set (pa_updates a)"
  by (auto simp: sendStatusUpdate_def split: if_splits)

lemma no_capacity_step:
  assumes "no_capacity a" "\<not> pc_probe cfg" "agent_guard cfg e a"
  shows "no_capacity (agent_do cfg e a)"
proof (cases e)
  case (AsConnect d)
  with assms show ?thesis
    by (auto simp: no_capacity_def connect_def end_attempt_def Let_def split: dial_result.splits)
next
  case (AsReadFails k err)
  with assms show ?thesis by (cases "pa_draining a") (auto simp: no_capacity_def read_fails_def end_attempt_def Let_def)
next
  case AsDrain
  with assms show ?thesis
    by (auto simp: no_capacity_def drain_Start_def drain_trigger_def on_drain_def triggerDrainCheck_def SetWorkerInfo_def on_state_def
        dest!: set_updates split: option.splits)
next
  case AsUndrain
  with assms show ?thesis
    by (auto simp: no_capacity_def drain_Stop_def drain_trigger_def on_drain_def Let_def dest!: set_updates)
qed (use assms in \<open>auto simp: no_capacity_def take_request_def refuse_next_def take_cancel_def begin_proxy_def send_next_def end_proxy_def
      pump_update_def beat_def write_next_def Let_def
      dest!: Send_frame split: if_splits list.splits option.splits call_phase.splits\<close>)

lemma no_capacity_run:
  "run (agent_guard cfg) (agent_do cfg) es a = Some b \<Longrightarrow> no_capacity a \<Longrightarrow> \<not> pc_probe cfg \<Longrightarrow> no_capacity b"
  by (induction es arbitrary: a) (auto simp del: agent_do.simps agent_guard.simps simp: no_capacity_step split: if_splits)

text \<open>
  C17: an agent without a probe that is drained is out of service for good: whatever happens after,
  the drain being taken back included, it advertises no capacity in any registration or update.
\<close>

theorem drained_capacity_is_lost:
  assumes "\<not> pc_probe cfg" "pa_hook a" "\<forall>su \<in> set (pa_updates a). au_max su = 0"
    and "run (agent_guard cfg) (agent_do cfg) (AsDrain # es) a = Some b"
  shows "ar_max (register_message cfg b) = 0 \<and> (\<forall>su \<in> set (pa_updates b). au_max su = 0)"
proof -
  have "no_capacity (agent_do cfg AsDrain a)"
    using assms(2,3)
    by (auto simp: no_capacity_def drain_Start_def drain_trigger_def on_drain_def triggerDrainCheck_def SetWorkerInfo_def on_state_def
        dest!: set_updates split: option.splits)
  from no_capacity_run [OF _ this assms(1)] assms(4) have "no_capacity b" by (simp del: agent_do.simps split: if_splits)
  then show ?thesis by (simp add: no_capacity_def register_message_def)
qed

theorem drained_capacity_is_lost_witness:
  "ps_max (pa_state sample_start) = 2 \<and>
   ar_max (register_message sample_config (agent_do sample_config AsUndrain (agent_do sample_config AsDrain sample_start))) = 0"
proof -
  have r: "run (agent_guard sample_config) (agent_do sample_config) [AsDrain, AsUndrain] sample_start =
      Some (agent_do sample_config AsUndrain (agent_do sample_config AsDrain sample_start))" by simp
  have "\<not> pc_probe sample_config" "pa_hook sample_start" "\<forall>su \<in> set (pa_updates sample_start). au_max su = 0"
    and m: "ps_max (pa_state sample_start) = 2"
    by (simp_all add: sample_start_def agent_defs agent_steps)
  from drained_capacity_is_lost [OF this(1-3) r] m show ?thesis by simp
qed

end
