(* ===== verification/AgentDrain.thy ===== *)
theory AgentDrain
  imports AgentSafety
begin

text \<open>When a drain ends the agent, and when it does not.\<close>

section \<open>A drain that ends\<close>

text \<open>
  A drain ends as soon as the last request does: when the agent is draining and the last request
  under way, which belongs to the connection that is up, finishes, the agent ends with it.
\<close>

theorem drain_ends_with_last_job:
  assumes "run (agent_guard cfg) (agent_do cfg) es (start_agent cfg keys res (SetBuildInfo v sha date initial_agent)) = Some a"
    and "pa_draining a" "agent_guard cfg (AsEnd n) a" "live (ag_conn (pa_calls a ! n)) a"
    and "\<And>m. m < length (pa_calls a) \<Longrightarrow> m \<noteq> n \<Longrightarrow> \<not> proxying (pa_calls a ! m)"
  shows "pa_ended (agent_do cfg (AsEnd n) a) \<and> ps_state (pa_state (agent_do cfg (AsEnd n) a)) = ''terminating''"
proof -
  have ok: "agent_ok a" by (rule agent_runs.reach_inv [OF _ assms(1)]) (unfold started_def, blast)
  have n: "n < length (pa_calls a)" "proxying (pa_calls a ! n)" using assms(3) by (auto simp: proxying_def)
  let ?c = "pa_calls a ! n"
  have "\<not> proxying ((pa_calls a)[n := ?c\<lparr>ag_done := True, ag_phase := Closed\<rparr>] ! m)" if "m < length (pa_calls a)" for m
    using assms(5) [OF that] that by (cases "m = n") (auto simp: proxying_def)
  then have "filter proxying ((pa_calls a)[n := ?c\<lparr>ag_done := True, ag_phase := Closed\<rparr>]) = []"
    by (auto simp: filter_empty_conv in_set_conv_nth)
  moreover have "Suc (length (filter proxying ((pa_calls a)[n := ?c\<lparr>ag_done := True, ag_phase := Closed\<rparr>]))) =
      length (filter proxying (pa_calls a))"
    by (rule filter_stop) (use n in \<open>auto simp: proxying_def\<close>)
  ultimately have j: "ps_jobs (pa_state a) = 1" using ok by (simp add: agent_ok_def)
  with assms(2,4) show ?thesis
    by (auto simp: end_proxy_def Let_def checkDrain_def live_def on_conn_def on_call_def DecJobs_def agent_defs end_conn_def
        split: call_phase.split option.split)
qed

text \<open>A request that is served on the connection 0 while the agent starts to drain.\<close>

definition sample_job :: "agent_step list" where
  "sample_job = [AsConnect (Dialed True []), AsRequest 0 ''r'', AsBegin 0 (Answers 200 [] [] None)]"

definition after_steps :: "agent_step list \<Rightarrow> proxy_agent" where
  "after_steps es = the (run (agent_guard sample_config) (agent_do sample_config) es sample_start)"

lemmas agent_machine = agent_defs agent_steps sample_start_def after_steps_def take_request_def begin_proxy_def on_conn_def
  on_call_def IncJobs_def DecJobs_def reading_def send_next_def Send_def call_done_def proxy_messages_def proxy_failure_def
  register_message_def currentAgentConfig_def end_proxy_def

theorem drain_ends_with_last_job_witness:
  "pa_ended (agent_do sample_config (AsEnd 0) (after_steps (sample_job @ [AsDrain, AsSend 0, AsSend 0])))"
proof -
  let ?a = "after_steps (sample_job @ [AsDrain, AsSend 0, AsSend 0])"
  have r: "run (agent_guard sample_config) (agent_do sample_config) (sample_job @ [AsDrain, AsSend 0, AsSend 0]) sample_start = Some ?a"
    by (simp add: agent_machine sample_job_def)
  have "pa_draining ?a" "agent_guard sample_config (AsEnd 0) ?a" "live (ag_conn (pa_calls ?a ! 0)) ?a" "length (pa_calls ?a) = 1"
    by (simp_all add: agent_machine sample_job_def)
  with drain_ends_with_last_job [OF r [unfolded sample_start_def]] show ?thesis by simp
qed

section \<open>A drain that does not\<close>

text \<open>An agent that drains, is connected and has nothing left to do.\<close>

definition idle_draining :: "proxy_agent \<Rightarrow> bool" where
  "idle_draining a \<longleftrightarrow> pa_draining a \<and> \<not> pa_ended a \<and> (\<forall>c \<in> set (pa_calls a). ag_phase c = Closed) \<and>
     (\<exists>k. reading k a)"

lemma frame_ops [simp]:
  "pa_calls (SetLastHeartbeat t a) = pa_calls a" "pa_conns (SetLastHeartbeat t a) = pa_conns a"
  "pa_draining (SetLastHeartbeat t a) = pa_draining a"
  "pa_calls (on_conn k f a) = pa_calls a" "pa_calls (end_conn k a) = pa_calls a"
  by (simp_all add: agent_defs on_conn_def end_conn_def)

lemma reading_on_conn:
  assumes "\<And>c. ac_reading (f c) = ac_reading c"
  shows "reading j (on_conn k f a) = reading j a"
proof (cases "j = k")
  case True
  then show ?thesis unfolding reading_def on_conn_def by (simp add: assms cong: conj_cong)
next
  case False
  then show ?thesis unfolding reading_def on_conn_def by simp
qed

lemma reading_end [simp]: "reading j (end_conn k a) = reading j a"
  using reading_on_conn [of "\<lambda>c. c\<lparr>ac_live := False\<rparr>" j k a] by (simp add: end_conn_def on_conn_def)

lemma Send_idle:
  "Send dn k m a = Some b \<Longrightarrow>
   pa_calls b = pa_calls a \<and> pa_draining b = pa_draining a \<and> pa_ended b = pa_ended a \<and> (\<forall>j. reading j b = reading j a)"
  by (auto simp: Send_def reading_on_conn split: if_splits)

lemma probe_idle:
  "pa_calls (snd (probeBackend cfg keys res a)) = pa_calls a \<and> pa_conns (snd (probeBackend cfg keys res a)) = pa_conns a \<and>
   pa_draining (snd (probeBackend cfg keys res a)) = pa_draining a"
proof -
  have "pa_calls (probe_failed cfg e a) = pa_calls a \<and> pa_conns (probe_failed cfg e a) = pa_conns a \<and>
      pa_draining (probe_failed cfg e a) = pa_draining a" for e
    by (cases e) (simp_all add: probe_failed_def agent_defs Let_def)
  moreover have "pa_calls (probe_ready cfg keys r a) = pa_calls a \<and> pa_conns (probe_ready cfg keys r a) = pa_conns a \<and>
      pa_draining (probe_ready cfg keys r a) = pa_draining a" for r
  proof -
    obtain ch m where "merge_config keys (pr_config r) (ps_config (pa_state a)) = (ch, m)" by fastforce
    then show ?thesis by (simp add: probe_ready_def agent_defs Let_def)
  qed
  ultimately show ?thesis by (cases res) (simp_all add: probeBackend_def)
qed

lemma idle_Send:
  "idle_draining a \<Longrightarrow> Send dn k m a = Some b \<Longrightarrow> idle_draining b"
  using Send_idle [of dn k m a b] by (auto simp: idle_draining_def)

lemma idle_on_conn: "idle_draining a \<Longrightarrow> (\<And>c. ac_reading (f c) = ac_reading c) \<Longrightarrow> idle_draining (on_conn k f a)"
  by (simp add: idle_draining_def reading_on_conn)

lemma idle_refuse: "idle_draining a \<Longrightarrow> refuse_next k a = Some b \<Longrightarrow> idle_draining b"
  by (auto simp: refuse_next_def intro!: idle_on_conn intro: idle_Send split: list.splits)

lemma idle_pump: "idle_draining a \<Longrightarrow> pump_update cfg k a = Some b \<Longrightarrow> idle_draining b"
  using idle_Send [of "a\<lparr>pa_updates := tl (pa_updates a)\<rparr>"]
  by (auto simp: pump_update_def idle_draining_def reading_def split: list.splits)

lemma idle_beat: "idle_draining a \<Longrightarrow> beat k t a = Some b \<Longrightarrow> idle_draining b"
  using idle_Send [of a "\<not> live k a" k "AgentBeat t"] by (auto simp: beat_def idle_draining_def reading_def)

lemma idle_draining_step:
  assumes "idle_draining a" "agent_guard cfg e a" "e \<noteq> AsDrain" "e \<noteq> AsUndrain" "\<And>k x. e \<noteq> AsReadFails k x"
  shows "idle_draining (agent_do cfg e a)"
proof (cases e)
  case (AsProbe keys res)
  with assms(1) probe_idle [of cfg keys res a] show ?thesis by (simp add: idle_draining_def ended_probe reading_def)
next
  case (AsConnect d)
  with assms show ?thesis by (auto simp: idle_draining_def reading_def)
next
  case (AsRequest k i)
  with assms show ?thesis
    using reading_on_conn [of "\<lambda>c. c\<lparr>ac_refusing := refusal i\<rparr>"] by (simp add: idle_draining_def take_request_def)
next
  case (AsRefuse k)
  with assms(1,2) show ?thesis by (auto intro: idle_refuse)
next
  case (AsCancel k i)
  have "idle_draining (on_conn k (\<lambda>c. c\<lparr>ac_cancels := (ac_cancels c)(i := None)\<rparr>) (on_call n (\<lambda>c. c\<lparr>ag_done := True\<rparr>) a))" for n
  proof -
    have "\<forall>c \<in> set ((pa_calls a)[n := (pa_calls a ! n)\<lparr>ag_done := True\<rparr>]). ag_phase c = Closed"
      using assms(1) set_update_subset_insert [of "pa_calls a" n "(pa_calls a ! n)\<lparr>ag_done := True\<rparr>"]
      by (cases "n < length (pa_calls a)") (auto simp: idle_draining_def subset_iff list_update_beyond)
    moreover have "reading j (on_call n (\<lambda>c. c\<lparr>ag_done := True\<rparr>) a) = reading j a" for j by (simp add: reading_def on_call_def)
    ultimately show ?thesis
      using assms(1) reading_on_conn [of "\<lambda>c. c\<lparr>ac_cancels := (ac_cancels c)(i := None)\<rparr>"]
      by (simp add: idle_draining_def on_call_def)
  qed
  with assms(1) AsCancel show ?thesis by (simp add: take_cancel_def split: option.split)
next
  case (AsBegin n u)
  with assms show ?thesis by (auto simp: idle_draining_def)
next
  case (AsSend n)
  with assms(1,2) have "ag_phase (pa_calls a ! n) = Closed" by (auto simp: idle_draining_def)
  with assms(2) AsSend show ?thesis by (simp add: send_next_def)
next
  case (AsEnd n)
  with assms(1,2) show ?thesis by (auto simp: idle_draining_def)
next
  case (AsPump k)
  with assms(1,2) show ?thesis by (auto intro: idle_pump)
next
  case (AsBeat k t)
  with assms(1,2) show ?thesis by (auto intro: idle_beat)
next
  case (AsWrite k ok)
  with assms(1) show ?thesis by (auto simp: idle_draining_def write_next_def reading_on_conn split: list.split)
qed (use assms in auto)

lemma idle_draining_run:
  "run (agent_guard cfg) (agent_do cfg) es a = Some b \<Longrightarrow> idle_draining a \<Longrightarrow> AsDrain \<notin> set es \<Longrightarrow> AsUndrain \<notin> set es \<Longrightarrow>
   \<forall>k x. AsReadFails k x \<notin> set es \<Longrightarrow> idle_draining b"
proof (induction es arbitrary: a)
  case (Cons e es)
  from Cons.prems have g: "agent_guard cfg e a" "run (agent_guard cfg) (agent_do cfg) es (agent_do cfg e a) = Some b"
    by (simp_all del: agent_do.simps agent_guard.simps split: if_splits)
  have "idle_draining (agent_do cfg e a)" by (rule idle_draining_step [OF Cons.prems(2) g(1)]) (use Cons.prems in auto)
  with Cons.IH [OF g(2)] Cons.prems show ?case by simp
qed simp



end
