(* ===== verification/AgentAnswers.thy ===== *)
theory AgentAnswers
  imports AgentDrain GenProperties
begin

text \<open>
  The answers of an agent: what a backend is sent and what the client of a chat completion gets of its
  answer, from the backend behind the agent to the response of the server.
\<close>

section \<open>The request to the backend\<close>

lemma forward_auth: "get_header ''Authorization'' (forward_all hs h) = get_header ''Authorization'' h"
  by (induction hs h rule: forward_all.induct) (simp_all add: get_set_other)

lemma fold_header_eq: "EqualFold k n \<Longrightarrow> EqualFold k k' = EqualFold n k'"
  by (simp add: EqualFold_def)

lemma forward_other:
  "\<not> EqualFold k ''Authorization'' \<Longrightarrow>
   get_header k (forward_all hs h) = (case List.find (\<lambda>(n, _). EqualFold n k) (rev hs) of None \<Rightarrow> get_header k h | Some (_, v) \<Rightarrow> v)"
proof (induction hs h rule: forward_all.induct)
  case (2 n v hs h)
  have f: "List.find P (xs @ [x]) = (case List.find P xs of None \<Rightarrow> if P x then Some x else None | Some y \<Rightarrow> Some y)"
    for P :: "string \<times> string \<Rightarrow> bool" and xs x by (induction xs) auto
  show ?case
  proof (cases "EqualFold n ''Authorization''")
    case True
    with 2 have "\<not> EqualFold n k" by (auto simp: EqualFold_def)
    with True 2 show ?thesis by (simp add: f split: option.split)
  next
    case False
    with 2 show ?thesis
      by (cases "EqualFold n k") (auto simp: f get_set_other split: option.split)
  qed
qed simp

text \<open>
  The credentials of a client do not reach the backend: whatever headers a request brings, the
  backend sees the key the agent is configured with or no authorization at all, and of every other
  header but \<^verbatim>\<open>Connection\<close> the last value the request brings.
\<close>

theorem backend_credentials:
  "get_header ''Authorization'' (backend_header cfg hs) =
     (if pc_api_key cfg = [] then [] else ''Bearer '' @ pc_api_key cfg) \<and>
   get_header ''Connection'' (backend_header cfg hs) = ''close'' \<and>
   (EqualFold k ''Authorization'' \<or> EqualFold k ''Connection'' \<or>
    get_header k (backend_header cfg hs) =
      (case List.find (\<lambda>(n, _). EqualFold n k) (rev hs) of None \<Rightarrow> [] | Some (_, v) \<Rightarrow> v))"
proof -
  have n: "\<not> EqualFold ''Connection'' ''Authorization''" by (simp add: EqualFold_def ToLower_def)
  have e: "get_header x [] = []" for x by (simp add: get_header_def)
  have o: "get_header k (backend_header cfg hs) = get_header k (forward_all hs [])"
    if "\<not> EqualFold k ''Authorization''" "\<not> EqualFold k ''Connection''"
    using that by (simp add: backend_header_def get_set_other EqualFold_sym [of _ k] Let_def)
  have "get_header ''Authorization'' (backend_header cfg hs) = (if pc_api_key cfg = [] then [] else ''Bearer '' @ pc_api_key cfg)"
    using n by (simp add: backend_header_def get_set_other forward_auth e Let_def)
  moreover have "get_header ''Connection'' (backend_header cfg hs) = ''close''" by (simp add: backend_header_def Let_def)
  moreover have "get_header k (backend_header cfg hs) =
      (case List.find (\<lambda>(n, _). EqualFold n k) (rev hs) of None \<Rightarrow> [] | Some (_, v) \<Rightarrow> v)"
    if "\<not> EqualFold k ''Authorization''" "\<not> EqualFold k ''Connection''"
    unfolding o [OF that] forward_other [OF that(1)] e ..
  ultimately show ?thesis by blast
qed

section \<open>The answer of the backend\<close>

definition no_end :: "wire list \<Rightarrow> bool" where
  "no_end ms \<longleftrightarrow> (\<forall>i e. HTTPProxyResponseEnd i e \<notin> set ms)"

lemma chunk_data_simps [simp]:
  "chunk_data (HTTPProxyResponseChunk i d) = d" "chunk_data (HTTPProxyResponseHeaders i st hs) = []"
  "chunk_data (HTTPProxyResponseEnd i e) = []" "chunk_data (HTTPProxyRequest a b c hs stream d) = []"
  "chunk_data (HTTPProxyCancel i) = []" "chunk_data (JobChunk i d) = []" "chunk_data (JobResult i d) = []"
  "chunk_data (JobError i c d) = []"
  by (simp_all add: chunk_data_def)

lemma chunk_bytes: "rl_bytes (gs_relay (gen_chunk js stream True d s)) = (rl_bytes (gs_relay s) \<or> d \<noteq> [])"
  by (simp add: gen_chunk_def relay_chunk_def split: prod.splits)

lemma headers_bytes: "rl_bytes (gen_headers st hs s) = rl_bytes s" "rl_success (gen_headers st hs s) = rl_success s"
  by (simp_all add: gen_headers_def Let_def)

lemma end_bytes: "\<not> rl_success (gs_relay s) \<Longrightarrow> rl_success (gs_relay (gen_end js stream e s)) = (e = None \<or> rl_bytes (gs_relay s))"
  by (auto simp: gen_end_def relay_end_def Let_def split: option.splits)

lemma gen_loop_ends:
  "gen_loop js stream p reqID h timeout ts s g = Done (Some (s', g')) \<Longrightarrow> \<not> rl_success (gs_relay s) \<Longrightarrow>
   \<forall>x \<in> set (taken_messages p h timeout ts g). snd x \<Longrightarrow>
   map fst (taken_messages p h timeout ts g) = ms @ [HTTPProxyResponseEnd i e] \<Longrightarrow> no_end ms \<Longrightarrow>
   rl_success (gs_relay s') = (e = None \<or> rl_bytes (gs_relay s) \<or> concat (map chunk_data ms) \<noteq> [])"
proof (induction ts arbitrary: s g ms)
  case (Cons t ts)
  let ?g = "rt_before t g"
  note loop = Cons.prems(1)
  show ?case
  proof (cases "rt_pick t")
    case Cancelled
    with Cons.prems(4) show ?thesis by (simp add: Let_def)
  next
    case TimerFired
    show ?thesis
    proof (cases "0 < timeout \<and> time_sub (rt_now t) (heartbeat p ?g) > timeout")
      case True
      with TimerFired Cons.prems(4) show ?thesis by (simp add: Let_def)
    next
      case False
      with TimerFired loop have run: "gen_loop js stream p reqID h timeout ts s ?g = Done (Some (s', g'))"
        by (simp add: Let_def)
      have "taken_messages p h timeout (t # ts) g = taken_messages p h timeout ts ?g" using TimerFired False by (auto simp: Let_def)
      with Cons.IH [OF run Cons.prems(2)] Cons.prems(3-5) show ?thesis by simp
    qed
  next
    case Received
    show ?thesis
    proof (cases "take_message h ?g")
      case Blocks
      with Received loop have run: "gen_loop js stream p reqID h timeout ts s ?g = Done (Some (s', g'))"
        by (simp add: Let_def)
      from Received Blocks have "taken_messages p h timeout (t # ts) g = taken_messages p h timeout ts ?g" by (simp add: Let_def)
      with Cons.IH [OF run Cons.prems(2)] Cons.prems(3-5) show ?thesis by simp
    next
      case Panics
      with Received loop show ?thesis by (simp add: Let_def)
    next
      case (Done x)
      then obtain mo g1 where x: "take_message h ?g = Done (mo, g1)" by (cases x) auto
      show ?thesis
      proof (cases mo)
        case None
        with Received x Cons.prems(4) show ?thesis by (simp add: Let_def)
      next
        case (Some m)
        note step = Received x Some
        have w: "rt_written t" using Cons.prems(3) step by (simp add: Let_def)
        show ?thesis
        proof (cases "\<exists>j f. m = HTTPProxyResponseEnd j f")
          case True
          then obtain j f where m: "m = HTTPProxyResponseEnd j f" by blast
          with step Cons.prems(4) have "ms = []" "f = e" by (cases ms; simp add: Let_def)+
          from m step loop \<open>f = e\<close> have "s' = gen_end js stream e s" by (simp add: Let_def)
          with Cons.prems(2) \<open>ms = []\<close> show ?thesis by (simp add: end_bytes)
        next
          case False
          with step have tk: "taken_messages p h timeout (t # ts) g = (m, rt_written t) # taken_messages p h timeout ts g1"
            by (cases m) (simp_all add: Let_def)
          with Cons.prems(4) False obtain ms' where ms: "ms = m # ms'"
              "map fst (taken_messages p h timeout ts g1) = ms' @ [HTTPProxyResponseEnd i e]" by (cases ms) auto
          then have ne: "no_end ms'" and sw: "\<forall>x \<in> set (taken_messages p h timeout ts g1). snd x"
            using Cons.prems(3,5) unfolding tk by (auto simp: no_end_def)
          note IH = Cons.IH [OF _ _ sw ms(2) ne]
          from False step loop w IH Cons.prems(2) show ?thesis
            by (cases m) (auto simp: Let_def ms(1) chunk_bytes headers_bytes chunk_frame)
        qed
      qed
    qed
  qed
qed simp

lemma body_messages_split:
  "\<exists>ms. body_messages i ds e = ms @ [HTTPProxyResponseEnd i (map_option upstream_error e)] \<and> no_end ms \<and>
     concat (map chunk_data ms) = concat ds"
proof (induction ds)
  case (Cons d ds)
  then obtain ms where ms: "body_messages i ds e = ms @ [HTTPProxyResponseEnd i (map_option upstream_error e)]" "no_end ms"
      "concat (map chunk_data ms) = concat ds" by blast
  show ?case
  proof (cases "d = []")
    case False
    with ms show ?thesis by (intro exI [of _ "HTTPProxyResponseChunk i d # ms"]) (auto simp: no_end_def)
  qed (use ms in auto)
qed (auto simp: no_end_def)

text \<open>The status and the body of what becomes of a request, and whether it has failed.\<close>

definition upstream_status :: "upstream \<Rightarrow> int" where
  "upstream_status u = (case u of Answers st _ _ _ \<Rightarrow> st | _ \<Rightarrow> 502)"

definition upstream_body :: "upstream \<Rightarrow> string" where
  "upstream_body u =
     (case u of Answers _ _ ds _ \<Rightarrow> concat ds | NoRequest e \<Rightarrow> ''{\"error\":\"'' @ e @ ''\"}'' | NoAnswer e \<Rightarrow> ''{\"error\":\"'' @ e @ ''\"}'')"

definition upstream_failed :: "upstream \<Rightarrow> bool" where
  "upstream_failed u = (case u of Answers _ _ _ e \<Rightarrow> e \<noteq> None | _ \<Rightarrow> True)"

lemma proxy_messages_split:
  "\<exists>ms e. proxy_messages i u = ms @ [HTTPProxyResponseEnd i e] \<and> no_end ms \<and> concat (map chunk_data ms) = upstream_body u \<and>
     (e = None \<longleftrightarrow> \<not> upstream_failed u) \<and> first_status (proxy_messages i u) = upstream_status u"
proof (cases u)
  case (Answers st hs ds e)
  obtain ms where "body_messages i ds e = ms @ [HTTPProxyResponseEnd i (map_option upstream_error e)]" "no_end ms"
      "concat (map chunk_data ms) = concat ds" using body_messages_split by blast
  with Answers show ?thesis
    by (intro exI [of _ "HTTPProxyResponseHeaders i st (map (\<lambda>(k, vs). (k, join_values vs)) hs) # ms"]
        exI [of _ "map_option upstream_error e"])
       (auto simp: proxy_messages_def no_end_def upstream_body_def upstream_failed_def upstream_status_def)
next
  case (NoRequest e)
  then show ?thesis
    by (intro exI [of _ "butlast (error_messages i e)"] exI [of _ "Some (upstream_error e)"])
       (auto simp: proxy_messages_def error_messages_def no_end_def upstream_body_def upstream_failed_def upstream_status_def)
next
  case (NoAnswer e)
  then show ?thesis
    by (intro exI [of _ "butlast (error_messages i e)"] exI [of _ "Some (upstream_error e)"])
       (auto simp: proxy_messages_def error_messages_def no_end_def upstream_body_def upstream_failed_def upstream_status_def)
qed



end
