(* ===== verification/AgentControl.thy ===== *)
theory AgentControl
  imports AgentDrain
begin

text \<open>
  The local control server of an agent, \<^verbatim>\<open>sdk/base/agent/drain/control_http.go\<close>, with the shutdown of
  \<^verbatim>\<open>sdk/base/agent/workerproxy/status_http.go\<close>.
\<close>

section \<open>The token\<close>

text \<open>
  \<open>file\<close> is the content of the token file, \<open>random\<close> the random bytes as hex, both \<open>None\<close> when they
  fail; \<open>saved\<close> says whether the directory and the file could be written.
\<close>

definition loadOrCreateToken :: "string option \<Rightarrow> string option \<Rightarrow> bool \<Rightarrow> string option" where
  "loadOrCreateToken file random saved =
     (let tok = (case file of None \<Rightarrow> [] | Some b \<Rightarrow> TrimSpace b) in
      if tok \<noteq> [] then Some tok
      else case random of None \<Rightarrow> None | Some t \<Rightarrow> if saved then Some t else None)"

section \<open>Requests\<close>

text \<open>\<open>cr_loopback\<close> says that the remote address parses to a loopback address.\<close>

record control_request =
  cr_post :: bool
  cr_loopback :: bool
  cr_token :: string

text \<open>The status of a refusal.\<close>

definition control_auth :: "string \<Rightarrow> control_request \<Rightarrow> int option" where
  "control_auth token r =
     (if \<not> cr_post r then Some 405
      else if \<not> cr_loopback r then Some 403
      else if cr_token r \<noteq> token then Some 401
      else None)"

text \<open>\<open>cs_timer\<close> is the instant the drain timer fires at.\<close>

record control_state =
  cs_agent :: proxy_agent
  cs_timer :: "time option"

datatype control = Drain | Undrain | Shutdown

definition wrappedShutdown :: "proxy_agent \<Rightarrow> proxy_agent" where
  "wrappedShutdown a = (proxy_SetState ''terminating'' a)\<lparr>pa_ended := True\<rparr>"

definition control_step :: "proxy_config \<Rightarrow> time \<Rightarrow> control \<Rightarrow> control_state \<Rightarrow> control_state" where
  "control_step cfg now c s =
     (case c of
        Drain \<Rightarrow> \<lparr>cs_agent = drain_Start cfg (cs_agent s), cs_timer = (if 0 < pc_drain cfg then Some (now + pc_drain cfg) else None)\<rparr>
      | Undrain \<Rightarrow> \<lparr>cs_agent = drain_Stop cfg (cs_agent s), cs_timer = None\<rparr>
      | Shutdown \<Rightarrow> s\<lparr>cs_agent := wrappedShutdown (cs_agent s)\<rparr>)"

definition control_handler :: "proxy_config \<Rightarrow> string \<Rightarrow> time \<Rightarrow> control \<Rightarrow> control_request \<Rightarrow> control_state \<Rightarrow> int \<times> control_state" where
  "control_handler cfg token now c r s =
     (case control_auth token r of Some st \<Rightarrow> (st, s) | None \<Rightarrow> (200, control_step cfg now c s))"

definition drain_timer :: "time \<Rightarrow> control_state \<Rightarrow> control_state" where
  "drain_timer now s =
     (case cs_timer s of
        None \<Rightarrow> s
      | Some t \<Rightarrow>
          if t \<le> now then
            \<lparr>cs_agent = (if pa_draining (cs_agent s) then wrappedShutdown (cs_agent s) else cs_agent s), cs_timer = None\<rparr>
          else s)"

text \<open>The steps of the agent and of its control server, in any order.\<close>

datatype control_event = CeAgent agent_step | CeControl time control control_request | CeTimer time

definition control_guard :: "proxy_config \<Rightarrow> control_event \<Rightarrow> control_state \<Rightarrow> bool" where
  "control_guard cfg e s = (case e of CeAgent x \<Rightarrow> agent_guard cfg x (cs_agent s) | _ \<Rightarrow> True)"

definition control_do :: "proxy_config \<Rightarrow> string \<Rightarrow> control_event \<Rightarrow> control_state \<Rightarrow> control_state" where
  "control_do cfg token e s =
     (case e of
        CeAgent x \<Rightarrow> s\<lparr>cs_agent := agent_do cfg x (cs_agent s)\<rparr>
      | CeControl now c r \<Rightarrow> snd (control_handler cfg token now c r s)
      | CeTimer now \<Rightarrow> drain_timer now s)"

section \<open>Lemmas\<close>

text \<open>A draining agent keeps the drain and its deadline until it is told otherwise.\<close>

definition due :: "time \<Rightarrow> control_state \<Rightarrow> bool" where
  "due t s \<longleftrightarrow> pa_ended (cs_agent s) \<or> pa_draining (cs_agent s) \<and> cs_timer s = Some t"

definition keeps_drain :: "string \<Rightarrow> control_event \<Rightarrow> bool" where
  "keeps_drain token e =
     (case e of
        CeControl now c r \<Rightarrow> control_auth token r \<noteq> None \<or> c = Shutdown
      | CeAgent x \<Rightarrow> x \<noteq> AsUndrain
      | CeTimer now \<Rightarrow> True)"

lemma ended_stays: "pa_ended a \<Longrightarrow> agent_guard cfg e a \<Longrightarrow> pa_ended (agent_do cfg e a)"
  by (cases e)
     (auto simp: ended_probe take_request_def refuse_next_def take_cancel_def begin_proxy_def send_next_def end_proxy_def
      pump_update_def beat_def write_next_def drain_Start_def drain_Stop_def drain_trigger_def on_drain_def triggerDrainCheck_def
      read_fails_def end_attempt_def checkDrain_def live_def Let_def
      dest: ended_Send split: if_splits list.splits option.splits call_phase.splits)

lemma draining_frame [simp]:
  "pa_draining (SetLastHeartbeat t a) = pa_draining a" "pa_draining (IncJobs a) = pa_draining a"
  "pa_draining (checkDrain k a) = pa_draining a"
  by (simp_all add: agent_defs IncJobs_def checkDrain_def end_conn_def)

lemma draining_stays:
  "pa_draining a \<Longrightarrow> e \<noteq> AsUndrain \<Longrightarrow> agent_guard cfg e a \<Longrightarrow> pa_draining (agent_do cfg e a)"
  using Send_idle
  by (cases e)
     (fastforce simp: probe_idle take_request_def refuse_next_def take_cancel_def begin_proxy_def send_next_def end_proxy_def
      pump_update_def beat_def write_next_def drain_Start_def drain_trigger_def on_drain_def triggerDrainCheck_def
      read_fails_def end_attempt_def connect_def Let_def
      split: if_splits list.splits option.splits call_phase.splits dial_result.splits prod.splits)+

lemma drain_started: "pa_draining (drain_Start cfg a)"
  by (auto simp: drain_Start_def drain_trigger_def on_drain_def triggerDrainCheck_def split: option.split)

lemma due_step:
  assumes "due t s" "control_guard cfg e s" "keeps_drain token e"
  shows "due t (control_do cfg token e s)"
proof (cases e)
  case (CeAgent x)
  with assms show ?thesis
    using ended_stays [of "cs_agent s" cfg x] draining_stays [of "cs_agent s" x cfg]
    by (auto simp: due_def control_guard_def keeps_drain_def control_do_def simp del: agent_do.simps agent_guard.simps)
next
  case (CeControl now c r)
  with assms show ?thesis
    by (auto simp: due_def keeps_drain_def control_do_def control_handler_def control_step_def wrappedShutdown_def
        split: option.splits)
next
  case (CeTimer now)
  with assms show ?thesis
    by (auto simp: due_def control_do_def drain_timer_def wrappedShutdown_def split: option.split)
qed

lemma due_run:
  "run (control_guard cfg) (control_do cfg token) es s = Some s' \<Longrightarrow> due t s \<Longrightarrow> \<forall>e \<in> set es. keeps_drain token e \<Longrightarrow> due t s'"
  by (induction es arbitrary: s) (auto simp: due_step split: if_splits)

section \<open>Property\<close>

text \<open>
  C16: a drain has an end: once a drain has been accepted with a timeout, whatever the agent does and
  whatever requests are refused in between, the agent is over when the timer fires, jobs that hang
  included, unless an authorized request undrains it or starts another drain.
\<close>

theorem drain_timeout_ends:
  assumes "control_auth token r = None" "0 < pc_drain cfg" "now + pc_drain cfg \<le> now'"
    and "run (control_guard cfg) (control_do cfg token) es (snd (control_handler cfg token now Drain r s)) = Some s'"
    and "\<forall>e \<in> set es. keeps_drain token e"
  shows "pa_ended (cs_agent (drain_timer now' s'))"
proof -
  have "due (now + pc_drain cfg) (snd (control_handler cfg token now Drain r s))"
    using assms(1,2) by (simp add: due_def control_handler_def control_step_def drain_started)
  from due_run [OF assms(4) this assms(5)] have "due (now + pc_drain cfg) s'" .
  with assms(3) show ?thesis by (auto simp: due_def drain_timer_def wrappedShutdown_def split: option.split)
qed

definition loopback_request :: control_request where
  "loopback_request = \<lparr>cr_post = True, cr_loopback = True, cr_token = ''t''\<rparr>"

definition sample_deadline :: proxy_config where
  "sample_deadline = sample_config\<lparr>pc_drain := 60 * Second\<rparr>"

theorem drain_timeout_ends_witness:
  "pa_ended (cs_agent (drain_timer (60 * Second) (snd (control_handler sample_deadline ''t'' 0 Drain loopback_request
     \<lparr>cs_agent = after_steps sample_job, cs_timer = None\<rparr>)))) \<and>
   \<not> pa_ended (cs_agent (snd (control_handler sample_deadline ''t'' 0 Drain loopback_request \<lparr>cs_agent = after_steps sample_job, cs_timer = None\<rparr>)))"
proof -
  have a: "control_auth ''t'' loopback_request = None" "0 < pc_drain sample_deadline" "0 + pc_drain sample_deadline \<le> 60 * Second"
    by (simp_all add: control_auth_def loopback_request_def sample_deadline_def Second_def)
  have "\<not> pa_ended (cs_agent (snd (control_handler sample_deadline ''t'' 0 Drain loopback_request \<lparr>cs_agent = after_steps sample_job, cs_timer = None\<rparr>)))"
    by (simp add: control_handler_def control_step_def a(1) sample_deadline_def agent_machine sample_job_def)
  with drain_timeout_ends [OF a, where es = "[]"] show ?thesis by simp
qed

end
