(* ===== verification/ProviderConfig.thy ===== *)
theory ProviderConfig
  imports ServerSettings
begin

text \<open>
  The settings of the client of MCP providers, \<^verbatim>\<open>mcp/agent/internal/mcpclient/config.go\<close>: the environment,
  the flags, and how a config file is merged with what is set.  Reading a file and YAML are parameters.
\<close>

section \<open>Settings\<close>

record stdio_config =
  st_command :: string
  st_args :: "string list"
  st_env :: "string list"
  st_dir :: string
  st_relative :: bool

record http_config =
  ht_url :: string
  ht_timeout :: duration
  ht_push :: bool
  ht_insecure :: bool

text \<open>A token store is \<open>Some\<close> the file it keeps tokens in.\<close>

record oauth_config =
  oa_enabled :: bool
  oa_url :: string
  oa_id :: string
  oa_secret :: string
  oa_scopes :: "string list"
  oa_store :: "string option"
  oa_file :: string

record client_config =
  cl_file :: string
  cl_order :: "string list"
  cl_init :: duration
  cl_version :: string
  cl_inflight :: int
  cl_stdio :: stdio_config
  cl_http :: http_config
  cl_oauth :: oauth_config
  cl_legacy :: bool

definition zero_config :: client_config where
  "zero_config =
     \<lparr>cl_file = [], cl_order = [], cl_init = 0, cl_version = [], cl_inflight = 0,
      cl_stdio = \<lparr>st_command = [], st_args = [], st_env = [], st_dir = [], st_relative = False\<rparr>,
      cl_http = \<lparr>ht_url = [], ht_timeout = 0, ht_push = False, ht_insecure = False\<rparr>,
      cl_oauth = \<lparr>oa_enabled = False, oa_url = [], oa_id = [], oa_secret = [], oa_scopes = [], oa_store = None, oa_file = []\<rparr>,
      cl_legacy = False\<rparr>"

section \<open>Values\<close>

definition splitList :: "string \<Rightarrow> string list" where
  "splitList v = (if v = [] then [] else map TrimSpace (split_on (CHR '','') v))"

definition parseDuration :: "parsers \<Rightarrow> string \<Rightarrow> duration" where
  "parseDuration ps v = (case pr_duration ps v of None \<Rightarrow> 0 | Some d \<Rightarrow> d)"

text \<open>The value \<^verbatim>\<open>Atoi\<close> returns with its error: 0 for what is no number, the nearest bound out of range.\<close>

definition parseInt :: "string \<Rightarrow> int" where
  "parseInt s =
     (let (neg, ds) = (case s of
                         [] \<Rightarrow> (False, [])
                       | c # cs \<Rightarrow> if c = CHR ''-'' then (True, cs)
                                  else if c = CHR ''+'' then (False, cs) else (False, s))
      in if ds = [] then 0
         else case digits_value ds 0 of
           None \<Rightarrow> 0
         | Some n \<Rightarrow> max (- 9223372036854775808) (min 9223372036854775807 (if neg then - n else n)))"

section \<open>The environment and the flags\<close>

definition env_flag :: "environment \<Rightarrow> string \<Rightarrow> bool \<Rightarrow> bool" where
  "env_flag env k b = (if GetEnv env k [] \<noteq> [] then GetEnv env k [] = ''true'' else b)"

definition env_list :: "environment \<Rightarrow> string \<Rightarrow> string list \<Rightarrow> string list" where
  "env_list env k xs = splitList (GetEnv env k (join_on (CHR '','') xs))"

definition env_duration :: "parsers \<Rightarrow> (duration \<Rightarrow> string) \<Rightarrow> environment \<Rightarrow> string \<Rightarrow> duration \<Rightarrow> duration" where
  "env_duration ps show_duration env k d = parseDuration ps (GetEnv env k (show_duration d))"

definition client_defaults :: "client_config \<Rightarrow> client_config" where
  "client_defaults c =
     (let c = (if cl_order c = [] then c\<lparr>cl_order := [''stdio'', ''http'', ''oauth'']\<rparr> else c);
          c = (if cl_init c = 0 then c\<lparr>cl_init := 5 * Second\<rparr> else c)
      in if ht_timeout (cl_http c) = 0 then c\<lparr>cl_http := (cl_http c)\<lparr>ht_timeout := 30 * Second\<rparr>\<rparr> else c)"

definition client_bind_env ::
  "parsers \<Rightarrow> (duration \<Rightarrow> string) \<Rightarrow> string \<Rightarrow> environment \<Rightarrow> client_config \<Rightarrow> client_config" where
  "client_bind_env ps show_duration default_file env c0 =
     (let c = client_defaults c0; s = cl_stdio c; h = cl_http c; q = cl_oauth c in
      \<lparr>cl_file = GetEnv env ''CONFIG_FILE'' default_file,
       cl_order = env_list env ''MCP_TRANSPORT_ORDER'' (cl_order c),
       cl_init = env_duration ps show_duration env ''MCP_INIT_TIMEOUT'' (cl_init c),
       cl_version = GetEnv env ''MCP_PROTOCOL_VERSION'' (cl_version c),
       cl_inflight = parseInt (GetEnv env ''MCP_MAX_INFLIGHT'' (Itoa (cl_inflight c))),
       cl_stdio =
         \<lparr>st_command = GetEnv env ''MCP_STDIO_COMMAND'' (st_command s),
          st_args = env_list env ''MCP_STDIO_ARGS'' (st_args s),
          st_env = env_list env ''MCP_STDIO_ENV'' (st_env s),
          st_dir = GetEnv env ''MCP_STDIO_WORKDIR'' (st_dir s),
          st_relative = env_flag env ''MCP_STDIO_ALLOW_RELATIVE'' (st_relative s)\<rparr>,
       cl_http =
         \<lparr>ht_url = GetEnv env ''MCP_HTTP_URL'' (ht_url h),
          ht_timeout = env_duration ps show_duration env ''MCP_HTTP_TIMEOUT'' (ht_timeout h),
          ht_push = env_flag env ''MCP_HTTP_ENABLE_PUSH'' (ht_push h),
          ht_insecure = env_flag env ''MCP_HTTP_INSECURE_SKIP_VERIFY'' (ht_insecure h)\<rparr>,
       cl_oauth =
         \<lparr>oa_enabled = env_flag env ''MCP_OAUTH_ENABLED'' (oa_enabled q),
          oa_url = GetEnv env ''MCP_OAUTH_TOKEN_URL'' (oa_url q),
          oa_id = GetEnv env ''MCP_OAUTH_CLIENT_ID'' (oa_id q),
          oa_secret = GetEnv env ''MCP_OAUTH_CLIENT_SECRET'' (oa_secret q),
          oa_scopes = env_list env ''MCP_OAUTH_SCOPES'' (oa_scopes q),
          oa_store = oa_store q,
          oa_file = GetEnv env ''MCP_OAUTH_TOKEN_FILE'' (oa_file q)\<rparr>,
       cl_legacy = env_flag env ''MCP_ENABLE_LEGACY_SSE'' (cl_legacy c)\<rparr>)"

definition client_flags :: "string list" where
  "client_flags =
     [''config'', ''mcp-transport-order'', ''mcp-init-timeout'', ''mcp-protocol-version'', ''mcp-max-inflight'', ''mcp-stdio-command'',
      ''mcp-stdio-args'', ''mcp-stdio-env'', ''mcp-stdio-workdir'', ''mcp-http-url'', ''mcp-http-timeout'', ''mcp-oauth-token-url'',
      ''mcp-oauth-client-id'', ''mcp-oauth-client-secret'', ''mcp-oauth-scopes'', ''mcp-oauth-token-file'']"

definition client_switches :: "string list" where
  "client_switches =
     [''mcp-stdio-allow-relative'', ''mcp-http-enable-push'', ''mcp-http-insecure-skip-verify'', ''mcp-oauth-enabled'',
      ''mcp-enable-legacy-sse'']"

definition client_kinds :: "string \<Rightarrow> bool option" where
  "client_kinds n =
     (if n \<in> set client_switches then Some True else if n \<in> set client_flags then Some False else None)"

definition on_stdio :: "client_config \<Rightarrow> (stdio_config \<Rightarrow> stdio_config) \<Rightarrow> client_config" where
  "on_stdio c f = c\<lparr>cl_stdio := f (cl_stdio c)\<rparr>"

definition on_http :: "client_config \<Rightarrow> (http_config \<Rightarrow> http_config) \<Rightarrow> client_config" where
  "on_http c f = c\<lparr>cl_http := f (cl_http c)\<rparr>"

definition on_oauth :: "client_config \<Rightarrow> (oauth_config \<Rightarrow> oauth_config) \<Rightarrow> client_config" where
  "on_oauth c f = c\<lparr>cl_oauth := f (cl_oauth c)\<rparr>"

definition client_flag :: "parsers \<Rightarrow> string \<Rightarrow> string \<Rightarrow> client_config \<Rightarrow> client_config option" where
  "client_flag ps n v c =
     (if n = ''config'' then Some (c\<lparr>cl_file := v\<rparr>)
      else if n = ''mcp-transport-order'' then Some (c\<lparr>cl_order := splitList v\<rparr>)
      else if n = ''mcp-init-timeout'' then map_option (\<lambda>d. c\<lparr>cl_init := d\<rparr>) (pr_duration ps v)
      else if n = ''mcp-protocol-version'' then Some (c\<lparr>cl_version := v\<rparr>)
      else if n = ''mcp-max-inflight'' then map_option (\<lambda>i. c\<lparr>cl_inflight := i\<rparr>) (pr_int ps v)
      else if n = ''mcp-stdio-command'' then Some (on_stdio c (st_command_update (\<lambda>_. v)))
      else if n = ''mcp-stdio-args'' then Some (on_stdio c (st_args_update (\<lambda>_. splitList v)))
      else if n = ''mcp-stdio-env'' then Some (on_stdio c (st_env_update (\<lambda>_. splitList v)))
      else if n = ''mcp-stdio-workdir'' then Some (on_stdio c (st_dir_update (\<lambda>_. v)))
      else if n = ''mcp-stdio-allow-relative'' then map_option (\<lambda>b. on_stdio c (st_relative_update (\<lambda>_. b))) (ParseBool v)
      else if n = ''mcp-http-url'' then Some (on_http c (ht_url_update (\<lambda>_. v)))
      else if n = ''mcp-http-timeout'' then map_option (\<lambda>d. on_http c (ht_timeout_update (\<lambda>_. d))) (pr_duration ps v)
      else if n = ''mcp-http-enable-push'' then map_option (\<lambda>b. on_http c (ht_push_update (\<lambda>_. b))) (ParseBool v)
      else if n = ''mcp-http-insecure-skip-verify'' then map_option (\<lambda>b. on_http c (ht_insecure_update (\<lambda>_. b))) (ParseBool v)
      else if n = ''mcp-oauth-enabled'' then map_option (\<lambda>b. on_oauth c (oa_enabled_update (\<lambda>_. b))) (ParseBool v)
      else if n = ''mcp-oauth-token-url'' then Some (on_oauth c (oa_url_update (\<lambda>_. v)))
      else if n = ''mcp-oauth-client-id'' then Some (on_oauth c (oa_id_update (\<lambda>_. v)))
      else if n = ''mcp-oauth-client-secret'' then Some (on_oauth c (oa_secret_update (\<lambda>_. v)))
      else if n = ''mcp-oauth-scopes'' then Some (on_oauth c (oa_scopes_update (\<lambda>_. splitList v)))
      else if n = ''mcp-oauth-token-file'' then Some (on_oauth c (oa_file_update (\<lambda>_. v)))
      else if n = ''mcp-enable-legacy-sse'' then map_option (\<lambda>b. c\<lparr>cl_legacy := b\<rparr>) (ParseBool v)
      else None)"

definition client_BindFlags ::
  "parsers \<Rightarrow> (duration \<Rightarrow> string) \<Rightarrow> string \<Rightarrow> environment \<Rightarrow> client_config
    \<Rightarrow> client_config \<times> (string \<Rightarrow> bool option) \<times> (string \<Rightarrow> string \<Rightarrow> client_config \<Rightarrow> client_config option)" where
  "client_BindFlags ps show_duration default_file env c =
     (client_bind_env ps show_duration default_file env c, client_kinds, client_flag ps)"

section \<open>Merging\<close>

text \<open>The value of \<open>src\<close> when it is not the zero value \<open>z\<close>.\<close>

definition over_zero :: "'v \<Rightarrow> 'v \<Rightarrow> 'v \<Rightarrow> 'v" where
  "over_zero z src dst = (if src \<noteq> z then src else dst)"

definition mergeConfig :: "client_config \<Rightarrow> client_config \<Rightarrow> client_config" where
  "mergeConfig dst src =
     (let ds = cl_stdio dst; ss = cl_stdio src; dh = cl_http dst; sh = cl_http src; dq = cl_oauth dst; sq = cl_oauth src in
      \<lparr>cl_file = over_zero [] (cl_file src) (cl_file dst),
       cl_order = over_zero [] (cl_order src) (cl_order dst),
       cl_init = over_zero 0 (cl_init src) (cl_init dst),
       cl_version = over_zero [] (cl_version src) (cl_version dst),
       cl_inflight = over_zero 0 (cl_inflight src) (cl_inflight dst),
       cl_stdio =
         \<lparr>st_command = over_zero [] (st_command ss) (st_command ds),
          st_args = over_zero [] (st_args ss) (st_args ds),
          st_env = over_zero [] (st_env ss) (st_env ds),
          st_dir = over_zero [] (st_dir ss) (st_dir ds),
          st_relative = over_zero False (st_relative ss) (st_relative ds)\<rparr>,
       cl_http =
         \<lparr>ht_url = over_zero [] (ht_url sh) (ht_url dh),
          ht_timeout = over_zero 0 (ht_timeout sh) (ht_timeout dh),
          ht_push = over_zero False (ht_push sh) (ht_push dh),
          ht_insecure = over_zero False (ht_insecure sh) (ht_insecure dh)\<rparr>,
       cl_oauth =
         \<lparr>oa_enabled = over_zero False (oa_enabled sq) (oa_enabled dq),
          oa_url = over_zero [] (oa_url sq) (oa_url dq),
          oa_id = over_zero [] (oa_id sq) (oa_id dq),
          oa_secret = over_zero [] (oa_secret sq) (oa_secret dq),
          oa_scopes = over_zero [] (oa_scopes sq) (oa_scopes dq),
          oa_store = over_zero None (oa_store sq) (oa_store dq),
          oa_file = over_zero [] (oa_file sq) (oa_file dq)\<rparr>,
       cl_legacy = over_zero False (cl_legacy src) (cl_legacy dst)\<rparr>)"

text \<open>\<open>read\<close> gives the bytes of a file, \<open>unmarshal\<close> decodes them; \<open>None\<close> is an error.\<close>

definition client_LoadFile ::
  "(string \<Rightarrow> string option) \<Rightarrow> (string \<Rightarrow> client_config option) \<Rightarrow> string \<Rightarrow> client_config \<Rightarrow> client_config option" where
  "client_LoadFile read unmarshal path c =
     (if path = [] then Some c
      else case read path of
        None \<Rightarrow> None
      | Some data \<Rightarrow> map_option (\<lambda>file_cfg. mergeConfig file_cfg c) (unmarshal data))"

section \<open>The token file\<close>

text \<open>Files by path; \<^verbatim>\<open>json.Marshal\<close> and \<^verbatim>\<open>json.Unmarshal\<close> of a token are parameters.\<close>

definition GetToken :: "(string \<Rightarrow> 'tok option) \<Rightarrow> string \<Rightarrow> (string \<rightharpoonup> string) \<Rightarrow> 'tok option" where
  "GetToken unmarshal path files = Option.bind (files path) unmarshal"

definition SaveToken :: "('tok \<Rightarrow> string option) \<Rightarrow> string \<Rightarrow> 'tok \<Rightarrow> (string \<rightharpoonup> string) \<Rightarrow> (string \<rightharpoonup> string) option" where
  "SaveToken marshal path tok files = map_option (\<lambda>data. files(path \<mapsto> data)) (marshal tok)"

lemma token_saved:
  "SaveToken marshal path tok files = Some files' \<Longrightarrow> (\<And>d. marshal tok = Some d \<Longrightarrow> unmarshal d = Some tok) \<Longrightarrow>
     GetToken unmarshal path files' = Some tok"
  by (auto simp: SaveToken_def GetToken_def)

section \<open>Lemmas\<close>

text \<open>Layers of settings: merging is associative and the zero settings change nothing.\<close>

lemma over_zero_assoc: "over_zero z a (over_zero z b c) = over_zero z (over_zero z a b) c"
  by (simp add: over_zero_def)

lemma merge_assoc: "mergeConfig (mergeConfig a b) c = mergeConfig a (mergeConfig b c)"
  by (simp add: mergeConfig_def Let_def over_zero_assoc)

lemma merge_zero: "mergeConfig c zero_config = c" "mergeConfig zero_config c = c"
  by (simp_all add: mergeConfig_def zero_config_def over_zero_def Let_def)

text \<open>A list survives being joined and split when no element has a comma or space around it.\<close>

lemma split_join:
  assumes "\<forall>x \<in> set xs. c \<notin> set x" "xs \<noteq> []"
  shows "split_on c (join_on c xs) = xs"
  using assms
proof (induction xs rule: join_on.induct)
  case (2 c x)
  have "c \<notin> set x \<Longrightarrow> split_on c x = [x]" by (induction x) auto
  with 2 show ?case by simp
next
  case (3 c x y ys)
  have "c \<notin> set x \<Longrightarrow> split_on c (x @ c # s) = x # split_on c s" for s by (induction x) auto
  with 3 show ?case by simp
qed simp

definition plain_item :: "string \<Rightarrow> bool" where
  "plain_item x \<longleftrightarrow> CHR '','' \<notin> set x \<and> TrimSpace x = x"

lemma join_Nil_iff: "join_on c xs = [] \<longleftrightarrow> xs = [] \<or> xs = [[]]"
  by (cases "(c, xs)" rule: join_on.cases) auto

lemma splitList_parts: "x \<in> set (splitList v) \<Longrightarrow> \<exists>p \<in> set (split_on (CHR '','') v). x = TrimSpace p"
  by (auto simp: splitList_def split: if_splits)

lemma set_TrimSpace: "set (TrimSpace s) \<subseteq> set s"
proof -
  obtain n where n: "trim_with space_len s = drop n s" using trim_with_drop by blast
  obtain m where m: "trim_with space_len_rev (rev (drop n s)) = drop m (rev (drop n s))"
    using trim_with_drop by blast
  have "set (drop m (rev (drop n s))) \<subseteq> set (rev (drop n s))" by (rule set_drop_subset)
  also have "\<dots> \<subseteq> set s" using set_drop_subset [of n s] by simp
  finally show ?thesis by (simp add: TrimSpace_def n m)
qed

lemma env_list_plain:
  assumes "env k = []" "xs \<noteq> [[]]" "\<forall>x \<in> set xs. plain_item x"
  shows "env_list env k xs = xs"
proof (cases "xs = []")
  case False
  have "map TrimSpace xs = xs" using assms(3) by (intro map_idI) (simp add: plain_item_def)
  moreover have "split_on (CHR '','') (join_on (CHR '','') xs) = xs"
    using assms(3) False by (intro split_join) (auto simp: plain_item_def)
  ultimately show ?thesis using assms(1,2) False by (simp add: env_list_def splitList_def GetEnv_def join_Nil_iff)
qed (simp add: env_list_def GetEnv_def assms(1) splitList_def)

lemma env_list_no_comma: "x \<in> set (env_list env k xs) \<Longrightarrow> CHR '','' \<notin> set x"
  unfolding env_list_def using splitList_parts split_on_parts set_TrimSpace by blast

section \<open>Properties\<close>

text \<open>
  With its variable unset, \<open>BindFlags\<close> leaves the arguments of the provider's command as they are when
  none has a comma or space around it, and changes them whenever one has a comma.
\<close>

theorem bound_arguments:
  assumes "env ''MCP_STDIO_ARGS'' = []" "client_bind_env ps show_duration default_file env c = c'"
    "st_args (cl_stdio c) = xs"
  shows "(xs \<noteq> [[]] \<and> (\<forall>x \<in> set xs. plain_item x) \<longrightarrow> st_args (cl_stdio c') = xs) \<and>
    ((\<exists>x \<in> set xs. CHR '','' \<in> set x) \<longrightarrow> st_args (cl_stdio c') \<noteq> xs)"
proof -
  have "st_args (cl_stdio c') = env_list env ''MCP_STDIO_ARGS'' xs"
    using assms(2,3) by (auto simp: client_bind_env_def client_defaults_def Let_def)
  then show ?thesis using assms(1) env_list_plain env_list_no_comma by metis
qed

theorem bound_arguments_witness:
  "st_args (cl_stdio (client_bind_env sample_parsers show_duration f (\<lambda>_. [])
     (on_stdio zero_config (st_args_update (\<lambda>_. [''a,b'']))))) \<noteq> [''a,b'']"
  using bound_arguments [of "\<lambda>_. []" sample_parsers show_duration f "on_stdio zero_config (st_args_update (\<lambda>_. [''a,b'']))" _ "[''a,b'']"]
  by (simp add: on_stdio_def zero_config_def)

text \<open>
  A config file loaded after \<open>BindFlags\<close> has no say in the order of the transports, and a switch that it
  turns on cannot be turned off by the environment or the flags.
\<close>

theorem file_against_settings:
  assumes "client_LoadFile read unmarshal path c = Some c'" "path \<noteq> []" "read path = Some data" "unmarshal data = Some f"
  shows "(c = client_bind_env ps show_duration default_file env zero_config \<longrightarrow>
      cl_order c' = env_list env ''MCP_TRANSPORT_ORDER'' [''stdio'', ''http'', ''oauth'']) \<and>
    (ht_insecure (cl_http f) \<longrightarrow> ht_insecure (cl_http c'))"
proof -
  have m: "c' = mergeConfig f c" using assms by (simp add: client_LoadFile_def)
  have "splitList (GetEnv env k ''stdio,http,oauth'') \<noteq> []" for k
    by (simp add: splitList_def GetEnv_def Let_def)
  then show ?thesis
    by (auto simp: m mergeConfig_def over_zero_def client_bind_env_def client_defaults_def zero_config_def env_list_def Let_def)
qed

theorem file_against_settings_witness:
  "\<exists>c'. client_LoadFile Some (\<lambda>_. Some (zero_config\<lparr>cl_order := [''http'']\<rparr>)) ''mcp.yaml''
      (client_bind_env sample_parsers (\<lambda>_. ''0s'') ''mcp.yaml'' (\<lambda>_. []) zero_config) = Some c' \<and>
    cl_order c' = env_list (\<lambda>_. []) ''MCP_TRANSPORT_ORDER'' [''stdio'', ''http'', ''oauth'']"
proof -
  obtain c' where c: "client_LoadFile Some (\<lambda>_. Some (zero_config\<lparr>cl_order := [''http'']\<rparr>)) ''mcp.yaml''
      (client_bind_env sample_parsers (\<lambda>_. ''0s'') ''mcp.yaml'' (\<lambda>_. []) zero_config) = Some c'"
    by (simp add: client_LoadFile_def)
  from file_against_settings [OF this _ refl refl] c show ?thesis by blast
qed

end
