(* ===== verification/ProviderConnect.thy ===== *)
theory ProviderConnect
  imports ProviderConfig AgentRun
begin

text \<open>
  The client of MCP providers, \<^verbatim>\<open>mcp/agent/internal/mcpclient\<close>: connectors over one transport
  (\<^verbatim>\<open>connector.go\<close>) and the orchestrator that tries transports until one initializes (\<^verbatim>\<open>orchestrator.go\<close>).
  The transports themselves, and which protocol versions they know, are the package \<^verbatim>\<open>mcp-go\<close>: parameters.
\<close>

section \<open>Connectors\<close>

datatype mcp_transport =
    StdioTransport string "string list" "string list"
  | HttpTransport string duration bool bool
  | OAuthTransport string duration bool bool string string "string list" string "string option"
  | SseTransport string

text \<open>The capabilities of a server: which of the groups it has.\<close>

record server_caps =
  sc_tools :: bool
  sc_resources :: bool
  sc_prompts :: bool
  sc_logging :: bool
  sc_sampling :: bool
  sc_experimental :: anymap

record features =
  fe_tools :: bool
  fe_resources :: bool
  fe_prompts :: bool
  fe_logging :: bool
  fe_sampling :: bool
  fe_experimental :: anymap

definition deriveFeatures :: "server_caps \<Rightarrow> features" where
  "deriveFeatures caps =
     \<lparr>fe_tools = sc_tools caps, fe_resources = sc_resources caps, fe_prompts = sc_prompts caps, fe_logging = sc_logging caps,
      fe_sampling = sc_sampling caps, fe_experimental = sc_experimental caps\<rparr>"

definition no_caps :: server_caps where
  "no_caps =
     \<lparr>sc_tools = False, sc_resources = False, sc_prompts = False, sc_logging = False, sc_sampling = False, sc_experimental = None\<rparr>"

definition no_features :: features where
  "no_features = deriveFeatures no_caps"

record connector =
  co_transport :: mcp_transport
  co_id :: "64 word"
  co_caps :: server_caps
  co_protocol :: string
  co_features :: features
  co_session :: string
  co_slots :: "nat option"

definition newTransportConnector :: "mcp_transport \<Rightarrow> int \<Rightarrow> connector" where
  "newTransportConnector t n =
     \<lparr>co_transport = t, co_id = 0, co_caps = no_caps, co_protocol = [], co_features = no_features, co_session = [],
      co_slots = (if 0 < n then Some (nat n) else None)\<rparr>"

text \<open>
  The world around the client.  \<open>pv_refuses\<close> is the error of a transport's constructor; the other functions
  take the number of the attempt and its deadline.
\<close>

datatype rpc_method = InitializeMethod | OtherMethod string

record rpc_request =
  rq_id :: "64 word"
  rq_method :: rpc_method
  rq_params :: string

record rpc_response =
  rr_error :: "string option"
  rr_result :: "string option"

record init_result =
  ir_version :: string
  ir_caps :: server_caps

record provider =
  pv_abs :: "string \<Rightarrow> bool"
  pv_env :: "string \<rightharpoonup> string"
  pv_refuses :: "mcp_transport \<Rightarrow> string option"
  pv_start :: "nat \<Rightarrow> mcp_transport \<Rightarrow> duration \<Rightarrow> string option"
  pv_slot :: "nat \<Rightarrow> mcp_transport \<Rightarrow> duration \<Rightarrow> string option"
  pv_answer :: "nat \<Rightarrow> mcp_transport \<Rightarrow> duration \<Rightarrow> rpc_request \<Rightarrow> string + rpc_response"
  pv_session :: "nat \<Rightarrow> mcp_transport \<Rightarrow> string"
  pv_params :: "string \<Rightarrow> string"
  pv_decode :: "string \<Rightarrow> string + init_result"
  pv_valid :: "string list"
  pv_latest :: string

definition buildEnv :: "(string \<rightharpoonup> string) \<Rightarrow> string list \<Rightarrow> string list" where
  "buildEnv lookup vars =
     concat (map (\<lambda>v. if CHR ''='' \<in> set v then [v]
                      else case lookup v of None \<Rightarrow> [] | Some x \<Rightarrow> [v @ ''='' @ x]) vars)"

definition constructed :: "provider \<Rightarrow> int \<Rightarrow> mcp_transport \<Rightarrow> string + connector" where
  "constructed pv n t = (case pv_refuses pv t of Some err \<Rightarrow> Inl err | None \<Rightarrow> Inr (newTransportConnector t n))"

definition newStdioConnector :: "provider \<Rightarrow> client_config \<Rightarrow> string + connector" where
  "newStdioConnector pv cfg =
     (let s = cl_stdio cfg in
      if st_command s = [] then Inl ''stdio command not configured''
      else if \<not> pv_abs pv (st_command s) \<and> \<not> st_relative s then Inl ''stdio command must be absolute''
      else Inr (newTransportConnector (StdioTransport (st_command s) (buildEnv (pv_env pv) (st_env s)) (st_args s)) (cl_inflight cfg)))"

definition newHTTPConnector :: "provider \<Rightarrow> client_config \<Rightarrow> string + connector" where
  "newHTTPConnector pv cfg =
     (let h = cl_http cfg in
      if ht_url h = [] then Inl ''http url not configured''
      else constructed pv (cl_inflight cfg) (HttpTransport (ht_url h) (ht_timeout h) (ht_insecure h) (ht_push h)))"

definition newOAuthHTTPConnector :: "provider \<Rightarrow> client_config \<Rightarrow> string + connector" where
  "newOAuthHTTPConnector pv cfg =
     (let h = cl_http cfg; q = cl_oauth cfg;
          store = (if oa_store q = None \<and> oa_file q \<noteq> [] then Some (oa_file q) else oa_store q) in
      if \<not> oa_enabled q then Inl ''oauth disabled''
      else constructed pv (cl_inflight cfg)
             (OAuthTransport (ht_url h) (ht_timeout h) (ht_insecure h) (ht_push h) (oa_id q) (oa_secret q) (oa_scopes q) (oa_url q) store))"

definition newLegacySSEConnector :: "provider \<Rightarrow> client_config \<Rightarrow> string + connector" where
  "newLegacySSEConnector pv cfg =
     (if \<not> cl_legacy cfg then Inl ''legacy sse disabled''
      else if ht_url (cl_http cfg) = [] then Inl ''http url not configured''
      else constructed pv (cl_inflight cfg) (SseTransport (ht_url (cl_http cfg))))"

section \<open>Calls\<close>

text \<open>
  One call: a slot, the next id, the answer.  \<open>slot\<close> is the error of a context that ends before a slot is
  free.  The result is \<open>None\<close> where nothing was decoded.
\<close>

definition DoRPC ::
  "string option \<Rightarrow> (rpc_request \<Rightarrow> string + rpc_response) \<Rightarrow> (string \<Rightarrow> string + 'r) \<Rightarrow> rpc_method \<Rightarrow> string \<Rightarrow> connector
    \<Rightarrow> (string + 'r option) \<times> connector" where
  "DoRPC slot answer decode m params c =
     (case (if co_slots c = None then None else slot) of
        Some err \<Rightarrow> (Inl err, c)
      | None \<Rightarrow>
          let c = c\<lparr>co_id := co_id c + 1\<rparr> in
          case answer \<lparr>rq_id = co_id c, rq_method = m, rq_params = params\<rparr> of
            Inl err \<Rightarrow> (Inl err, c)
          | Inr resp \<Rightarrow>
              (case rr_error resp of
                 Some msg \<Rightarrow> (Inl msg, c)
               | None \<Rightarrow>
                   (case rr_result resp of
                      None \<Rightarrow> (Inr None, c)
                    | Some raw \<Rightarrow> (case decode raw of Inl err \<Rightarrow> (Inl err, c) | Inr r \<Rightarrow> (Inr (Some r), c)))))"

definition zero_result :: init_result where
  "zero_result = \<lparr>ir_version = [], ir_caps = no_caps\<rparr>"

definition Initialize :: "provider \<Rightarrow> nat \<Rightarrow> duration \<Rightarrow> string \<Rightarrow> connector \<Rightarrow> (string + init_result) \<times> connector" where
  "Initialize pv k d version c =
     (let t = co_transport c in
      case DoRPC (pv_slot pv k t d) (pv_answer pv k t d) (pv_decode pv) InitializeMethod (pv_params pv version) c of
        (Inl err, c) \<Rightarrow> (Inl err, c)
      | (Inr r, c) \<Rightarrow>
          let res = (case r of None \<Rightarrow> zero_result | Some res \<Rightarrow> res) in
          if ir_version res \<notin> set (pv_valid pv) then (Inl ''unsupported protocol version'', c)
          else (Inr res, c\<lparr>co_caps := ir_caps res, co_protocol := ir_version res, co_features := deriveFeatures (ir_caps res),
                           co_session := pv_session pv k t\<rparr>))"

text \<open>
  After a lost connection the transport is started again until a start succeeds; the list is the outcomes of
  the starts, the result the waits before them.
\<close>

fun restart :: "nat \<Rightarrow> bool list \<Rightarrow> duration list" where
  "restart attempt [] = []"
| "restart attempt (ok # oks) = Delay attempt # (if ok then [] else restart (Suc attempt) oks)"

section \<open>The orchestrator\<close>

definition backoff :: "duration \<Rightarrow> duration" where
  "backoff d = (let nd = wrap64 (d * 2) in if 30 * Second < nd then 30 * Second else nd)"

definition factories :: "provider \<Rightarrow> string \<Rightarrow> (client_config \<Rightarrow> string + connector) option" where
  "factories pv name =
     (if name = ''stdio'' then Some (newStdioConnector pv)
      else if name = ''http'' then Some (newHTTPConnector pv)
      else if name = ''oauth'' then Some (newOAuthHTTPConnector pv)
      else if name = ''legacy-sse'' then Some (newLegacySSEConnector pv)
      else None)"

datatype stage = Setup | StartUp | InitUp
datatype connect_action = Started mcp_transport duration | ClosedTransport mcp_transport

definition preferred :: "provider \<Rightarrow> client_config \<Rightarrow> string" where
  "preferred pv cfg = (if cl_version cfg = [] then pv_latest pv else cl_version cfg)"

text \<open>What became of one name; a transport that fails to start or to initialize is closed.\<close>

datatype attempt_outcome = Unknown | NoConnector string | Broken stage string mcp_transport | Connected connector

definition try_connect :: "provider \<Rightarrow> client_config \<Rightarrow> nat \<Rightarrow> duration \<Rightarrow> string \<Rightarrow> attempt_outcome" where
  "try_connect pv cfg k d name =
     (case factories pv name of
        None \<Rightarrow> Unknown
      | Some factory \<Rightarrow>
          (case factory cfg of
             Inl err \<Rightarrow> NoConnector err
           | Inr c \<Rightarrow>
               (case pv_start pv k (co_transport c) d of
                  Some err \<Rightarrow> Broken StartUp err (co_transport c)
                | None \<Rightarrow>
                    (case Initialize pv k d (preferred pv cfg) c of
                       (Inl err, _) \<Rightarrow> Broken InitUp err (co_transport c)
                     | (Inr _, c) \<Rightarrow> Connected c))))"

fun next_deadline :: "attempt_outcome \<Rightarrow> duration \<Rightarrow> duration" where
  "next_deadline (Broken st err t) d = backoff d"
| "next_deadline _ d = d"

fun attempt_errors :: "string \<Rightarrow> attempt_outcome \<Rightarrow> (string \<times> stage \<times> string) list" where
  "attempt_errors name (NoConnector err) = [(name, Setup, err)]"
| "attempt_errors name (Broken st err t) = [(name, st, err)]"
| "attempt_errors name _ = []"

fun attempt_actions :: "attempt_outcome \<Rightarrow> duration \<Rightarrow> connect_action list" where
  "attempt_actions (Broken st err t) d = [Started t d, ClosedTransport t]"
| "attempt_actions (Connected c) d = [Started (co_transport c) d]"
| "attempt_actions _ d = []"

text \<open>The transports in their order: the connector, the errors so far, and what was done to transports.\<close>

fun connect_loop ::
  "provider \<Rightarrow> client_config \<Rightarrow> nat \<Rightarrow> duration \<Rightarrow> string list
    \<Rightarrow> connector option \<times> (string \<times> stage \<times> string) list \<times> connect_action list" where
  "connect_loop pv cfg k d [] = (None, [], [])"
| "connect_loop pv cfg k d (name # names) =
     (let a = try_connect pv cfg k d name in
      case a of
        Connected c \<Rightarrow> (Some c, [], attempt_actions a d)
      | _ \<Rightarrow>
          let (r, errs, acts) = connect_loop pv cfg (Suc k) (next_deadline a d) names
          in (r, attempt_errors name a @ errs, attempt_actions a d @ acts))"

text \<open>\<^verbatim>\<open>errors.Join\<close> of no error is nil.\<close>

definition Connect ::
  "provider \<Rightarrow> client_config \<Rightarrow> (connector option \<times> (string \<times> stage \<times> string) list option) \<times> connect_action list" where
  "Connect pv cfg =
     (case connect_loop pv cfg 0 (cl_init cfg) (cl_order cfg) of
        (Some c, _, acts) \<Rightarrow> ((Some c, None), acts)
      | (None, errs, acts) \<Rightarrow> ((None, if errs = [] then None else Some errs), acts))"

section \<open>Lemmas\<close>

text \<open>The transports that are started and not closed after some actions, and the deadlines of the starts.\<close>

fun opened :: "connect_action list \<Rightarrow> mcp_transport list \<Rightarrow> mcp_transport list" where
  "opened [] ts = ts"
| "opened (Started t d # acts) ts = opened acts (t # ts)"
| "opened (ClosedTransport t # acts) ts = opened acts (remove1 t ts)"

fun deadlines :: "connect_action list \<Rightarrow> duration list" where
  "deadlines [] = []"
| "deadlines (Started t d # acts) = d # deadlines acts"
| "deadlines (ClosedTransport t # acts) = deadlines acts"

definition negotiated :: "provider \<Rightarrow> connector \<Rightarrow> bool" where
  "negotiated pv c \<longleftrightarrow> co_protocol c \<in> set (pv_valid pv) \<and> co_features c = deriveFeatures (co_caps c)"

fun connected :: "attempt_outcome \<Rightarrow> bool" where
  "connected (Connected c) = True"
| "connected _ = False"

lemma Initialize_ok: "Initialize pv k d v c = (Inr res, c') \<Longrightarrow> negotiated pv c'"
  by (auto simp: Initialize_def negotiated_def Let_def split: prod.splits sum.splits if_splits)

lemma try_connect_ok: "try_connect pv cfg k d name = Connected c \<Longrightarrow> negotiated pv c"
  by (auto simp: try_connect_def split: option.splits sum.splits prod.splits dest: Initialize_ok)

text \<open>One unfolding of the loop for a name that gives no connector.\<close>

lemma connect_loop_fails:
  assumes "\<not> connected (try_connect pv cfg k d name)"
  shows "connect_loop pv cfg k d (name # names) =
    (let a = try_connect pv cfg k d name; (r, errs, acts) = connect_loop pv cfg (Suc k) (next_deadline a d) names
     in (r, attempt_errors name a @ errs, attempt_actions a d @ acts))"
  using assms by (cases "try_connect pv cfg k d name") simp_all

lemma connect_loop_connected:
  "try_connect pv cfg k d name = Connected c \<Longrightarrow> connect_loop pv cfg k d (name # names) = (Some c, [], [Started (co_transport c) d])"
  by simp

lemma opened_attempt: "\<not> connected a \<Longrightarrow> opened (attempt_actions a d @ acts) ts = opened acts ts"
  by (cases a) simp_all

lemma connect_loop_open:
  "connect_loop pv cfg k d names = (r, errs, acts) \<Longrightarrow>
     opened acts [] = (case r of None \<Rightarrow> [] | Some c \<Rightarrow> [co_transport c]) \<and> (\<forall>c. r = Some c \<longrightarrow> negotiated pv c)"
proof (induction names arbitrary: k d r errs acts)
  case (Cons name names)
  show ?case
  proof (cases "connected (try_connect pv cfg k d name)")
    case True
    then obtain c where "try_connect pv cfg k d name = Connected c" by (cases "try_connect pv cfg k d name") auto
    with Cons.prems show ?thesis by (auto dest: try_connect_ok)
  next
    case False
    with Cons.prems obtain errs' acts' where
      "connect_loop pv cfg (Suc k) (next_deadline (try_connect pv cfg k d name) d) names = (r, errs', acts')"
      "acts = attempt_actions (try_connect pv cfg k d name) d @ acts'"
      by (auto simp: connect_loop_fails Let_def simp del: connect_loop.simps split: prod.splits)
    with Cons.IH [OF this(1)] False show ?thesis by (simp add: opened_attempt)
  qed
qed simp

text \<open>Deadlines: the first is the setting, the ones after a failure are doubled up to half a minute.\<close>

definition deadline_ok :: "duration \<Rightarrow> duration \<Rightarrow> bool" where
  "deadline_ok init d \<longleftrightarrow> d = init \<or> 0 < d \<and> d \<le> 30 * Second"

lemma backoff_ok:
  assumes "0 < init" "init < 2 ^ 62" "deadline_ok init d"
  shows "deadline_ok init (backoff d)"
proof -
  have "0 < d" "d < 4611686018427387904" using assms by (auto simp: deadline_ok_def Second_def)
  then have "wrap64 (d * 2) = d * 2" by (simp add: wrap64_def)
  with \<open>0 < d\<close> show ?thesis by (simp add: backoff_def deadline_ok_def Let_def Second_def)
qed

lemma connect_loop_deadlines:
  assumes "0 < init" "init < 2 ^ 62"
  shows "deadline_ok init d \<Longrightarrow> connect_loop pv cfg k d names = (r, errs, acts) \<Longrightarrow> x \<in> set (deadlines acts) \<Longrightarrow> deadline_ok init x"
proof (induction names arbitrary: k d r errs acts)
  case (Cons name names)
  show ?case
  proof (cases "try_connect pv cfg k d name")
    case (Broken st err t)
    with Cons.prems obtain errs' acts' where
      "connect_loop pv cfg (Suc k) (backoff d) names = (r, errs', acts')" "x = d \<or> x \<in> set (deadlines acts')"
      by (auto split: prod.splits)
    with Cons.IH [OF backoff_ok [OF assms Cons.prems(1)] this(1)] Cons.prems(1) show ?thesis by auto
  qed (use Cons in \<open>auto split: prod.splits\<close>)
qed simp

lemma try_connect_unknown: "try_connect pv cfg k d name = Unknown \<longleftrightarrow> factories pv name = None"
  by (auto simp: try_connect_def split: option.splits sum.splits prod.splits)

lemma connect_loop_silent:
  "(\<exists>acts. connect_loop pv cfg k d names = (None, [], acts)) \<longleftrightarrow> (\<forall>n \<in> set names. factories pv n = None)"
proof (induction names arbitrary: k d)
  case (Cons name names)
  show ?case
  proof (cases "try_connect pv cfg k d name")
    case Unknown
    then have "factories pv name = None" by (simp add: try_connect_unknown)
    with Unknown Cons.IH [of "Suc k" d] show ?thesis by (auto split: prod.splits)
  next
    case (NoConnector err)
    then have "factories pv name \<noteq> None" by (metis attempt_outcome.distinct(1) try_connect_unknown)
    with NoConnector show ?thesis by (auto split: prod.splits)
  next
    case (Broken st err t)
    then have "factories pv name \<noteq> None" by (metis attempt_outcome.distinct(3) try_connect_unknown)
    with Broken show ?thesis by (auto split: prod.splits)
  next
    case (Connected c)
    then have "factories pv name \<noteq> None" by (metis attempt_outcome.distinct(5) try_connect_unknown)
    with Connected show ?thesis by auto
  qed
qed simp

section \<open>Properties\<close>

text \<open>
  C26: \<open>Connect\<close> leaves one transport open when it returns a connector, the connector's own, and none when it
  does not; the connector speaks a version the client knows and has the features of the server's capabilities;
  every attempt has a deadline, the configured one or one of at most half a minute.
\<close>

theorem connect_leaves_one:
  assumes "Connect pv cfg = ((r, e), acts)" "0 < cl_init cfg" "cl_init cfg < 2 ^ 62"
  shows "opened acts [] = (case r of None \<Rightarrow> [] | Some c \<Rightarrow> [co_transport c]) \<and>
    (r = Some c \<longrightarrow> e = None \<and> co_protocol c \<in> set (pv_valid pv) \<and> co_features c = deriveFeatures (co_caps c)) \<and>
    (d \<in> set (deadlines acts) \<longrightarrow> d = cl_init cfg \<or> 0 < d \<and> d \<le> 30 * Second)"
proof -
  obtain errs where l: "connect_loop pv cfg 0 (cl_init cfg) (cl_order cfg) = (r, errs, acts)" "r = Some c \<longrightarrow> e = None"
    using assms(1) by (auto simp: Connect_def split: prod.splits option.splits)
  note o = connect_loop_open [OF l(1)]
  have "r = Some c \<longrightarrow> e = None \<and> co_protocol c \<in> set (pv_valid pv) \<and> co_features c = deriveFeatures (co_caps c)"
    using o l(2) by (auto simp: negotiated_def)
  moreover have "d \<in> set (deadlines acts) \<longrightarrow> d = cl_init cfg \<or> 0 < d \<and> d \<le> 30 * Second"
    using connect_loop_deadlines [OF assms(2,3) _ l(1), of d] by (simp add: deadline_ok_def)
  ultimately show ?thesis using o by blast
qed

definition sample_provider :: provider where
  "sample_provider =
     \<lparr>pv_abs = \<lambda>s. HasPrefix s ''/'', pv_env = Map.empty, pv_refuses = \<lambda>_. None,
      pv_start = \<lambda>k t d. if k = 0 then Some ''no such file'' else None, pv_slot = \<lambda>k t d. None,
      pv_answer = \<lambda>k t d q. Inr \<lparr>rr_error = None, rr_result = Some ''{}''\<rparr>, pv_session = \<lambda>k t. ''s'',
      pv_params = \<lambda>v. v, pv_decode = \<lambda>_. Inr \<lparr>ir_version = ''v1'', ir_caps = no_caps\<rparr>, pv_valid = [''v1''], pv_latest = ''v1''\<rparr>"

definition sample_client :: client_config where
  "sample_client = (on_http (on_stdio zero_config (st_command_update (\<lambda>_. ''/bin/mcp''))) (ht_url_update (\<lambda>_. ''http://h/mcp'')))
     \<lparr>cl_order := [''stdio'', ''http''], cl_init := 5 * Second\<rparr>"

theorem connect_leaves_one_witness:
  "\<exists>c acts. Connect sample_provider sample_client = ((Some c, None), acts) \<and> opened acts [] = [co_transport c] \<and>
    deadlines acts = [5 * Second, 10 * Second] \<and> co_protocol c \<in> {''v1''}"
proof -
  have "backoff (5 * Second) = 10 * Second" by (simp add: backoff_def wrap64_def Second_def)
  moreover have "connected (try_connect sample_provider sample_client 1 d ''http'')" for d
    by (simp add: sample_client_def sample_provider_def try_connect_def factories_def newHTTPConnector_def constructed_def on_http_def
        on_stdio_def zero_config_def Initialize_def DoRPC_def newTransportConnector_def preferred_def)
  then obtain c where "try_connect sample_provider sample_client 1 (10 * Second) ''http'' = Connected c"
    by (metis connected.elims(2))
  moreover have "try_connect sample_provider sample_client 0 d ''stdio'' = Broken StartUp ''no such file'' (StdioTransport ''/bin/mcp'' [] [])" for d
    by (simp add: sample_client_def sample_provider_def try_connect_def factories_def newStdioConnector_def on_http_def buildEnv_def
        on_stdio_def zero_config_def newTransportConnector_def HasPrefix_def)
  moreover have "cl_order sample_client = [''stdio'', ''http'']" "cl_init sample_client = 5 * Second"
    by (simp_all add: sample_client_def)
  ultimately obtain c acts where c: "Connect sample_provider sample_client = ((Some c, None), acts)" "deadlines acts = [5 * Second, 10 * Second]"
    by (simp add: Connect_def)
  have i: "0 < cl_init sample_client" "cl_init sample_client < 2 ^ 62" by (simp_all add: sample_client_def Second_def)
  from connect_leaves_one [OF c(1) i, of c] c show ?thesis
    by (auto simp: sample_provider_def)
qed

text \<open>
  C27: \<open>Connect\<close> returns neither a connector nor an error exactly when it knows none of the transports of the
  settings, the empty list among them.
\<close>

theorem connect_silent:
  "fst (Connect pv cfg) = (None, None) \<longleftrightarrow> set (cl_order cfg) \<inter> {''stdio'', ''http'', ''oauth'', ''legacy-sse''} = {}"
proof -
  obtain r errs acts where l: "connect_loop pv cfg 0 (cl_init cfg) (cl_order cfg) = (r, errs, acts)" by (metis surj_pair)
  then have "fst (Connect pv cfg) = (None, None) \<longleftrightarrow> r = None \<and> errs = []"
    by (cases r) (simp_all add: Connect_def)
  also have "\<dots> \<longleftrightarrow> (\<forall>n \<in> set (cl_order cfg). factories pv n = None)"
    using connect_loop_silent [of pv cfg 0 "cl_init cfg" "cl_order cfg"] l by simp
  also have "\<dots> \<longleftrightarrow> (\<forall>n \<in> set (cl_order cfg). n \<notin> {''stdio'', ''http'', ''oauth'', ''legacy-sse''})"
    by (intro ball_cong refl) (auto simp: factories_def)
  also have "\<dots> \<longleftrightarrow> set (cl_order cfg) \<inter> {''stdio'', ''http'', ''oauth'', ''legacy-sse''} = {}" by blast
  finally show ?thesis .
qed

end
