(* ===== verification/McpBridge.thy ===== *)
theory McpBridge
  imports Channels GoPrelude
begin

text \<open>
  The bridge of the relay, \<^verbatim>\<open>mcp/agent/internal/mcpbridge\<close>: the correlation ids, the calls that wait
  for their response, and the goroutine that reads the responses, one critical section at a time.
\<close>

section \<open>Correlation ids\<close>

text \<open>The counter has 64 bits.\<close>

record id_mapper =
  im_next :: "64 word"
  im_store :: "string \<rightharpoonup> string"

definition NewIDMapper :: id_mapper where
  "NewIDMapper = \<lparr>im_next = 0, im_store = Map.empty\<rparr>"

definition Alloc :: "string \<Rightarrow> id_mapper \<Rightarrow> string \<times> id_mapper" where
  "Alloc jsonID m =
     (let i = decimal (unat (im_next m))
      in (i, m\<lparr>im_next := im_next m + 1, im_store := (im_store m)(i \<mapsto> jsonID)\<rparr>))"

definition Resolve :: "string \<Rightarrow> id_mapper \<Rightarrow> string option \<times> id_mapper" where
  "Resolve corrID m =
     (case im_store m corrID of
        None \<Rightarrow> (None, m)
      | Some jsonID \<Rightarrow> (Some jsonID, m\<lparr>im_store := (im_store m)(corrID := None)\<rparr>))"

section \<open>A session\<close>

datatype result = Response string | SessionClosed | Backpressure | CtxDone

text \<open>
  Where a call of \<^verbatim>\<open>Forward\<close> stands: registered, waiting, about to unregister, or about to close the
  channel it has taken out of the table.
\<close>

datatype forward_phase = Registered | Parked | Finishing result | Closing result

record bridge_call =
  ca_id :: string
  ca_phase :: forward_phase

text \<open>
  Calls are named by their channel.  \<open>br_hand\<close> is what the reading goroutine has taken out of the
  table and not sent on yet, \<open>br_queue\<close> the number of frames to write.  \<open>br_taken\<close> and \<open>br_results\<close>
  record the responses that found a waiting call and how calls ended, by correlation id.
\<close>

record bridge =
  br_max :: nat
  br_ids :: id_mapper
  br_pending :: "(string \<times> nat) list"
  br_calls :: "nat \<rightharpoonup> bridge_call"
  br_hand :: "(nat \<times> string) option"
  br_chans :: "string chans"
  br_queue :: nat
  br_fresh :: nat
  br_reading :: bool
  br_taken :: "(string \<times> string) list"
  br_results :: "(string \<times> result) list"

definition max_inflight :: "int \<Rightarrow> nat" where
  "max_inflight n = (if n \<le> 0 then 16 else nat n)"

definition newSession :: "int \<Rightarrow> bridge" where
  "newSession n =
     \<lparr>br_max = max_inflight n, br_ids = NewIDMapper, br_pending = [], br_calls = Map.empty, br_hand = None,
      br_chans = Map.empty, br_queue = 0, br_fresh = 0, br_reading = True, br_taken = [], br_results = []\<rparr>"

definition drop_key :: "string \<Rightarrow> (string \<times> nat) list \<Rightarrow> (string \<times> nat) list" where
  "drop_key i ps = filter (\<lambda>(k, _). k \<noteq> i) ps"

definition set_call_phase :: "nat \<Rightarrow> forward_phase \<Rightarrow> bridge \<Rightarrow> bridge" where
  "set_call_phase h p s = (case br_calls s h of None \<Rightarrow> s | Some c \<Rightarrow> s\<lparr>br_calls := (br_calls s)(h \<mapsto> c\<lparr>ca_phase := p\<rparr>)\<rparr>)"

text \<open>The end of a call; only a call that got past the queue resolves its id.\<close>

definition finish :: "nat \<Rightarrow> result \<Rightarrow> bridge \<Rightarrow> bridge" where
  "finish h r s =
     (case br_calls s h of
        None \<Rightarrow> s
      | Some c \<Rightarrow>
          s\<lparr>br_calls := (br_calls s)(h := None), br_results := (ca_id c, r) # br_results s,
            br_ids := (if r = Backpressure then br_ids s else snd (Resolve (ca_id c) (br_ids s)))\<rparr>)"

section \<open>Forward\<close>

text \<open>A new channel, an id, and the table when there is room in it.\<close>

definition forward_start :: "string \<Rightarrow> bridge \<Rightarrow> bridge" where
  "forward_start jsonID s =
     (let (corr, ids) = Alloc jsonID (br_ids s);
          h = br_fresh s;
          s = s\<lparr>br_ids := ids, br_fresh := h + 1, br_chans := (br_chans s)(h \<mapsto> new_chan 1)\<rparr>
      in if br_max s \<le> length (br_pending s) then s\<lparr>br_results := (corr, Backpressure) # br_results s\<rparr>
         else s\<lparr>br_pending := (corr, h) # drop_key corr (br_pending s),
                br_calls := (br_calls s)(h \<mapsto> \<lparr>ca_id = corr, ca_phase = Registered\<rparr>)\<rparr>)"

definition forward_send :: "nat \<Rightarrow> bridge \<Rightarrow> bridge" where
  "forward_send h s =
     (if br_queue s < br_max s then set_call_phase h Parked (s\<lparr>br_queue := br_queue s + 1\<rparr>)
      else set_call_phase h (Finishing Backpressure) s)"

definition forward_wake :: "nat \<Rightarrow> bridge \<Rightarrow> bridge outcome" where
  "forward_wake h s =
     bind_outcome (recv_chan (Some h) (br_chans s))
       (\<lambda>(m, cs). Done (set_call_phase h (Finishing (case m of Some p \<Rightarrow> Response p | None \<Rightarrow> SessionClosed)) (s\<lparr>br_chans := cs\<rparr>)))"

definition forward_cancel :: "nat \<Rightarrow> bridge \<Rightarrow> bridge" where
  "forward_cancel h s = set_call_phase h (Finishing CtxDone) s"

text \<open>\<open>unregister\<close> in two steps: under the lock, and the close after it.\<close>

definition unregister_take :: "nat \<Rightarrow> bridge \<Rightarrow> bridge" where
  "unregister_take h s =
     (case br_calls s h of
        Some c \<Rightarrow>
          (case ca_phase c of
             Finishing r \<Rightarrow>
               (case map_of (br_pending s) (ca_id c) of
                  None \<Rightarrow> finish h r s
                | Some _ \<Rightarrow> set_call_phase h (Closing r) (s\<lparr>br_pending := drop_key (ca_id c) (br_pending s)\<rparr>))
           | _ \<Rightarrow> s)
      | None \<Rightarrow> s)"

definition unregister_close :: "nat \<Rightarrow> bridge \<Rightarrow> bridge outcome" where
  "unregister_close h s =
     (case br_calls s h of
        Some c \<Rightarrow>
          (case ca_phase c of
             Closing r \<Rightarrow> bind_outcome (close_chan (Some h) (br_chans s)) (\<lambda>cs. Done (finish h r (s\<lparr>br_chans := cs\<rparr>)))
           | _ \<Rightarrow> Done s)
      | None \<Rightarrow> Done s)"

section \<open>The reading goroutine\<close>

definition read_take :: "string \<Rightarrow> string \<Rightarrow> bridge \<Rightarrow> bridge" where
  "read_take i p s =
     (case map_of (br_pending s) i of
        None \<Rightarrow> s
      | Some h \<Rightarrow>
          s\<lparr>br_pending := drop_key i (br_pending s), br_hand := Some (h, p), br_taken := (i, p) # br_taken s\<rparr>)"

definition read_send :: "bridge \<Rightarrow> bridge outcome" where
  "read_send s =
     (case br_hand s of
        None \<Rightarrow> Done s
      | Some (h, p) \<Rightarrow>
          bind_outcome (send_chan (Some h) p (br_chans s)) (\<lambda>cs. Done (s\<lparr>br_chans := cs, br_hand := None\<rparr>)))"

definition read_end :: "bridge \<Rightarrow> bridge outcome" where
  "read_end s =
     bind_outcome (close_all (map (Some \<circ> snd) (br_pending s)) (br_chans s))
       (\<lambda>cs. Done (s\<lparr>br_chans := cs, br_pending := [], br_reading := False\<rparr>))"

section \<open>The machine\<close>

datatype bridge_event =
    Start string | SendFrame nat | WakeUp nat | Cancel nat | Unregister nat | CloseOwn nat
  | Read string string | Pass | ReadEnds | WriteOne

fun finishing :: "forward_phase \<Rightarrow> bool" where
  "finishing (Finishing r) = True"
| "finishing _ = False"

fun closing :: "forward_phase \<Rightarrow> bool" where
  "closing (Closing r) = True"
| "closing _ = False"

definition call_in :: "(forward_phase \<Rightarrow> bool) \<Rightarrow> nat \<Rightarrow> bridge \<Rightarrow> bool" where
  "call_in P h s = (case br_calls s h of None \<Rightarrow> False | Some c \<Rightarrow> P (ca_phase c))"

fun is_blocked :: "'a outcome \<Rightarrow> bool" where
  "is_blocked Blocks = True"
| "is_blocked _ = False"

lemma is_blocked_iff [simp]: "is_blocked x \<longleftrightarrow> x = Blocks"
  by (cases x) simp_all

text \<open>A session makes fewer calls than its counter can number.\<close>

definition bridge_guard :: "bridge_event \<Rightarrow> bridge \<Rightarrow> bool" where
  "bridge_guard e s =
     (case e of
        Start j \<Rightarrow> unat (im_next (br_ids s)) < 2 ^ 64 - 1
      | SendFrame h \<Rightarrow> call_in (\<lambda>p. p = Registered) h s
      | WakeUp h \<Rightarrow> call_in (\<lambda>p. p = Parked) h s \<and> \<not> is_blocked (recv_chan (Some h) (br_chans s))
      | Cancel h \<Rightarrow> call_in (\<lambda>p. p = Parked) h s
      | Unregister h \<Rightarrow> call_in finishing h s
      | CloseOwn h \<Rightarrow> call_in closing h s
      | Read i p \<Rightarrow> br_reading s \<and> br_hand s = None
      | Pass \<Rightarrow> br_hand s \<noteq> None
      | ReadEnds \<Rightarrow> br_reading s \<and> br_hand s = None
      | WriteOne \<Rightarrow> 0 < br_queue s)"

definition bridge_step :: "bridge_event \<Rightarrow> bridge \<Rightarrow> bridge outcome" where
  "bridge_step e s =
     (case e of
        Start j \<Rightarrow> Done (forward_start j s)
      | SendFrame h \<Rightarrow> Done (forward_send h s)
      | WakeUp h \<Rightarrow> forward_wake h s
      | Cancel h \<Rightarrow> Done (forward_cancel h s)
      | Unregister h \<Rightarrow> Done (unregister_take h s)
      | CloseOwn h \<Rightarrow> unregister_close h s
      | Read i p \<Rightarrow> Done (read_take i p s)
      | Pass \<Rightarrow> read_send s
      | ReadEnds \<Rightarrow> read_end s
      | WriteOne \<Rightarrow> Done (s\<lparr>br_queue := br_queue s - 1\<rparr>))"


definition bridge_next :: "bridge_event \<Rightarrow> bridge \<Rightarrow> bridge" where
  "bridge_next e s = (case bridge_step e s of Done s' \<Rightarrow> s' | Blocks \<Rightarrow> s | Panics \<Rightarrow> s)"

section \<open>Invariant\<close>

fun answer_of :: "forward_phase \<Rightarrow> string option" where
  "answer_of (Finishing (Response p)) = Some p"
| "answer_of (Closing (Response p)) = Some p"
| "answer_of _ = None"

definition used_ids :: "id_mapper \<Rightarrow> string set" where
  "used_ids m = decimal ` {..< unat (im_next m)}"

definition fresh_ok :: "bridge \<Rightarrow> bool" where
  "fresh_ok s \<longleftrightarrow> (\<forall>h \<in> dom (br_chans s) \<union> dom (br_calls s). h < br_fresh s) \<and>
     (\<forall>h c. br_calls s h = Some c \<longrightarrow> ca_id c \<in> used_ids (br_ids s) \<and> br_chans s h \<noteq> None) \<and>
     fst ` set (br_taken s) \<subseteq> used_ids (br_ids s)"

definition calls_ok :: "bridge \<Rightarrow> bool" where
  "calls_ok s \<longleftrightarrow> (\<forall>h h' c c'. br_calls s h = Some c \<longrightarrow> br_calls s h' = Some c' \<longrightarrow> ca_id c = ca_id c' \<longrightarrow> h = h')"

definition empty_open :: "nat \<Rightarrow> bridge \<Rightarrow> bool" where
  "empty_open h s \<longleftrightarrow> br_chans s h = Some (new_chan 1)"

definition row_ok :: "string \<Rightarrow> nat \<Rightarrow> bridge \<Rightarrow> bool" where
  "row_ok i h s \<longleftrightarrow> (\<exists>c. br_calls s h = Some c \<and> ca_id c = i \<and> \<not> closing (ca_phase c)) \<and> empty_open h s \<and>
     i \<notin> fst ` set (br_taken s)"

definition table_ok :: "bridge \<Rightarrow> bool" where
  "table_ok s \<longleftrightarrow> distinct (map fst (br_pending s)) \<and> (\<forall>i h. (i, h) \<in> set (br_pending s) \<longrightarrow> row_ok i h s)"

definition hand_ok :: "bridge \<Rightarrow> bool" where
  "hand_ok s \<longleftrightarrow> (case br_hand s of None \<Rightarrow> True
     | Some (h, p) \<Rightarrow> empty_open h s \<and> h \<notin> snd ` set (br_pending s) \<and> \<not> call_in closing h s \<and>
         (\<forall>c. br_calls s h = Some c \<longrightarrow> (ca_id c, p) \<in> set (br_taken s)))"

definition closing_ok :: "bridge \<Rightarrow> bool" where
  "closing_ok s \<longleftrightarrow> (\<forall>h. call_in closing h s \<longrightarrow> empty_open h s \<and> h \<notin> snd ` set (br_pending s))"

definition answers_ok :: "bridge \<Rightarrow> bool" where
  "answers_ok s \<longleftrightarrow> distinct (map fst (br_taken s)) \<and>
     (\<forall>h c. br_calls s h = Some c \<longrightarrow>
        (\<forall>p. answer_of (ca_phase c) = Some p \<longrightarrow> (ca_id c, p) \<in> set (br_taken s)) \<and>
        (\<forall>ch. br_chans s h = Some ch \<longrightarrow> (\<forall>p \<in> set (gc_buf ch). (ca_id c, p) \<in> set (br_taken s)))) \<and>
     (\<forall>i p. (i, Response p) \<in> set (br_results s) \<longrightarrow> (i, p) \<in> set (br_taken s))"

definition bridge_ok :: "bridge \<Rightarrow> bool" where
  "bridge_ok s \<longleftrightarrow> fresh_ok s \<and> calls_ok s \<and> table_ok s \<and> hand_ok s \<and> closing_ok s \<and> answers_ok s"

lemma newSession_ok: "bridge_ok (newSession n)"
  by (simp add: bridge_ok_def fresh_ok_def calls_ok_def table_ok_def hand_ok_def closing_ok_def answers_ok_def newSession_def
      call_in_def)

lemma set_drop_key: "set (drop_key i ps) = {x \<in> set ps. fst x \<noteq> i}"
  by (auto simp: drop_key_def)

lemma distinct_drop_key: "distinct (map fst ps) \<Longrightarrow> distinct (map fst (drop_key i ps))"
  by (simp add: drop_key_def distinct_map_filter split_def)

lemma used_ids_Alloc:
  "unat (im_next m) < 2 ^ 64 - 1 \<Longrightarrow> used_ids (snd (Alloc j m)) = insert (fst (Alloc j m)) (used_ids m)"
  "fst (Alloc j m) \<notin> used_ids m"
proof -
  assume "unat (im_next m) < 2 ^ 64 - 1"
  then have "unat (im_next m + 1) = Suc (unat (im_next m))"
    by (simp add: unat_word_ariths)
  then show "used_ids (snd (Alloc j m)) = insert (fst (Alloc j m)) (used_ids m)"
    by (simp add: used_ids_def Alloc_def lessThan_Suc Let_def)
next
  show "fst (Alloc j m) \<notin> used_ids m"
    by (auto simp: used_ids_def Alloc_def Let_def decimal_inj)
qed


lemmas bridge_parts = fresh_ok_def calls_ok_def table_ok_def hand_ok_def closing_ok_def answers_ok_def

lemma queue_frame [simp]:
  "empty_open h (s\<lparr>br_queue := n\<rparr>) = empty_open h s" "call_in P h (s\<lparr>br_queue := n\<rparr>) = call_in P h s"
  "row_ok i h (s\<lparr>br_queue := n\<rparr>) = row_ok i h s"
  by (simp_all add: empty_open_def call_in_def row_ok_def)

lemma queue_irrelevant [simp]: "bridge_ok (s\<lparr>br_queue := n\<rparr>) = bridge_ok s"
  by (simp add: bridge_ok_def bridge_parts cong: option.case_cong)

lemma set_call_phase_ok:
  assumes "bridge_ok s" "br_calls s h = Some c" "\<not> closing p" "\<not> closing (ca_phase c)"
    and "\<And>x. answer_of p = Some x \<Longrightarrow> (ca_id c, x) \<in> set (br_taken s)"
  shows "bridge_ok (set_call_phase h p s)"
proof -
  let ?s = "set_call_phase h p s"
  have s: "?s = s\<lparr>br_calls := (br_calls s)(h \<mapsto> c\<lparr>ca_phase := p\<rparr>)\<rparr>" using assms(2) by (simp add: set_call_phase_def)
  have ids: "map_option ca_id (br_calls ?s k) = map_option ca_id (br_calls s k)" for k using assms(2) by (simp add: s)
  have cl: "call_in closing k ?s = call_in closing k s" for k using assms by (simp add: s call_in_def)
  have "fresh_ok ?s" using assms(1,2) by (auto simp: s bridge_ok_def fresh_ok_def)
  moreover have "calls_ok ?s" using assms(1,2) unfolding bridge_ok_def calls_ok_def s by (auto split: if_splits)
  moreover have "table_ok ?s" unfolding table_ok_def
  proof (intro conjI allI impI)
    fix i k assume "(i, k) \<in> set (br_pending ?s)"
    with assms(1) have "(i, k) \<in> set (br_pending s)" "row_ok i k s" by (auto simp: bridge_ok_def table_ok_def s)
    then show "row_ok i k ?s" using assms(2,3) by (auto simp: row_ok_def s empty_open_def)
  qed (use assms(1) in \<open>simp add: s bridge_ok_def table_ok_def\<close>)
  moreover have "hand_ok ?s"
    using assms(1,2) cl unfolding bridge_ok_def hand_ok_def by (auto simp: s empty_open_def split: option.splits)
  moreover have "closing_ok ?s"
    using assms(1) cl unfolding bridge_ok_def closing_ok_def by (simp add: s empty_open_def)
  moreover have "answers_ok ?s" using assms(1,2,5) unfolding bridge_ok_def answers_ok_def s by auto
  ultimately show ?thesis by (simp add: bridge_ok_def)
qed

lemma finish_ok:
  assumes "bridge_ok s" "br_calls s h = Some c" "h \<notin> snd ` set (br_pending s)"
    and "\<And>x. r = Response x \<Longrightarrow> (ca_id c, x) \<in> set (br_taken s)"
  shows "bridge_ok (finish h r s)"
proof -
  let ?s = "finish h r s"
  have s: "br_calls ?s = (br_calls s)(h := None)" "br_chans ?s = br_chans s" "br_pending ?s = br_pending s"
    "br_hand ?s = br_hand s" "br_taken ?s = br_taken s" "br_fresh ?s = br_fresh s" "br_results ?s = (ca_id c, r) # br_results s"
    using assms(2) by (simp_all add: finish_def)
  have u: "used_ids (br_ids ?s) = used_ids (br_ids s)"
    using assms(2) by (simp add: finish_def used_ids_def Resolve_def split: option.split)
  have "fresh_ok ?s" using assms(1) by (auto simp: s u bridge_ok_def fresh_ok_def)
  moreover have "calls_ok ?s" using assms(1) unfolding bridge_ok_def calls_ok_def s by (auto split: if_splits)
  moreover have "table_ok ?s" unfolding table_ok_def
  proof (intro conjI allI impI)
    fix i k assume "(i, k) \<in> set (br_pending ?s)"
    with assms(1) have "(i, k) \<in> set (br_pending s)" "row_ok i k s" by (auto simp: bridge_ok_def table_ok_def s)
    moreover from this(1) assms(3) have "k \<noteq> h" by force
    ultimately show "row_ok i k ?s" by (simp add: row_ok_def s empty_open_def)
  qed (use assms(1) in \<open>simp add: s bridge_ok_def table_ok_def\<close>)
  moreover have "hand_ok ?s"
    using assms(1) unfolding bridge_ok_def hand_ok_def by (auto simp: s empty_open_def call_in_def split: option.splits)
  moreover have "closing_ok ?s"
    using assms(1) unfolding bridge_ok_def closing_ok_def by (auto simp: s empty_open_def call_in_def)
  moreover have "answers_ok ?s" using assms(1,4) unfolding bridge_ok_def answers_ok_def s by auto
  ultimately show ?thesis by (simp add: bridge_ok_def)
qed


lemma call_inD: "call_in P h s \<Longrightarrow> \<exists>c. br_calls s h = Some c \<and> P (ca_phase c)"
  by (auto simp: call_in_def split: option.splits)

lemma forward_start_ok:
  assumes "bridge_ok s" "unat (im_next (br_ids s)) < 2 ^ 64 - 1"
  shows "bridge_ok (forward_start j s)"
proof -
  obtain corr ids where a: "Alloc j (br_ids s) = (corr, ids)" by fastforce
  have u: "used_ids ids = insert corr (used_ids (br_ids s))" "corr \<notin> used_ids (br_ids s)"
    using used_ids_Alloc [where m = "br_ids s" and j = j] assms(2) by (simp_all add: a)
  let ?h = "br_fresh s" and ?s = "forward_start j s"
  from assms(1) have f: "\<forall>h \<in> dom (br_chans s) \<union> dom (br_calls s). h < ?h" "\<And>h c. br_calls s h = Some c \<Longrightarrow> ca_id c \<in> used_ids (br_ids s)"
    "fst ` set (br_taken s) \<subseteq> used_ids (br_ids s)" by (auto simp: bridge_ok_def fresh_ok_def)
  then have n: "br_calls s ?h = None" "br_chans s ?h = None" by fastforce+
  have rows: "\<forall>i h. (i, h) \<in> set (br_pending s) \<longrightarrow> row_ok i h s \<and> h \<noteq> ?h \<and> i \<noteq> corr"
  proof (intro allI impI)
    fix i h assume "(i, h) \<in> set (br_pending s)"
    with assms(1) have r: "row_ok i h s" by (simp add: bridge_ok_def table_ok_def)
    then obtain c where "br_calls s h = Some c" "ca_id c = i" by (auto simp: row_ok_def)
    with r n f(2) u(2) show "row_ok i h s \<and> h \<noteq> ?h \<and> i \<noteq> corr" by auto
  qed
  then have dk: "drop_key corr (br_pending s) = br_pending s" by (auto simp: drop_key_def filter_id_conv)
  have hd: "br_hand s = Some (h, p) \<Longrightarrow> h \<noteq> ?h" for h p
    using assms(1) n unfolding bridge_ok_def hand_ok_def by (auto simp: empty_open_def)
  have cl: "\<not> call_in closing ?h s" using n by (simp add: call_in_def)
  show ?thesis
  proof (cases "br_max s \<le> length (br_pending s)")
    case True
    then have s: "?s = s\<lparr>br_ids := ids, br_fresh := ?h + 1, br_chans := (br_chans s)(?h \<mapsto> new_chan 1),
        br_results := (corr, Backpressure) # br_results s\<rparr>" by (simp add: forward_start_def a Let_def)
    have "fresh_ok ?s" using assms(1) f u by (auto simp: s bridge_ok_def fresh_ok_def less_Suc_eq)
    moreover have "calls_ok ?s" using assms(1) by (simp add: s bridge_ok_def calls_ok_def)
    moreover have "table_ok ?s" using assms(1) rows unfolding bridge_ok_def table_ok_def by (simp add: s row_ok_def empty_open_def)
    moreover have "hand_ok ?s" using assms(1) hd unfolding bridge_ok_def hand_ok_def
      by (auto simp: s empty_open_def call_in_def split: option.splits)
    moreover have "closing_ok ?s" using assms(1) cl unfolding bridge_ok_def closing_ok_def
      by (auto simp: s empty_open_def call_in_def n split: option.splits)
    moreover have "answers_ok ?s" using assms(1) n unfolding bridge_ok_def answers_ok_def by (auto simp: s new_chan_def)
    ultimately show ?thesis by (simp add: bridge_ok_def)
  next
    case False
    then have s: "?s = s\<lparr>br_ids := ids, br_fresh := ?h + 1, br_chans := (br_chans s)(?h \<mapsto> new_chan 1),
        br_pending := (corr, ?h) # br_pending s, br_calls := (br_calls s)(?h \<mapsto> \<lparr>ca_id = corr, ca_phase = Registered\<rparr>)\<rparr>"
      by (simp add: forward_start_def a Let_def dk)
    have "fresh_ok ?s" using assms(1) f u by (auto simp: s bridge_ok_def fresh_ok_def less_Suc_eq)
    moreover have "calls_ok ?s" using assms(1) f(2) u(2) unfolding bridge_ok_def calls_ok_def by (auto simp: s)
    moreover have "table_ok ?s" unfolding table_ok_def
    proof (intro conjI allI impI)
      fix i k assume "(i, k) \<in> set (br_pending ?s)"
      then consider "i = corr" "k = ?h" | "(i, k) \<in> set (br_pending s)" by (auto simp: s)
      then show "row_ok i k ?s"
      proof cases
        case 1
        with f(3) u(2) show ?thesis by (auto simp: row_ok_def s empty_open_def)
      next
        case 2
        with rows have "row_ok i k s" "k \<noteq> ?h" by blast+
        then show ?thesis by (simp add: row_ok_def s empty_open_def)
      qed
    next
      have "corr \<notin> fst ` set (br_pending s)" using rows by force
      with assms(1) show "distinct (map fst (br_pending ?s))" by (simp add: s bridge_ok_def table_ok_def)
    qed
    moreover have "hand_ok ?s" using assms(1) hd unfolding bridge_ok_def hand_ok_def
      by (auto simp: s empty_open_def call_in_def split: option.splits)
    moreover have "closing_ok ?s" using assms(1) n unfolding bridge_ok_def closing_ok_def
      by (auto simp: s empty_open_def call_in_def split: option.splits if_splits)
    moreover have "answers_ok ?s" using assms(1) n unfolding bridge_ok_def answers_ok_def by (auto simp: s new_chan_def)
    ultimately show ?thesis by (simp add: bridge_ok_def)
  qed
qed

text \<open>Changing the channel of a call that is neither in the table nor in the hand nor about to close it.\<close>

lemma chan_ok:
  assumes "bridge_ok s" "h \<notin> snd ` set (br_pending s)" "\<And>p. br_hand s \<noteq> Some (h, p)" "\<not> call_in closing h s"
    and "br_chans s h = Some ch" "set (gc_buf ch') \<subseteq> set (gc_buf ch)"
  shows "bridge_ok (s\<lparr>br_chans := (br_chans s)(h \<mapsto> ch')\<rparr>)"
proof -
  let ?s = "s\<lparr>br_chans := (br_chans s)(h \<mapsto> ch')\<rparr>"
  have e: "k \<noteq> h \<Longrightarrow> empty_open k ?s = empty_open k s" for k by (simp add: empty_open_def)
  have p: "call_in P k ?s = call_in P k s" for P k by (simp add: call_in_def)
  have "fresh_ok ?s" using assms(1,5) by (auto simp: bridge_ok_def fresh_ok_def)
  moreover have "calls_ok ?s" using assms(1) by (simp add: bridge_ok_def calls_ok_def)
  moreover have "table_ok ?s" unfolding table_ok_def
  proof (intro conjI allI impI)
    fix i k assume "(i, k) \<in> set (br_pending ?s)"
    with assms(1) have "(i, k) \<in> set (br_pending s)" "row_ok i k s" by (auto simp: bridge_ok_def table_ok_def )
    moreover from this(1) assms(2) have "k \<noteq> h" by force
    ultimately show "row_ok i k ?s" by (simp add: row_ok_def e)
  qed (use assms(1) in \<open>simp add:  bridge_ok_def table_ok_def\<close>)
  moreover have "hand_ok ?s" using assms(1,3) e p unfolding bridge_ok_def hand_ok_def by (auto split: option.splits)
  moreover have "closing_ok ?s" unfolding closing_ok_def
  proof (intro allI impI)
    fix k assume "call_in closing k ?s"
    with assms(4) p have "call_in closing k s" "k \<noteq> h" by auto
    with assms(1) e show "empty_open k ?s \<and> k \<notin> snd ` set (br_pending ?s)" by (simp add: bridge_ok_def closing_ok_def)
  qed
  moreover have "answers_ok ?s" using assms(1,5,6) unfolding bridge_ok_def answers_ok_def by auto
  ultimately show ?thesis by (simp add: bridge_ok_def)
qed


lemma bridge_okD:
  assumes "bridge_ok s"
  shows "(i, h) \<in> set (br_pending s) \<Longrightarrow> row_ok i h s" "distinct (map fst (br_pending s))"
    and "br_calls s h = Some c \<Longrightarrow> \<exists>ch. br_chans s h = Some ch"
    and "br_hand s = Some (h, p) \<Longrightarrow> empty_open h s \<and> h \<notin> snd ` set (br_pending s) \<and> \<not> call_in closing h s"
    and "call_in closing h s \<Longrightarrow> empty_open h s \<and> h \<notin> snd ` set (br_pending s)"
    and "br_calls s h = Some c \<Longrightarrow> br_calls s k = Some c' \<Longrightarrow> ca_id c = ca_id c' \<Longrightarrow> h = k"
    and "br_calls s h = Some c \<Longrightarrow> answer_of (ca_phase c) = Some x \<Longrightarrow> (ca_id c, x) \<in> set (br_taken s)"
    and "br_calls s h = Some c \<Longrightarrow> br_chans s h = Some ch \<Longrightarrow> x \<in> set (gc_buf ch) \<Longrightarrow> (ca_id c, x) \<in> set (br_taken s)"
  using assms by (auto simp: bridge_ok_def bridge_parts)

lemma wake_ok:
  assumes ok: "bridge_ok s" and "call_in (\<lambda>p. p = Parked) h s" "recv_chan (Some h) (br_chans s) \<noteq> Blocks"
  shows "\<exists>s'. forward_wake h s = Done s' \<and> bridge_ok s'"
proof -
  obtain c where c: "br_calls s h = Some c" "ca_phase c = Parked" using call_inD [OF assms(2)] by blast
  obtain ch where ch: "br_chans s h = Some ch" using bridge_okD(3) [OF ok c(1)] by blast
  have "\<not> empty_open h s" using assms(3) by (auto simp: empty_open_def recv_chan_def new_chan_def)
  then have free: "h \<notin> snd ` set (br_pending s)" "\<And>p. br_hand s \<noteq> Some (h, p)"
    using bridge_okD(1,4) [OF ok] by (auto simp: row_ok_def)
  have nc: "\<not> call_in closing h s" using c by (simp add: call_in_def)
  show ?thesis
  proof (cases "gc_buf ch")
    case Nil
    with ch assms(3) have "recv_chan (Some h) (br_chans s) = Done (None, br_chans s)"
      by (auto simp: recv_chan_def split: if_splits)
    moreover have "bridge_ok (set_call_phase h (Finishing SessionClosed) s)"
      by (rule set_call_phase_ok [OF ok c(1)]) (simp_all add: c)
    ultimately show ?thesis by (simp add: forward_wake_def)
  next
    case (Cons p ms)
    let ?s = "s\<lparr>br_chans := (br_chans s)(h \<mapsto> ch\<lparr>gc_buf := ms\<rparr>)\<rparr>"
    have "bridge_ok ?s" by (rule chan_ok [OF ok free nc ch]) (auto simp: Cons)
    then have "bridge_ok (set_call_phase h (Finishing (Response p)) ?s)"
      by (rule set_call_phase_ok [where c = c]) (use c Cons bridge_okD(8) [OF ok c(1) ch, of p] in simp_all)
    with ch Cons show ?thesis by (simp add: forward_wake_def recv_chan_def)
  qed
qed

lemma unregister_take_ok:
  assumes ok: "bridge_ok s" and "call_in finishing h s"
  shows "bridge_ok (unregister_take h s)"
proof -
  obtain c r where c: "br_calls s h = Some c" "ca_phase c = Finishing r"
    using call_inD [OF assms(2)] by (auto elim: finishing.elims)
  have r: "r = Response x \<Longrightarrow> (ca_id c, x) \<in> set (br_taken s)" for x
    using bridge_okD(7) [OF ok c(1), of x] c(2) by simp
  have own: "k = h" if "(ca_id c, k) \<in> set (br_pending s)" for k
    using bridge_okD(1) [OF ok that] bridge_okD(6) [OF ok c(1)] by (auto simp: row_ok_def)
  have key: "i = ca_id c" if "(i, h) \<in> set (br_pending s)" for i
    using bridge_okD(1) [OF ok that] c(1) by (simp add: row_ok_def)
  show ?thesis
  proof (cases "map_of (br_pending s) (ca_id c)")
    case None
    then have "h \<notin> snd ` set (br_pending s)" using key by (force simp: map_of_eq_None_iff)
    then have "bridge_ok (finish h r s)" by (rule finish_ok [OF ok c(1)]) (rule r)
    with None c show ?thesis by (simp add: unregister_take_def)
  next
    case (Some k)
    then have k: "(ca_id c, h) \<in> set (br_pending s)" using own map_of_SomeD by fastforce
    let ?ps = "drop_key (ca_id c) (br_pending s)"
    let ?s = "s\<lparr>br_pending := ?ps, br_calls := (br_calls s)(h \<mapsto> c\<lparr>ca_phase := Closing r\<rparr>)\<rparr>"
    have s: "unregister_take h s = ?s" using Some c by (simp add: unregister_take_def set_call_phase_def)
    have free: "h \<notin> snd ` set ?ps" using key by (auto simp: set_drop_key)
    have eo: "empty_open h s" using bridge_okD(1) [OF ok k] by (simp add: row_ok_def)
    have hand: "br_hand s = Some (q, p) \<Longrightarrow> q \<noteq> h" for q p using bridge_okD(4) [OF ok] k by force
    have "fresh_ok ?s" using ok c(1) by (auto simp: bridge_ok_def fresh_ok_def)
    moreover have "calls_ok ?s" using ok c(1) unfolding bridge_ok_def calls_ok_def by (auto split: if_splits)
    moreover have "table_ok ?s" unfolding table_ok_def
    proof (intro conjI allI impI)
      fix i q assume a: "(i, q) \<in> set (br_pending ?s)"
      with free have "q \<noteq> h" by force
      with a bridge_okD(1) [OF ok, of i q] show "row_ok i q ?s" by (simp add: set_drop_key row_ok_def empty_open_def)
    qed (simp add: distinct_drop_key bridge_okD(2) [OF ok])
    moreover have "hand_ok ?s" using ok hand unfolding bridge_ok_def hand_ok_def
      by (auto simp: set_drop_key empty_open_def call_in_def split: option.splits)
    moreover have "closing_ok ?s" unfolding closing_ok_def
    proof (intro allI impI)
      fix q assume q: "call_in closing q ?s"
      show "empty_open q ?s \<and> q \<notin> snd ` set (br_pending ?s)"
      proof (cases "q = h")
        case True
        with eo free show ?thesis by (simp add: empty_open_def)
      next
        case False
        with q have "call_in closing q s" by (simp add: call_in_def)
        from bridge_okD(5) [OF ok this] show ?thesis by (auto simp: empty_open_def set_drop_key)
      qed
    qed
    moreover have "answers_ok ?s"
    proof -
      have "answer_of (Closing r) = answer_of (Finishing r)" by (cases r) simp_all
      with ok c show ?thesis unfolding bridge_ok_def answers_ok_def by auto
    qed
    ultimately show ?thesis unfolding s by (simp add: bridge_ok_def)
  qed
qed

lemma unregister_close_ok:
  assumes ok: "bridge_ok s" and "call_in closing h s"
  shows "\<exists>s'. unregister_close h s = Done s' \<and> bridge_ok s'"
proof -
  obtain c r where c: "br_calls s h = Some c" "ca_phase c = Closing r"
    using call_inD [OF assms(2)] by (auto elim: closing.elims)
  from bridge_okD(5) [OF ok assms(2)] have e: "br_chans s h = Some (new_chan 1)" "h \<notin> snd ` set (br_pending s)"
    by (simp_all add: empty_open_def)
  let ?f = "finish h r s" and ?ch = "(new_chan 1)\<lparr>gc_closed := True\<rparr>"
  have f: "bridge_ok ?f"
    by (rule finish_ok [OF ok c(1) e(2)]) (use bridge_okD(7) [OF ok c(1)] c(2) in simp)
  have "bridge_ok (?f\<lparr>br_chans := (br_chans ?f)(h \<mapsto> ?ch)\<rparr>)"
  proof (rule chan_ok [OF f])
    show "br_chans ?f h = Some (new_chan 1)" using e c by (simp add: finish_def)
    show "br_hand ?f \<noteq> Some (h, p)" for p using bridge_okD(4) [OF ok, of h p] assms(2) c by (auto simp: finish_def)
  qed (use e c in \<open>simp_all add: finish_def call_in_def\<close>)
  moreover have "?f\<lparr>br_chans := (br_chans ?f)(h \<mapsto> ?ch)\<rparr> = finish h r (s\<lparr>br_chans := (br_chans s)(h \<mapsto> ?ch)\<rparr>)"
    using c by (simp add: finish_def)
  ultimately show ?thesis using c e by (simp add: unregister_close_def close_chan_def new_chan_def)
qed


lemma read_take_ok:
  assumes ok: "bridge_ok s" and hand: "br_hand s = None"
  shows "bridge_ok (read_take i p s)"
proof (cases "map_of (br_pending s) i")
  case None
  with ok show ?thesis by (simp add: read_take_def)
next
  case (Some h)
  then have mem: "(i, h) \<in> set (br_pending s)" by (rule map_of_SomeD)
  from bridge_okD(1) [OF ok mem] obtain c where c: "br_calls s h = Some c" "ca_id c = i" "\<not> closing (ca_phase c)"
    "empty_open h s" "i \<notin> fst ` set (br_taken s)" by (auto simp: row_ok_def)
  let ?ps = "drop_key i (br_pending s)"
  let ?s = "s\<lparr>br_pending := ?ps, br_hand := Some (h, p), br_taken := (i, p) # br_taken s\<rparr>"
  have s: "read_take i p s = ?s" using Some by (simp add: read_take_def)
  have free: "h \<notin> snd ` set ?ps"
  proof
    assume "h \<in> snd ` set ?ps"
    then obtain j where "(j, h) \<in> set (br_pending s)" "j \<noteq> i" by (auto simp: set_drop_key)
    with bridge_okD(1) [OF ok, of j h] c(1,2) show False by (auto simp: row_ok_def)
  qed
  have "fresh_ok ?s" using ok c(1,2) by (auto simp: bridge_ok_def fresh_ok_def)
  moreover have "calls_ok ?s" using ok by (simp add: bridge_ok_def calls_ok_def)
  moreover have "table_ok ?s" unfolding table_ok_def
  proof (intro conjI allI impI)
    fix j q assume "(j, q) \<in> set (br_pending ?s)"
    with bridge_okD(1) [OF ok, of j q] show "row_ok j q ?s" by (simp add: set_drop_key row_ok_def empty_open_def)
  qed (simp add: distinct_drop_key bridge_okD(2) [OF ok])
  moreover have "hand_ok ?s" using c free by (simp add: hand_ok_def empty_open_def call_in_def)
  moreover have "closing_ok ?s" using ok unfolding bridge_ok_def closing_ok_def
    by (auto simp: set_drop_key empty_open_def call_in_def split: option.splits)
  moreover have "answers_ok ?s" using ok c(5) unfolding bridge_ok_def answers_ok_def by auto
  ultimately show ?thesis unfolding s by (simp add: bridge_ok_def)
qed

lemma read_send_ok:
  assumes ok: "bridge_ok s"
  shows "\<exists>s'. read_send s = Done s' \<and> bridge_ok s'"
proof (cases "br_hand s")
  case None
  with ok show ?thesis by (simp add: read_send_def)
next
  case (Some x)
  obtain h p where x: "x = (h, p)" by (cases x)
  with Some have hand: "br_hand s = Some (h, p)" by simp
  from bridge_okD(4) [OF ok hand] have e: "br_chans s h = Some (new_chan 1)" "h \<notin> snd ` set (br_pending s)" "\<not> call_in closing h s"
    by (simp_all add: empty_open_def)
  have t: "br_calls s h = Some c \<Longrightarrow> (ca_id c, p) \<in> set (br_taken s)" for c
    using ok hand by (simp add: bridge_ok_def hand_ok_def)
  let ?s = "s\<lparr>br_chans := (br_chans s)(h \<mapsto> (new_chan 1)\<lparr>gc_buf := [p]\<rparr>), br_hand := None\<rparr>"
  have step: "read_send s = Done ?s" using hand e by (simp add: read_send_def send_chan_def new_chan_def)
  have "fresh_ok ?s" using ok e(1) by (auto simp: bridge_ok_def fresh_ok_def)
  moreover have "calls_ok ?s" using ok by (simp add: bridge_ok_def calls_ok_def)
  moreover have "table_ok ?s" unfolding table_ok_def
  proof (intro conjI allI impI)
    fix j q assume "(j, q) \<in> set (br_pending ?s)"
    moreover from this e(2) have "q \<noteq> h" by force
    ultimately show "row_ok j q ?s" using bridge_okD(1) [OF ok, of j q] by (simp add: row_ok_def empty_open_def)
  qed (simp add: bridge_okD(2) [OF ok])
  moreover have "hand_ok ?s" by (simp add: hand_ok_def)
  moreover have "closing_ok ?s" using ok e(3) unfolding bridge_ok_def closing_ok_def
    by (auto simp: empty_open_def call_in_def split: option.splits)
  moreover have "answers_ok ?s" using ok t unfolding bridge_ok_def answers_ok_def by auto
  ultimately have "bridge_ok ?s" by (simp add: bridge_ok_def)
  with step show ?thesis by blast
qed

lemma close_all_buf: "close_all hs cs = Done cs' \<Longrightarrow> cs' n = Some c' \<Longrightarrow> \<exists>c. cs n = Some c \<and> gc_buf c' = gc_buf c"
proof (induction hs arbitrary: cs)
  case (Cons h hs)
  show ?case
  proof (cases h)
    case (Some m)
    with Cons.prems obtain cs1 where c: "close_chan (Some m) cs = Done cs1" "close_all hs cs1 = Done cs'" by auto
    from Cons.IH [OF c(2) Cons.prems(2)] obtain d where "cs1 n = Some d" "gc_buf c' = gc_buf d" by blast
    with c(1) show ?thesis by (auto simp: close_chan_def split: option.splits if_splits)
  qed (use Cons in simp)
qed simp

lemma read_end_ok:
  assumes ok: "bridge_ok s" and hand: "br_hand s = None"
  shows "\<exists>s'. read_end s = Done s' \<and> bridge_ok s'"
proof -
  let ?hs = "map (Some \<circ> snd) (br_pending s)"
  have "inj_on snd (set (br_pending s))"
  proof (rule inj_onI)
    fix x y assume "x \<in> set (br_pending s)" "y \<in> set (br_pending s)" "snd x = snd y"
    with bridge_okD(1) [OF ok, of "fst x" "snd x"] bridge_okD(1) [OF ok, of "fst y" "snd y"] show "x = y"
      by (cases x; cases y) (auto simp: row_ok_def)
  qed
  moreover have "distinct (br_pending s)" using bridge_okD(2) [OF ok] by (simp add: distinct_map)
  ultimately have "distinct (map snd (br_pending s))" by (simp add: distinct_map)
  moreover have "handles (map (Some \<circ> snd) ps) = map snd ps" for ps :: "(string \<times> nat) list" by (induction ps) auto
  ultimately have d: "distinct (handles ?hs)" by simp
  have o: "\<forall>n. Some n \<in> set ?hs \<longrightarrow> is_open n (br_chans s)"
    using bridge_okD(1) [OF ok] by (fastforce simp: row_ok_def empty_open_def is_open_def new_chan_def)
  from close_all_open [OF d o] obtain cs where cs: "close_all ?hs (br_chans s) = Done cs"
    "\<forall>n. Some n \<in> set ?hs \<longrightarrow> n \<in> dom cs" "\<forall>n. Some n \<notin> set ?hs \<longrightarrow> cs n = br_chans s n" by blast
  have frame: "h \<notin> snd ` set (br_pending s) \<Longrightarrow> cs h = br_chans s h" for h using cs(3) by auto
  let ?s = "s\<lparr>br_chans := cs, br_pending := [], br_reading := False\<rparr>"
  have dom: "cs h \<noteq> None \<longleftrightarrow> br_chans s h \<noteq> None" for h
  proof (cases "h \<in> snd ` set (br_pending s)")
    case True
    then have "cs h \<noteq> None" using cs(2) by auto
    moreover have "br_chans s h \<noteq> None" using True o by (auto simp: is_open_def)
    ultimately show ?thesis by simp
  qed (simp add: frame)
  have "fresh_ok ?s" using ok dom by (auto simp: bridge_ok_def fresh_ok_def dom_def)
  moreover have "calls_ok ?s" using ok by (simp add: bridge_ok_def calls_ok_def)
  moreover have "table_ok ?s" by (simp add: table_ok_def)
  moreover have "hand_ok ?s" using hand by (simp add: hand_ok_def)
  moreover have "closing_ok ?s" unfolding closing_ok_def
  proof (intro allI impI)
    fix k assume "call_in closing k ?s"
    then have "call_in closing k s" by (simp add: call_in_def)
    from bridge_okD(5) [OF ok this] show "empty_open k ?s \<and> k \<notin> snd ` set (br_pending ?s)"
      by (simp add: empty_open_def frame)
  qed
  moreover have "answers_ok ?s"
  proof -
    have "(ca_id c, p) \<in> set (br_taken s)" if "br_calls s h = Some c" "cs h = Some ch" "p \<in> set (gc_buf ch)" for h c ch p
      using close_all_buf [OF cs(1) that(2)] bridge_okD(8) [OF ok that(1)] that(3) by auto
    with ok show ?thesis unfolding bridge_ok_def answers_ok_def by auto
  qed
  ultimately have "bridge_ok ?s" by (simp add: bridge_ok_def)
  with cs(1) show ?thesis by (simp add: read_end_def)
qed

lemma bridge_step_ok:
  assumes ok: "bridge_ok s" and g: "bridge_guard e s"
  shows "\<exists>s'. bridge_step e s = Done s' \<and> bridge_ok s'"
proof (cases e)
  case (SendFrame h)
  with g obtain c where c: "br_calls s h = Some c" "ca_phase c = Registered"
    by (auto simp: bridge_guard_def dest: call_inD)
  have "bridge_ok (set_call_phase h Parked (s\<lparr>br_queue := n\<rparr>))" for n
    by (rule set_call_phase_ok [where c = c]) (use ok c in simp_all)
  moreover have "bridge_ok (set_call_phase h (Finishing Backpressure) s)"
    by (rule set_call_phase_ok [where c = c]) (use ok c in simp_all)
  ultimately show ?thesis using SendFrame by (simp add: bridge_step_def forward_send_def)
next
  case (Cancel h)
  with g obtain c where c: "br_calls s h = Some c" "ca_phase c = Parked"
    by (auto simp: bridge_guard_def dest: call_inD)
  have "bridge_ok (set_call_phase h (Finishing CtxDone) s)"
    by (rule set_call_phase_ok [where c = c]) (use ok c in simp_all)
  with Cancel show ?thesis by (simp add: bridge_step_def forward_cancel_def)
qed (use assms forward_start_ok wake_ok unregister_take_ok unregister_close_ok read_take_ok read_send_ok read_end_ok in
      \<open>auto simp: bridge_step_def bridge_guard_def\<close>)

interpretation bridge: guarded_machine "\<lambda>s. \<exists>n. s = newSession n" bridge_guard bridge_next bridge_ok
proof
  fix e s assume "bridge_ok s" "bridge_guard e s"
  from bridge_step_ok [OF this] show "bridge_ok (bridge_next e s)" by (auto simp: bridge_next_def)
qed (auto simp: newSession_ok)

section \<open>The sessions of a bridge\<close>

datatype frame_type = TypeRequest | TypeResponse | TypeNotification | TypeServerRequest | TypeServerResponse | TypeStreamEvent

record bridge_frame =
  f_type :: frame_type
  f_id :: string
  f_session :: string
  f_payload :: string

record server_request =
  sr_id :: string
  sr_session :: string
  sr_payload :: string

text \<open>
  Sessions are numbered in the order they are opened; \<open>hub_server\<close> is the heap that holds the channel of the
  server's requests, at address 0.
\<close>

record hub =
  hub_max :: nat
  hub_sessions :: "string \<rightharpoonup> nat"
  hub_server :: "server_request chans"
  hub_opened :: nat

definition NewBridge :: "int \<Rightarrow> hub" where
  "NewBridge n = \<lparr>hub_max = max_inflight n, hub_sessions = Map.empty, hub_server = [0 \<mapsto> new_chan (max_inflight n)], hub_opened = 0\<rparr>"

definition Healthy :: "hub \<Rightarrow> bool" where
  "Healthy b \<longleftrightarrow> hub_sessions b \<noteq> Map.empty"

text \<open>\<open>dialled\<close> is the error of the dial, when it has one.\<close>

definition getSession :: "string option \<Rightarrow> string \<Rightarrow> hub \<Rightarrow> (string + nat) \<times> hub" where
  "getSession dialled i b =
     (case hub_sessions b i of
        Some n \<Rightarrow> (Inr n, b)
      | None \<Rightarrow>
          (case dialled of
             Some err \<Rightarrow> (Inl err, b)
           | None \<Rightarrow> (Inr (hub_opened b), b\<lparr>hub_sessions := (hub_sessions b)(i \<mapsto> hub_opened b), hub_opened := hub_opened b + 1\<rparr>)))"

text \<open>What the goroutine of a session does to the bridge when it ends.\<close>

definition on_close :: "string \<Rightarrow> hub \<Rightarrow> hub" where
  "on_close i b = b\<lparr>hub_sessions := (hub_sessions b)(i := None)\<rparr>"

definition CloseBridge :: "hub \<Rightarrow> hub outcome" where
  "CloseBridge b =
     bind_outcome (close_chan (Some 0) (hub_server b))
       (\<lambda>cs. Done (b\<lparr>hub_sessions := Map.empty, hub_server := cs\<rparr>))"

text \<open>
  A frame read by a session: a response is taken out of the table, an event goes to the call's callback
  (\<open>Some\<close> its channel), a request of the server goes to the channel the bridge shares, and the reader waits for
  room in it.
\<close>

definition stream_target :: "bridge_frame \<Rightarrow> bridge \<Rightarrow> nat option" where
  "stream_target f s = (if f_type f = TypeStreamEvent then map_of (br_pending s) (f_id f) else None)"

definition read_frame :: "bridge_frame \<Rightarrow> bridge \<Rightarrow> server_request chans \<Rightarrow> (bridge \<times> server_request chans) outcome" where
  "read_frame f s cs =
     (case f_type f of
        TypeResponse \<Rightarrow> Done (read_take (f_id f) (f_payload f) s, cs)
      | TypeServerRequest \<Rightarrow>
          bind_outcome (send_chan (Some 0) \<lparr>sr_id = f_id f, sr_session = f_session f, sr_payload = f_payload f\<rparr> cs)
            (\<lambda>cs'. Done (s, cs'))
      | _ \<Rightarrow> Done (s, cs))"

text \<open>\<open>ServerRespond\<close> and \<open>ServerStream\<close>: a frame for the writer when there is room in its queue.\<close>

datatype send_error = NoSession string | QueueFull

definition server_frame :: "frame_type \<Rightarrow> string option \<Rightarrow> string \<Rightarrow> string \<Rightarrow> string \<Rightarrow> (nat \<Rightarrow> nat) \<Rightarrow> hub \<Rightarrow>
    (send_error + nat \<times> bridge_frame) \<times> hub" where
  "server_frame t dialled sid i p queued b =
     (case getSession dialled sid b of
        (Inl err, b) \<Rightarrow> (Inl (NoSession err), b)
      | (Inr n, b) \<Rightarrow>
          if queued n < hub_max b
          then (Inr (n, \<lparr>f_type = t, f_id = i, f_session = sid, f_payload = p\<rparr>), b)
          else (Inl QueueFull, b))"

definition ServerRespond where "ServerRespond = server_frame TypeServerResponse"
definition ServerStream where "ServerStream = server_frame TypeStreamEvent"

text \<open>After \<open>Close\<close>, a request of the server that a reader still has panics.\<close>

lemma read_after_close:
  "CloseBridge b = Done b' \<Longrightarrow> f_type f = TypeServerRequest \<Longrightarrow> read_frame f s (hub_server b') = Panics"
  using close_closes [of 0 "hub_server b"]
  by (auto simp: CloseBridge_def read_frame_def send_closed)

lemma getSession_reuses:
  "getSession d i b = (Inr n, b') \<Longrightarrow> getSession d' i b' = (Inr n, b')"
  by (auto simp: getSession_def split: option.splits)

section \<open>Properties\<close>

text \<open>
  C23: however the calls, their cancellations, the responses and the end of the connection
  interleave, no step of the bridge sends on a closed channel, closes one twice, or blocks the
  goroutine that reads.
\<close>

theorem bridge_never_panics:
  assumes "run bridge_guard bridge_next es (newSession n) = Some s" "bridge_guard e s"
  shows "\<exists>s'. bridge_step e s = Done s'"
proof -
  have "bridge_ok s" by (rule bridge.reach_inv [OF _ assms(1)]) blast
  from bridge_step_ok [OF this assms(2)] show ?thesis by blast
qed

definition two_calls :: "bridge_event list" where
  "two_calls = [Start ''1'', SendFrame 0, Start ''7'', SendFrame 1, Read ''1'' ''r'']"

lemma first_ids: "decimal 0 = ''0''" "decimal (Suc 0) = ''1''"
  by (code_simp, code_simp)

lemmas bridge_run = two_calls_def first_ids bridge_guard_def bridge_step_def bridge_next_def newSession_def max_inflight_def
  NewIDMapper_def forward_start_def Alloc_def Let_def drop_key_def forward_send_def set_call_phase_def call_in_def new_chan_def
  read_take_def read_send_def send_chan_def recv_chan_def forward_wake_def unregister_take_def finish_def Resolve_def

theorem bridge_never_panics_witness:
  "\<exists>s s'. run bridge_guard bridge_next two_calls (newSession 4) = Some s \<and> bridge_guard Pass s \<and> bridge_step Pass s = Done s'"
proof -
  obtain s where s: "run bridge_guard bridge_next two_calls (newSession 4) = Some s" "bridge_guard Pass s"
    by (simp add: bridge_run)
  with bridge_never_panics [OF this] show ?thesis by blast
qed

text \<open>
  C24: a call that ends with a response got the one that came for its own correlation id, no id has
  two that are taken, and no two calls that are under way have the same id.
\<close>

theorem bridge_answers_own_call:
  assumes "run bridge_guard bridge_next es (newSession n) = Some s"
  shows "((i, Response p) \<in> set (br_results s) \<longrightarrow> (i, p) \<in> set (br_taken s)) \<and> distinct (map fst (br_taken s)) \<and>
    (br_calls s h = Some c \<and> br_calls s k = Some c' \<and> ca_id c = ca_id c' \<longrightarrow> h = k)"
proof -
  have "bridge_ok s" by (rule bridge.reach_inv [OF _ assms]) blast
  then show ?thesis by (auto simp: bridge_ok_def answers_ok_def calls_ok_def)
qed

theorem bridge_answers_own_call_witness:
  "\<exists>s. run bridge_guard bridge_next (two_calls @ [Pass, WakeUp 1, Unregister 1]) (newSession 4) = Some s \<and>
    (''1'', Response ''r'') \<in> set (br_results s) \<and> (''1'', ''r'') \<in> set (br_taken s)"
proof -
  obtain s where s: "run bridge_guard bridge_next (two_calls @ [Pass, WakeUp 1, Unregister 1]) (newSession 4) = Some s"
    "(''1'', Response ''r'') \<in> set (br_results s)" by (simp add: bridge_run)
  with bridge_answers_own_call [OF s(1), of "''1''" "''r''"] show ?thesis by blast
qed

end
