(* ===== verification/ProviderProxy.thy ===== *)
theory ProviderProxy
  imports McpBridge
begin

text \<open>
  The proxy between a bridge and a provider's transport, \<^verbatim>\<open>mcp/agent/internal/mcpclient/proxy.go\<close>: one
  goroutine that handles frames, and the handlers the transport calls for what the provider starts itself.
\<close>

section \<open>State\<close>

record proxy_session =
  ss_pending :: "string \<rightharpoonup> nat"
  ss_next :: "64 word"

text \<open>
  \<open>px_asks\<close> are the requests of the provider that wait, by their channel, with session and id; \<open>px_busy\<close> is the
  frame whose request is with the transport.  \<open>px_heard\<close> and \<open>px_answered\<close> record the responses that found a
  waiting request and what the waiting requests returned.
\<close>

record proxy =
  px_sessions :: "string \<rightharpoonup> proxy_session"
  px_chans :: "string chans"
  px_fresh :: nat
  px_asks :: "nat \<rightharpoonup> string \<times> string"
  px_busy :: "bridge_frame option"
  px_written :: "bridge_frame list"
  px_ended :: bool
  px_heard :: "(string \<times> string \<times> string) list"
  px_answered :: "(string \<times> string \<times> string) list"

definition NewProxy :: proxy where
  "NewProxy =
     \<lparr>px_sessions = Map.empty, px_chans = Map.empty, px_fresh = 0, px_asks = Map.empty, px_busy = None, px_written = [],
      px_ended = False, px_heard = [], px_answered = []\<rparr>"

definition write_frame :: "frame_type \<Rightarrow> string \<Rightarrow> string \<Rightarrow> string \<Rightarrow> proxy \<Rightarrow> proxy" where
  "write_frame t i sid p s = s\<lparr>px_written := \<lparr>f_type = t, f_id = i, f_session = sid, f_payload = p\<rparr> # px_written s\<rparr>"

section \<open>Frames\<close>

text \<open>The session of a frame; \<open>dialled\<close> is whether the factory gives a connector for a new one.\<close>

definition proxy_getSession :: "bool \<Rightarrow> string \<Rightarrow> proxy \<Rightarrow> (proxy_session \<times> proxy) option" where
  "proxy_getSession dialled sid s =
     (case px_sessions s sid of
        Some ss \<Rightarrow> Some (ss, s)
      | None \<Rightarrow>
          if dialled then
            let ss = \<lparr>ss_pending = Map.empty, ss_next = 0\<rparr>
            in Some (ss, s\<lparr>px_sessions := (px_sessions s)(sid \<mapsto> ss)\<rparr>)
          else None)"

text \<open>\<open>decodes\<close>: the payload is what its type needs; \<open>sent\<close>: the transport takes a notification.\<close>

definition handleFrame :: "bool \<Rightarrow> bool \<Rightarrow> bool \<Rightarrow> bridge_frame \<Rightarrow> proxy \<Rightarrow> proxy outcome" where
  "handleFrame dialled decodes sent f s =
     (case proxy_getSession dialled (f_session f) s of
        None \<Rightarrow> Done (s\<lparr>px_ended := True\<rparr>)
      | Some (ss, s) \<Rightarrow>
          (case f_type f of
             TypeRequest \<Rightarrow> Done (if decodes then s\<lparr>px_busy := Some f\<rparr> else s\<lparr>px_ended := True\<rparr>)
           | TypeNotification \<Rightarrow> Done (if decodes \<and> sent then s else s\<lparr>px_ended := True\<rparr>)
           | TypeServerResponse \<Rightarrow>
               (case ss_pending ss (f_id f) of
                  None \<Rightarrow> Done s
                | Some h \<Rightarrow>
                    bind_outcome (send_chan (Some h) (f_payload f) (px_chans s))
                      (\<lambda>cs. Done (s\<lparr>px_sessions := (px_sessions s)(f_session f \<mapsto> ss\<lparr>ss_pending := (ss_pending ss)(f_id f := None)\<rparr>),
                                    px_chans := cs, px_heard := (f_session f, f_id f, f_payload f) # px_heard s\<rparr>)))
           | _ \<Rightarrow> Done s))"

text \<open>The end of a request: an error ends \<open>Run\<close>, and so does a failed write.\<close>

definition request_done :: "string option \<Rightarrow> bool \<Rightarrow> proxy \<Rightarrow> proxy" where
  "request_done resp written s =
     (case px_busy s of
        None \<Rightarrow> s
      | Some f \<Rightarrow>
          (case resp of
             None \<Rightarrow> s\<lparr>px_busy := None, px_ended := True\<rparr>
           | Some p \<Rightarrow>
               if written then (write_frame TypeResponse (f_id f) (f_session f) p s)\<lparr>px_busy := None\<rparr>
               else s\<lparr>px_busy := None, px_ended := True\<rparr>))"

section \<open>What the provider starts\<close>

text \<open>A notification is an event of the request of its session that is under way, if there is one.\<close>

definition notified :: "string \<Rightarrow> string \<Rightarrow> proxy \<Rightarrow> proxy" where
  "notified sid p s =
     (case px_busy s of
        Some f \<Rightarrow> if f_session f = sid then write_frame TypeStreamEvent (f_id f) sid p s else write_frame TypeNotification [] sid p s
      | None \<Rightarrow> write_frame TypeNotification [] sid p s)"

definition ask_id :: "64 word \<Rightarrow> string" where
  "ask_id n = ''srv-'' @ Itoa (sint n)"

definition ask :: "string \<Rightarrow> string \<Rightarrow> bool \<Rightarrow> proxy \<Rightarrow> proxy" where
  "ask sid p written s =
     (case px_sessions s sid of
        None \<Rightarrow> s
      | Some ss \<Rightarrow>
          let n = ss_next ss + 1; i = ask_id n; h = px_fresh s; ss = ss\<lparr>ss_next := n\<rparr>;
              s = s\<lparr>px_chans := (px_chans s)(h \<mapsto> new_chan 1), px_fresh := h + 1\<rparr>
          in if written then
               write_frame TypeServerRequest i sid p
                 (s\<lparr>px_sessions := (px_sessions s)(sid \<mapsto> ss\<lparr>ss_pending := (ss_pending ss)(i \<mapsto> h)\<rparr>), px_asks := (px_asks s)(h \<mapsto> (sid, i))\<rparr>)
             else s\<lparr>px_sessions := (px_sessions s)(sid \<mapsto> ss\<lparr>ss_pending := (ss_pending ss)(i := None)\<rparr>)\<rparr>)"

definition ask_wakes :: "nat \<Rightarrow> proxy \<Rightarrow> proxy outcome" where
  "ask_wakes h s =
     (case px_asks s h of
        None \<Rightarrow> Done s
      | Some (sid, i) \<Rightarrow>
          bind_outcome (recv_chan (Some h) (px_chans s))
            (\<lambda>(m, cs). Done (s\<lparr>px_chans := cs, px_asks := (px_asks s)(h := None),
                               px_answered := (case m of None \<Rightarrow> px_answered s | Some p \<Rightarrow> (sid, i, p) # px_answered s)\<rparr>)))"

definition ask_gives_up :: "nat \<Rightarrow> proxy \<Rightarrow> proxy" where
  "ask_gives_up h s =
     (case px_asks s h of
        None \<Rightarrow> s
      | Some (sid, i) \<Rightarrow>
          (case px_sessions s sid of
             None \<Rightarrow> s\<lparr>px_asks := (px_asks s)(h := None)\<rparr>
           | Some ss \<Rightarrow>
               s\<lparr>px_sessions := (px_sessions s)(sid \<mapsto> ss\<lparr>ss_pending := (ss_pending ss)(i := None)\<rparr>),
                 px_asks := (px_asks s)(h := None)\<rparr>))"

section \<open>The machine\<close>

datatype proxy_event =
    InFrame bool bool bool bridge_frame | RequestDone "string option" bool
  | Notified string string | Asks string string bool | AskWakes nat | AskGivesUp nat

fun is_done :: "proxy_event \<Rightarrow> bool" where
  "is_done (RequestDone r w) = True"
| "is_done _ = False"

text \<open>\<open>Run\<close> reads a frame when no request is with the transport; ids are fewer than \<open>2^63\<close>.\<close>

definition proxy_guard :: "proxy_event \<Rightarrow> proxy \<Rightarrow> bool" where
  "proxy_guard e s =
     (case e of
        InFrame dialled decodes sent f \<Rightarrow> \<not> px_ended s \<and> px_busy s = None
      | RequestDone r w \<Rightarrow> px_busy s \<noteq> None
      | Notified sid p \<Rightarrow> True
      | Asks sid p w \<Rightarrow> (case px_sessions s sid of None \<Rightarrow> False | Some ss \<Rightarrow> unat (ss_next ss) < 2 ^ 63 - 1)
      | AskWakes h \<Rightarrow> px_asks s h \<noteq> None \<and> \<not> is_blocked (recv_chan (Some h) (px_chans s))
      | AskGivesUp h \<Rightarrow> px_asks s h \<noteq> None)"

definition proxy_step :: "proxy_event \<Rightarrow> proxy \<Rightarrow> proxy outcome" where
  "proxy_step e s =
     (case e of
        InFrame dialled decodes sent f \<Rightarrow> handleFrame dialled decodes sent f s
      | RequestDone r w \<Rightarrow> Done (request_done r w s)
      | Notified sid p \<Rightarrow> Done (notified sid p s)
      | Asks sid p w \<Rightarrow> Done (ask sid p w s)
      | AskWakes h \<Rightarrow> ask_wakes h s
      | AskGivesUp h \<Rightarrow> Done (ask_gives_up h s))"

definition proxy_next :: "proxy_event \<Rightarrow> proxy \<Rightarrow> proxy" where
  "proxy_next e s = (case proxy_step e s of Done s' \<Rightarrow> s' | _ \<Rightarrow> s)"

section \<open>Invariant\<close>

text \<open>The ids a session has given out.\<close>

definition asked_ids :: "64 word \<Rightarrow> string set" where
  "asked_ids n = ask_id ` {k. 0 < unat k \<and> unat k \<le> unat n}"

definition proxy_ok :: "proxy \<Rightarrow> bool" where
  "proxy_ok s \<longleftrightarrow>
     (\<forall>h. px_fresh s \<le> h \<longrightarrow> px_chans s h = None \<and> px_asks s h = None) \<and>
     (\<forall>sid ss i h. px_sessions s sid = Some ss \<longrightarrow> ss_pending ss i = Some h \<longrightarrow>
        px_asks s h = Some (sid, i) \<and> px_chans s h = Some (new_chan 1) \<and> i \<in> asked_ids (ss_next ss) \<and>
        (\<forall>p. (sid, i, p) \<notin> set (px_heard s))) \<and>
     (\<forall>sid i p. (sid, i, p) \<in> set (px_heard s) \<longrightarrow> (\<exists>ss. px_sessions s sid = Some ss \<and> i \<in> asked_ids (ss_next ss))) \<and>
     (\<forall>h sid i. px_asks s h = Some (sid, i) \<longrightarrow> (\<exists>c. px_chans s h = Some c \<and> (\<forall>p \<in> set (gc_buf c). (sid, i, p) \<in> set (px_heard s)))) \<and>
     (\<forall>sid i p q. (sid, i, p) \<in> set (px_heard s) \<longrightarrow> (sid, i, q) \<in> set (px_heard s) \<longrightarrow> p = q) \<and>
     set (px_answered s) \<subseteq> set (px_heard s)"

lemma proxy_okD:
  assumes "proxy_ok s"
  shows "px_fresh s \<le> h \<Longrightarrow> px_chans s h = None" "px_fresh s \<le> h \<Longrightarrow> px_asks s h = None"
    "px_sessions s sid = Some ss \<Longrightarrow> ss_pending ss i = Some h \<Longrightarrow>
       px_asks s h = Some (sid, i) \<and> px_chans s h = Some (new_chan 1) \<and> i \<in> asked_ids (ss_next ss) \<and> (sid, i, p) \<notin> set (px_heard s)"
    "(sid, i, p) \<in> set (px_heard s) \<Longrightarrow> \<exists>ss. px_sessions s sid = Some ss \<and> i \<in> asked_ids (ss_next ss)"
    "px_asks s h = Some (sid, i) \<Longrightarrow> \<exists>c. px_chans s h = Some c \<and> (\<forall>p \<in> set (gc_buf c). (sid, i, p) \<in> set (px_heard s))"
    "(sid, i, p) \<in> set (px_heard s) \<Longrightarrow> (sid, i, q) \<in> set (px_heard s) \<Longrightarrow> p = q"
    "set (px_answered s) \<subseteq> set (px_heard s)"
  using assms unfolding proxy_ok_def by blast+

lemma ask_id_inj: "ask_id m = ask_id n \<Longrightarrow> m = n"
  by (auto simp: ask_id_def Itoa_inj intro: signed_word_eqI)

lemma asked_next:
  assumes "unat n < 2 ^ 63 - 1"
  shows "ask_id (n + 1) \<in> asked_ids (n + 1)" "ask_id (n + 1) \<notin> asked_ids n" "asked_ids n \<subseteq> asked_ids (n + 1)"
proof -
  have u: "unat (n + 1) = unat n + 1" using assms by (simp add: unat_word_ariths)
  then show "ask_id (n + 1) \<in> asked_ids (n + 1)" "asked_ids n \<subseteq> asked_ids (n + 1)" by (auto simp: asked_ids_def)
  show "ask_id (n + 1) \<notin> asked_ids n" using u ask_id_inj by (fastforce simp: asked_ids_def)
qed

text \<open>Steps that touch neither sessions, channels, waiting requests nor the records keep the invariant.\<close>

lemma proxy_frame:
  assumes "proxy_ok s" "px_sessions t = px_sessions s" "px_chans t = px_chans s" "px_fresh t = px_fresh s" "px_asks t = px_asks s"
    "px_heard t = px_heard s" "px_answered t = px_answered s"
  shows "proxy_ok t"
  using assms unfolding proxy_ok_def by simp

lemma write_frame_fields [simp]:
  "px_sessions (write_frame t i sid p s) = px_sessions s" "px_chans (write_frame t i sid p s) = px_chans s"
  "px_fresh (write_frame t i sid p s) = px_fresh s" "px_asks (write_frame t i sid p s) = px_asks s"
  "px_heard (write_frame t i sid p s) = px_heard s" "px_answered (write_frame t i sid p s) = px_answered s"
  "px_busy (write_frame t i sid p s) = px_busy s" "px_ended (write_frame t i sid p s) = px_ended s"
  by (simp_all add: write_frame_def)

lemma getSession_ok:
  assumes ok: "proxy_ok s" and g: "proxy_getSession dialled sid s = Some (ss, t)"
  shows "proxy_ok t" "px_sessions t sid = Some ss" "px_heard t = px_heard s" "px_busy t = px_busy s"
proof -
  have new: "proxy_ok (s\<lparr>px_sessions := (px_sessions s)(sid \<mapsto> \<lparr>ss_pending = Map.empty, ss_next = 0\<rparr>)\<rparr>)" if "px_sessions s sid = None"
  proof -
    have "(sid, i, p) \<notin> set (px_heard s)" for i p using proxy_okD(4) [OF ok] that by fastforce
    with ok show ?thesis unfolding proxy_ok_def by (auto; metis)
  qed
  show "proxy_ok t" "px_sessions t sid = Some ss" "px_heard t = px_heard s" "px_busy t = px_busy s"
    using g ok new by (auto simp: proxy_getSession_def Let_def split: option.splits if_splits)
qed

lemma heard_ok:
  assumes ok: "proxy_ok s" and ss: "px_sessions s sid = Some ss" and h: "ss_pending ss i = Some h"
  shows "proxy_ok (s\<lparr>px_sessions := (px_sessions s)(sid \<mapsto> ss\<lparr>ss_pending := (ss_pending ss)(i := None)\<rparr>),
      px_chans := (px_chans s)(h \<mapsto> (new_chan 1)\<lparr>gc_buf := [p]\<rparr>), px_heard := (sid, i, p) # px_heard s\<rparr>)" (is "proxy_ok ?s")
proof -
  note D = proxy_okD [OF ok]
  from D(3) [OF ss h] have own: "px_asks s h = Some (sid, i)" "px_chans s h = Some (new_chan 1)" "i \<in> asked_ids (ss_next ss)"
    "\<And>q. (sid, i, q) \<notin> set (px_heard s)" by blast+
  have "h < px_fresh s" using D(2) [of h] own(1) by (cases "h < px_fresh s") auto
  then have c1: "\<forall>k. px_fresh ?s \<le> k \<longrightarrow> px_chans ?s k = None \<and> px_asks ?s k = None" using D(1,2) by simp
  have c2: "px_asks ?s k = Some (z, j) \<and> px_chans ?s k = Some (new_chan 1) \<and> j \<in> asked_ids (ss_next zs) \<and> (z, j, q) \<notin> set (px_heard ?s)"
    if a: "px_sessions ?s z = Some zs" "ss_pending zs j = Some k" for z zs j k q
  proof -
    obtain zs' where z: "px_sessions s z = Some zs'" "ss_pending zs' j = Some k" "ss_next zs = ss_next zs'" "(z, j) \<noteq> (sid, i)"
    proof (cases "z = sid")
      case True
      with a ss show ?thesis by (intro that [of ss]) (auto split: if_splits)
    next
      case False
      with a show ?thesis by (intro that [of zs]) auto
    qed
    from D(3) [OF z(1,2), of q] z(3,4) own(1) show ?thesis by auto
  qed
  have c3: "\<exists>zs. px_sessions ?s z = Some zs \<and> j \<in> asked_ids (ss_next zs)" if "(z, j, q) \<in> set (px_heard ?s)" for z j q
    using that D(4) [of z j q] own(3) ss by (cases "z = sid") auto
  have c4: "\<exists>c. px_chans ?s k = Some c \<and> (\<forall>q \<in> set (gc_buf c). (z, j, q) \<in> set (px_heard ?s))" if "px_asks ?s k = Some (z, j)" for k z j
    using that D(5) [of k z j] own(1) by (cases "k = h") auto
  have c5: "q = r" if "(z, j, q) \<in> set (px_heard ?s)" "(z, j, r) \<in> set (px_heard ?s)" for z j q r
    using that D(6) [of z j q r] own(4) by auto
  have c6: "set (px_answered ?s) \<subseteq> set (px_heard ?s)" using D(7) by auto
  show ?thesis unfolding proxy_ok_def using c1 c2 c3 c4 c5 c6 by blast
qed

lemma handleFrame_ok:
  assumes ok: "proxy_ok s"
  shows "\<exists>s'. handleFrame dialled decodes sent f s = Done s' \<and> proxy_ok s'"
proof (cases "proxy_getSession dialled (f_session f) s")
  case None
  then show ?thesis using proxy_frame [OF ok] by (simp add: handleFrame_def)
next
  case (Some x)
  obtain ss t where x: "x = (ss, t)" by (cases x)
  with Some have g: "proxy_getSession dialled (f_session f) s = Some (ss, t)" by simp
  note t = getSession_ok [OF ok g]
  have e: "proxy_ok (t\<lparr>px_ended := True\<rparr>)" "proxy_ok (t\<lparr>px_busy := Some f\<rparr>)" by (rule proxy_frame [OF t(1)]; simp)+
  show ?thesis
  proof (cases "f_type f = TypeServerResponse \<and> ss_pending ss (f_id f) \<noteq> None")
    case True
    then obtain h where h: "f_type f = TypeServerResponse" "ss_pending ss (f_id f) = Some h" by auto
    have "px_chans t h = Some (new_chan 1)" using proxy_okD(3) [OF t(1) t(2) h(2)] by blast
    then have "send_chan (Some h) (f_payload f) (px_chans t) = Done ((px_chans t)(h \<mapsto> (new_chan 1)\<lparr>gc_buf := [f_payload f]\<rparr>))"
      by (simp add: send_chan_def new_chan_def)
    with heard_ok [OF t(1) t(2) h(2), of "f_payload f"] g h show ?thesis by (simp add: handleFrame_def)
  next
    case False
    with g t(1) e show ?thesis by (cases "f_type f") (auto simp: handleFrame_def)
  qed
qed

lemma ask_ok:
  assumes ok: "proxy_ok s" and ss: "px_sessions s sid = Some ss" and n: "unat (ss_next ss) < 2 ^ 63 - 1"
  shows "proxy_ok (ask sid p w s)"
proof -
  note D = proxy_okD [OF ok]
  let ?i = "ask_id (ss_next ss + 1)" and ?h = "px_fresh s"
  note i = asked_next [OF n]
  have new: "(sid, ?i, q) \<notin> set (px_heard s)" "ss_pending ss ?i = None" for q
    using D(4) [of sid ?i q] D(3) [OF ss, of ?i] i(2) ss by (auto, fastforce)
  have H: "px_chans s ?h = None" "px_asks s ?h = None" using D(1,2) by auto
  have old: "px_asks s k = Some x \<Longrightarrow> k \<noteq> ?h" for k x using H by auto
  have gen: "proxy_ok (s\<lparr>px_chans := (px_chans s)(?h \<mapsto> new_chan 1), px_fresh := ?h + 1,
      px_sessions := (px_sessions s)(sid \<mapsto> ss\<lparr>ss_next := ss_next ss + 1, ss_pending := (ss_pending ss)(?i := a)\<rparr>),
      px_asks := (px_asks s)(?h := map_option (\<lambda>_. (sid, ?i)) a)\<rparr>)" (is "proxy_ok ?s")
    if a: "a = None \<or> a = Some ?h" for a
  proof -
    have c1: "\<forall>k. px_fresh ?s \<le> k \<longrightarrow> px_chans ?s k = None \<and> px_asks ?s k = None" using D(1,2) by auto
    have c2: "px_asks ?s k = Some (z, j) \<and> px_chans ?s k = Some (new_chan 1) \<and> j \<in> asked_ids (ss_next zs) \<and> (z, j, q) \<notin> set (px_heard ?s)"
      if z: "px_sessions ?s z = Some zs" "ss_pending zs j = Some k" for z zs j k q
    proof (cases "(z, j) = (sid, ?i)")
      case True
      with z a i(1) new(1) show ?thesis by auto
    next
      case False
      obtain zs' where z': "px_sessions s z = Some zs'" "ss_pending zs' j = Some k" "asked_ids (ss_next zs') \<subseteq> asked_ids (ss_next zs)"
      proof (cases "z = sid")
        case True
        with z False ss i(3) show ?thesis by (intro that [of ss]) auto
      next
        case False
        with z show ?thesis by (intro that [of zs]) auto
      qed
      from D(3) [OF z'(1,2), of q] z'(3) old show ?thesis by auto
    qed
    have c3: "\<exists>zs. px_sessions ?s z = Some zs \<and> j \<in> asked_ids (ss_next zs)" if "(z, j, q) \<in> set (px_heard ?s)" for z j q
      using that D(4) [of z j q] ss i(3) by (cases "z = sid") auto
    have c4: "\<exists>c. px_chans ?s k = Some c \<and> (\<forall>q \<in> set (gc_buf c). (z, j, q) \<in> set (px_heard ?s))"
      if "px_asks ?s k = Some (z, j)" for k z j
      using that D(5) [of k z j] by (cases "k = ?h") (auto simp: new_chan_def)
    have c5: "q = r" if "(z, j, q) \<in> set (px_heard ?s)" "(z, j, r) \<in> set (px_heard ?s)" for z j q r
      using that D(6) [of z j q r] by auto
    have c6: "set (px_answered ?s) \<subseteq> set (px_heard ?s)" using D(7) by auto
    show ?thesis unfolding proxy_ok_def using c1 c2 c3 c4 c5 c6 by blast
  qed
  have eq: "(px_asks s)(?h := None) = px_asks s" using H by (simp add: fun_upd_idem)
  show ?thesis
    using gen [of None] gen [of "Some ?h"] ss
    by (cases w) (auto simp: ask_def Let_def eq write_frame_def intro: proxy_frame)
qed

lemma drop_ask_ok:
  assumes ok: "proxy_ok s" and h: "px_asks s h = Some (sid, i)"
    and "\<And>ss. px_sessions s sid = Some ss \<Longrightarrow> ss_pending ss i \<noteq> Some h"
  shows "proxy_ok (s\<lparr>px_asks := (px_asks s)(h := None)\<rparr>)"
proof -
  have "k \<noteq> h" if "px_sessions s z = Some zs" "ss_pending zs j = Some k" for z zs j k
    using proxy_okD(3) [OF ok that] that h assms(3) by auto
  with ok show ?thesis unfolding proxy_ok_def by (auto; blast)
qed

lemma forget_ok:
  assumes ok: "proxy_ok s" and ss: "px_sessions s sid = Some ss"
  shows "proxy_ok (s\<lparr>px_sessions := (px_sessions s)(sid \<mapsto> ss\<lparr>ss_pending := (ss_pending ss)(i := None)\<rparr>)\<rparr>)" (is "proxy_ok ?s")
proof -
  note D = proxy_okD [OF ok]
  have c2: "px_asks ?s k = Some (z, j) \<and> px_chans ?s k = Some (new_chan 1) \<and> j \<in> asked_ids (ss_next zs) \<and> (z, j, q) \<notin> set (px_heard ?s)"
    if a: "px_sessions ?s z = Some zs" "ss_pending zs j = Some k" for z zs j k q
  proof -
    have "\<exists>zs'. px_sessions s z = Some zs' \<and> ss_pending zs' j = Some k \<and> ss_next zs = ss_next zs'"
      using a ss by (cases "z = sid") (auto split: if_splits)
    then obtain zs' where z: "px_sessions s z = Some zs'" "ss_pending zs' j = Some k" "ss_next zs = ss_next zs'" by blast
    from D(3) [OF z(1,2), of q] z(3) show ?thesis by simp
  qed
  have c3: "\<exists>zs. px_sessions ?s z = Some zs \<and> j \<in> asked_ids (ss_next zs)" if "(z, j, q) \<in> set (px_heard ?s)" for z j q
    using that D(4) [of z j q] ss by (cases "z = sid") auto
  have c: "px_chans ?s = px_chans s" "px_asks ?s = px_asks s" "px_fresh ?s = px_fresh s" "px_heard ?s = px_heard s"
    "px_answered ?s = px_answered s" by simp_all
  show ?thesis unfolding proxy_ok_def using c2 c3 D(1,2,5,6,7) unfolding c by blast
qed

lemma ask_wakes_ok:
  assumes ok: "proxy_ok s" and "px_asks s h \<noteq> None" "recv_chan (Some h) (px_chans s) \<noteq> Blocks"
  shows "\<exists>s'. ask_wakes h s = Done s' \<and> proxy_ok s'"
proof -
  obtain sid i where a: "px_asks s h = Some (sid, i)" using assms(2) by auto
  from proxy_okD(5) [OF ok a] obtain c where c: "px_chans s h = Some c" "\<forall>p \<in> set (gc_buf c). (sid, i, p) \<in> set (px_heard s)" by blast
  have free: "ss_pending ss i \<noteq> Some h" if "px_sessions s sid = Some ss" for ss
    using proxy_okD(3) [OF ok that, of i h] assms(3) by (auto simp: recv_chan_def new_chan_def)
  note D = proxy_okD [OF drop_ask_ok [OF ok a free]]
  have other: "ss_pending zs j = Some k \<Longrightarrow> px_sessions s z = Some zs \<Longrightarrow> k \<noteq> h" for z zs j k
    using proxy_okD(3) [OF ok, of z zs j k] free a by auto
  show ?thesis
  proof (cases "gc_buf c")
    case (Cons p ps)
    let ?s = "s\<lparr>px_chans := (px_chans s)(h \<mapsto> c\<lparr>gc_buf := ps\<rparr>), px_asks := (px_asks s)(h := None), px_answered := (sid, i, p) # px_answered s\<rparr>"
    have "ask_wakes h s = Done ?s" using a c Cons by (simp add: ask_wakes_def recv_chan_def)
    moreover have "proxy_ok ?s"
    proof -
      have c1: "\<forall>k. px_fresh ?s \<le> k \<longrightarrow> px_chans ?s k = None \<and> px_asks ?s k = None"
        using proxy_okD(1,2) [OF ok] c(1) by auto
      have c2: "px_asks ?s k = Some (z, j) \<and> px_chans ?s k = Some (new_chan 1) \<and> j \<in> asked_ids (ss_next zs) \<and> (z, j, q) \<notin> set (px_heard ?s)"
        if b: "px_sessions ?s z = Some zs" "ss_pending zs j = Some k" for z zs j k q
        using D(3) [of z zs j k q] b other [of zs j k z] by simp
      have c4: "\<exists>d. px_chans ?s k = Some d \<and> (\<forall>q \<in> set (gc_buf d). (z, j, q) \<in> set (px_heard ?s))"
        if "px_asks ?s k = Some (z, j)" for k z j
        using that proxy_okD(5) [OF ok, of k z j] by (auto split: if_splits)
      have c6: "set (px_answered ?s) \<subseteq> set (px_heard ?s)" using proxy_okD(7) [OF ok] c(2) Cons by auto
      have c3: "\<And>z j q. (z, j, q) \<in> set (px_heard ?s) \<Longrightarrow> \<exists>zs. px_sessions ?s z = Some zs \<and> j \<in> asked_ids (ss_next zs)"
        using proxy_okD(4) [OF ok] by simp
      have c5: "\<And>z j q r. (z, j, q) \<in> set (px_heard ?s) \<Longrightarrow> (z, j, r) \<in> set (px_heard ?s) \<Longrightarrow> q = r"
        using proxy_okD(6) [OF ok] by simp
      show ?thesis unfolding proxy_ok_def using c1 c2 c3 c4 c5 c6 by blast
    qed
    ultimately show ?thesis by blast
  next
    case Nil
    with assms(3) c have "recv_chan (Some h) (px_chans s) = Done (None, px_chans s)"
      by (simp add: recv_chan_def split: if_splits)
    then show ?thesis using a drop_ask_ok [OF ok a free] by (simp add: ask_wakes_def)
  qed
qed

lemma ask_gives_up_ok:
  assumes ok: "proxy_ok s"
  shows "proxy_ok (ask_gives_up h s)"
proof (cases "px_asks s h")
  case (Some x)
  obtain sid i where a: "px_asks s h = Some (sid, i)" using Some by (cases x) simp
  show ?thesis
  proof (cases "px_sessions s sid")
    case (Some ss)
    let ?t = "s\<lparr>px_sessions := (px_sessions s)(sid \<mapsto> ss\<lparr>ss_pending := (ss_pending ss)(i := None)\<rparr>)\<rparr>"
    have "proxy_ok (?t\<lparr>px_asks := (px_asks ?t)(h := None)\<rparr>)"
      by (rule drop_ask_ok [OF forget_ok [OF ok Some]]) (use a in auto)
    then show ?thesis using a Some by (simp add: ask_gives_up_def)
  qed (use drop_ask_ok [OF ok a] a in \<open>simp add: ask_gives_up_def\<close>)
qed (use ok in \<open>simp add: ask_gives_up_def\<close>)

lemma proxy_step_ok:
  assumes ok: "proxy_ok s" and g: "proxy_guard e s"
  shows "\<exists>s'. proxy_step e s = Done s' \<and> proxy_ok s'"
proof (cases e)
  case (RequestDone r w)
  have "proxy_ok (request_done r w s)"
    by (rule proxy_frame [OF ok]) (simp_all add: request_done_def split: option.split)
  with RequestDone show ?thesis by (simp add: proxy_step_def)
next
  case (Notified sid p)
  have "proxy_ok (notified sid p s)" by (rule proxy_frame [OF ok]) (simp_all add: notified_def split: option.split)
  with Notified show ?thesis by (simp add: proxy_step_def)
qed (use ok g handleFrame_ok ask_ok ask_wakes_ok ask_gives_up_ok in
      \<open>auto simp: proxy_step_def proxy_guard_def split: option.splits\<close>)

lemma NewProxy_ok: "proxy_ok NewProxy"
  by (simp add: proxy_ok_def NewProxy_def)

interpretation proxy: guarded_machine "\<lambda>s. s = NewProxy" proxy_guard proxy_next proxy_ok
proof
  fix e s assume "proxy_ok s" "proxy_guard e s"
  from proxy_step_ok [OF this] show "proxy_ok (proxy_next e s)" by (auto simp: proxy_next_def)
qed (simp add: NewProxy_ok)

text \<open>A request with the transport stays there, and no response is taken in, until \<open>RequestDone\<close>.\<close>

lemma busy_step:
  assumes "px_busy s = Some f" "proxy_guard e s" "\<not> is_done e"
  shows "px_busy (proxy_next e s) = Some f \<and> px_heard (proxy_next e s) = px_heard s"
proof (cases e)
  case (AskWakes h)
  then show ?thesis using assms(1)
    by (cases "ask_wakes h s") (auto simp: proxy_next_def proxy_step_def ask_wakes_def split: option.splits)
qed (use assms in \<open>auto simp: proxy_next_def proxy_step_def proxy_guard_def notified_def ask_def ask_gives_up_def Let_def
      split: option.splits\<close>)

lemma busy_run:
  "run proxy_guard proxy_next es s = Some t \<Longrightarrow> px_busy s = Some f \<Longrightarrow> \<forall>e \<in> set es. \<not> is_done e \<Longrightarrow>
     px_busy t = Some f \<and> px_heard t = px_heard s"
proof (induction es arbitrary: s)
  case (Cons e es)
  then have g: "proxy_guard e s" "run proxy_guard proxy_next es (proxy_next e s) = Some t" by (simp_all split: if_splits)
  from busy_step [OF Cons.prems(2) g(1)] Cons.prems(3) Cons.IH [OF g(2)] show ?case by simp
qed simp

section \<open>Properties\<close>

text \<open>
  C25: whatever frames come in and whatever the provider starts, no step of the proxy panics or blocks on a
  channel, and what a request of the provider is answered with is the one response that came for its session
  and id.
\<close>

theorem proxy_answers_own_request:
  assumes "run proxy_guard proxy_next es NewProxy = Some s"
  shows "(proxy_guard e s \<longrightarrow> (\<exists>s'. proxy_step e s = Done s')) \<and> set (px_answered s) \<subseteq> set (px_heard s) \<and>
    ((sid, i, p) \<in> set (px_heard s) \<and> (sid, i, q) \<in> set (px_heard s) \<longrightarrow> p = q)"
proof -
  have ok: "proxy_ok s" by (rule proxy.reach_inv [OF _ assms]) simp
  show ?thesis using proxy_step_ok [OF ok] proxy_okD(6,7) [OF ok] by metis
qed

definition asked_once :: "proxy_event list" where
  "asked_once =
     [InFrame True True True \<lparr>f_type = TypeNotification, f_id = [], f_session = ''a'', f_payload = ''{}''\<rparr>, Asks ''a'' ''ping'' True,
      InFrame True True True \<lparr>f_type = TypeServerResponse, f_id = ''srv-1'', f_session = ''a'', f_payload = ''pong''\<rparr>, AskWakes 0]"

lemma first_ask: "ask_id 1 = ''srv-1''"
proof -
  have "decimal 1 = ''1''" by code_simp
  then show ?thesis by (simp add: ask_id_def Itoa_def)
qed

lemmas proxy_run = proxy_guard_def proxy_next_def proxy_step_def handleFrame_def proxy_getSession_def NewProxy_def ask_def
  write_frame_def send_chan_def new_chan_def recv_chan_def ask_wakes_def Let_def first_ask

theorem proxy_answers_own_request_witness:
  "\<exists>s. run proxy_guard proxy_next asked_once NewProxy = Some s \<and> (''a'', ''srv-1'', ''pong'') \<in> set (px_answered s) \<and>
    (''a'', ''srv-1'', ''pong'') \<in> set (px_heard s)"
proof -
  obtain s where s: "run proxy_guard proxy_next asked_once NewProxy = Some s" "(''a'', ''srv-1'', ''pong'') \<in> set (px_answered s)"
    by (simp add: asked_once_def proxy_run)
  with proxy_answers_own_request [OF s(1)] show ?thesis by blast
qed

text \<open>
  From a request with the transport on, no response to a request of the provider is taken in until that
  request has ended.
\<close>

theorem request_starves_answers:
  assumes "run proxy_guard proxy_next es s = Some t" "px_busy s = Some f" "\<forall>e \<in> set es. \<not> is_done e"
  shows "px_busy t = Some f \<and> px_heard t = px_heard s"
  using assms by (rule busy_run)

theorem request_starves_answers_witness:
  "let f = \<lparr>f_type = TypeRequest, f_id = ''0'', f_session = ''a'', f_payload = ''{}''\<rparr>;
       s = NewProxy\<lparr>px_sessions := [''a'' \<mapsto> \<lparr>ss_pending = Map.empty, ss_next = 0\<rparr>], px_busy := Some f\<rparr>
   in \<exists>t. run proxy_guard proxy_next [Asks ''a'' ''sampling'' True] s = Some t \<and> px_asks t 0 = Some (''a'', ''srv-1'') \<and>
     px_busy t = Some f \<and> px_heard t = []"
proof -
  let ?f = "\<lparr>f_type = TypeRequest, f_id = ''0'', f_session = ''a'', f_payload = ''{}''\<rparr>"
  let ?s = "NewProxy\<lparr>px_sessions := [''a'' \<mapsto> \<lparr>ss_pending = Map.empty, ss_next = 0\<rparr>], px_busy := Some ?f\<rparr>"
  obtain t where t: "run proxy_guard proxy_next [Asks ''a'' ''sampling'' True] ?s = Some t" "px_asks t 0 = Some (''a'', ''srv-1'')"
    by (simp add: proxy_run)
  with request_starves_answers [OF t(1), of ?f] show ?thesis by (simp add: NewProxy_def)
qed

end
