(* ===== verification/AgentPrograms.thy ===== *)
theory AgentPrograms
  imports AgentConfig AgentControl
begin

text \<open>
  What the programs of the agents add to the generic worker: the probes of their backends, the version of the
  backend, the configuration they run with, and the signals; \<^verbatim>\<open>main.go\<close>, \<^verbatim>\<open>backendversion.go\<close> and
  \<^verbatim>\<open>hosttelemetry.go\<close> of \<^verbatim>\<open>nfrx-llm\<close>, \<^verbatim>\<open>main.go\<close> of \<^verbatim>\<open>nfrx-asr\<close> and \<^verbatim>\<open>nfrx-docling\<close>, and the clients
  \<^verbatim>\<open>llm/agent/internal/openai\<close> and \<^verbatim>\<open>llm/agent/internal/ollama\<close>.
\<close>

section \<open>Summaries\<close>

definition summarizeBody :: "string \<Rightarrow> int \<Rightarrow> string" where
  "summarizeBody body limit =
     (if limit \<le> 0 \<or> body = [] then []
      else
        let s = TrimSpace body in
        if int (length s) \<le> limit then s
        else if limit \<le> 3 then take (nat limit) s
        else take (nat (limit - 3)) s @ ''...'')"

lemma summary_length: "int (length (summarizeBody body limit)) \<le> max 0 limit"
  by (simp add: summarizeBody_def Let_def)

section \<open>Backends\<close>

text \<open>An answer of a backend; the text of the status goes into errors only.\<close>

record backend_reply =
  hr_status :: int
  hr_text :: string
  hr_body :: string

datatype backend_error = Unreachable string | BadStatus string string | BadBody string

text \<open>A GET with the URL and the bearer key, if there is one.\<close>

type_synonym backend = "string \<Rightarrow> string option \<Rightarrow> string + backend_reply"

definition ok_status :: "backend_reply \<Rightarrow> bool" where
  "ok_status r \<longleftrightarrow> 200 \<le> hr_status r \<and> hr_status r < 300"

definition bearer_key :: "string \<Rightarrow> string option" where
  "bearer_key k = (if k = [] then None else Some k)"

text \<open>The list of models of one of the two kinds of backend; \<open>decode\<close> gives the names in the answer.\<close>

definition list_models ::
  "backend \<Rightarrow> (string \<Rightarrow> string + string list) \<Rightarrow> string \<Rightarrow> string option \<Rightarrow> backend_error + string list" where
  "list_models get decode url key =
     (case get url key of
        Inl err \<Rightarrow> Inl (Unreachable err)
      | Inr r \<Rightarrow>
          if \<not> ok_status r then Inl (BadStatus (hr_text r) (summarizeBody (take 512 (hr_body r)) 256))
          else case decode (hr_body r) of Inl err \<Rightarrow> Inl (BadBody err) | Inr names \<Rightarrow> Inr names)"

definition openai_Models :: "backend \<Rightarrow> (string \<Rightarrow> string + string list) \<Rightarrow> string \<Rightarrow> string \<Rightarrow> backend_error + string list" where
  "openai_Models get decode base key =
     map_sum (\<lambda>e. e) (filter (\<lambda>m. m \<noteq> [])) (list_models get decode (trim_end ''/'' base @ ''/models'') (bearer_key key))"

definition Tags :: "backend \<Rightarrow> (string \<Rightarrow> string + string list) \<Rightarrow> string \<Rightarrow> backend_error + string list" where
  "Tags get decode base = list_models get decode (trim_end ''/'' base @ ''/api/tags'') None"

definition ollama_Health :: "backend \<Rightarrow> (string \<Rightarrow> string + string list) \<Rightarrow> string \<Rightarrow> backend_error + string list" where
  "ollama_Health = Tags"

definition normalizeBase :: "string \<Rightarrow> string" where
  "normalizeBase raw = trim_end ''/'' raw"

text \<open>
  \<open>parse\<close> gives the path of a URL that parses and has a scheme, with the function that prints it with another
  path; \<open>dir\<close> is \<^verbatim>\<open>path.Dir\<close>.
\<close>

definition last_slash :: "string \<Rightarrow> nat" where
  "last_slash s = length s - length (takeWhile (\<lambda>c. c \<noteq> CHR ''/'') (rev s)) - 1"

definition parentBase :: "(string \<Rightarrow> (string \<times> (string \<Rightarrow> string)) option) \<Rightarrow> (string \<Rightarrow> string) \<Rightarrow> string \<Rightarrow> string" where
  "parentBase parse dir raw =
     (case parse raw of
        None \<Rightarrow>
          let base = trim_end ''/'' raw in
          if base = [] then base
          else if CHR ''/'' \<in> set base \<and> 0 < last_slash base then take (last_slash base) base else base
      | Some (p, print) \<Rightarrow>
          let q = trim_end ''/'' p in
          if q = [] then print p else print (if dir q = ''.'' then [] else dir q))"

section \<open>Probes\<close>

definition probed :: "int \<Rightarrow> backend_error + string list \<Rightarrow> backend_error + probe_result" where
  "probed max_conc r =
     map_sum (\<lambda>e. e) (\<lambda>models. \<lparr>pr_ready = True, pr_models = models, pr_max = max_conc, pr_config = Map.empty\<rparr>) r"

definition llm_probe ::
  "backend \<Rightarrow> (string \<Rightarrow> string + string list) \<Rightarrow> (string \<Rightarrow> string + string list)
    \<Rightarrow> (string \<Rightarrow> (string \<times> (string \<Rightarrow> string)) option) \<Rightarrow> (string \<Rightarrow> string) \<Rightarrow> llm_config \<Rightarrow> backend_error + probe_result" where
  "llm_probe get models tags parse dir c =
     (let base = normalizeBase (wc_base c) in
      probed (wc_max c)
        (if ToLower (lc_style c) = ''ollama'' then ollama_Health get tags (parentBase parse dir base)
         else openai_Models get models base (wc_api_key c)))"

definition asr_probe :: "backend \<Rightarrow> (string \<Rightarrow> string + string list) \<Rightarrow> worker_config \<Rightarrow> backend_error + probe_result" where
  "asr_probe get decode c =
     probed (wc_max c)
       (case get (wc_base c @ ''/models'') (bearer_key (wc_api_key c)) of
          Inl err \<Rightarrow> Inl (Unreachable err)
        | Inr r \<Rightarrow>
            if 400 \<le> hr_status r then Inl (BadStatus (hr_text r) [])
            else case decode (hr_body r) of Inl err \<Rightarrow> Inl (BadBody err) | Inr names \<Rightarrow> Inr names)"

definition docling_probe :: "backend \<Rightarrow> worker_config \<Rightarrow> backend_error + probe_result" where
  "docling_probe get c =
     probed (wc_max c)
       (case get (wc_base c @ ''/health'') None of
          Inl err \<Rightarrow> Inl (Unreachable err)
        | Inr r \<Rightarrow> if 400 \<le> hr_status r then Inl (BadStatus (hr_text r) []) else Inr [])"

section \<open>The version of the backend\<close>

record backend_info =
  bi_family :: string
  bi_version :: string

definition no_info :: backend_info where
  "no_info = \<lparr>bi_family = [], bi_version = []\<rparr>"

definition inferBackendFamily :: "string \<Rightarrow> string" where
  "inferBackendFamily version =
     (let v = ToLower (TrimSpace version) in
      if HasPrefix v ''llama.cpp'' then ''llama.cpp'' else if HasPrefix v ''ollama'' then ''ollama'' else ''unknown'')"

definition backendInfoFromOverride :: "string \<Rightarrow> backend_info" where
  "backendInfoFromOverride version =
     (let v = TrimSpace version in
      if v = [] then no_info else \<lparr>bi_family = inferBackendFamily v, bi_version = v\<rparr>)"

definition backendAgentConfig :: "backend_info \<Rightarrow> settings" where
  "backendAgentConfig info =
     (if TrimSpace (bi_version info) = [] then Map.empty
      else [''backend_version'' \<mapsto> TrimSpace (bi_version info),
            ''backend_family'' \<mapsto> (let f = TrimSpace (bi_family info) in if f = [] then ''unknown'' else f)])"

definition setting_of :: "settings \<Rightarrow> string \<Rightarrow> string" where
  "setting_of m k = (case m k of None \<Rightarrow> [] | Some v \<Rightarrow> v)"

definition shouldDiscoverBackendInfo :: "settings \<Rightarrow> bool" where
  "shouldDiscoverBackendInfo m \<longleftrightarrow> TrimSpace (setting_of m ''backend_version'') = []"

text \<open>One field of the answer, trimmed; anything that is not a good answer counts as an empty one.\<close>

definition fetch_field :: "backend \<Rightarrow> (string \<Rightarrow> string option) \<Rightarrow> string \<Rightarrow> string option \<Rightarrow> string" where
  "fetch_field get field url key =
     (case get url key of
        Inl err \<Rightarrow> []
      | Inr r \<Rightarrow> if ok_status r then (case field (hr_body r) of None \<Rightarrow> [] | Some v \<Rightarrow> TrimSpace v) else [])"

definition discoverBackendInfo ::
  "backend \<Rightarrow> (string \<Rightarrow> string option) \<Rightarrow> (string \<Rightarrow> string option) \<Rightarrow> (string \<Rightarrow> (string \<times> (string \<Rightarrow> string)) option)
    \<Rightarrow> (string \<Rightarrow> string) \<Rightarrow> string \<Rightarrow> string \<Rightarrow> backend_info" where
  "discoverBackendInfo get build api parse dir base key =
     (let root = trim_end ''/'' (parentBase parse dir (normalizeBase base)) in
      if root = [] then no_info
      else
        let b = fetch_field get build (root @ ''/props'') (bearer_key key) in
        if b \<noteq> [] then \<lparr>bi_family = ''llama.cpp'', bi_version = b\<rparr>
        else
          let v = fetch_field get api (root @ ''/api/version'') (bearer_key key) in
          if v \<noteq> [] then \<lparr>bi_family = ''ollama'', bi_version = v\<rparr> else no_info)"

text \<open>\<open>found\<close> is what \<open>discoverBackendInfo\<close> returns, \<open>m\<close> the configuration the agent has.\<close>

definition wrapProbeWithBackendInfo :: "backend_info \<Rightarrow> settings \<Rightarrow> string + probe_result \<Rightarrow> string + probe_result" where
  "wrapProbeWithBackendInfo found m res =
     (case res of
        Inl err \<Rightarrow> Inl err
      | Inr r \<Rightarrow>
          if \<not> pr_ready r then Inr r
          else if shouldDiscoverBackendInfo m \<and> backendAgentConfig found \<noteq> Map.empty then Inr (r\<lparr>pr_config := backendAgentConfig found\<rparr>)
          else Inr r)"

section \<open>The configuration the generic worker runs with\<close>

record host_facts =
  ho_name :: string
  ho_platform :: string
  ho_os :: string
  ho_platform_version :: string
  ho_kernel :: string

definition host_settings :: "host_facts \<Rightarrow> settings" where
  "host_settings h =
     (let os = (if TrimSpace (ho_platform h) = [] then TrimSpace (ho_os h) else TrimSpace (ho_platform h));
          v = (if TrimSpace (ho_platform_version h) = [] then TrimSpace (ho_kernel h) else TrimSpace (ho_platform_version h))
      in [''hostname'' \<mapsto> TrimSpace (ho_name h), ''os_name'' \<mapsto> os, ''os_version'' \<mapsto> v])"

text \<open>A sample of the host: the first of the percentages, the memory, and how many of the two failed.\<close>

definition host_sample :: "'f list option \<Rightarrow> 'f option \<Rightarrow> 'f option \<times> 'f option \<times> nat" where
  "host_sample cpu memory =
     (let c = (case cpu of None \<Rightarrow> None | Some [] \<Rightarrow> None | Some (p # ps) \<Rightarrow> Some p)
      in (c, memory, (if c = None then 1 else 0) + (if memory = None then 1 else 0)))"

definition plain_config :: "worker_config \<Rightarrow> proxy_config" where
  "plain_config c =
     \<lparr>pc_server = wc_server c, pc_key = wc_key c, pc_base = wc_base c, pc_api_key = wc_api_key c, pc_probe = True, pc_interval = 0,
      pc_max = wc_max c, pc_id = wc_id c, pc_name = wc_name c, pc_config = Map.empty, pc_dynamic = Map.empty, pc_drain = wc_drain c,
      pc_timeout = wc_timeout c, pc_reconnect = wc_reconnect c\<rparr>"

text \<open>\<open>telemetry\<close> is the information about the host, when it could be had.\<close>

definition llm_settings :: "host_facts option \<Rightarrow> llm_config \<Rightarrow> settings" where
  "llm_settings telemetry c =
     (let m = (if 0 < lc_batch c then [''embedding_batch_size'' \<mapsto> Itoa (lc_batch c)] else Map.empty);
          m = m ++ backendAgentConfig (backendInfoFromOverride (lc_version c))
      in case telemetry of None \<Rightarrow> m | Some h \<Rightarrow> m ++ host_settings h)"

definition llm_proxy_config :: "host_facts option \<Rightarrow> llm_config \<Rightarrow> proxy_config" where
  "llm_proxy_config telemetry c =
     \<lparr>pc_server = wc_server c, pc_key = wc_key c, pc_base = wc_base c, pc_api_key = wc_api_key c, pc_probe = True,
      pc_interval = lc_poll c, pc_max = wc_max c, pc_id = wc_id c, pc_name = wc_name c, pc_config = llm_settings telemetry c,
      pc_dynamic = Map.empty, pc_drain = wc_drain c, pc_timeout = wc_timeout c, pc_reconnect = wc_reconnect c\<rparr>"

section \<open>Signals\<close>

text \<open>The process of \<^verbatim>\<open>nfrx-llm\<close>: its agent, the timers its signals have started, and whether it still listens.\<close>

record agent_process =
  ap_agent :: proxy_agent
  ap_timers :: "time list"
  ap_listening :: bool

definition agent_terminates :: "agent_process \<Rightarrow> agent_process" where
  "agent_terminates s = s\<lparr>ap_agent := (proxy_SetState ''terminating'' (ap_agent s))\<lparr>pa_ended := True\<rparr>\<rparr>"

definition agent_on_signal :: "proxy_config \<Rightarrow> time \<Rightarrow> agent_process \<Rightarrow> agent_process" where
  "agent_on_signal cfg now s =
     (if \<not> ap_listening s then s
      else if pa_draining (ap_agent s) \<or> pc_drain cfg = 0 then (agent_terminates s)\<lparr>ap_listening := False\<rparr>
      else s\<lparr>ap_agent := StartDrain cfg (ap_agent s),
             ap_timers := (if 0 < pc_drain cfg then (now + pc_drain cfg) # ap_timers s else ap_timers s)\<rparr>)"

definition agent_on_timers :: "time \<Rightarrow> agent_process \<Rightarrow> agent_process" where
  "agent_on_timers now s =
     (let s' = s\<lparr>ap_timers := filter (\<lambda>t. now < t) (ap_timers s)\<rparr>
      in if (\<exists>t \<in> set (ap_timers s). t \<le> now) \<and> pa_draining (ap_agent s) then agent_terminates s' else s')"

text \<open>The agents of transcriptions and documents end their context at the first signal.\<close>

definition plain_signal :: "proxy_agent \<Rightarrow> proxy_agent" where
  "plain_signal a = a\<lparr>pa_ended := True\<rparr>"

section \<open>The attempts of the relay\<close>

text \<open>
  One attempt of \<^verbatim>\<open>nfrx-mcp\<close>: the errors of the dial, of the registration and of the relay, \<open>None\<close> for none; the
  acknowledgement is an error or the id in it, empty when it does not decode; and whether the context ends in the
  wait after the attempt.  The id is kept from one attempt to the next.
\<close>

record relay_world =
  rw_dial :: "string option"
  rw_register :: "string option"
  rw_ack :: "string + string"
  rw_relay :: "string option"
  rw_stops :: bool

definition relay_attempt :: "string \<Rightarrow> relay_world \<Rightarrow> string option \<times> string" where
  "relay_attempt i w =
     (case rw_dial w of
        Some err \<Rightarrow> (Some err, i)
      | None \<Rightarrow>
          (case rw_register w of
             Some err \<Rightarrow> (Some err, i)
           | None \<Rightarrow> (case rw_ack w of Inl err \<Rightarrow> (Some err, i) | Inr j \<Rightarrow> (rw_relay w, j))))"

fun relay_attempts :: "string \<Rightarrow> relay_world list \<Rightarrow> (string option \<times> bool) list" where
  "relay_attempts i [] = []"
| "relay_attempts i (w # ws) = (let (err, j) = relay_attempt i w in (err, rw_stops w) # relay_attempts j ws)"

definition relay_Run :: "mcp_config \<Rightarrow> relay_world list \<Rightarrow> duration list \<times> attempt_end option" where
  "relay_Run c ws = RunWithReconnect (mc_reconnect c) 0 (relay_attempts (mc_id c) ws)"

text \<open>The ids it registers with, one for each dial that succeeds.\<close>

fun registered_ids :: "string \<Rightarrow> relay_world list \<Rightarrow> string list" where
  "registered_ids i [] = []"
| "registered_ids i (w # ws) = (if rw_dial w = None then [i] else []) @ registered_ids (snd (relay_attempt i w)) ws"

section \<open>Lemmas\<close>

text \<open>Merging a configuration overrides the keys that are visited.\<close>

lemma merge_config_keys: "snd (merge_config ks cfg m) k = (if k \<in> set ks then cfg k else m k)"
proof (induction ks arbitrary: m)
  case (Cons j js)
  then show ?case by (cases "m j = cfg j") auto
qed simp

lemma config_frame [simp]:
  "ps_config (pa_state (SetLabels ls a)) = ps_config (pa_state a)" "ps_config (pa_state (proxy_SetState st a)) = ps_config (pa_state a)"
  "ps_config (pa_state (SetWorkerInfo i n m a)) = ps_config (pa_state a)" "ps_config (pa_state (SetLastError e a)) = ps_config (pa_state a)"
  "ps_config (pa_state (SetConnectedToBackend b a)) = ps_config (pa_state a)" "ps_config (pa_state (sendStatusUpdate su a)) = ps_config (pa_state a)"
  by (simp_all add: SetLabels_def proxy_SetState_def SetWorkerInfo_def SetLastError_def SetConnectedToBackend_def sendStatusUpdate_def
      on_state_def)

lemma probe_failed_config: "ps_config (pa_state (probe_failed cfg err a)) = ps_config (pa_state a)"
  by (cases err) (simp_all add: probe_failed_def)

lemma probe_ready_config:
  "ps_config (pa_state (probe_ready cfg keys r a)) = snd (merge_config keys (pr_config r) (ps_config (pa_state a)))"
proof -
  obtain ch m where m: "merge_config keys (pr_config r) (ps_config (pa_state a)) = (ch, m)" by fastforce
  then have "MergeAgentConfig keys (pr_config r) a = (ch, on_state (\<lambda>s. s\<lparr>ps_config := m\<rparr>) a)" by (simp add: MergeAgentConfig_def)
  with m show ?thesis by (simp add: probe_ready_def on_state_def Let_def)
qed

lemma probe_config:
  assumes "pc_probe cfg" "pr_ready r"
  shows "ps_config (pa_state (snd (probeBackend cfg keys (Inr r) a))) k = (if k \<in> set keys then pr_config r k else ps_config (pa_state a) k)"
  using assms by (simp add: probeBackend_def probe_ready_config merge_config_keys)

text \<open>A server that acknowledges an id with that id is always asked for the same one.\<close>

lemma relay_keeps_id:
  "\<forall>w \<in> set ws. rw_ack w = Inr i \<or> (\<exists>err. rw_ack w = Inl err) \<Longrightarrow> set (registered_ids i ws) \<subseteq> {i}"
proof (induction ws)
  case (Cons w ws)
  then have "snd (relay_attempt i w) = i" by (auto simp: relay_attempt_def split: option.splits sum.splits)
  moreover have "set (registered_ids i ws) \<subseteq> {i}" using Cons by simp
  ultimately show ?case by auto
qed simp

definition known_version :: "proxy_agent \<Rightarrow> string" where
  "known_version a = TrimSpace (setting_of (ps_config (pa_state a)) ''backend_version'')"

section \<open>Properties\<close>

text \<open>
  The version of the backend is looked for until one is known, and stands from then on: the first
  version found is in the agent's configuration after the probe, and with a version known, given by the settings
  or found, the probe's own result is used and the version stays, whatever the backend would say.
\<close>

theorem backend_version_once:
  assumes "pc_probe cfg" "pr_ready r" "pr_config r = Map.empty"
    and "res = wrapProbeWithBackendInfo found (ps_config (pa_state a)) (Inr r)" "set keys = (case res of Inl e \<Rightarrow> {} | Inr q \<Rightarrow> dom (pr_config q))"
  shows "known_version (snd (probeBackend cfg keys res a)) =
    (if known_version a = [] \<and> TrimSpace (bi_version found) \<noteq> [] then TrimSpace (TrimSpace (bi_version found)) else known_version a)"
proof (cases "known_version a = [] \<and> TrimSpace (bi_version found) \<noteq> []")
  case True
  then have "res = Inr (r\<lparr>pr_config := backendAgentConfig found\<rparr>)" "''backend_version'' \<in> dom (backendAgentConfig found)"
    using assms(2,4) by (auto simp: wrapProbeWithBackendInfo_def shouldDiscoverBackendInfo_def known_version_def backendAgentConfig_def)
  with assms(5) have r: "res = Inr (r\<lparr>pr_config := backendAgentConfig found\<rparr>)" "''backend_version'' \<in> set keys" by auto
  with assms(1,2) True show ?thesis
    by (simp add: known_version_def setting_of_def probe_config backendAgentConfig_def)
next
  case False
  then have "res = Inr r" using assms(2-4)
    by (auto simp: wrapProbeWithBackendInfo_def shouldDiscoverBackendInfo_def known_version_def backendAgentConfig_def)
  with assms(1-3,5) False show ?thesis by (simp add: known_version_def setting_of_def probe_config)
qed

theorem backend_version_once_witness:
  "let found = \<lparr>bi_family = ''ollama'', bi_version = ''0.5''\<rparr>; r = \<lparr>pr_ready = True, pr_models = [''m''], pr_max = 2, pr_config = Map.empty\<rparr>;
       cfg = sample_config\<lparr>pc_probe := True\<rparr>
   in known_version (snd (probeBackend cfg [''backend_version'', ''backend_family'']
       (wrapProbeWithBackendInfo found (ps_config (pa_state initial_agent)) (Inr r)) initial_agent)) = TrimSpace (TrimSpace ''0.5'')"
proof -
  let ?found = "\<lparr>bi_family = ''ollama'', bi_version = ''0.5''\<rparr>"
  let ?r = "\<lparr>pr_ready = True, pr_models = [''m''], pr_max = 2, pr_config = Map.empty\<rparr>"
  let ?w = "wrapProbeWithBackendInfo ?found (ps_config (pa_state initial_agent)) (Inr ?r)"
  have t: "TrimSpace ''0.5'' \<noteq> []" by code_simp
  have e: "ps_config (pa_state initial_agent) = Map.empty" by (simp add: initial_agent_def)
  have w: "?w = Inr (?r\<lparr>pr_config := backendAgentConfig ?found\<rparr>)"
    by (simp add: wrapProbeWithBackendInfo_def e shouldDiscoverBackendInfo_def setting_of_def backendAgentConfig_def t)
  have k: "set [''backend_version'', ''backend_family''] = (case ?w of Inl e \<Rightarrow> {} | Inr q \<Rightarrow> dom (pr_config q))"
    unfolding w by (auto simp: backendAgentConfig_def t)
  have n: "known_version initial_agent = []" by (simp add: known_version_def e setting_of_def)
  show ?thesis
    using backend_version_once [of "sample_config\<lparr>pc_probe := True\<rparr>" ?r ?w ?found initial_agent, OF _ _ _ refl k] n t by simp
qed



end
