(* ===== verification/JobLedger.thy ===== *)
theory JobLedger
  imports JobProperties
begin

text \<open>
  What the registry promises about its jobs, as a specification: a ledger of statuses with the jobs that wait
  and the numbers of those that ended.  A job enters once, as queued, moves between statuses while it has not
  ended, and keeps the status it ends with.  The registry with its queue, waiters, streams, timers and transfers
  refines it: every critical section is one step of the ledger or none.
\<close>

section \<open>The specification\<close>

record ledger =
  ld_status :: "string \<rightharpoonup> string"
  ld_waiting :: "string set"
  ld_ended :: "uint64 \<times> uint64 \<times> uint64"

definition empty_ledger :: ledger where
  "empty_ledger = \<lparr>ld_status = Map.empty, ld_waiting = {}, ld_ended = (0, 0, 0)\<rparr>"

inductive ledger_step :: "ledger \<Rightarrow> ledger \<Rightarrow> bool" where
  Enter_job: "ld_status l k = None \<Longrightarrow>
     ledger_step l (l\<lparr>ld_status := (ld_status l)(k \<mapsto> StatusQueued), ld_waiting := insert k (ld_waiting l)\<rparr>)"
| Move_job: "ld_status l k = Some u \<Longrightarrow> \<not> isTerminalStatus u \<Longrightarrow> v \<noteq> StatusQueued \<Longrightarrow>
     ledger_step l (l\<lparr>ld_status := (ld_status l)(k \<mapsto> v), ld_waiting := ld_waiting l - {k}, ld_ended := bump v (ld_ended l)\<rparr>)"

inductive_cases ledger_stepE: "ledger_step l l'"

text \<open>Facts of the specification alone, by induction over its steps.\<close>

definition ledger_ok :: "ledger \<Rightarrow> bool" where
  "ledger_ok l \<longleftrightarrow> (\<forall>k. k \<in> ld_waiting l \<longleftrightarrow> ld_status l k = Some StatusQueued)"

lemma ledger_step_ok: "ledger_step l l' \<Longrightarrow> ledger_ok l \<Longrightarrow> ledger_ok l'"
  by (induction rule: ledger_step.induct) (auto simp: ledger_ok_def)

lemma ledger_run_ok: "ledger_step\<^sup>*\<^sup>* l l' \<Longrightarrow> ledger_ok l \<Longrightarrow> ledger_ok l'"
  by (induction rule: rtranclp_induct) (auto intro: ledger_step_ok)

text \<open>How one job may go on: from nothing to the queue, out of the queue for good, and nowhere from its end.\<close>

fun goes_on :: "string option \<Rightarrow> string option \<Rightarrow> bool" where
  "goes_on None None = True"
| "goes_on None (Some v) = True"
| "goes_on (Some u) None = False"
| "goes_on (Some u) (Some v) = (if isTerminalStatus u then v = u else u = v \<or> v \<noteq> StatusQueued)"

lemma goes_on_refl [simp]: "goes_on x x"
  by (cases x) auto

lemma goes_on_trans: "goes_on x y \<Longrightarrow> goes_on y z \<Longrightarrow> goes_on x z"
  by (cases x; cases y; cases z) (auto split: if_splits)

lemma ledger_step_goes_on: "ledger_step l l' \<Longrightarrow> goes_on (ld_status l k) (ld_status l' k)"
  by (induction rule: ledger_step.induct) auto

lemma ledger_run_goes_on: "ledger_step\<^sup>*\<^sup>* l l' \<Longrightarrow> goes_on (ld_status l k) (ld_status l' k)"
  by (induction rule: rtranclp_induct) (auto intro: goes_on_trans ledger_step_goes_on)

section \<open>The registry refines it\<close>

definition ledger_of :: "registry \<Rightarrow> ledger" where
  "ledger_of r =
     \<lparr>ld_status = (\<lambda>i. map_option j_status (jobs r i)), ld_waiting = set (queue r), ld_ended = counters r\<rparr>"

lemma status_of: "map_option j_status (jobs r i) = (if i \<in> dom (jobs r) then Some (job_status i r) else None)"
  by (cases "jobs r i") auto

lemma stays_ledger: "stays r r' \<Longrightarrow> ledger_of r' = ledger_of r"
  unfolding stays_def by (simp add: ledger_of_def status_of fun_eq_iff)

lemma moves_ledger:
  assumes "moves k v r r'"
  shows "ledger_step (ledger_of r) (ledger_of r')"
proof (cases "k \<in> dom (jobs r)")
  case True
  with assms have "ledger_of r' = (ledger_of r)\<lparr>ld_status := (ld_status (ledger_of r))(k \<mapsto> v),
      ld_waiting := ld_waiting (ledger_of r) - {k}, ld_ended := bump v (ld_ended (ledger_of r))\<rparr>"
    by (auto simp: ledger_of_def status_of moves_def)
  moreover from True have "ld_status (ledger_of r) k = Some (job_status k r)" by (simp add: ledger_of_def status_of)
  ultimately show ?thesis using Move_job [of "ledger_of r" k "job_status k r" v] assms True by (simp add: moves_def)
next
  case False
  with assms have v: "v = StatusQueued" by (simp add: moves_def)
  have "bump StatusQueued c = c" for c by (simp add: bump_nonterminal)
  with assms False v have "ledger_of r' = (ledger_of r)\<lparr>ld_status := (ld_status (ledger_of r))(k \<mapsto> StatusQueued),
      ld_waiting := insert k (ld_waiting (ledger_of r))\<rparr>"
    by (auto simp: ledger_of_def status_of moves_def)
  moreover from False have "ld_status (ledger_of r) k = None" by (simp add: ledger_of_def status_of)
  ultimately show ?thesis using Enter_job [of "ledger_of r" k] by simp
qed

lemma section_refines:
  assumes "calm_inv s" "calm_guard e s"
  shows "\<exists>r r'. s = Some r \<and> jstep e s = Some r' \<and> ledger_step\<^sup>=\<^sup>= (ledger_of r) (ledger_of r')"
  using calm_cases [OF assms] by (auto dest: stays_ledger moves_ledger)

lemma run_refines:
  "calm_inv (Some r) \<Longrightarrow> run calm_guard jstep es (Some r) = Some t \<Longrightarrow>
     \<exists>r'. t = Some r' \<and> ledger_step\<^sup>*\<^sup>* (ledger_of r) (ledger_of r')"
proof (induction es arbitrary: r)
  case (Cons e es)
  then have g: "calm_guard e (Some r)" "run calm_guard jstep es (jstep e (Some r)) = Some t" by (auto split: if_splits)
  from section_refines [OF Cons.prems(1) g(1)] obtain r1 where
    r1: "jstep e (Some r) = Some r1" "ledger_step\<^sup>=\<^sup>= (ledger_of r) (ledger_of r1)" by blast
  from calm_inv_step [OF Cons.prems(1) g(1)] r1(1) have "calm_inv (Some r1)" by simp
  from Cons.IH [OF this] g(2) r1(1) obtain r' where "t = Some r'" "ledger_step\<^sup>*\<^sup>* (ledger_of r1) (ledger_of r')" by auto
  with r1(2) show ?case by (auto intro: converse_rtranclp_into_rtranclp)
qed auto

lemma NewJobRegistry_ledger: "ledger_of (NewJobRegistry tr delay ttl) = empty_ledger"
  by (simp add: ledger_of_def NewJobRegistry_def empty_ledger_def counters_def zero_stats_def)

section \<open>Property\<close>

text \<open>
  C3: in disciplined runs the registry, with all it does besides, goes through the steps of the ledger: between
  any two points each job entered the queue once, left it for good, and kept the status it ended with.
\<close>

theorem jobs_refine_ledger:
  assumes "run calm_guard jstep es (Some (NewJobRegistry tr delay ttl)) = Some (Some r)"
    and "run calm_guard jstep fs (Some r) = Some (Some r')"
  shows "ledger_step\<^sup>*\<^sup>* empty_ledger (ledger_of r) \<and> ledger_step\<^sup>*\<^sup>* (ledger_of r) (ledger_of r') \<and>
    ledger_ok (ledger_of r') \<and> goes_on (ld_status (ledger_of r) k) (ld_status (ledger_of r') k)"
proof -
  have i: "calm_inv (Some (NewJobRegistry tr delay ttl))" by (simp add: calm_inv_def NewJobRegistry_calm)
  from run_refines [OF i assms(1)] have a: "ledger_step\<^sup>*\<^sup>* empty_ledger (ledger_of r)" by (simp add: NewJobRegistry_ledger)
  have "calm_inv (Some r)" by (rule calm_runs.reach_inv [OF _ assms(1)]) (auto simp: jinit_def)
  from run_refines [OF this assms(2)] have b: "ledger_step\<^sup>*\<^sup>* (ledger_of r) (ledger_of r')" by auto
  have "ledger_ok empty_ledger" by (simp add: ledger_ok_def empty_ledger_def)
  with a b have "ledger_ok (ledger_of r')" using ledger_run_ok by blast
  with a b ledger_run_goes_on [OF b, of k] show ?thesis by blast
qed

theorem jobs_refine_ledger_witness:
  "\<exists>r r'. run calm_guard jstep sample_run (Some sample_reg) = Some (Some r) \<and>
     run calm_guard jstep late_run (Some r) = Some (Some r') \<and> ledger_step\<^sup>*\<^sup>* empty_ledger (ledger_of r) \<and>
     goes_on (ld_status (ledger_of r) ''j1'') (ld_status (ledger_of r') ''j1'')"
proof -
  from late_run_exists obtain r t where r:
    "run calm_guard jstep sample_run (Some (NewJobRegistry (NewRegistry 0) 0 Minute)) = Some (Some r)"
    "run calm_guard jstep late_run (Some r) = Some t" by blast
  have "calm_inv (Some r)" by (rule calm_runs.reach_inv [OF _ r(1)]) (auto simp: jinit_def)
  from run_refines [OF this r(2)] obtain r' where "t = Some r'" by blast
  with r jobs_refine_ledger [OF r(1), of late_run r' "''j1''"] show ?thesis by (auto simp: sample_reg_def)
qed

end
