(* ===== verification/RequestMetrics.thy ===== *)
theory RequestMetrics
  imports GenProxy Transports McpServer
begin

text \<open>
  What the requests of the extensions leave in the Prometheus collectors of \<^verbatim>\<open>sdk/base/metrics/metrics.go\<close>:
  the collectors, the calls every handler makes on its way, and the gauge of requests in flight.  A value is
  a \<^verbatim>\<open>float64\<close> in the library; counts are exact there up to \<open>2^53\<close> and are naturals here.
\<close>

section \<open>The collectors\<close>

text \<open>Extension, type of the extension, type of the job, and label (the model or the method).\<close>

type_synonym labels = "string \<times> string \<times> string \<times> string"

record request_metrics =
  rq_total :: "labels \<Rightarrow> nat"
  rq_started :: "labels \<Rightarrow> nat"
  rq_completed :: "labels \<times> string \<times> string \<Rightarrow> nat"
  rq_durations :: "labels \<Rightarrow> duration list"
  rq_size :: "labels \<times> string \<Rightarrow> nat"
  rq_inflight :: "labels \<Rightarrow> int"
  rq_chunks :: "labels \<times> string \<times> string \<times> string \<Rightarrow> nat"
  rq_chunk_durations :: "labels \<times> string \<Rightarrow> duration list"
  rq_chunk_size :: "labels \<times> string \<times> string \<Rightarrow> nat"

definition fresh_metrics :: request_metrics where
  "fresh_metrics =
     \<lparr>rq_total = (\<lambda>_. 0), rq_started = (\<lambda>_. 0), rq_completed = (\<lambda>_. 0), rq_durations = (\<lambda>_. []), rq_size = (\<lambda>_. 0),
      rq_inflight = (\<lambda>_. 0), rq_chunks = (\<lambda>_. 0), rq_chunk_durations = (\<lambda>_. []), rq_chunk_size = (\<lambda>_. 0)\<rparr>"

definition add_at :: "'a \<Rightarrow> 'b::plus \<Rightarrow> ('a \<Rightarrow> 'b) \<Rightarrow> ('a \<Rightarrow> 'b)" where
  "add_at k n f = f(k := f k + n)"

definition success_label :: "bool \<Rightarrow> string" where
  "success_label ok = (if ok then ''true'' else ''false'')"

definition RecordRequest :: "labels \<Rightarrow> request_metrics \<Rightarrow> request_metrics" where
  "RecordRequest ls m = m\<lparr>rq_total := add_at ls 1 (rq_total m)\<rparr>"

definition RecordStart :: "labels \<Rightarrow> request_metrics \<Rightarrow> request_metrics" where
  "RecordStart ls m = m\<lparr>rq_started := add_at ls 1 (rq_started m), rq_inflight := add_at ls 1 (rq_inflight m)\<rparr>"

definition RecordComplete :: "labels \<Rightarrow> string \<Rightarrow> bool \<Rightarrow> duration \<Rightarrow> request_metrics \<Rightarrow> request_metrics" where
  "RecordComplete ls code ok dur m =
     m\<lparr>rq_completed := add_at (ls, success_label ok, code) 1 (rq_completed m),
       rq_durations := (rq_durations m)(ls := rq_durations m ls @ [dur]),
       rq_inflight := add_at ls (- 1) (rq_inflight m)\<rparr>"

definition AddSize :: "labels \<Rightarrow> string \<Rightarrow> 64 word \<Rightarrow> request_metrics \<Rightarrow> request_metrics" where
  "AddSize ls kind n m = (if n = 0 then m else m\<lparr>rq_size := add_at (ls, kind) (unat n) (rq_size m)\<rparr>)"

definition RecordChunkComplete ::
  "labels \<Rightarrow> string \<Rightarrow> string \<Rightarrow> bool \<Rightarrow> duration \<Rightarrow> request_metrics \<Rightarrow> request_metrics" where
  "RecordChunkComplete ls worker code ok dur m =
     m\<lparr>rq_chunks := add_at (ls, worker, success_label ok, code) 1 (rq_chunks m),
       rq_chunk_durations := (rq_chunk_durations m)((ls, worker) := rq_chunk_durations m (ls, worker) @ [dur])\<rparr>"

definition AddChunkSize :: "labels \<Rightarrow> string \<Rightarrow> string \<Rightarrow> 64 word \<Rightarrow> request_metrics \<Rightarrow> request_metrics" where
  "AddChunkSize ls worker kind n m =
     (if n = 0 then m else m\<lparr>rq_chunk_size := add_at (ls, worker, kind) (unat n) (rq_chunk_size m)\<rparr>)"

lemma add_at_simps [simp]: "add_at k n f k = f k + n" "k \<noteq> k' \<Longrightarrow> add_at k n f k' = f k'"
  by (simp_all add: add_at_def)

interpretation inflight_gauge: balanced_counter "\<lambda>m. rq_inflight m ls" "RecordStart ls" "RecordComplete ls code ok dur"
  for ls code ok dur
  by unfold_locales (simp_all add: RecordStart_def RecordComplete_def)

section \<open>The calls of a handler\<close>

datatype measure =
    Requested labels
  | Started labels
  | Completed labels string bool duration
  | Sized labels string "64 word"

fun take_measure :: "measure \<Rightarrow> request_metrics \<Rightarrow> request_metrics" where
  "take_measure (Requested ls) m = RecordRequest ls m"
| "take_measure (Started ls) m = RecordStart ls m"
| "take_measure (Completed ls code ok dur) m = RecordComplete ls code ok dur m"
| "take_measure (Sized ls kind n) m = AddSize ls kind n m"

text \<open>Starts less completions: what a handler adds to the gauge of its labels.\<close>

fun open_after_measures :: "labels \<Rightarrow> measure list \<Rightarrow> int" where
  "open_after_measures ls [] = 0"
| "open_after_measures ls (m # ms) =
     (case m of
        Started l \<Rightarrow> if l = ls then 1 else 0
      | Completed l _ _ _ \<Rightarrow> if l = ls then - 1 else 0
      | _ \<Rightarrow> 0) + open_after_measures ls ms"

lemma gauge_after [simp]:
  "rq_inflight (fold take_measure ms m) ls = rq_inflight m ls + open_after_measures ls ms"
proof (induction ms arbitrary: m)
  case (Cons a ms)
  show ?case
    by (cases a)
      (auto simp: Cons.IH RecordRequest_def RecordStart_def RecordComplete_def AddSize_def add_at_def)
qed simp

lemma open_after_append [simp]:
  "open_after_measures ls (ms @ ms') = open_after_measures ls ms + open_after_measures ls ms'"
  by (induction ms) auto

text \<open>\<^verbatim>\<open>errMsgIf\<close> of the handlers.\<close>

definition error_label :: "bool \<Rightarrow> string \<Rightarrow> string" where
  "error_label ok err = (if ok then [] else err)"

subsection \<open>Transcriptions and documents\<close>

definition transport_measures ::
  "(int \<Rightarrow> header \<Rightarrow> relay_state \<Rightarrow> relay_state) \<Rightarrow> (worker \<Rightarrow> nat) \<Rightarrow> duration \<Rightarrow> string \<Rightarrow> string \<Rightarrow> bool
    \<Rightarrow> string \<Rightarrow> job_request \<Rightarrow> labels \<Rightarrow> worker \<Rightarrow> gateway \<Rightarrow> measure list option outcome" where
  "transport_measures put address timeout meth path stream body r ls wk g =
     bind_outcome (transport_send address meth path stream body r wk g)
       (\<lambda>(sent, g).
          if \<not> sent then Done (Some [Requested ls])
          else
            bind_outcome
              (transport_loop put (address wk) (jq_id r) (jq_chan r) timeout (jq_turns r) (start_relay new_writer False) g)
              (\<lambda>res. Done (map_option (\<lambda>(s, g).
                 [Requested ls, Started ls,
                  Completed ls (error_label (rl_success s) (rl_err s)) (rl_success s) (time_sub (jq_end r) (jq_start r))])
                 res)))"

text \<open>Every way through the handler leaves the gauge as it was.\<close>

lemma transport_gauge:
  "transport_measures put address timeout meth path stream body r ls wk g = Done (Some ms) \<Longrightarrow>
   open_after_measures l ms = 0"
  by (auto simp: transport_measures_def split: if_splits)

subsection \<open>Embeddings of one worker\<close>

definition emb_labels :: "string \<Rightarrow> labels" where
  "emb_labels model = (''llm'', ''worker'', ''llm.embedding'', model)"

text \<open>
  \<open>res\<close> is how the loop of \<open>emb_pass\<close> ended: \<open>None\<close> when the request could not be sent, \<open>Some None\<close> when it
  has not ended.
\<close>

definition emb_measures :: "string \<Rightarrow> duration \<Rightarrow> (relay_state \<times> gateway) option option \<Rightarrow> measure list option" where
  "emb_measures model dur res =
     (let ls = emb_labels model in
      case res of
        None \<Rightarrow> Some [Requested ls]
      | Some None \<Rightarrow> None
      | Some (Some (s, g)) \<Rightarrow>
          Some [Requested ls, Started ls, Completed ls (error_label (rl_success s) (rl_err s)) (rl_success s) dur,
                Sized ls ''embeddings'' 1])"

lemma emb_gauge: "emb_measures model dur res = Some ms \<Longrightarrow> open_after_measures l ms = 0"
  by (auto simp: emb_measures_def Let_def split: option.splits)

subsection \<open>Completions\<close>

text \<open>The deferred calls; the handler counts the start of a request and not the request.\<close>

definition gen_labels :: "string \<Rightarrow> string \<Rightarrow> labels" where
  "gen_labels operation model = (''llm'', ''worker'', operation, model)"

definition gen_deferred :: "labels \<Rightarrow> duration \<Rightarrow> gen_state \<Rightarrow> measure list" where
  "gen_deferred ls dur s =
     (let ok = rl_success (gs_relay s); tin = fst (gs_tokens s); tout = snd (gs_tokens s) in
      [Completed ls (if \<not> ok then rl_err (gs_relay s) else []) ok dur]
      @ (if 0 < tin then [Sized ls ''tokens_in'' tin] else [])
      @ (if 0 < tout then [Sized ls ''tokens_out'' tout, Sized ls ''tokens_total'' (tin + tout)] else []))"

text \<open>\<open>None\<close> is a request that no worker was found for.\<close>

definition gen_measures :: "labels \<Rightarrow> duration \<Rightarrow> gen_state option \<Rightarrow> measure list" where
  "gen_measures ls dur s = (case s of None \<Rightarrow> [] | Some s \<Rightarrow> Started ls # gen_deferred ls dur s)"

lemma gen_gauge: "open_after_measures l (gen_measures ls dur s) = 0"
  by (auto simp: gen_measures_def gen_deferred_def Let_def split: option.split)

text \<open>The totals of tokens are the sums of what goes in and comes out, unless nothing comes out.\<close>

lemma gen_token_totals:
  assumes "\<not> unat (fst (gs_tokens s)) + unat (snd (gs_tokens s)) \<ge> 2 ^ 64"
  shows "rq_size (fold take_measure (gen_measures ls dur (Some s)) m) (ls, ''tokens_total'') =
    rq_size m (ls, ''tokens_total'') +
    (if snd (gs_tokens s) = 0 then 0 else unat (fst (gs_tokens s)) + unat (snd (gs_tokens s)))"
proof -
  have sum: "unat (fst (gs_tokens s) + snd (gs_tokens s)) = unat (fst (gs_tokens s)) + unat (snd (gs_tokens s))"
    using assms by (simp add: unat_word_ariths)
  then show ?thesis
    by (auto simp: gen_measures_def gen_deferred_def Let_def AddSize_def add_at_def RecordStart_def RecordComplete_def word_gt_0)
qed

lemma gen_not_requested: "rq_total (fold take_measure (gen_measures ls dur s) m) = rq_total m"
  by (simp add: gen_measures_def gen_deferred_def Let_def RecordStart_def RecordComplete_def AddSize_def split: option.split)


subsection \<open>Partitioned embeddings\<close>

text \<open>
  The observer of \<^verbatim>\<open>openai/partition.go\<close>.  The handler tells it of the job when a worker's answer ends it
  or all are in; not when the job is empty, has no worker, or an answer cannot be put in its place.
\<close>

definition OnChunkResult :: "string \<Rightarrow> string \<Rightarrow> duration \<Rightarrow> int \<Rightarrow> bool \<Rightarrow> request_metrics \<Rightarrow> request_metrics" where
  "OnChunkResult worker model dur elements ok m =
     (let m = RecordChunkComplete (emb_labels model) worker [] ok dur m in
      if 0 < elements then AddChunkSize (emb_labels model) worker ''embeddings'' (word_of_int elements) m else m)"

definition OnJobResult :: "string \<Rightarrow> duration \<Rightarrow> int \<Rightarrow> bool \<Rightarrow> measure list" where
  "OnJobResult model dur elements ok =
     Completed (emb_labels model) [] ok dur #
     (if 0 < elements then [Sized (emb_labels model) ''embeddings'' (word_of_int elements)] else [])"

fun collect_observed :: "'j job_ops \<Rightarrow> string \<Rightarrow> duration \<Rightarrow> int \<Rightarrow> nat \<Rightarrow> chunk_result list \<Rightarrow> 'j \<Rightarrow> measure list option" where
  "collect_observed ops model dur sz 0 rs j = Some (OnJobResult model dur sz True)"
| "collect_observed ops model dur sz (Suc n) [] j = None"
| "collect_observed ops model dur sz (Suc n) (r # rs) j =
     (if \<not> rp_ok (cr_reply r) then Some (OnJobResult model dur sz False)
      else
        case jo_append ops (rp_body (cr_reply r)) (cr_start r) j of
          None \<Rightarrow> Some []
        | Some j \<Rightarrow> collect_observed ops model dur sz n rs j)"

text \<open>The handler counts no start, so a job that is told of lowers the gauge for good.\<close>

lemma job_result_gauge: "open_after_measures (emb_labels model) (OnJobResult model dur sz ok) = - 1"
  by (simp add: OnJobResult_def)

lemma collect_success_gauge:
  assumes "collect ops n rs j = Some (r, j')" "rp_ok r"
  obtains ms where "collect_observed ops model dur sz n rs j = Some ms" "open_after_measures (emb_labels model) ms = - 1"
  using assms
proof (induction ops n rs j rule: collect.induct)
  case (1 ops rs j)
  then show ?case by (simp add: job_result_gauge)
next
  case (3 ops n r' rs j)
  then show ?case by (auto simp: aggregate_failed_def reply_def split: if_splits option.splits)
qed simp

subsection \<open>Calls through the tunnel\<close>

text \<open>
  The handler of \<^verbatim>\<open>sdk/base/tunnel/registry.go\<close> again, with what it measures in place of what it answers.
  \<open>invalid\<close> is the label an adapter gives a request it refuses, \<open>dur\<close> the time since the session was opened.
\<close>

definition relay_measures ::
  "adapter \<Rightarrow> int \<Rightarrow> call \<Rightarrow> nat \<Rightarrow> string \<Rightarrow> string \<Rightarrow> labels \<Rightarrow> duration \<Rightarrow> tunnel \<Rightarrow> measure list outcome" where
  "relay_measures ad maxResp c p label payload ls dur t =
     bind_outcome (use_relay p (ad_open ad (cl_opened c) (cl_sid c) (cl_req c) label (bearer_token (cl_auth c))) t) (\<lambda>(e, t).
       case e of
         Some (code, st) \<Rightarrow> Done [Completed ls code False dur]
       | None \<Rightarrow>
           bind_outcome (wait_message (cl_chan c) (cl_open c) t) (\<lambda>(m, t).
             case ad_wait_open ad m of
               Some (code, st) \<Rightarrow> Done [Completed ls code False dur]
             | None \<Rightarrow>
                 bind_outcome (use_relay p (ad_send ad (cl_sent c) (cl_sid c) payload) t) (\<lambda>(sent, t).
                   if \<not> sent then Done [Started ls, Completed ls ''PROVIDER_UNAVAILABLE'' False dur]
                   else
                     bind_outcome (wait_message (cl_chan c) (cl_resp c) t) (\<lambda>(m, t).
                       case ad_wait_response ad maxResp m of
                         Inl (code, st) \<Rightarrow> Done [Started ls, Completed ls code False dur]
                       | Inr body \<Rightarrow> Done [Started ls, Completed ls [] True dur]))))"

definition tunnel_measures ::
  "string \<Rightarrow> string \<Rightarrow> (string \<Rightarrow> string) \<Rightarrow> adapter \<Rightarrow> int \<Rightarrow> call \<Rightarrow> duration \<Rightarrow> tunnel \<Rightarrow> measure list outcome" where
  "tunnel_measures ext job invalid ad maxResp c dur t =
     (if cl_draining c then Done []
      else
        case tn_relays t (cl_client c) of
          None \<Rightarrow> Done []
        | Some p \<Rightarrow>
            let t = cl_before c t in
            (case cl_body c of
               None \<Rightarrow> Done []
             | Some body \<Rightarrow>
                 (case ad_validate ad body of
                    Inl (i, st, code) \<Rightarrow>
                      let ls = (ext, ''tunnel'', job, invalid body) in Done [Requested ls, Completed ls code False 0]
                  | Inr (label, i, payload) \<Rightarrow>
                      let ls = (ext, ''tunnel'', job, label) in
                      (case begin_call p label (cl_sid c) (cl_now c) t of
                         None \<Rightarrow> Done [Requested ls, Completed ls ''LIMIT_EXCEEDED'' False 0]
                       | Some t \<Rightarrow>
                           let t = relay_Register p (cl_sid c) (cl_chan c) (cl_registering c t) in
                           bind_outcome (relay_measures ad maxResp c p label payload ls dur t)
                             (\<lambda>ms. Done (Requested ls # ms))))))"

text \<open>The measuring follows the handler: one returns when the other does.\<close>

fun returns :: "'a outcome \<Rightarrow> bool" where
  "returns (Done x) = True"
| "returns Blocks = False"
| "returns Panics = False"

lemma returns_bind: "returns (bind_outcome x f) = (case x of Done z \<Rightarrow> returns (f z) | _ \<Rightarrow> False)"
  by (cases x) simp_all

lemma relay_measures_return:
  "returns (relay_measures ad maxResp c p label payload ls dur t) = returns (relay_call ad maxResp c p i label payload t)"
  unfolding relay_measures_def relay_call_def Let_def
  by (simp add: returns_bind split: outcome.split option.split prod.split sum.split)

lemma tunnel_measures_return:
  "returns (tunnel_measures ext job invalid ad maxResp c dur t) = returns (TunnelHTTPHandler ad maxResp c t)"
proof -
  have bind: "returns (bind_outcome x (\<lambda>y. Done (f y))) = returns x" for x :: "'x outcome" and f :: "'x \<Rightarrow> 'y"
    by (cases x) simp_all
  show ?thesis
    by (auto simp: tunnel_measures_def TunnelHTTPHandler_def Let_def bind case_prod_unfold relay_measures_return
        split: option.split sum.split)
qed

text \<open>
  A call that completes before it has started lowers the gauge of its labels by one: one whose request is
  refused, that is over the limit, or whose session does not open.  Every other call leaves it as it was.
\<close>

lemma relay_measures_cases:
  assumes "relay_measures ad maxResp c p label payload ls dur t = Done ms"
  obtains code where "ms = [Completed ls code False dur]"
  | code ok where "ms = [Started ls, Completed ls code ok dur]"
  using assms unfolding relay_measures_def
  by (auto split: option.splits prod.splits sum.splits if_splits) (metis sum.exhaust surj_pair)+

lemma tunnel_gauge:
  assumes "tunnel_measures ext job invalid ad maxResp c dur t = Done ms"
  shows "open_after_measures ls ms =
    (if ms \<noteq> [] \<and> hd ms = Requested ls \<and> Started ls \<notin> set ms then - 1 else 0)"
  using assms unfolding tunnel_measures_def
  by (auto simp: Let_def split: if_splits option.splits sum.splits prod.splits elim!: relay_measures_cases)

lemma refused_call_lowers_gauge:
  assumes "\<not> cl_draining c" "tn_relays t (cl_client c) = Some p" "cl_body c = Some body" "ad_validate ad body = Inl e"
    and "ls = (ext, ''tunnel'', job, invalid body)"
  shows "\<exists>ms. tunnel_measures ext job invalid ad maxResp c dur t = Done ms \<and>
    rq_inflight (fold take_measure ms m) ls = rq_inflight m ls - 1"
  using assms by (cases e) (simp add: tunnel_measures_def Let_def)

text \<open>With the adapter of MCP, any body that is not JSON-RPC does.\<close>

lemma mcp_junk_lowers_gauge:
  assumes "\<not> cl_draining c" "tn_relays t (cl_client c) = Some p" "cl_body c = Some body"
    and "ValidateEnvelope co body = None"
  shows "\<exists>ms. tunnel_measures ''mcp'' ''mcp.call'' (\<lambda>_. []) (mcp_adapter co) maxResp c dur t = Done ms \<and>
    rq_inflight (fold take_measure ms fresh_metrics) (''mcp'', ''tunnel'', ''mcp.call'', []) = - 1"
proof -
  have "ad_validate (mcp_adapter co) body = Inl (ANull, 200, ErrSchema)"
    using assms(4) by (simp add: mcp_adapter_def mcp_validate_def)
  from refused_call_lowers_gauge [OF assms(1-3) this refl, where m = fresh_metrics and ext = "''mcp''"
      and job = "''mcp.call''" and invalid = "\<lambda>_. []"]
  show ?thesis by (simp add: fresh_metrics_def)
qed

end
