(* ===== verification/Spec2Isabelle.thy ===== *)
theory Spec2Isabelle
  imports Transports AgentConfig Routes Shutdown Readiness JobClients Inflight WorkerSocket GenProperties McpCall McpRun AgentAnswers AgentControl ProviderConnect ProviderProxy AgentPrograms JobLedger RequestMetrics
begin
text \<open>
  A development about nfrx, a server written in Go that gives clients one address for language models,
  transcriptions, document conversion and MCP tools, and passes their requests to agents that run where the
  models are.  Paths below are under \<^verbatim>\<open>src/\<close>.

  \<^bold>\<open>The program.\<close>  The server (\<^verbatim>\<open>server/cmd/nfrx\<close>) mounts extensions (\<^verbatim>\<open>modules/*/ext\<close>) on one router.  An agent
  dials in over a websocket: a worker (\<^verbatim>\<open>sdk/base/worker\<close>, for models, transcriptions and documents) says what
  it serves and how much at once, and a relay (\<^verbatim>\<open>sdk/base/tunnel\<close>, for MCP) opens sessions.  A handler picks a
  worker by score, sends the request down the worker's channel and relays the answer as it arrives; when no
  worker is free it may wait in a queue, and a list of embeddings is split over several workers.  The agent
  (\<^verbatim>\<open>sdk/base/agent/workerproxy\<close>) calls its backend by HTTP and sends the answer back in frames.  Beside this
  the server keeps a registry of jobs (\<^verbatim>\<open>server/internal/jobs\<close>), which clients create, workers claim by polling
  and everyone can watch, and rendezvous points (\<^verbatim>\<open>server/internal/transfer\<close>) where a payload or result is
  handed from one request to another.  A draining server refuses new requests and ends with the last one.

  \<^bold>\<open>How it is modelled.\<close>  A struct is a record, a pointer an address in a heap, a mutex a critical section: what
  runs under one lock is one step, and whatever others may do between two steps of a handler is an argument or
  another event.  A component is a function on its state, and where goroutines interleave a machine whose events are
  those steps in any order.  A panic is an outcome and not excluded: a send on a closed channel, an entry in a nil
  map.  Integers of 64 bits wrap.  The clock, fresh identifiers, the order in which a map is visited and the results
  of reads and writes are arguments, so a theorem holds for all of them.

  \<^bold>\<open>Foundations.\<close>
  \<^item> \<open>GoPrelude\<close>: integers, durations, instants, byte strings and \<^verbatim>\<open>strings\<close>, decoded JSON.
  \<^item> \<open>Machines\<close>: the interfaces components share as locales: machines with invariants (\<open>guarded_machine\<close>,
    \<open>stable_machine\<close>), lines of waiting requests (\<open>waiting_line\<close>), counters of work (\<open>balanced_counter\<close>,
    \<open>clamped_counter\<close>).  Each is interpreted in the theories of the components that implement it.
  \<^item> \<open>Channels\<close>: buffered channels with their panics.  \<open>HttpWriter\<close>: the response writer and headers.

  \<^bold>\<open>Jobs\<close> (\<^verbatim>\<open>server/internal/jobs/registry.go\<close>, \<^verbatim>\<open>server/internal/transfer/transfer.go\<close>).
  \<^item> \<open>JobTypes\<close> has the data and pure helpers, \<open>JobOps\<close> the critical sections, \<open>JobHandlers\<close> the HTTP handlers,
    \<open>JobState\<close> the snapshot of the dashboard.
  \<^item> \<open>JobInv\<close> makes them a machine.  \<open>JobSafety\<close> shows its invariant in every run: no panic, no job twice in the
    queue, a claim gives a job to one worker.  \<open>JobCalm\<close> shows what holds when workers report only on jobs they
    hold: the queue is the queued jobs and an ended job stays as it ended; and that the discipline is needed.
  \<^item> \<open>JobLedger\<close> states the abstract promise, a ledger of statuses, and that the registry refines it.
  \<^item> \<open>JobProperties\<close>, \<open>JobRequests\<close> and \<open>JobClients\<close> have the properties of claims, cancellation, event streams,
    expiry and waits.  \<open>Rendezvous\<close> has the transfer channels, safe and delivering exactly when the writer is told so.

  \<^bold>\<open>The server.\<close>
  \<^item> \<open>Access\<close> (\<^verbatim>\<open>sdk/base/auth\<close>), \<open>Routes\<close> (\<^verbatim>\<open>server/internal/server\<close>, \<^verbatim>\<open>RegisterRoutes\<close> of the extensions, the state
    pages): who may call, and what a request without credentials reaches.
  \<^item> \<open>Inflight\<close> (\<^verbatim>\<open>sdk/base/inflight\<close>), \<open>ServerState\<close> (\<^verbatim>\<open>server/internal/serverstate\<close>, with Redis), \<open>Shutdown\<close> (the
    signals of \<^verbatim>\<open>main\<close>) and \<open>Readiness\<close> (the loops that prune pools): draining, ending, and being ready.

  \<^bold>\<open>Workers\<close> (\<^verbatim>\<open>sdk/base/worker\<close>, \<^verbatim>\<open>modules/llm/ext\<close>, \<^verbatim>\<open>modules/asr/ext\<close>, \<^verbatim>\<open>modules/docling/ext\<close>).
  \<^item> \<open>Workers\<close> (\<^verbatim>\<open>registry.go\<close>, \<^verbatim>\<open>sdk/api/control/messages.go\<close>), \<open>WorkerSafety\<close> (every channel is closed once),
    \<open>WorkerSocket\<close> (\<^verbatim>\<open>ws.go\<close>), \<open>WorkerMetrics\<close> (\<^verbatim>\<open>metrics.go\<close>), \<open>Scheduler\<close> (\<^verbatim>\<open>scheduler.go\<close>, the scorers and
    \<^verbatim>\<open>alias.go\<close>; the choice is a worker with the best score and, among those, the least work).
  \<^item> \<open>Models\<close> (\<^verbatim>\<open>worker_spi.go\<close>, \<^verbatim>\<open>targeted.go\<close>, \<^verbatim>\<open>models.go\<close>), \<open>ProxyOnce\<close>, \<open>Partition\<close>, \<open>PartitionPool\<close>,
    \<open>PartitionJobs\<close>, \<open>PartitionProperties\<close> (\<^verbatim>\<open>partition.go\<close>), \<open>Embeddings\<close>: a split request comes back in order, a worker
    serves one part at a time, and every run of the pool ends.
  \<^item> \<open>LlmQueue\<close> (\<^verbatim>\<open>queue.go\<close>, which refines a bounded line of requests), \<open>Usage\<close> (token counts do not depend on how a
    stream is cut), \<open>Relay\<close>, \<open>GenProxy\<close>, \<open>GenProperties\<close> (\<^verbatim>\<open>generation_proxy.go\<close>), \<open>Transports\<close> (transcriptions and
    documents pass answers on unchanged), \<open>RequestMetrics\<close> (\<^verbatim>\<open>sdk/base/metrics\<close>: which paths unbalance the gauge).

  \<^bold>\<open>The tunnel and MCP\<close> (\<^verbatim>\<open>sdk/base/tunnel\<close>, \<^verbatim>\<open>modules/mcp\<close>).
  \<^item> \<open>Tunnel\<close> and \<open>TunnelSafety\<close>: relays, sessions, and an account that is right in every run.  \<open>McpServer\<close>, \<open>McpAgent\<close>,
    \<open>McpRun\<close> and \<open>McpCall\<close>: the adapter, the relay client, its probes, and both ends composed into one call.
  \<^item> \<open>McpBridge\<close>, \<open>ProviderConfig\<close>, \<open>ProviderConnect\<close> and \<open>ProviderProxy\<close> (\<^verbatim>\<open>mcpbridge\<close> and \<^verbatim>\<open>mcpclient\<close>): calls get their
    own answers, a failed transport is closed, and at most one is left connected.

  \<^bold>\<open>The agents\<close> (\<^verbatim>\<open>sdk/base/agent\<close>, \<^verbatim>\<open>modules/*/agent\<close>).
  \<^item> \<open>AgentState\<close>, \<open>AgentProxy\<close>, \<open>AgentRun\<close>, \<open>AgentControl\<close>: the state, one proxied request, probes with
    connections and retries, and the local control server.
  \<^item> \<open>AgentSafety\<close> and \<open>AgentDrain\<close>: a drain spares the requests under way; when it ends, and when it hangs.
  \<^item> \<open>AgentAnswers\<close> follows a chat completion from the backend to the client.  \<open>AgentConfig\<close> and \<open>AgentPrograms\<close> have
    the settings, backends and signals of the four programs.

  \<^bold>\<open>Settings.\<close>  \<open>Options\<close>, \<open>Descriptors\<close>, \<open>CommandLine\<close>, \<open>ServerConfig\<close> and \<open>ServerSettings\<close>
  (\<^verbatim>\<open>core/options\<close>, \<^verbatim>\<open>core/config\<close>, \<^verbatim>\<open>server/internal/config\<close>, the flags read in \<^verbatim>\<open>main\<close>): arguments before environment
  before file before defaults, and the places where it is otherwise.

  \<^bold>\<open>Bounds.\<close>  The pool of a split request over \<open>n\<close> workers ends within \<open>5 * n * n\<close> steps, by a measure that every
  step lowers.  A call of the MCP provider is tried twice, which is the length of its loop.  Other loops consume the
  list of what happens to them; the result \<open>None\<close> is a loop that still runs.  Probes of a backend and the callback at the
  end of a drain are one step of the agent's machine.  Identifiers that are counted stay below their width (fewer
  than \<open>2^63\<close> requests and calls); the time to connect to a provider is below \<open>2^62\<close> nanoseconds.

  \<^bold>\<open>Parameters.\<close>  Code outside the repository is an argument of what uses it: \<^verbatim>\<open>encoding/json\<close> where bytes are parsed
  or printed, multipart forms, YAML and the reading of files, the parsers of durations and floats, \<^verbatim>\<open>filepath.Join\<close> and
  \<^verbatim>\<open>url.Parse\<close>, websocket frames and dialling, the HTTP of backends, the transports and protocol versions of
  \<^verbatim>\<open>mcp-go\<close>, the Redis client, the patterns of the router.  Hypotheses about them state what they document (a value
  that is encoded decodes to itself).  Values of Prometheus are naturals where counts are exact.

  \<^bold>\<open>Not modelled.\<close>  The generated API (\<^verbatim>\<open>api/generated\<close>), the HTML and JavaScript of the state and documentation pages
  (also inside \<^verbatim>\<open>registry.go\<close> and the extensions), logging, collectors and servers of metrics that only declare or
  listen, and the templates: text, declarations and calls of libraries.  So are \<^verbatim>\<open>ServerConfig.BindFlags\<close>, the chain of
  \<^verbatim>\<open>sdk/base/pipeline\<close> and \<^verbatim>\<open>Generate\<close> of the Ollama client, which nothing calls.  Data races that the locks do not
  prevent are outside: a step reads and writes as if alone.
\<close>
end
